(* ===== verification/Prelude.thy ===== *)
theory Prelude
  imports "HOL-Library.Word"
begin

unbundle bit_operations_syntax

text \<open>
  Shared vocabulary of the development: the machine integers of the firmware, big-endian
  (de)composition of 16- and 32-bit values as the firmware writes it with shifts and casts,
  the outcome type of code that may reboot the device or never return, and list lemmas.
\<close>

section \<open>Machine integers\<close>

type_synonym u8 = "8 word"
type_synonym u16 = "16 word"
type_synonym u32 = "32 word"

named_theorems node_defs \<open>definitions unfolded together in component proofs\<close>
named_theorems outcome_simps \<open>evaluation of outcomes\<close>

text \<open>C's integer division truncates towards zero.\<close>

definition c_div :: "int \<Rightarrow> int \<Rightarrow> int" where
  "c_div a d = (if 0 \<le> a then a div d else - ((- a) div d))"

section \<open>Big-endian bytes\<close>

text \<open>The cast \<open>(uint8_t)(w >> k)\<close> of the firmware.\<close>

definition byte_at :: "nat \<Rightarrow> 'a::len word \<Rightarrow> u8" where
  "byte_at k w = ucast (drop_bit k w)"

definition be32 :: "u32 \<Rightarrow> u8 list" where
  "be32 w = [byte_at 24 w, byte_at 16 w, byte_at 8 w, byte_at 0 w]"

definition be16 :: "u16 \<Rightarrow> u8 list" where
  "be16 w = [byte_at 8 w, byte_at 0 w]"

definition of_be32 :: "u8 \<Rightarrow> u8 \<Rightarrow> u8 \<Rightarrow> u8 \<Rightarrow> u32" where
  "of_be32 a b c d =
     push_bit 24 (ucast a) OR push_bit 16 (ucast b) OR push_bit 8 (ucast c) OR ucast d"

definition of_be16 :: "u8 \<Rightarrow> u8 \<Rightarrow> u16" where
  "of_be16 a b = push_bit 8 (ucast a) OR ucast b"

lemma of_be32_bytes [simp]:
  "of_be32 (byte_at 24 w) (byte_at 16 w) (byte_at 8 w) (byte_at 0 w) = w"
proof (rule bit_word_eqI)
  fix n assume n: "n < LENGTH(32)"
  show "bit (of_be32 (byte_at 24 w) (byte_at 16 w) (byte_at 8 w) (byte_at 0 w)) n = bit w n"
    unfolding of_be32_def byte_at_def using n
    by (cases "n < 8"; cases "n < 16"; cases "n < 24") (auto simp: bit_simps)
qed

lemma of_be16_bytes [simp]: "of_be16 (byte_at 8 w) (byte_at 0 w) = w"
  unfolding of_be16_def byte_at_def
  by (rule bit_word_eqI) (auto simp: bit_simps)

lemma byte_at_of_be32 [simp]:
  "byte_at 24 (of_be32 a b c d) = a" "byte_at 16 (of_be32 a b c d) = b"
  "byte_at 8 (of_be32 a b c d) = c" "byte_at 0 (of_be32 a b c d) = d"
  unfolding of_be32_def byte_at_def
  by (rule bit_word_eqI; auto simp: bit_simps dest: bit_imp_le_length)+

lemma of_be32_inj:
  "of_be32 a b c d = of_be32 a' b' c' d' \<longleftrightarrow> a = a' \<and> b = b' \<and> c = c' \<and> d = d'"
  by (metis byte_at_of_be32)

lemma length_be32 [simp]: "length (be32 w) = 4"
  by (simp add: be32_def)

lemma length_be16 [simp]: "length (be16 w) = 2"
  by (simp add: be16_def)

section \<open>Buffers\<close>

text \<open>
  Writing bytes into a buffer from position \<open>n\<close> on. Bytes written past the end make the list longer than
  the buffer, so that a write out of bounds shows.
\<close>

definition copy_at :: "nat \<Rightarrow> 'a list \<Rightarrow> 'a list \<Rightarrow> 'a list" where
  "copy_at n chunk buf = take n buf @ chunk @ drop (n + length chunk) buf"

lemma length_copy_at: "n + length c \<le> length buf \<Longrightarrow> length (copy_at n c buf) = length buf"
  by (simp add: copy_at_def)

lemma take_copy_at: "n + length c \<le> length buf \<Longrightarrow> take (n + length c) (copy_at n c buf) = take n buf @ c"
  by (simp add: copy_at_def)

lemma copy_at_update: "n < length buf \<Longrightarrow> copy_at n [x] buf = buf[n := x]"
  by (simp add: copy_at_def upd_conv_take_nth_drop)

section \<open>Outcomes\<close>

text \<open>
  A firmware routine either returns, reboots the device (\<open>hard_reset()\<close>) or never returns
  (an indication loop that runs forever). The state reached is kept in every case, since the
  non-volatile part of it survives a reboot.
\<close>

datatype 's outcome = Ret 's | Rebooted 's | Hung 's

fun then_do :: "'s outcome \<Rightarrow> ('s \<Rightarrow> 's outcome) \<Rightarrow> 's outcome" where
  "then_do (Ret s) f = f s"
| "then_do (Rebooted s) f = Rebooted s"
| "then_do (Hung s) f = Hung s"

fun state_of :: "'s outcome \<Rightarrow> 's" where
  "state_of (Ret s) = s"
| "state_of (Rebooted s) = s"
| "state_of (Hung s) = s"

fun returned :: "'s outcome \<Rightarrow> bool" where
  "returned (Ret s) = True"
| "returned (Rebooted s) = False"
| "returned (Hung s) = False"

lemma then_do_assoc: "then_do (then_do m f) g = then_do m (\<lambda>s. then_do (f s) g)"
  by (cases m) simp_all

lemma then_do_Ret [simp]: "then_do m Ret = m"
  by (cases m) simp_all

lemma returned_then_do [simp]:
  "returned (then_do m f) \<longleftrightarrow> returned m \<and> returned (f (state_of m))"
  by (cases m) simp_all

lemma state_of_then_do:
  "state_of (then_do m f) = (if returned m then state_of (f (state_of m)) else state_of m)"
  by (cases m) simp_all

section \<open>Words as numbers\<close>

lemma unat_less_256 [simp]: "unat (b :: u8) < 256"
proof -
  have "unat b < 2 ^ LENGTH(8)" by (rule unsigned_less)
  then show ?thesis by simp
qed

lemma unat_less_65536 [simp]: "unat (w :: u16) < 65536"
proof -
  have "unat w < 2 ^ LENGTH(16)" by (rule unsigned_less)
  then show ?thesis by simp
qed

lemma unat_succ_u16: "unat w < 65535 \<Longrightarrow> unat (w + 1 :: u16) = unat w + 1"
  by (simp add: unat_word_ariths)

lemma unat_succ_u8: "unat w < 255 \<Longrightarrow> unat (w + 1 :: u8) = unat w + 1"
  by (simp add: unat_word_ariths)

lemma unat_of_nat_u16 [simp]: "n < 65536 \<Longrightarrow> unat (of_nat n :: u16) = n"
  by (simp add: unat_of_nat)

lemma unat_of_nat_u8: "n < 256 \<Longrightarrow> unat (of_nat n :: u8) = n"
  by (simp add: unat_of_nat)

lemma unat_ucast_8_32 [simp]: "unat (ucast (w :: u8) :: u32) = unat w"
  by transfer simp

lemma unat_ucast_8_16 [simp]: "unat (ucast (w :: u8) :: u16) = unat w"
  by transfer simp

lemma unat_ucast_16_32 [simp]: "unat (ucast (w :: u16) :: u32) = unat w"
  by transfer simp

section \<open>Lists and rings\<close>

lemma mod_add_cases:
  "a < m \<Longrightarrow> b \<le> m \<Longrightarrow> (a + b) mod m = (if a + b < m then a + b else a + b - m)" for m :: nat
  by (auto simp: mod_if)

lemma mod_succ: "a < m \<Longrightarrow> Suc a mod m = (if Suc a = m then 0 else Suc a)" for m :: nat
  by (auto simp: mod_if)

lemma ring_offset_le:
  assumes "i \<le> j" "j < m" "(a + i) mod m = (a + j) mod m"
  shows "i = (j :: nat)"
proof -
  have "m dvd (a + j) - (a + i)"
    using assms by (metis add_le_cancel_left mod_eq_dvd_iff_nat)
  then have "m dvd j - i" by simp
  then show ?thesis using assms by (auto dest: dvd_imp_le)
qed

lemma ring_offset_inj:
  assumes "i < m" "j < m" "(a + i) mod m = (a + j) mod m"
  shows "i = (j :: nat)"
  using assms ring_offset_le [of i j m a] ring_offset_le [of j i m a] by (cases "i \<le> j") auto

lemma upt_Suc_map: "map f [0..<Suc n] = f 0 # map (\<lambda>i. f (Suc i)) [0..<n]"
  by (simp add: upt_conv_Cons map_Suc_upt [symmetric] del: upt_Suc)

end
