(* ===== verification/Fifo.thy ===== *)
theory Fifo
  imports Prelude
begin

text \<open>
  The two ring buffers of \<^verbatim>\<open>Utilities.h\<close>: \<^verbatim>\<open>FIFOBuffer\<close> (serial bytes) and
  \<^verbatim>\<open>FIFOBuffer16\<close> (packet starts and lengths). Pointers are integer addresses and the memory
  they range over is a function of the address. The locale \<open>bounded_queue\<close> states what the
  rest of the firmware relies on; both buffers interpret it.
\<close>

section \<open>Interface\<close>

text \<open>
  A run of a queue: producers push only when it is not full and drop the item otherwise,
  consumers pop only when it is not empty, as every caller in the firmware does.
\<close>

datatype 'a queue_op = Push 'a | Pop

fun queue_run :: "('q \<Rightarrow> bool) \<Rightarrow> ('q \<Rightarrow> bool) \<Rightarrow> ('q \<Rightarrow> 'a \<Rightarrow> 'q) \<Rightarrow> ('q \<Rightarrow> 'a \<times> 'q) \<Rightarrow>
    'a queue_op list \<Rightarrow> 'q \<Rightarrow> 'a list \<times> 'q" where
  "queue_run isempty isfull push pop [] q = ([], q)"
| "queue_run isempty isfull push pop (Push x # ops) q =
     queue_run isempty isfull push pop ops (if isfull q then q else push q x)"
| "queue_run isempty isfull push pop (Pop # ops) q =
     (if isempty q then queue_run isempty isfull push pop ops q
      else (let (x, q') = pop q; (xs, q'') = queue_run isempty isfull push pop ops q' in (x # xs, q'')))"

text \<open>The specification: a list with at most \<open>n\<close> elements.\<close>

fun list_run :: "nat \<Rightarrow> 'a queue_op list \<Rightarrow> 'a list \<Rightarrow> 'a list \<times> 'a list" where
  "list_run n [] l = ([], l)"
| "list_run n (Push x # ops) l = list_run n ops (if length l = n then l else l @ [x])"
| "list_run n (Pop # ops) [] = list_run n ops []"
| "list_run n (Pop # ops) (x # l) = (let (xs, l') = list_run n ops l in (x # xs, l'))"

locale bounded_queue =
  fixes isempty :: "'q \<Rightarrow> bool"
    and isfull :: "'q \<Rightarrow> bool"
    and push :: "'q \<Rightarrow> 'a \<Rightarrow> 'q"
    and pop :: "'q \<Rightarrow> 'a \<times> 'q"
    and contents :: "'q \<Rightarrow> 'a list"
    and cap :: "'q \<Rightarrow> nat"
    and invar :: "'q \<Rightarrow> bool"
  assumes isempty_iff: "invar q \<Longrightarrow> isempty q \<longleftrightarrow> contents q = []"
    and isfull_iff: "invar q \<Longrightarrow> isfull q \<longleftrightarrow> length (contents q) = cap q"
    and contents_push: "invar q \<Longrightarrow> \<not> isfull q \<Longrightarrow> contents (push q x) = contents q @ [x]"
    and contents_pop: "invar q \<Longrightarrow> \<not> isempty q \<Longrightarrow>
          contents q = fst (pop q) # contents (snd (pop q))"
    and invar_push: "invar q \<Longrightarrow> invar (push q x)"
    and invar_pop: "invar q \<Longrightarrow> invar (snd (pop q))"
    and cap_push: "cap (push q x) = cap q"
    and cap_pop: "cap (snd (pop q)) = cap q"
    and contents_le_cap: "invar q \<Longrightarrow> length (contents q) \<le> cap q"
begin

lemmas queue_laws = isempty_iff isfull_iff contents_push invar_push invar_pop cap_push cap_pop

text \<open>The guarded push every producer uses, and pushing a whole list.\<close>

definition offer :: "'q \<Rightarrow> 'a \<Rightarrow> 'q" where
  "offer q x = (if isfull q then q else push q x)"

lemma invar_offer: "invar q \<Longrightarrow> invar (offer q x)"
  by (simp add: offer_def invar_push)

lemma cap_offer: "cap (offer q x) = cap q"
  by (simp add: offer_def cap_push)

lemma contents_offer:
  "invar q \<Longrightarrow> contents (offer q x) = (if length (contents q) < cap q then contents q @ [x] else contents q)"
  using contents_le_cap [of q] by (auto simp: offer_def isfull_iff contents_push)

lemma contents_offer_all:
  "invar q \<Longrightarrow> contents (foldl offer q xs) = contents q @ take (cap q - length (contents q)) xs"
proof (induction xs arbitrary: q)
  case Nil
  then show ?case by simp
next
  case (Cons x xs)
  have "contents (foldl offer q (x # xs)) =
      contents (offer q x) @ take (cap q - length (contents (offer q x))) xs"
    using Cons.IH [OF invar_offer [OF Cons.prems]] by (simp add: cap_offer)
  also have "\<dots> = contents q @ take (cap q - length (contents q)) (x # xs)"
    using contents_le_cap [OF Cons.prems]
    by (auto simp: contents_offer [OF Cons.prems] take_Cons' Suc_diff_Suc)
  finally show ?case .
qed

text \<open>Draining: popping until the queue reports empty, with the items in order.\<close>

primrec drain :: "nat \<Rightarrow> 'q \<Rightarrow> 'a list \<times> 'q" where
  "drain 0 q = ([], q)"
| "drain (Suc n) q =
     (if isempty q then ([], q)
      else (let (x, q') = pop q; (xs, q'') = drain n q' in (x # xs, q'')))"

lemma drain_all:
  "invar q \<Longrightarrow> length (contents q) \<le> n \<Longrightarrow>
    fst (drain n q) = contents q \<and> contents (snd (drain n q)) = [] \<and> invar (snd (drain n q))"
proof (induction n arbitrary: q)
  case 0
  then show ?case by simp
next
  case (Suc n)
  show ?case
  proof (cases "isempty q")
    case True
    with Suc.prems show ?thesis by (simp add: isempty_iff)
  next
    case False
    with Suc.prems have c: "contents q = fst (pop q) # contents (snd (pop q))"
      by (simp add: contents_pop)
    have "invar (snd (pop q))" using Suc.prems by (simp add: invar_pop)
    moreover have "length (contents (snd (pop q))) \<le> n" using Suc.prems c by simp
    ultimately show ?thesis using Suc.IH [of "snd (pop q)"] False c
      by (auto simp: Let_def split: prod.splits)
  qed
qed

lemma run_refines:
  assumes "invar q"
  shows "fst (queue_run isempty isfull push pop ops q) = fst (list_run (cap q) ops (contents q))"
    and "contents (snd (queue_run isempty isfull push pop ops q)) = snd (list_run (cap q) ops (contents q))"
    and "invar (snd (queue_run isempty isfull push pop ops q))"
  using assms
proof (induction ops arbitrary: q)
  case (Cons op ops)
  case 1
  show ?case
  proof (cases op)
    case (Push x)
    then show ?thesis using 1 Cons(1) [of q] Cons(1) [of "push q x"]
      by (simp add: isfull_iff contents_push invar_push cap_push)
  next
    case Pop
    then show ?thesis
      using 1 Cons(1) [of q] Cons(1) [of "snd (pop q)"] contents_pop [OF 1]
      by (cases "contents q") (auto simp: isempty_iff invar_pop cap_pop Let_def split: prod.splits)
  qed
next
  case (Cons op ops)
  case 2
  show ?case
  proof (cases op)
    case (Push x)
    then show ?thesis using 2 Cons(2) [of q] Cons(2) [of "push q x"]
      by (simp add: isfull_iff contents_push invar_push cap_push)
  next
    case Pop
    then show ?thesis
      using 2 Cons(2) [of q] Cons(2) [of "snd (pop q)"] contents_pop [OF 2]
      by (cases "contents q") (auto simp: isempty_iff invar_pop cap_pop Let_def split: prod.splits)
  qed
next
  case (Cons op ops)
  case 3
  then show ?case using Cons(3) [of q] Cons(3) [of "snd (pop q)"] invar_pop [of q]
      Cons(3) [OF invar_push]
    by (cases op) (auto simp: Let_def split: prod.splits)
qed simp_all

end

section \<open>The buffers\<close>

record 'a fifo =
  f_begin :: int
  f_end :: int
  f_head :: int
  f_tail :: int
  f_mem :: "int \<Rightarrow> 'a"

type_synonym FIFOBuffer = "u8 fifo"
type_synonym FIFOBuffer16 = "u16 fifo"

definition fifo_isempty :: "'a fifo \<Rightarrow> bool" where
  "fifo_isempty f \<longleftrightarrow> f_head f = f_tail f"

definition fifo_isfull :: "'a fifo \<Rightarrow> bool" where
  "fifo_isfull f \<longleftrightarrow>
     (f_head f = f_begin f \<and> f_tail f = f_end f) \<or> f_tail f = f_head f - 1"

definition fifo_push :: "'a fifo \<Rightarrow> 'a \<Rightarrow> 'a fifo" where
  "fifo_push f c =
     (let f = f\<lparr>f_mem := (f_mem f)(f_tail f := c)\<rparr>
      in if f_tail f = f_end f then f\<lparr>f_tail := f_begin f\<rparr>
         else f\<lparr>f_tail := f_tail f + 1\<rparr>)"

definition fifo_pop :: "'a fifo \<Rightarrow> 'a \<times> 'a fifo" where
  "fifo_pop f =
     (if f_head f = f_end f then (f_mem f (f_end f), f\<lparr>f_head := f_begin f\<rparr>)
      else (f_mem f (f_head f), f\<lparr>f_head := f_head f + 1\<rparr>))"

definition fifo_flush :: "'a fifo \<Rightarrow> 'a fifo" where
  "fifo_flush f = f\<lparr>f_head := f_tail f\<rparr>"

definition fifo_init :: "'a fifo \<Rightarrow> int \<Rightarrow> nat \<Rightarrow> 'a fifo" where
  "fifo_init f buffer size' =
     f\<lparr>f_begin := buffer, f_tail := buffer, f_head := buffer, f_end := buffer + int size'\<rparr>"

definition fifo_len :: "'a fifo \<Rightarrow> int" where
  "fifo_len f = f_end f - f_begin f"

text \<open>The 16-bit variant repeats the code of the byte variant in the source, and here.\<close>

definition fifo16_isempty :: "FIFOBuffer16 \<Rightarrow> bool" where
  "fifo16_isempty f \<longleftrightarrow> f_head f = f_tail f"

definition fifo16_isfull :: "FIFOBuffer16 \<Rightarrow> bool" where
  "fifo16_isfull f \<longleftrightarrow>
     (f_head f = f_begin f \<and> f_tail f = f_end f) \<or> f_tail f = f_head f - 1"

definition fifo16_push :: "FIFOBuffer16 \<Rightarrow> u16 \<Rightarrow> FIFOBuffer16" where
  "fifo16_push f c =
     (let f = f\<lparr>f_mem := (f_mem f)(f_tail f := c)\<rparr>
      in if f_tail f = f_end f then f\<lparr>f_tail := f_begin f\<rparr>
         else f\<lparr>f_tail := f_tail f + 1\<rparr>)"

definition fifo16_pop :: "FIFOBuffer16 \<Rightarrow> u16 \<times> FIFOBuffer16" where
  "fifo16_pop f =
     (if f_head f = f_end f then (f_mem f (f_end f), f\<lparr>f_head := f_begin f\<rparr>)
      else (f_mem f (f_head f), f\<lparr>f_head := f_head f + 1\<rparr>))"

definition fifo16_flush :: "FIFOBuffer16 \<Rightarrow> FIFOBuffer16" where
  "fifo16_flush f = f\<lparr>f_head := f_tail f\<rparr>"

definition fifo16_init :: "FIFOBuffer16 \<Rightarrow> int \<Rightarrow> u16 \<Rightarrow> FIFOBuffer16" where
  "fifo16_init f buffer size' =
     f\<lparr>f_begin := buffer, f_tail := buffer, f_head := buffer, f_end := buffer + uint size'\<rparr>"

definition fifo16_len :: "FIFOBuffer16 \<Rightarrow> u16" where
  "fifo16_len f = word_of_int (f_end f - f_begin f)"

lemma fifo16_eqs:
  "fifo16_isempty = fifo_isempty" "fifo16_isfull = fifo_isfull"
  "fifo16_push = fifo_push" "fifo16_pop = fifo_pop" "fifo16_flush = fifo_flush"
  by (simp_all add: fun_eq_iff fifo16_isempty_def fifo_isempty_def fifo16_isfull_def
      fifo_isfull_def fifo16_push_def fifo_push_def fifo16_pop_def fifo_pop_def
      fifo16_flush_def fifo_flush_def)

section \<open>Abstraction to lists\<close>

definition ring_size :: "'a fifo \<Rightarrow> int" where
  "ring_size f = f_end f - f_begin f + 1"

definition fifo_invar :: "'a fifo \<Rightarrow> bool" where
  "fifo_invar f \<longleftrightarrow>
     f_begin f \<le> f_head f \<and> f_head f \<le> f_end f \<and> f_begin f \<le> f_tail f \<and> f_tail f \<le> f_end f"

definition fifo_used :: "'a fifo \<Rightarrow> nat" where
  "fifo_used f = nat (if f_head f \<le> f_tail f then f_tail f - f_head f
                      else f_tail f - f_head f + ring_size f)"

definition ring_at :: "'a fifo \<Rightarrow> nat \<Rightarrow> int" where
  "ring_at f i = (if f_head f + int i \<le> f_end f then f_head f + int i
                  else f_head f + int i - ring_size f)"

definition fifo_list :: "'a fifo \<Rightarrow> 'a list" where
  "fifo_list f = map (\<lambda>i. f_mem f (ring_at f i)) [0..<fifo_used f]"

definition fifo_cap :: "'a fifo \<Rightarrow> nat" where
  "fifo_cap f = nat (f_end f - f_begin f)"

lemmas fifo_geometry = fifo_invar_def ring_size_def fifo_used_def ring_at_def fifo_cap_def

lemma length_fifo_list [simp]: "length (fifo_list f) = fifo_used f"
  by (simp add: fifo_list_def)

lemma fifo_isempty_iff: "fifo_invar f \<Longrightarrow> fifo_isempty f \<longleftrightarrow> fifo_list f = []"
  by (auto simp: fifo_isempty_def fifo_list_def fifo_geometry split: if_splits)

lemma fifo_isfull_iff: "fifo_invar f \<Longrightarrow> fifo_isfull f \<longleftrightarrow> length (fifo_list f) = fifo_cap f"
  by (auto simp: fifo_isfull_def fifo_geometry split: if_splits)

lemma fifo_used_le_cap: "fifo_invar f \<Longrightarrow> fifo_used f \<le> fifo_cap f"
  by (auto simp: fifo_geometry)

lemma fifo_invar_push: "fifo_invar f \<Longrightarrow> fifo_invar (fifo_push f c)"
  by (auto simp: fifo_push_def fifo_invar_def Let_def)

lemma fifo_invar_pop: "fifo_invar f \<Longrightarrow> fifo_invar (snd (fifo_pop f))"
  by (auto simp: fifo_pop_def fifo_invar_def)

lemma fifo_cap_push [simp]: "fifo_cap (fifo_push f c) = fifo_cap f"
  by (simp add: fifo_push_def fifo_cap_def Let_def)

lemma fifo_cap_pop [simp]: "fifo_cap (snd (fifo_pop f)) = fifo_cap f"
  by (simp add: fifo_pop_def fifo_cap_def)

lemma fifo_push_mem: "f_mem (fifo_push f c) = (f_mem f)(f_tail f := c)"
  by (simp add: fifo_push_def Let_def)

lemma fifo_push_used:
  "fifo_invar f \<Longrightarrow> \<not> fifo_isfull f \<Longrightarrow> fifo_used (fifo_push f c) = Suc (fifo_used f)"
  by (auto simp: fifo_push_def fifo_isfull_def fifo_geometry Let_def split: if_splits)

lemma fifo_push_at: "ring_at (fifo_push f c) i = ring_at f i"
  by (simp add: fifo_push_def fifo_geometry Let_def)

lemma ring_at_used: "fifo_invar f \<Longrightarrow> ring_at f (fifo_used f) = f_tail f"
  by (auto simp: fifo_geometry)

lemma ring_at_not_tail: "fifo_invar f \<Longrightarrow> i < fifo_used f \<Longrightarrow> ring_at f i \<noteq> f_tail f"
  by (auto simp: fifo_geometry split: if_splits)

lemma fifo_list_push:
  assumes "fifo_invar f" "\<not> fifo_isfull f"
  shows "fifo_list (fifo_push f c) = fifo_list f @ [c]"
proof -
  have "map (\<lambda>i. f_mem (fifo_push f c) (ring_at f i)) [0..<fifo_used f] = fifo_list f"
    using assms by (auto simp: fifo_list_def fifo_push_mem ring_at_not_tail)
  then show ?thesis using assms
    by (simp add: fifo_list_def fifo_push_used fifo_push_at fifo_push_mem ring_at_used)
qed

lemma fifo_pop_used:
  "fifo_invar f \<Longrightarrow> \<not> fifo_isempty f \<Longrightarrow> fifo_used f = Suc (fifo_used (snd (fifo_pop f)))"
  by (auto simp: fifo_pop_def fifo_isempty_def fifo_geometry split: if_splits)

lemma fifo_pop_at:
  "fifo_invar f \<Longrightarrow> \<not> fifo_isempty f \<Longrightarrow> i < fifo_used (snd (fifo_pop f)) \<Longrightarrow>
    ring_at (snd (fifo_pop f)) i = ring_at f (Suc i)"
  by (auto simp: fifo_pop_def fifo_isempty_def fifo_geometry split: if_splits)

lemma fifo_pop_fst: "fifo_invar f \<Longrightarrow> fst (fifo_pop f) = f_mem f (ring_at f 0)"
  by (auto simp: fifo_pop_def fifo_geometry)

lemma fifo_pop_mem: "f_mem (snd (fifo_pop f)) = f_mem f"
  by (simp add: fifo_pop_def)

lemma fifo_list_pop:
  assumes "fifo_invar f" "\<not> fifo_isempty f"
  shows "fifo_list f = fst (fifo_pop f) # fifo_list (snd (fifo_pop f))"
proof -
  have "fifo_list f = f_mem f (ring_at f 0) #
      map (\<lambda>i. f_mem f (ring_at f (Suc i))) [0..<fifo_used (snd (fifo_pop f))]"
    unfolding fifo_list_def fifo_pop_used [OF assms] by (rule upt_Suc_map)
  then show ?thesis using assms
    by (simp add: fifo_list_def fifo_pop_fst fifo_pop_mem fifo_pop_at)
qed

interpretation fq: bounded_queue fifo_isempty fifo_isfull fifo_push fifo_pop fifo_list fifo_cap fifo_invar
  by unfold_locales
    (fact fifo_isempty_iff fifo_isfull_iff fifo_list_push fifo_list_pop fifo_invar_push
      fifo_invar_pop fifo_cap_push fifo_cap_pop | simp add: fifo_used_le_cap)+

interpretation fq16: bounded_queue fifo16_isempty fifo16_isfull fifo16_push fifo16_pop
    "fifo_list :: FIFOBuffer16 \<Rightarrow> u16 list" fifo_cap fifo_invar
  unfolding fifo16_eqs by (rule fq.bounded_queue_axioms)

lemma fifo_init_empty:
  "fifo_invar (fifo_init f a n)" "fifo_list (fifo_init f a n) = []" "fifo_cap (fifo_init f a n) = n"
  by (auto simp: fifo_init_def fifo_list_def fifo_geometry)

lemma fifo16_init_empty:
  "fifo_invar (fifo16_init f a n)" "fifo_list (fifo16_init f a n) = []"
  "fifo_cap (fifo16_init f a n) = unat n"
  by (auto simp: fifo16_init_def fifo_list_def fifo_geometry)

section \<open>Properties\<close>

text \<open>
  C13: the serial byte buffer refines a bounded list. For every sequence of guarded pushes and pops on
  a freshly initialised \<open>FIFOBuffer\<close> of \<open>n\<close> usable slots, the bytes popped and the bytes left
  are those of a list of at most \<open>n\<close> elements, across every wrap of the ring.
\<close>

theorem fifo_refines_list:
  "fst (queue_run fifo_isempty fifo_isfull fifo_push fifo_pop ops (fifo_init f a n)) = fst (list_run n ops []) \<and>
   fifo_list (snd (queue_run fifo_isempty fifo_isfull fifo_push fifo_pop ops (fifo_init f a n))) =
     snd (list_run n ops [])"
  using fq.run_refines [OF fifo_init_empty(1), of ops f a n] by (simp add: fifo_init_empty)

text \<open>
  The packet start and length buffers refine a bounded list in the same way, with the
  16-bit size their initialiser takes.
\<close>

theorem fifo16_refines_list:
  "fst (queue_run fifo16_isempty fifo16_isfull fifo16_push fifo16_pop ops (fifo16_init f a n)) =
     fst (list_run (unat n) ops []) \<and>
   fifo_list (snd (queue_run fifo16_isempty fifo16_isfull fifo16_push fifo16_pop ops (fifo16_init f a n))) =
     snd (list_run (unat n) ops [])"
  using fq16.run_refines [OF fifo16_init_empty(1), of ops f a n] by (simp add: fifo16_init_empty)

end
