(* ===== verification/Boards.thy ===== *)
theory Boards
  imports Prelude
begin

text \<open>
  The compile-time configuration of the firmware: platform, MCU, modem, product and model codes
  of \<^verbatim>\<open>Boards.h\<close>, and a record of the preprocessor switches the modelled code branches on.
  A build of the firmware is a value of type \<open>board\<close>; every \<^verbatim>\<open>#if\<close> of the source becomes
  a test on that record. Some boards of \<^verbatim>\<open>Boards.h\<close> are given as concrete values.
\<close>

section \<open>Codes\<close>

abbreviation (input) PLATFORM_AVR :: u8 where "PLATFORM_AVR \<equiv> 0x90"
abbreviation (input) PLATFORM_ESP32 :: u8 where "PLATFORM_ESP32 \<equiv> 0x80"
abbreviation (input) PLATFORM_NRF52 :: u8 where "PLATFORM_NRF52 \<equiv> 0x70"
abbreviation (input) MCU_1284P :: u8 where "MCU_1284P \<equiv> 0x91"
abbreviation (input) MCU_2560 :: u8 where "MCU_2560 \<equiv> 0x92"
abbreviation (input) MCU_ESP32 :: u8 where "MCU_ESP32 \<equiv> 0x81"
abbreviation (input) MCU_NRF52 :: u8 where "MCU_NRF52 \<equiv> 0x71"

abbreviation (input) PRODUCT_RNODE :: u8 where "PRODUCT_RNODE \<equiv> 0x03"
abbreviation (input) BOARD_RNODE :: u8 where "BOARD_RNODE \<equiv> 0x31"
abbreviation (input) MODEL_A4 :: u8 where "MODEL_A4 \<equiv> 0xA4"
abbreviation (input) MODEL_A9 :: u8 where "MODEL_A9 \<equiv> 0xA9"
abbreviation (input) BOARD_RNODE_NG_20 :: u8 where "BOARD_RNODE_NG_20 \<equiv> 0x40"
abbreviation (input) MODEL_A3 :: u8 where "MODEL_A3 \<equiv> 0xA3"
abbreviation (input) MODEL_A8 :: u8 where "MODEL_A8 \<equiv> 0xA8"
abbreviation (input) BOARD_RNODE_NG_21 :: u8 where "BOARD_RNODE_NG_21 \<equiv> 0x41"
abbreviation (input) MODEL_A2 :: u8 where "MODEL_A2 \<equiv> 0xA2"
abbreviation (input) MODEL_A7 :: u8 where "MODEL_A7 \<equiv> 0xA7"
abbreviation (input) BOARD_T3S3 :: u8 where "BOARD_T3S3 \<equiv> 0x42"
abbreviation (input) MODEL_A1 :: u8 where "MODEL_A1 \<equiv> 0xA1"
abbreviation (input) MODEL_A5 :: u8 where "MODEL_A5 \<equiv> 0xA5"
abbreviation (input) MODEL_A6 :: u8 where "MODEL_A6 \<equiv> 0xA6"
abbreviation (input) MODEL_AA :: u8 where "MODEL_AA \<equiv> 0xAA"
abbreviation (input) MODEL_AC :: u8 where "MODEL_AC \<equiv> 0xAC"
abbreviation (input) PRODUCT_TBEAM :: u8 where "PRODUCT_TBEAM \<equiv> 0xE0"
abbreviation (input) BOARD_TBEAM :: u8 where "BOARD_TBEAM \<equiv> 0x33"
abbreviation (input) MODEL_E4 :: u8 where "MODEL_E4 \<equiv> 0xE4"
abbreviation (input) MODEL_E9 :: u8 where "MODEL_E9 \<equiv> 0xE9"
abbreviation (input) MODEL_E3 :: u8 where "MODEL_E3 \<equiv> 0xE3"
abbreviation (input) MODEL_E8 :: u8 where "MODEL_E8 \<equiv> 0xE8"
abbreviation (input) PRODUCT_TDECK_V1 :: u8 where "PRODUCT_TDECK_V1 \<equiv> 0xD0"
abbreviation (input) BOARD_TDECK :: u8 where "BOARD_TDECK \<equiv> 0x3B"
abbreviation (input) MODEL_D4 :: u8 where "MODEL_D4 \<equiv> 0xD4"
abbreviation (input) MODEL_D9 :: u8 where "MODEL_D9 \<equiv> 0xD9"
abbreviation (input) PRODUCT_TBEAM_S_V1 :: u8 where "PRODUCT_TBEAM_S_V1 \<equiv> 0xEA"
abbreviation (input) PRODUCT_TBEAM_S_V3 :: u8 where "PRODUCT_TBEAM_S_V3 \<equiv> 0xEC"
abbreviation (input) BOARD_TBEAM_S_V1 :: u8 where "BOARD_TBEAM_S_V1 \<equiv> 0x3D"
abbreviation (input) BOARD_TBEAM_S_V3 :: u8 where "BOARD_TBEAM_S_V3 \<equiv> 0x43"
abbreviation (input) MODEL_DB :: u8 where "MODEL_DB \<equiv> 0xDB"
abbreviation (input) MODEL_DC :: u8 where "MODEL_DC \<equiv> 0xDC"
abbreviation (input) PRODUCT_TBEAM_1W :: u8 where "PRODUCT_TBEAM_1W \<equiv> 0xE1"
abbreviation (input) BOARD_TBEAM_1W :: u8 where "BOARD_TBEAM_1W \<equiv> 0x45"
abbreviation (input) MODEL_E5 :: u8 where "MODEL_E5 \<equiv> 0xE5"
abbreviation (input) MODEL_E6 :: u8 where "MODEL_E6 \<equiv> 0xE6"
abbreviation (input) PRODUCT_XIAO_S3 :: u8 where "PRODUCT_XIAO_S3 \<equiv> 0xEB"
abbreviation (input) BOARD_XIAO_S3 :: u8 where "BOARD_XIAO_S3 \<equiv> 0x3E"
abbreviation (input) MODEL_DE :: u8 where "MODEL_DE \<equiv> 0xDE"
abbreviation (input) MODEL_DD :: u8 where "MODEL_DD \<equiv> 0xDD"
abbreviation (input) PRODUCT_T32_10 :: u8 where "PRODUCT_T32_10 \<equiv> 0xB2"
abbreviation (input) BOARD_LORA32_V1_0 :: u8 where "BOARD_LORA32_V1_0 \<equiv> 0x39"
abbreviation (input) MODEL_BA :: u8 where "MODEL_BA \<equiv> 0xBA"
abbreviation (input) MODEL_BB :: u8 where "MODEL_BB \<equiv> 0xBB"
abbreviation (input) PRODUCT_T32_20 :: u8 where "PRODUCT_T32_20 \<equiv> 0xB0"
abbreviation (input) BOARD_LORA32_V2_0 :: u8 where "BOARD_LORA32_V2_0 \<equiv> 0x36"
abbreviation (input) MODEL_B3 :: u8 where "MODEL_B3 \<equiv> 0xB3"
abbreviation (input) MODEL_B8 :: u8 where "MODEL_B8 \<equiv> 0xB8"
abbreviation (input) PRODUCT_T32_21 :: u8 where "PRODUCT_T32_21 \<equiv> 0xB1"
abbreviation (input) BOARD_LORA32_V2_1 :: u8 where "BOARD_LORA32_V2_1 \<equiv> 0x37"
abbreviation (input) MODEL_B4 :: u8 where "MODEL_B4 \<equiv> 0xB4"
abbreviation (input) MODEL_B9 :: u8 where "MODEL_B9 \<equiv> 0xB9"
abbreviation (input) PRODUCT_H32_V2 :: u8 where "PRODUCT_H32_V2 \<equiv> 0xC0"
abbreviation (input) BOARD_HELTEC32_V2 :: u8 where "BOARD_HELTEC32_V2 \<equiv> 0x38"
abbreviation (input) MODEL_C4 :: u8 where "MODEL_C4 \<equiv> 0xC4"
abbreviation (input) MODEL_C9 :: u8 where "MODEL_C9 \<equiv> 0xC9"
abbreviation (input) PRODUCT_H32_V3 :: u8 where "PRODUCT_H32_V3 \<equiv> 0xC1"
abbreviation (input) BOARD_HELTEC32_V3 :: u8 where "BOARD_HELTEC32_V3 \<equiv> 0x3A"
abbreviation (input) MODEL_C5 :: u8 where "MODEL_C5 \<equiv> 0xC5"
abbreviation (input) MODEL_CA :: u8 where "MODEL_CA \<equiv> 0xCA"
abbreviation (input) PRODUCT_H32_V4 :: u8 where "PRODUCT_H32_V4 \<equiv> 0xC3"
abbreviation (input) BOARD_HELTEC32_V4 :: u8 where "BOARD_HELTEC32_V4 \<equiv> 0x3F"
abbreviation (input) MODEL_C8 :: u8 where "MODEL_C8 \<equiv> 0xC8"
abbreviation (input) PRODUCT_H32_V4_R8 :: u8 where "PRODUCT_H32_V4_R8 \<equiv> 0xCB"
abbreviation (input) PRODUCT_HELTEC_T114 :: u8 where "PRODUCT_HELTEC_T114 \<equiv> 0xC2"
abbreviation (input) BOARD_HELTEC_T114 :: u8 where "BOARD_HELTEC_T114 \<equiv> 0x3C"
abbreviation (input) MODEL_C6 :: u8 where "MODEL_C6 \<equiv> 0xC6"
abbreviation (input) MODEL_C7 :: u8 where "MODEL_C7 \<equiv> 0xC7"
abbreviation (input) PRODUCT_HELTEC_T096 :: u8 where "PRODUCT_HELTEC_T096 \<equiv> 0xD1"
abbreviation (input) BOARD_HELTEC_T096 :: u8 where "BOARD_HELTEC_T096 \<equiv> 0xD2"
abbreviation (input) MODEL_D3 :: u8 where "MODEL_D3 \<equiv> 0xD3"
abbreviation (input) MODEL_D5 :: u8 where "MODEL_D5 \<equiv> 0xD5"
abbreviation (input) PRODUCT_TECHO :: u8 where "PRODUCT_TECHO \<equiv> 0x15"
abbreviation (input) BOARD_TECHO :: u8 where "BOARD_TECHO \<equiv> 0x44"
abbreviation (input) MODEL_16 :: u8 where "MODEL_16 \<equiv> 0x16"
abbreviation (input) MODEL_17 :: u8 where "MODEL_17 \<equiv> 0x17"
abbreviation (input) PRODUCT_RAK4631 :: u8 where "PRODUCT_RAK4631 \<equiv> 0x10"
abbreviation (input) BOARD_RAK4631 :: u8 where "BOARD_RAK4631 \<equiv> 0x51"
abbreviation (input) MODEL_11 :: u8 where "MODEL_11 \<equiv> 0x11"
abbreviation (input) MODEL_12 :: u8 where "MODEL_12 \<equiv> 0x12"
abbreviation (input) PRODUCT_RAK3401 :: u8 where "PRODUCT_RAK3401 \<equiv> 0x18"
abbreviation (input) BOARD_RAK3401 :: u8 where "BOARD_RAK3401 \<equiv> 0x48"
abbreviation (input) MODEL_13 :: u8 where "MODEL_13 \<equiv> 0x13"
abbreviation (input) PRODUCT_HMBRW :: u8 where "PRODUCT_HMBRW \<equiv> 0xF0"
abbreviation (input) BOARD_HMBRW :: u8 where "BOARD_HMBRW \<equiv> 0x32"
abbreviation (input) BOARD_HUZZAH32 :: u8 where "BOARD_HUZZAH32 \<equiv> 0x34"
abbreviation (input) BOARD_GENERIC_ESP32 :: u8 where "BOARD_GENERIC_ESP32 \<equiv> 0x35"
abbreviation (input) BOARD_GENERIC_NRF52 :: u8 where "BOARD_GENERIC_NRF52 \<equiv> 0x50"
abbreviation (input) MODEL_FD :: u8 where "MODEL_FD \<equiv> 0xFD"
abbreviation (input) MODEL_FE :: u8 where "MODEL_FE \<equiv> 0xFE"
abbreviation (input) MODEL_FF :: u8 where "MODEL_FF \<equiv> 0xFF"
abbreviation (input) BOARD_MESHPOE_S3 :: u8 where "BOARD_MESHPOE_S3 \<equiv> 0xF1"
abbreviation (input) BOARD_MESHADVENTURER_S3 :: u8 where "BOARD_MESHADVENTURER_S3 \<equiv> 0xF2"
abbreviation (input) BOARD_AETHERNODE :: u8 where "BOARD_AETHERNODE \<equiv> 0xF3"
abbreviation (input) BOARD_MESHADVENTURER :: u8 where "BOARD_MESHADVENTURER \<equiv> 0xF4"
abbreviation (input) BOARD_PROMICRO :: u8 where "BOARD_PROMICRO \<equiv> 0xF5"
abbreviation (input) BOARD_DIY_V1 :: u8 where "BOARD_DIY_V1 \<equiv> 0xF6"
abbreviation (input) BOARD_AETHERNODE_S3 :: u8 where "BOARD_AETHERNODE_S3 \<equiv> 0xF7"
abbreviation (input) BOARD_HELTEC32_V4_R8 :: u8 where "BOARD_HELTEC32_V4_R8 \<equiv> 0xF8"
abbreviation (input) PRODUCT_HELTEC_WTRACKER_V2 :: u8 where "PRODUCT_HELTEC_WTRACKER_V2 \<equiv> 0xD8"
abbreviation (input) BOARD_HELTEC_WTRACKER_V2 :: u8 where "BOARD_HELTEC_WTRACKER_V2 \<equiv> 0x46"
abbreviation (input) MODEL_D6 :: u8 where "MODEL_D6 \<equiv> 0xD6"
abbreviation (input) MODEL_D7 :: u8 where "MODEL_D7 \<equiv> 0xD7"
abbreviation (input) PRODUCT_HELTEC_T1 :: u8 where "PRODUCT_HELTEC_T1 \<equiv> 0xDA"
abbreviation (input) BOARD_HELTEC_T1 :: u8 where "BOARD_HELTEC_T1 \<equiv> 0x47"
abbreviation (input) MODEL_DF :: u8 where "MODEL_DF \<equiv> 0xDF"
abbreviation (input) MODEL_E2 :: u8 where "MODEL_E2 \<equiv> 0xE2"

abbreviation (input) LORA_PA_UNKNOWN :: u8 where "LORA_PA_UNKNOWN \<equiv> 0x00"
abbreviation (input) LORA_PA_GC1109 :: u8 where "LORA_PA_GC1109 \<equiv> 0x01"
abbreviation (input) LORA_PA_KCT8103L :: u8 where "LORA_PA_KCT8103L \<equiv> 0x02"

section \<open>Build configuration\<close>

datatype mcu_variant = Mcu1284P | Mcu2560 | McuEsp32 | McuNrf52

datatype modem_variant = SX1276 | SX1278 | SX1262 | SX1280

record board =
  mcu :: mcu_variant
  modem :: modem_variant
  board_model :: u8
  eeprom_size :: nat
  config_offset :: nat
  uart_buffer_size :: nat
  queue_size :: nat
  queue_max_length :: nat
  has_eeprom :: bool
  has_display :: bool
  has_bluetooth :: bool
  has_ble :: bool
  has_wifi :: bool
  has_espnow :: bool
  has_ethernet :: bool
  has_lora_pa :: bool
  has_pa :: bool
  has_lora_lna :: bool
  has_pmu :: bool
  is_esp32s3 :: bool
  has_np :: bool
  has_buzzer :: bool
  has_vsense :: bool
  has_rtc :: bool
  has_gps :: bool
  has_sensors :: bool
  has_urns :: bool
  validate_firmware :: bool
  pa_max_output :: int
  build_number :: u32

definition mcu_code :: "mcu_variant \<Rightarrow> u8" where
  "mcu_code m = (case m of Mcu1284P \<Rightarrow> MCU_1284P | Mcu2560 \<Rightarrow> MCU_2560
                 | McuEsp32 \<Rightarrow> MCU_ESP32 | McuNrf52 \<Rightarrow> MCU_NRF52)"

definition platform :: "board \<Rightarrow> u8" where
  "platform b = (case mcu b of Mcu1284P \<Rightarrow> PLATFORM_AVR | Mcu2560 \<Rightarrow> PLATFORM_AVR
                 | McuEsp32 \<Rightarrow> PLATFORM_ESP32 | McuNrf52 \<Rightarrow> PLATFORM_NRF52)"

text \<open>The test \<open>MCU_VARIANT == MCU_ESP32 || MCU_VARIANT == MCU_NRF52\<close>.\<close>

definition esp_or_nrf :: "board \<Rightarrow> bool" where
  "esp_or_nrf b \<longleftrightarrow> mcu b = McuEsp32 \<or> mcu b = McuNrf52"

section \<open>Some boards\<close>

text \<open>The defaults of \<^verbatim>\<open>Boards.h\<close> before any board block, on the given MCU.\<close>

definition board_defaults :: board where
  "board_defaults =
     \<lparr>mcu = Mcu1284P, modem = SX1276, board_model = BOARD_RNODE,
      eeprom_size = 4096, config_offset = 0, uart_buffer_size = 6144,
      queue_size = 6144, queue_max_length = 200,
      has_eeprom = False, has_display = False, has_bluetooth = False, has_ble = False,
      has_wifi = False, has_espnow = False, has_ethernet = False, has_lora_pa = False,
      has_pa = False, has_lora_lna = False, has_pmu = False, is_esp32s3 = False, has_np = False,
      has_buzzer = False, has_vsense = False, has_rtc = False, has_gps = False,
      has_sensors = False, has_urns = False, validate_firmware = True,
      pa_max_output = 0, build_number = 0\<rparr>"

definition board_rnode :: board where
  "board_rnode = board_defaults\<lparr>has_eeprom := True\<rparr>"

definition board_hmbrw_2560 :: board where
  "board_hmbrw_2560 = board_defaults
     \<lparr>mcu := Mcu2560, board_model := BOARD_HMBRW, has_eeprom := True,
      uart_buffer_size := 768, queue_size := 5120, queue_max_length := 24\<rparr>"

definition board_esp32 :: board where
  "board_esp32 = board_defaults
     \<lparr>mcu := McuEsp32, eeprom_size := 1024, config_offset := 0\<rparr>"

definition board_rnode_ng_20 :: board where
  "board_rnode_ng_20 = board_esp32
     \<lparr>board_model := BOARD_RNODE_NG_20, has_display := True, has_bluetooth := True,
      has_np := True, has_eeprom := True\<rparr>"

definition board_heltec32_v4 :: board where
  "board_heltec32_v4 = board_esp32
     \<lparr>board_model := BOARD_HELTEC32_V4, modem := SX1262, is_esp32s3 := True,
      has_display := True, has_ble := True, has_wifi := True, has_pmu := True,
      has_eeprom := True, has_lora_pa := True, has_lora_lna := True, has_gps := True,
      pa_max_output := 28\<rparr>"

definition board_rak4631 :: board where
  "board_rak4631 = board_defaults
     \<lparr>mcu := McuNrf52, modem := SX1262, board_model := BOARD_RAK4631, eeprom_size := 296,
      has_eeprom := False, has_display := True, has_ble := True\<rparr>"

definition board_rak3401 :: board where
  "board_rak3401 = board_defaults
     \<lparr>mcu := McuNrf52, modem := SX1262, board_model := BOARD_RAK3401, eeprom_size := 296,
      has_eeprom := False, has_display := True, has_ble := True, has_lora_lna := True\<rparr>"

lemmas board_values = board_defaults_def board_rnode_def board_hmbrw_2560_def board_esp32_def
  board_rnode_ng_20_def board_heltec32_v4_def board_rak4631_def board_rak3401_def

end
