(* ===== verification/Framing.thy ===== *)
theory Framing
  imports Boards
begin

text \<open>
  The KISS protocol of \<^verbatim>\<open>Framing.h\<close>: its opcodes, byte stuffing, and an abstract decoder of a
  byte stream into frames, which is the contract between the firmware and its host. The decoder
  follows the receive loops on both sides: a frame is what lies between two \<open>FEND\<close> bytes, its
  first byte is the command, and \<open>FESC\<close> marks the next byte as stuffed.
\<close>

section \<open>Opcodes\<close>

abbreviation (input) FEND :: u8 where "FEND \<equiv> 0xC0"
abbreviation (input) FESC :: u8 where "FESC \<equiv> 0xDB"
abbreviation (input) TFEND :: u8 where "TFEND \<equiv> 0xDC"
abbreviation (input) TFESC :: u8 where "TFESC \<equiv> 0xDD"
abbreviation (input) CMD_UNKNOWN :: u8 where "CMD_UNKNOWN \<equiv> 0xFE"
abbreviation (input) CMD_DATA :: u8 where "CMD_DATA \<equiv> 0x00"
abbreviation (input) CMD_FREQUENCY :: u8 where "CMD_FREQUENCY \<equiv> 0x01"
abbreviation (input) CMD_BANDWIDTH :: u8 where "CMD_BANDWIDTH \<equiv> 0x02"
abbreviation (input) CMD_TXPOWER :: u8 where "CMD_TXPOWER \<equiv> 0x03"
abbreviation (input) CMD_SF :: u8 where "CMD_SF \<equiv> 0x04"
abbreviation (input) CMD_CR :: u8 where "CMD_CR \<equiv> 0x05"
abbreviation (input) CMD_RADIO_STATE :: u8 where "CMD_RADIO_STATE \<equiv> 0x06"
abbreviation (input) CMD_RADIO_LOCK :: u8 where "CMD_RADIO_LOCK \<equiv> 0x07"
abbreviation (input) CMD_DETECT :: u8 where "CMD_DETECT \<equiv> 0x08"
abbreviation (input) CMD_IMPLICIT :: u8 where "CMD_IMPLICIT \<equiv> 0x09"
abbreviation (input) CMD_LEAVE :: u8 where "CMD_LEAVE \<equiv> 0x0A"
abbreviation (input) CMD_ST_ALOCK :: u8 where "CMD_ST_ALOCK \<equiv> 0x0B"
abbreviation (input) CMD_LT_ALOCK :: u8 where "CMD_LT_ALOCK \<equiv> 0x0C"
abbreviation (input) CMD_SYNC_WORD :: u8 where "CMD_SYNC_WORD \<equiv> 0x0D"
abbreviation (input) CMD_PROMISC :: u8 where "CMD_PROMISC \<equiv> 0x0E"
abbreviation (input) CMD_READY :: u8 where "CMD_READY \<equiv> 0x0F"
abbreviation (input) CMD_SEL_INT :: u8 where "CMD_SEL_INT \<equiv> 0x1F"
abbreviation (input) CMD_STAT_RX :: u8 where "CMD_STAT_RX \<equiv> 0x21"
abbreviation (input) CMD_STAT_TX :: u8 where "CMD_STAT_TX \<equiv> 0x22"
abbreviation (input) CMD_STAT_RSSI :: u8 where "CMD_STAT_RSSI \<equiv> 0x23"
abbreviation (input) CMD_STAT_SNR :: u8 where "CMD_STAT_SNR \<equiv> 0x24"
abbreviation (input) CMD_STAT_CHTM :: u8 where "CMD_STAT_CHTM \<equiv> 0x25"
abbreviation (input) CMD_STAT_PHYPRM :: u8 where "CMD_STAT_PHYPRM \<equiv> 0x26"
abbreviation (input) CMD_STAT_BAT :: u8 where "CMD_STAT_BAT \<equiv> 0x27"
abbreviation (input) CMD_STAT_CSMA :: u8 where "CMD_STAT_CSMA \<equiv> 0x28"
abbreviation (input) CMD_STAT_TEMP :: u8 where "CMD_STAT_TEMP \<equiv> 0x29"
abbreviation (input) CMD_BLINK :: u8 where "CMD_BLINK \<equiv> 0x30"
abbreviation (input) CMD_RANDOM :: u8 where "CMD_RANDOM \<equiv> 0x40"
abbreviation (input) CMD_FB_EXT :: u8 where "CMD_FB_EXT \<equiv> 0x41"
abbreviation (input) CMD_FB_READ :: u8 where "CMD_FB_READ \<equiv> 0x42"
abbreviation (input) CMD_FB_WRITE :: u8 where "CMD_FB_WRITE \<equiv> 0x43"
abbreviation (input) CMD_FB_READL :: u8 where "CMD_FB_READL \<equiv> 0x44"
abbreviation (input) CMD_DISP_READ :: u8 where "CMD_DISP_READ \<equiv> 0x66"
abbreviation (input) CMD_DISP_INT :: u8 where "CMD_DISP_INT \<equiv> 0x45"
abbreviation (input) CMD_DISP_ADDR :: u8 where "CMD_DISP_ADDR \<equiv> 0x63"
abbreviation (input) CMD_DISP_BLNK :: u8 where "CMD_DISP_BLNK \<equiv> 0x64"
abbreviation (input) CMD_DISP_ROT :: u8 where "CMD_DISP_ROT \<equiv> 0x67"
abbreviation (input) CMD_DISP_RCND :: u8 where "CMD_DISP_RCND \<equiv> 0x68"
abbreviation (input) CMD_NP_INT :: u8 where "CMD_NP_INT \<equiv> 0x65"
abbreviation (input) CMD_BT_CTRL :: u8 where "CMD_BT_CTRL \<equiv> 0x46"
abbreviation (input) CMD_BT_UNPAIR :: u8 where "CMD_BT_UNPAIR \<equiv> 0x70"
abbreviation (input) CMD_INTERFACES :: u8 where "CMD_INTERFACES \<equiv> 0x71"
abbreviation (input) CMD_BT_PIN :: u8 where "CMD_BT_PIN \<equiv> 0x62"
abbreviation (input) CMD_DIS_IA :: u8 where "CMD_DIS_IA \<equiv> 0x69"
abbreviation (input) CMD_WIFI_MODE :: u8 where "CMD_WIFI_MODE \<equiv> 0x6A"
abbreviation (input) CMD_WIFI_SSID :: u8 where "CMD_WIFI_SSID \<equiv> 0x6B"
abbreviation (input) CMD_WIFI_PSK :: u8 where "CMD_WIFI_PSK \<equiv> 0x6C"
abbreviation (input) CMD_WIFI_CHN :: u8 where "CMD_WIFI_CHN \<equiv> 0x6E"
abbreviation (input) CMD_ESPNOW_ENABLE :: u8 where "CMD_ESPNOW_ENABLE \<equiv> 0x74"
abbreviation (input) CMD_WS_ENABLE :: u8 where "CMD_WS_ENABLE \<equiv> 0x75"
abbreviation (input) CMD_SENSOR :: u8 where "CMD_SENSOR \<equiv> 0x76"
abbreviation (input) CMD_WIFI_IP :: u8 where "CMD_WIFI_IP \<equiv> 0x84"
abbreviation (input) CMD_WIFI_NM :: u8 where "CMD_WIFI_NM \<equiv> 0x85"
abbreviation (input) CMD_SND :: u8 where "CMD_SND \<equiv> 0x91"
abbreviation (input) CMD_VSENSE_DIV :: u8 where "CMD_VSENSE_DIV \<equiv> 0x92"
abbreviation (input) CMD_IDENTITY_EXPORT :: u8 where "CMD_IDENTITY_EXPORT \<equiv> 0x93"
abbreviation (input) CMD_IDENTITY_IMPORT :: u8 where "CMD_IDENTITY_IMPORT \<equiv> 0x94"
abbreviation (input) CMD_ETH_IP :: u8 where "CMD_ETH_IP \<equiv> 0x88"
abbreviation (input) CMD_ETH_NM :: u8 where "CMD_ETH_NM \<equiv> 0x89"
abbreviation (input) CMD_ETH_SPEED :: u8 where "CMD_ETH_SPEED \<equiv> 0x8A"
abbreviation (input) CMD_NTP_SYNC :: u8 where "CMD_NTP_SYNC \<equiv> 0x8B"
abbreviation (input) CMD_WIFI_GW :: u8 where "CMD_WIFI_GW \<equiv> 0x8C"
abbreviation (input) CMD_WIFI_DNS :: u8 where "CMD_WIFI_DNS \<equiv> 0x8D"
abbreviation (input) CMD_ETH_GW :: u8 where "CMD_ETH_GW \<equiv> 0x8E"
abbreviation (input) CMD_ETH_DNS :: u8 where "CMD_ETH_DNS \<equiv> 0x8F"
abbreviation (input) CMD_BOARD :: u8 where "CMD_BOARD \<equiv> 0x47"
abbreviation (input) CMD_PLATFORM :: u8 where "CMD_PLATFORM \<equiv> 0x48"
abbreviation (input) CMD_MCU :: u8 where "CMD_MCU \<equiv> 0x49"
abbreviation (input) CMD_FW_VERSION :: u8 where "CMD_FW_VERSION \<equiv> 0x50"
abbreviation (input) CMD_CFG_READ :: u8 where "CMD_CFG_READ \<equiv> 0x6D"
abbreviation (input) CMD_ROM_READ :: u8 where "CMD_ROM_READ \<equiv> 0x51"
abbreviation (input) CMD_ROM_WRITE :: u8 where "CMD_ROM_WRITE \<equiv> 0x52"
abbreviation (input) CMD_CONF_SAVE :: u8 where "CMD_CONF_SAVE \<equiv> 0x53"
abbreviation (input) CMD_CONF_DELETE :: u8 where "CMD_CONF_DELETE \<equiv> 0x54"
abbreviation (input) CMD_DEV_HASH :: u8 where "CMD_DEV_HASH \<equiv> 0x56"
abbreviation (input) CMD_DEV_SIG :: u8 where "CMD_DEV_SIG \<equiv> 0x57"
abbreviation (input) CMD_FW_HASH :: u8 where "CMD_FW_HASH \<equiv> 0x58"
abbreviation (input) CMD_HASHES :: u8 where "CMD_HASHES \<equiv> 0x60"
abbreviation (input) CMD_FW_UPD :: u8 where "CMD_FW_UPD \<equiv> 0x61"
abbreviation (input) CMD_UNLOCK_ROM :: u8 where "CMD_UNLOCK_ROM \<equiv> 0x59"
abbreviation (input) ROM_UNLOCK_BYTE :: u8 where "ROM_UNLOCK_BYTE \<equiv> 0xF8"
abbreviation (input) CMD_RESET :: u8 where "CMD_RESET \<equiv> 0x55"
abbreviation (input) CMD_RESET_BYTE :: u8 where "CMD_RESET_BYTE \<equiv> 0xF8"
abbreviation (input) CMD_LOG :: u8 where "CMD_LOG \<equiv> 0x80"
abbreviation (input) CMD_TIME :: u8 where "CMD_TIME \<equiv> 0x81"
abbreviation (input) CMD_MUX_CHAIN :: u8 where "CMD_MUX_CHAIN \<equiv> 0x82"
abbreviation (input) CMD_MUX_DSCVR :: u8 where "CMD_MUX_DSCVR \<equiv> 0x83"
abbreviation (input) DETECT_REQ :: u8 where "DETECT_REQ \<equiv> 0x73"
abbreviation (input) DETECT_RESP :: u8 where "DETECT_RESP \<equiv> 0x46"
abbreviation (input) KISS_SX127X :: u8 where "KISS_SX127X \<equiv> 0x00"
abbreviation (input) KISS_SX1276 :: u8 where "KISS_SX1276 \<equiv> 0x01"
abbreviation (input) KISS_SX1278 :: u8 where "KISS_SX1278 \<equiv> 0x02"
abbreviation (input) KISS_SX126X :: u8 where "KISS_SX126X \<equiv> 0x10"
abbreviation (input) KISS_SX1262 :: u8 where "KISS_SX1262 \<equiv> 0x11"
abbreviation (input) KISS_SX128X :: u8 where "KISS_SX128X \<equiv> 0x20"
abbreviation (input) KISS_SX1280 :: u8 where "KISS_SX1280 \<equiv> 0x21"
abbreviation (input) RADIO_STATE_OFF :: u8 where "RADIO_STATE_OFF \<equiv> 0x00"
abbreviation (input) RADIO_STATE_ON :: u8 where "RADIO_STATE_ON \<equiv> 0x01"
abbreviation (input) NIBBLE_SEQ :: u8 where "NIBBLE_SEQ \<equiv> 0xF0"
abbreviation (input) NIBBLE_FLAGS :: u8 where "NIBBLE_FLAGS \<equiv> 0x0F"
abbreviation (input) FLAG_SPLIT :: u8 where "FLAG_SPLIT \<equiv> 0x01"
abbreviation (input) SEQ_UNSET :: u8 where "SEQ_UNSET \<equiv> 0xFF"
abbreviation (input) CMD_ERROR :: u8 where "CMD_ERROR \<equiv> 0x90"
abbreviation (input) CMD_PROVISION_REQ :: u8 where "CMD_PROVISION_REQ \<equiv> 0x86"
abbreviation (input) CMD_PROVISION_RSP :: u8 where "CMD_PROVISION_RSP \<equiv> 0x87"
abbreviation (input) ERROR_INITRADIO :: u8 where "ERROR_INITRADIO \<equiv> 0x01"
abbreviation (input) ERROR_TXFAILED :: u8 where "ERROR_TXFAILED \<equiv> 0x02"
abbreviation (input) ERROR_EEPROM_LOCKED :: u8 where "ERROR_EEPROM_LOCKED \<equiv> 0x03"
abbreviation (input) ERROR_QUEUE_FULL :: u8 where "ERROR_QUEUE_FULL \<equiv> 0x04"
abbreviation (input) ERROR_MEMORY_LOW :: u8 where "ERROR_MEMORY_LOW \<equiv> 0x05"
abbreviation (input) ERROR_MODEM_TIMEOUT :: u8 where "ERROR_MODEM_TIMEOUT \<equiv> 0x06"

definition kiss_opcodes :: "(string \<times> u8) list" where
  "kiss_opcodes =
     [(''CMD_UNKNOWN'', CMD_UNKNOWN),
      (''CMD_DATA'', CMD_DATA),
      (''CMD_FREQUENCY'', CMD_FREQUENCY),
      (''CMD_BANDWIDTH'', CMD_BANDWIDTH),
      (''CMD_TXPOWER'', CMD_TXPOWER),
      (''CMD_SF'', CMD_SF),
      (''CMD_CR'', CMD_CR),
      (''CMD_RADIO_STATE'', CMD_RADIO_STATE),
      (''CMD_RADIO_LOCK'', CMD_RADIO_LOCK),
      (''CMD_DETECT'', CMD_DETECT),
      (''CMD_IMPLICIT'', CMD_IMPLICIT),
      (''CMD_LEAVE'', CMD_LEAVE),
      (''CMD_ST_ALOCK'', CMD_ST_ALOCK),
      (''CMD_LT_ALOCK'', CMD_LT_ALOCK),
      (''CMD_SYNC_WORD'', CMD_SYNC_WORD),
      (''CMD_PROMISC'', CMD_PROMISC),
      (''CMD_READY'', CMD_READY),
      (''CMD_SEL_INT'', CMD_SEL_INT),
      (''CMD_STAT_RX'', CMD_STAT_RX),
      (''CMD_STAT_TX'', CMD_STAT_TX),
      (''CMD_STAT_RSSI'', CMD_STAT_RSSI),
      (''CMD_STAT_SNR'', CMD_STAT_SNR),
      (''CMD_STAT_CHTM'', CMD_STAT_CHTM),
      (''CMD_STAT_PHYPRM'', CMD_STAT_PHYPRM),
      (''CMD_STAT_BAT'', CMD_STAT_BAT),
      (''CMD_STAT_CSMA'', CMD_STAT_CSMA),
      (''CMD_STAT_TEMP'', CMD_STAT_TEMP),
      (''CMD_BLINK'', CMD_BLINK),
      (''CMD_RANDOM'', CMD_RANDOM),
      (''CMD_FB_EXT'', CMD_FB_EXT),
      (''CMD_FB_READ'', CMD_FB_READ),
      (''CMD_FB_WRITE'', CMD_FB_WRITE),
      (''CMD_FB_READL'', CMD_FB_READL),
      (''CMD_DISP_READ'', CMD_DISP_READ),
      (''CMD_DISP_INT'', CMD_DISP_INT),
      (''CMD_DISP_ADDR'', CMD_DISP_ADDR),
      (''CMD_DISP_BLNK'', CMD_DISP_BLNK),
      (''CMD_DISP_ROT'', CMD_DISP_ROT),
      (''CMD_DISP_RCND'', CMD_DISP_RCND),
      (''CMD_NP_INT'', CMD_NP_INT),
      (''CMD_BT_CTRL'', CMD_BT_CTRL),
      (''CMD_BT_UNPAIR'', CMD_BT_UNPAIR),
      (''CMD_INTERFACES'', CMD_INTERFACES),
      (''CMD_BT_PIN'', CMD_BT_PIN),
      (''CMD_DIS_IA'', CMD_DIS_IA),
      (''CMD_WIFI_MODE'', CMD_WIFI_MODE),
      (''CMD_WIFI_SSID'', CMD_WIFI_SSID),
      (''CMD_WIFI_PSK'', CMD_WIFI_PSK),
      (''CMD_WIFI_CHN'', CMD_WIFI_CHN),
      (''CMD_ESPNOW_ENABLE'', CMD_ESPNOW_ENABLE),
      (''CMD_WS_ENABLE'', CMD_WS_ENABLE),
      (''CMD_SENSOR'', CMD_SENSOR),
      (''CMD_WIFI_IP'', CMD_WIFI_IP),
      (''CMD_WIFI_NM'', CMD_WIFI_NM),
      (''CMD_SND'', CMD_SND),
      (''CMD_VSENSE_DIV'', CMD_VSENSE_DIV),
      (''CMD_IDENTITY_EXPORT'', CMD_IDENTITY_EXPORT),
      (''CMD_IDENTITY_IMPORT'', CMD_IDENTITY_IMPORT),
      (''CMD_ETH_IP'', CMD_ETH_IP),
      (''CMD_ETH_NM'', CMD_ETH_NM),
      (''CMD_ETH_SPEED'', CMD_ETH_SPEED),
      (''CMD_NTP_SYNC'', CMD_NTP_SYNC),
      (''CMD_WIFI_GW'', CMD_WIFI_GW),
      (''CMD_WIFI_DNS'', CMD_WIFI_DNS),
      (''CMD_ETH_GW'', CMD_ETH_GW),
      (''CMD_ETH_DNS'', CMD_ETH_DNS),
      (''CMD_BOARD'', CMD_BOARD),
      (''CMD_PLATFORM'', CMD_PLATFORM),
      (''CMD_MCU'', CMD_MCU),
      (''CMD_FW_VERSION'', CMD_FW_VERSION),
      (''CMD_CFG_READ'', CMD_CFG_READ),
      (''CMD_ROM_READ'', CMD_ROM_READ),
      (''CMD_ROM_WRITE'', CMD_ROM_WRITE),
      (''CMD_CONF_SAVE'', CMD_CONF_SAVE),
      (''CMD_CONF_DELETE'', CMD_CONF_DELETE),
      (''CMD_DEV_HASH'', CMD_DEV_HASH),
      (''CMD_DEV_SIG'', CMD_DEV_SIG),
      (''CMD_FW_HASH'', CMD_FW_HASH),
      (''CMD_HASHES'', CMD_HASHES),
      (''CMD_FW_UPD'', CMD_FW_UPD),
      (''CMD_UNLOCK_ROM'', CMD_UNLOCK_ROM),
      (''CMD_RESET'', CMD_RESET),
      (''CMD_LOG'', CMD_LOG),
      (''CMD_TIME'', CMD_TIME),
      (''CMD_MUX_CHAIN'', CMD_MUX_CHAIN),
      (''CMD_MUX_DSCVR'', CMD_MUX_DSCVR),
      (''CMD_ERROR'', CMD_ERROR),
      (''CMD_PROVISION_REQ'', CMD_PROVISION_REQ),
      (''CMD_PROVISION_RSP'', CMD_PROVISION_RSP)]"

section \<open>Byte stuffing\<close>

definition stuff :: "u8 \<Rightarrow> u8 list" where
  "stuff b = (if b = FEND then [FESC, TFEND] else if b = FESC then [FESC, TFESC] else [b])"

definition unstuff_byte :: "u8 \<Rightarrow> u8" where
  "unstuff_byte b = (if b = TFEND then FEND else if b = TFESC then FESC else b)"

fun unstuff :: "bool \<Rightarrow> u8 list \<Rightarrow> u8 list" where
  "unstuff e [] = []"
| "unstuff e (x # xs) =
     (if x = FESC then unstuff True xs
      else (if e then unstuff_byte x else x) # unstuff False xs)"

definition stuff_all :: "u8 list \<Rightarrow> u8 list" where
  "stuff_all bs = concat (map stuff bs)"

lemma stuff_all_simps [simp]:
  "stuff_all [] = []" "stuff_all (b # bs) = stuff b @ stuff_all bs"
  "stuff_all (bs @ cs) = stuff_all bs @ stuff_all cs"
  by (simp_all add: stuff_all_def)

lemma unstuff_stuff: "unstuff False (stuff b @ xs) = b # unstuff False xs"
  by (simp add: stuff_def unstuff_byte_def)

lemma unstuff_stuff_all [simp]: "unstuff False (stuff_all bs @ xs) = bs @ unstuff False xs"
  by (induction bs) (simp_all add: unstuff_stuff)

lemma unstuff_stuff_all_id [simp]: "unstuff False (stuff_all bs) = bs"
  using unstuff_stuff_all [of bs "[]"] by simp

lemma FEND_stuff [simp]: "FEND \<notin> set (stuff b)"
  by (simp add: stuff_def)

lemma FEND_stuff_all [simp]: "FEND \<notin> set (stuff_all bs)"
  by (induction bs) auto

lemma length_stuff: "length bs \<le> length (stuff_all bs)" "length (stuff_all bs) \<le> 2 * length bs"
  by (induction bs) (auto simp: stuff_def)

section \<open>Frames\<close>

definition kiss_frame :: "u8 \<Rightarrow> u8 list \<Rightarrow> u8 list" where
  "kiss_frame c p = FEND # c # stuff_all p @ [FEND]"

text \<open>
  The decoder of a stream: \<open>acc\<close> is the current frame so far, reversed. An empty frame (two
  adjacent \<open>FEND\<close>s) carries nothing.
\<close>

definition close_frame :: "u8 list \<Rightarrow> (u8 \<times> u8 list) list" where
  "close_frame acc = (case rev acc of [] \<Rightarrow> [] | c # p \<Rightarrow> [(c, unstuff False p)])"

fun kiss_decode_from :: "u8 list \<Rightarrow> u8 list \<Rightarrow> (u8 \<times> u8 list) list" where
  "kiss_decode_from acc [] = []"
| "kiss_decode_from acc (x # xs) =
     (if x = FEND then close_frame acc @ kiss_decode_from [] xs
      else kiss_decode_from (x # acc) xs)"

definition kiss_decode :: "u8 list \<Rightarrow> (u8 \<times> u8 list) list" where
  "kiss_decode = kiss_decode_from []"

lemma kiss_decode_from_body:
  "FEND \<notin> set p \<Longrightarrow> kiss_decode_from acc (p @ FEND # xs) = close_frame (rev p @ acc) @ kiss_decode_from [] xs"
  by (induction p arbitrary: acc) auto

lemma close_frame_Nil [simp]: "close_frame [] = []"
  by (simp add: close_frame_def)

lemma kiss_decode_Nil [simp]: "kiss_decode [] = []"
  by (simp add: kiss_decode_def)

lemma kiss_decode_frame_append [simp]:
  assumes "c \<noteq> FEND"
  shows "kiss_decode (kiss_frame c p @ xs) = (c, p) # kiss_decode xs"
proof -
  have "kiss_decode (kiss_frame c p @ xs) =
      kiss_decode_from [] ((c # stuff_all p) @ FEND # xs)"
    by (simp add: kiss_decode_def kiss_frame_def)
  also have "\<dots> = close_frame (rev (c # stuff_all p)) @ kiss_decode_from [] xs"
    using assms by (subst kiss_decode_from_body) auto
  finally show ?thesis by (simp add: close_frame_def kiss_decode_def)
qed

lemma kiss_decode_frame [simp]: "c \<noteq> FEND \<Longrightarrow> kiss_decode (kiss_frame c p) = [(c, p)]"
  using kiss_decode_frame_append [of c p "[]"] by simp

lemma kiss_decode_frames:
  "\<forall>f \<in> set fs. fst f \<noteq> FEND \<Longrightarrow>
    kiss_decode (concat (map (\<lambda>(c, p). kiss_frame c p) fs) @ xs) = fs @ kiss_decode xs"
  by (induction fs) auto

end
