(* ===== verification/Host.thy ===== *)
theory Host
  imports Framing
begin

text \<open>
  The link to the host (\<^verbatim>\<open>Utilities.h\<close>): the choice of transport in \<open>serial_write\<close>, the bounded
  wait of \<open>kiss_serial_put\<close> on the USB port, the per-frame flush of the Bluetooth buffer, and
  byte stuffing in \<open>escaped_serial_write\<close>. The record \<open>host\<close> holds the globals these routines
  read and write and a log of what reached each transport; the records of later theories
  extend it, so that a routine defined here applies to the whole firmware state.
\<close>

section \<open>State\<close>

datatype transport = Usb | Bt | Eth | Wifi | WebSocket

datatype host_event = Put transport u8 | BtFlush

abbreviation (input) BT_STATE_NA :: u8 where "BT_STATE_NA \<equiv> 0xff"
abbreviation (input) BT_STATE_OFF :: u8 where "BT_STATE_OFF \<equiv> 0x00"
abbreviation (input) BT_STATE_ON :: u8 where "BT_STATE_ON \<equiv> 0x01"
abbreviation (input) BT_STATE_PAIRING :: u8 where "BT_STATE_PAIRING \<equiv> 0x02"
abbreviation (input) BT_STATE_CONNECTED :: u8 where "BT_STATE_CONNECTED \<equiv> 0x03"

text \<open>
  \<open>usb_avail\<close>: \<open>Serial.availableForWrite() >= 1\<close> now; \<open>usb_drains\<close>: it becomes so within the
  five milliseconds \<open>kiss_serial_put\<close> waits. Both are inputs from the hardware.
\<close>

record host =
  bt_state :: u8
  eth_is_connected :: bool
  wifi_host_is_connected :: bool
  ws_host_is_connected :: bool
  usb_avail :: bool
  usb_drains :: bool
  kiss_host_tx_stalled :: bool
  serial_in_frame :: bool
  host_log :: "host_event list"

section \<open>Writing bytes\<close>

definition put :: "transport \<Rightarrow> u8 \<Rightarrow> 'a host_scheme \<Rightarrow> 'a host_scheme" where
  "put t x s = s\<lparr>host_log := host_log s @ [Put t x]\<rparr>"

definition kiss_serial_put :: "board \<Rightarrow> u8 \<Rightarrow> 'a host_scheme \<Rightarrow> 'a host_scheme" where
  "kiss_serial_put b x s =
     (if mcu b = McuEsp32 then
        if \<not> usb_avail s then
          if kiss_host_tx_stalled s then s
          else if \<not> usb_drains s then s\<lparr>kiss_host_tx_stalled := True\<rparr>
          else put Usb x (s\<lparr>kiss_host_tx_stalled := False\<rparr>)
        else put Usb x (s\<lparr>kiss_host_tx_stalled := False\<rparr>)
      else put Usb x s)"

text \<open>The flush at the end of a KISS frame on the Bluetooth transports with BLE.\<close>

definition bt_frame_flush :: "board \<Rightarrow> u8 \<Rightarrow> 'a host_scheme \<Rightarrow> 'a host_scheme" where
  "bt_frame_flush b x s =
     (if esp_or_nrf b \<and> has_ble b then
        if serial_in_frame s \<and> x = FEND then
          s\<lparr>host_log := host_log s @ [BtFlush], serial_in_frame := False\<rparr>
        else if \<not> serial_in_frame s \<and> x = FEND then s\<lparr>serial_in_frame := True\<rparr>
        else s
      else s)"

definition serial_write :: "board \<Rightarrow> u8 \<Rightarrow> 'a host_scheme \<Rightarrow> 'a host_scheme" where
  "serial_write b x s =
     (if has_bluetooth b \<or> has_ble b then
        if bt_state s \<noteq> BT_STATE_CONNECTED then
          if has_ethernet b then
            if eth_is_connected s \<and> wifi_host_is_connected s then put Eth x s
            else if has_wifi b \<and> wifi_host_is_connected s then put Wifi x s
            else if has_wifi b \<and> ws_host_is_connected s then put WebSocket x s
            else kiss_serial_put b x s
          else if has_wifi b then
            if wifi_host_is_connected s then put Wifi x s
            else if ws_host_is_connected s then put WebSocket x s
            else kiss_serial_put b x s
          else kiss_serial_put b x s
        else bt_frame_flush b x (put Bt x s)
      else kiss_serial_put b x s)"

definition escaped_serial_write :: "board \<Rightarrow> u8 \<Rightarrow> 'a host_scheme \<Rightarrow> 'a host_scheme" where
  "escaped_serial_write b x s =
     (let (x, s) = (if x = FEND then (TFEND, serial_write b FESC s) else (x, s));
          (x, s) = (if x = FESC then (TFESC, serial_write b FESC s) else (x, s))
      in serial_write b x s)"

section \<open>What the host receives\<close>

fun put_byte :: "host_event \<Rightarrow> u8 list" where
  "put_byte (Put t x) = [x]"
| "put_byte BtFlush = []"

definition host_bytes :: "'a host_scheme \<Rightarrow> u8 list" where
  "host_bytes s = concat (map put_byte (host_log s))"

text \<open>The link accepts bytes: it is not the USB port, or the port has room in time.\<close>

definition link_ok :: "board \<Rightarrow> 'a host_scheme \<Rightarrow> bool" where
  "link_ok b s \<longleftrightarrow>
     ((has_bluetooth b \<or> has_ble b) \<and> bt_state s = BT_STATE_CONNECTED) \<or>
     ((has_bluetooth b \<or> has_ble b) \<and> has_ethernet b \<and> eth_is_connected s \<and> wifi_host_is_connected s) \<or>
     ((has_bluetooth b \<or> has_ble b) \<and> has_wifi b \<and> (wifi_host_is_connected s \<or> ws_host_is_connected s)) \<or>
     mcu b \<noteq> McuEsp32 \<or> usb_avail s"

lemmas serial_write_defs = serial_write_def kiss_serial_put_def bt_frame_flush_def put_def

lemma serial_write_eq:
  "\<exists>l f st. serial_write b x s = s\<lparr>host_log := l, serial_in_frame := f, kiss_host_tx_stalled := st\<rparr>"
proof -
  have "serial_write b x s = s\<lparr>host_log := host_log (serial_write b x s),
      serial_in_frame := serial_in_frame (serial_write b x s),
      kiss_host_tx_stalled := kiss_host_tx_stalled (serial_write b x s)\<rparr>"
    by (simp add: serial_write_defs)
  then show ?thesis by blast
qed

lemma serial_write_frame [simp]:
  "bt_state (serial_write b x s) = bt_state s"
  "eth_is_connected (serial_write b x s) = eth_is_connected s"
  "wifi_host_is_connected (serial_write b x s) = wifi_host_is_connected s"
  "ws_host_is_connected (serial_write b x s) = ws_host_is_connected s"
  "usb_avail (serial_write b x s) = usb_avail s"
  "usb_drains (serial_write b x s) = usb_drains s"
  "host.more (serial_write b x s) = host.more s"
  by (simp_all add: serial_write_defs)

lemma escaped_serial_write_frame [simp]:
  "bt_state (escaped_serial_write b x s) = bt_state s"
  "eth_is_connected (escaped_serial_write b x s) = eth_is_connected s"
  "wifi_host_is_connected (escaped_serial_write b x s) = wifi_host_is_connected s"
  "ws_host_is_connected (escaped_serial_write b x s) = ws_host_is_connected s"
  "usb_avail (escaped_serial_write b x s) = usb_avail s"
  "usb_drains (escaped_serial_write b x s) = usb_drains s"
  "host.more (escaped_serial_write b x s) = host.more s"
  by (simp_all add: escaped_serial_write_def)

lemma link_ok_serial_write [simp]: "link_ok b (serial_write b x s) = link_ok b s"
  by (simp add: link_ok_def)

lemma link_ok_escaped [simp]: "link_ok b (escaped_serial_write b x s) = link_ok b s"
  by (simp add: link_ok_def)

lemma host_bytes_serial_write [simp]:
  "link_ok b s \<Longrightarrow> host_bytes (serial_write b x s) = host_bytes s @ [x]"
  by (auto simp: link_ok_def host_bytes_def serial_write_defs)

lemma host_bytes_escaped [simp]:
  "link_ok b s \<Longrightarrow> host_bytes (escaped_serial_write b x s) = host_bytes s @ stuff x"
  by (simp add: escaped_serial_write_def stuff_def)

section \<open>Sequences of writes\<close>

text \<open>The loops \<open>for (...) { escaped_serial_write(buf[i]); }\<close>.\<close>

definition escaped_writes :: "board \<Rightarrow> u8 list \<Rightarrow> 'a host_scheme \<Rightarrow> 'a host_scheme" where
  "escaped_writes b xs s = foldl (\<lambda>s x. escaped_serial_write b x s) s xs"

lemma escaped_writes_simps [simp]:
  "escaped_writes b [] s = s"
  "escaped_writes b (x # xs) s = escaped_writes b xs (escaped_serial_write b x s)"
  by (simp_all add: escaped_writes_def)

lemma link_ok_escaped_writes [simp]: "link_ok b (escaped_writes b xs s) = link_ok b s"
  by (induction xs arbitrary: s) simp_all

lemma host_bytes_escaped_writes [simp]:
  "link_ok b s \<Longrightarrow> host_bytes (escaped_writes b xs s) = host_bytes s @ stuff_all xs"
  by (induction xs arbitrary: s) simp_all

lemma host_more_escaped_writes [simp]: "host.more (escaped_writes b xs s) = host.more s"
  by (induction xs arbitrary: s) simp_all

text \<open>
  A stalled USB port never blocks the firmware: the byte is dropped, and once the port is marked
  stalled later bytes are dropped without waiting.
\<close>

lemma kiss_serial_put_stalled:
  "mcu b = McuEsp32 \<Longrightarrow> \<not> usb_avail s \<Longrightarrow> kiss_host_tx_stalled s \<Longrightarrow> kiss_serial_put b x s = s"
  by (simp add: kiss_serial_put_def)

end
