(* ===== verification/Rom_Map.thy ===== *)
theory Rom_Map
  imports Boards
begin

text \<open>
  The non-volatile memory map (\<^verbatim>\<open>ROM.h\<close>, \<^verbatim>\<open>Device.h\<close>): the addresses of every stored field,
  grouped by the way the firmware turns them into physical addresses. \<open>info_layout\<close> holds the
  fields reached through \<open>eeprom_addr()\<close>, \<open>raw_layout\<close> the fields used as physical addresses,
  \<open>config_layout\<close> the fields reached through \<open>config_addr()\<close>, and \<open>device_layout\<close> the signature
  and firmware hash of \<^verbatim>\<open>Device.h\<close>. The lemmas show which of these regions are disjoint on
  which build.
\<close>

section \<open>Addresses and stored values\<close>

abbreviation (input) CHECKSUMMED_SIZE :: nat where "CHECKSUMMED_SIZE \<equiv> 0x0B"
abbreviation (input) ADDR_PRODUCT :: nat where "ADDR_PRODUCT \<equiv> 0x00"
abbreviation (input) ADDR_MODEL :: nat where "ADDR_MODEL \<equiv> 0x01"
abbreviation (input) ADDR_HW_REV :: nat where "ADDR_HW_REV \<equiv> 0x02"
abbreviation (input) ADDR_SERIAL :: nat where "ADDR_SERIAL \<equiv> 0x03"
abbreviation (input) ADDR_MADE :: nat where "ADDR_MADE \<equiv> 0x07"
abbreviation (input) ADDR_CHKSUM :: nat where "ADDR_CHKSUM \<equiv> 0x0B"
abbreviation (input) ADDR_SIGNATURE :: nat where "ADDR_SIGNATURE \<equiv> 0x1B"
abbreviation (input) ADDR_INFO_LOCK :: nat where "ADDR_INFO_LOCK \<equiv> 0x9B"
abbreviation (input) ADDR_CONF_SF :: nat where "ADDR_CONF_SF \<equiv> 0x9C"
abbreviation (input) ADDR_CONF_CR :: nat where "ADDR_CONF_CR \<equiv> 0x9D"
abbreviation (input) ADDR_CONF_TXP :: nat where "ADDR_CONF_TXP \<equiv> 0x9E"
abbreviation (input) ADDR_CONF_BW :: nat where "ADDR_CONF_BW \<equiv> 0x9F"
abbreviation (input) ADDR_CONF_FREQ :: nat where "ADDR_CONF_FREQ \<equiv> 0xA3"
abbreviation (input) ADDR_CONF_OK :: nat where "ADDR_CONF_OK \<equiv> 0xA7"
abbreviation (input) ADDR_CONF_BT :: nat where "ADDR_CONF_BT \<equiv> 0xB0"
abbreviation (input) ADDR_CONF_DSET :: nat where "ADDR_CONF_DSET \<equiv> 0xB1"
abbreviation (input) ADDR_CONF_DINT :: nat where "ADDR_CONF_DINT \<equiv> 0xB2"
abbreviation (input) ADDR_CONF_DADR :: nat where "ADDR_CONF_DADR \<equiv> 0xB3"
abbreviation (input) ADDR_CONF_DBLK :: nat where "ADDR_CONF_DBLK \<equiv> 0xB4"
abbreviation (input) ADDR_CONF_DROT :: nat where "ADDR_CONF_DROT \<equiv> 0xB8"
abbreviation (input) ADDR_CONF_PSET :: nat where "ADDR_CONF_PSET \<equiv> 0xB5"
abbreviation (input) ADDR_CONF_PINT :: nat where "ADDR_CONF_PINT \<equiv> 0xB6"
abbreviation (input) ADDR_CONF_BSET :: nat where "ADDR_CONF_BSET \<equiv> 0xB7"
abbreviation (input) ADDR_CONF_DIA :: nat where "ADDR_CONF_DIA \<equiv> 0xB9"
abbreviation (input) ADDR_CONF_WIFI :: nat where "ADDR_CONF_WIFI \<equiv> 0xBA"
abbreviation (input) ADDR_CONF_WCHN :: nat where "ADDR_CONF_WCHN \<equiv> 0xBB"
abbreviation (input) ADDR_CONF_SND :: nat where "ADDR_CONF_SND \<equiv> 0xBC"
abbreviation (input) ADDR_CONF_VSR :: nat where "ADDR_CONF_VSR \<equiv> 0xBD"
abbreviation (input) ADDR_CONF_BVS :: nat where "ADDR_CONF_BVS \<equiv> 0xBE"
abbreviation (input) ADDR_CONF_BUZ :: nat where "ADDR_CONF_BUZ \<equiv> 0xBF"
abbreviation (input) ADDR_CONF_EUP :: nat where "ADDR_CONF_EUP \<equiv> 0xC0"
abbreviation (input) ADDR_CONF_EDN :: nat where "ADDR_CONF_EDN \<equiv> 0xC1"
abbreviation (input) ADDR_CONF_EPR :: nat where "ADDR_CONF_EPR \<equiv> 0xC2"
abbreviation (input) ADDR_CONF_ENA :: nat where "ADDR_CONF_ENA \<equiv> 0xC3"
abbreviation (input) ADDR_CONF_ETHSPD :: nat where "ADDR_CONF_ETHSPD \<equiv> 0xC4"
abbreviation (input) ADDR_CONF_TZ :: nat where "ADDR_CONF_TZ \<equiv> 0xC5"
abbreviation (input) ADDR_CONF_ESPNOW :: nat where "ADDR_CONF_ESPNOW \<equiv> 0xC6"
abbreviation (input) ADDR_CONF_WS :: nat where "ADDR_CONF_WS \<equiv> 0xC7"
abbreviation (input) INFO_LOCK_BYTE :: u8 where "INFO_LOCK_BYTE \<equiv> 0x73"
abbreviation (input) CONF_OK_BYTE :: u8 where "CONF_OK_BYTE \<equiv> 0x73"
abbreviation (input) BT_ENABLE_BYTE :: u8 where "BT_ENABLE_BYTE \<equiv> 0x73"
abbreviation (input) SND_ENABLE_BYTE :: u8 where "SND_ENABLE_BYTE \<equiv> 0x01"
abbreviation (input) SND_DISABLE_BYTE :: u8 where "SND_DISABLE_BYTE \<equiv> 0x00"
abbreviation (input) ENC_ENABLE_BYTE :: u8 where "ENC_ENABLE_BYTE \<equiv> 0x01"
abbreviation (input) ENC_DISABLE_BYTE :: u8 where "ENC_DISABLE_BYTE \<equiv> 0x00"
abbreviation (input) ESPNOW_ENABLE_BYTE :: u8 where "ESPNOW_ENABLE_BYTE \<equiv> 0x01"
abbreviation (input) ESPNOW_DISABLE_BYTE :: u8 where "ESPNOW_DISABLE_BYTE \<equiv> 0x00"
abbreviation (input) WS_ENABLE_BYTE :: u8 where "WS_ENABLE_BYTE \<equiv> 0x01"
abbreviation (input) WS_DISABLE_BYTE :: u8 where "WS_DISABLE_BYTE \<equiv> 0x00"
abbreviation (input) GNSS_ENABLE_BYTE :: u8 where "GNSS_ENABLE_BYTE \<equiv> 0x01"
abbreviation (input) GNSS_DISABLE_BYTE :: u8 where "GNSS_DISABLE_BYTE \<equiv> 0x00"
abbreviation (input) EEPROM_RESERVED :: nat where "EEPROM_RESERVED \<equiv> 200"
abbreviation (input) ADDR_CONF_GNSS :: nat where "ADDR_CONF_GNSS \<equiv> 0xA8"
abbreviation (input) ADDR_CONF_GNSS_INTERVAL :: nat where "ADDR_CONF_GNSS_INTERVAL \<equiv> 0xA9"
abbreviation (input) ADDR_CONF_ESPNOW_MODE :: nat where "ADDR_CONF_ESPNOW_MODE \<equiv> 257"
abbreviation (input) ESPNOW_MODE_V1 :: u8 where "ESPNOW_MODE_V1 \<equiv> 0x00"
abbreviation (input) ESPNOW_MODE_V2 :: u8 where "ESPNOW_MODE_V2 \<equiv> 0x01"
abbreviation (input) ADDR_CONF_ESPNOW_LR :: nat where "ADDR_CONF_ESPNOW_LR \<equiv> 258"
abbreviation (input) ESPNOW_LR_ENABLE_BYTE :: u8 where "ESPNOW_LR_ENABLE_BYTE \<equiv> 0x01"
abbreviation (input) ESPNOW_LR_DISABLE_BYTE :: u8 where "ESPNOW_LR_DISABLE_BYTE \<equiv> 0x00"
abbreviation (input) ADDR_CONF_URNS :: nat where "ADDR_CONF_URNS \<equiv> 259"
abbreviation (input) URNS_ENABLE_BYTE :: u8 where "URNS_ENABLE_BYTE \<equiv> 0x01"
abbreviation (input) URNS_DISABLE_BYTE :: u8 where "URNS_DISABLE_BYTE \<equiv> 0x00"
abbreviation (input) ADDR_CONF_URNS_TRANSPORT :: nat where "ADDR_CONF_URNS_TRANSPORT \<equiv> 260"
abbreviation (input) URNS_TRANSPORT_ENABLE_BYTE :: u8 where "URNS_TRANSPORT_ENABLE_BYTE \<equiv> 0x01"
abbreviation (input) URNS_TRANSPORT_DISABLE_BYTE :: u8 where "URNS_TRANSPORT_DISABLE_BYTE \<equiv> 0x00"
abbreviation (input) ADDR_CONF_URNS_LINK_MTU_DISCOVERY :: nat where "ADDR_CONF_URNS_LINK_MTU_DISCOVERY \<equiv> 261"
abbreviation (input) URNS_LINK_MTU_DISCOVERY_ENABLE_BYTE :: u8 where "URNS_LINK_MTU_DISCOVERY_ENABLE_BYTE \<equiv> 0x01"
abbreviation (input) URNS_LINK_MTU_DISCOVERY_DISABLE_BYTE :: u8 where "URNS_LINK_MTU_DISCOVERY_DISABLE_BYTE \<equiv> 0x00"
abbreviation (input) ADDR_CONF_URNS_REMOTE_MGMT :: nat where "ADDR_CONF_URNS_REMOTE_MGMT \<equiv> 262"
abbreviation (input) URNS_REMOTE_MGMT_ENABLE_BYTE :: u8 where "URNS_REMOTE_MGMT_ENABLE_BYTE \<equiv> 0x01"
abbreviation (input) URNS_REMOTE_MGMT_DISABLE_BYTE :: u8 where "URNS_REMOTE_MGMT_DISABLE_BYTE \<equiv> 0x00"
abbreviation (input) ADDR_CONF_URNS_PROBE_DEST :: nat where "ADDR_CONF_URNS_PROBE_DEST \<equiv> 263"
abbreviation (input) URNS_PROBE_DEST_ENABLE_BYTE :: u8 where "URNS_PROBE_DEST_ENABLE_BYTE \<equiv> 0x01"
abbreviation (input) URNS_PROBE_DEST_DISABLE_BYTE :: u8 where "URNS_PROBE_DEST_DISABLE_BYTE \<equiv> 0x00"
abbreviation (input) ADDR_CONF_BT_LEGACY_PAIRING :: nat where "ADDR_CONF_BT_LEGACY_PAIRING \<equiv> 264"
abbreviation (input) BT_LEGACY_PAIRING_ENABLE_BYTE :: u8 where "BT_LEGACY_PAIRING_ENABLE_BYTE \<equiv> 0x01"
abbreviation (input) BT_LEGACY_PAIRING_DISABLE_BYTE :: u8 where "BT_LEGACY_PAIRING_DISABLE_BYTE \<equiv> 0x00"
abbreviation (input) ADDR_CONF_BT_JUST_WORKS :: nat where "ADDR_CONF_BT_JUST_WORKS \<equiv> 265"
abbreviation (input) BT_JUST_WORKS_ENABLE_BYTE :: u8 where "BT_JUST_WORKS_ENABLE_BYTE \<equiv> 0x01"
abbreviation (input) BT_JUST_WORKS_DISABLE_BYTE :: u8 where "BT_JUST_WORKS_DISABLE_BYTE \<equiv> 0x00"
abbreviation (input) ADDR_CONF_MSNGR_RETRIES :: nat where "ADDR_CONF_MSNGR_RETRIES \<equiv> 266"
abbreviation (input) ADDR_CONF_MSNGR_ANNOUNCE_AT_START :: nat where "ADDR_CONF_MSNGR_ANNOUNCE_AT_START \<equiv> 267"
abbreviation (input) MSNGR_ANNOUNCE_AT_START_ENABLE_BYTE :: u8 where "MSNGR_ANNOUNCE_AT_START_ENABLE_BYTE \<equiv> 0x01"
abbreviation (input) MSNGR_ANNOUNCE_AT_START_DISABLE_BYTE :: u8 where "MSNGR_ANNOUNCE_AT_START_DISABLE_BYTE \<equiv> 0x00"
abbreviation (input) ADDR_CONF_MSNGR_ANNOUNCE_INTERVAL :: nat where "ADDR_CONF_MSNGR_ANNOUNCE_INTERVAL \<equiv> 268"
abbreviation (input) ADDR_CONF_MSNGR_RETRY_DELAY :: nat where "ADDR_CONF_MSNGR_RETRY_DELAY \<equiv> 269"
abbreviation (input) ADDR_CONF_BT_AUTO_START :: nat where "ADDR_CONF_BT_AUTO_START \<equiv> 270"
abbreviation (input) BT_AUTO_START_ENABLE_BYTE :: u8 where "BT_AUTO_START_ENABLE_BYTE \<equiv> 0x01"
abbreviation (input) BT_AUTO_START_DISABLE_BYTE :: u8 where "BT_AUTO_START_DISABLE_BYTE \<equiv> 0x00"
abbreviation (input) ADDR_CONF_RADIO_AUTO_START :: nat where "ADDR_CONF_RADIO_AUTO_START \<equiv> 271"
abbreviation (input) RADIO_AUTO_START_ENABLE_BYTE :: u8 where "RADIO_AUTO_START_ENABLE_BYTE \<equiv> 0x01"
abbreviation (input) RADIO_AUTO_START_DISABLE_BYTE :: u8 where "RADIO_AUTO_START_DISABLE_BYTE \<equiv> 0x00"
abbreviation (input) ADDR_CONF_BT_BATTERY_SERVICE :: nat where "ADDR_CONF_BT_BATTERY_SERVICE \<equiv> 272"
abbreviation (input) BT_BATTERY_SERVICE_ENABLE_BYTE :: u8 where "BT_BATTERY_SERVICE_ENABLE_BYTE \<equiv> 0x01"
abbreviation (input) BT_BATTERY_SERVICE_DISABLE_BYTE :: u8 where "BT_BATTERY_SERVICE_DISABLE_BYTE \<equiv> 0x00"
abbreviation (input) ADDR_CONF_URNS_INTERFACE :: nat where "ADDR_CONF_URNS_INTERFACE \<equiv> 273"
abbreviation (input) URNS_INTERFACE_LORA_ONLY :: u8 where "URNS_INTERFACE_LORA_ONLY \<equiv> 0x00"
abbreviation (input) URNS_INTERFACE_ESPNOW_ONLY :: u8 where "URNS_INTERFACE_ESPNOW_ONLY \<equiv> 0x01"
abbreviation (input) URNS_INTERFACE_BOTH :: u8 where "URNS_INTERFACE_BOTH \<equiv> 0x02"
abbreviation (input) ADDR_CONF_MSNGR_PROP_ON_FAIL :: nat where "ADDR_CONF_MSNGR_PROP_ON_FAIL \<equiv> 274"
abbreviation (input) MSNGR_PROP_ON_FAIL_ENABLE_BYTE :: u8 where "MSNGR_PROP_ON_FAIL_ENABLE_BYTE \<equiv> 0x01"
abbreviation (input) MSNGR_PROP_ON_FAIL_DISABLE_BYTE :: u8 where "MSNGR_PROP_ON_FAIL_DISABLE_BYTE \<equiv> 0x00"
abbreviation (input) ADDR_CONF_MSNGR_SYNC_INTERVAL :: nat where "ADDR_CONF_MSNGR_SYNC_INTERVAL \<equiv> 275"
abbreviation (input) ADDR_CONF_MSNGR_SYNC_LIMIT :: nat where "ADDR_CONF_MSNGR_SYNC_LIMIT \<equiv> 276"
abbreviation (input) ADDR_CONF_MSNGR_STAMP_COST :: nat where "ADDR_CONF_MSNGR_STAMP_COST \<equiv> 277"
abbreviation (input) ADDR_CONF_VAULT_ENABLED :: nat where "ADDR_CONF_VAULT_ENABLED \<equiv> 278"
abbreviation (input) VAULT_ENABLE_BYTE :: u8 where "VAULT_ENABLE_BYTE \<equiv> 0x01"
abbreviation (input) VAULT_DISABLE_BYTE :: u8 where "VAULT_DISABLE_BYTE \<equiv> 0x00"
abbreviation (input) ADDR_CONF_BLEKBD_ENABLED :: nat where "ADDR_CONF_BLEKBD_ENABLED \<equiv> 279"
abbreviation (input) BLEKBD_ENABLE_BYTE :: u8 where "BLEKBD_ENABLE_BYTE \<equiv> 0x01"
abbreviation (input) BLEKBD_DISABLE_BYTE :: u8 where "BLEKBD_DISABLE_BYTE \<equiv> 0x00"
abbreviation (input) ADDR_CONF_BLEKBD_PEER_ADDR_TYPE :: nat where "ADDR_CONF_BLEKBD_PEER_ADDR_TYPE \<equiv> 280"
abbreviation (input) ADDR_CONF_BLEKBD_PEER_ADDR :: nat where "ADDR_CONF_BLEKBD_PEER_ADDR \<equiv> 281"
abbreviation (input) ADDR_CONF_MSNGR_PLAYBACK_VOLUME :: nat where "ADDR_CONF_MSNGR_PLAYBACK_VOLUME \<equiv> 287"
abbreviation (input) CONFIG_SIZE :: nat where "CONFIG_SIZE \<equiv> 256"
abbreviation (input) ADDR_CONF_SSID :: nat where "ADDR_CONF_SSID \<equiv> 0x00"
abbreviation (input) ADDR_CONF_PSK :: nat where "ADDR_CONF_PSK \<equiv> 0x21"
abbreviation (input) ADDR_CONF_IP :: nat where "ADDR_CONF_IP \<equiv> 0x42"
abbreviation (input) ADDR_CONF_NM :: nat where "ADDR_CONF_NM \<equiv> 0x46"
abbreviation (input) ADDR_CONF_ETH_IP :: nat where "ADDR_CONF_ETH_IP \<equiv> 0x4A"
abbreviation (input) ADDR_CONF_ETH_NM :: nat where "ADDR_CONF_ETH_NM \<equiv> 0x4E"
abbreviation (input) ADDR_CONF_GW :: nat where "ADDR_CONF_GW \<equiv> 0x52"
abbreviation (input) ADDR_CONF_DNS :: nat where "ADDR_CONF_DNS \<equiv> 0x56"
abbreviation (input) ADDR_CONF_ETH_GW :: nat where "ADDR_CONF_ETH_GW \<equiv> 0x5A"
abbreviation (input) ADDR_CONF_ETH_DNS :: nat where "ADDR_CONF_ETH_DNS \<equiv> 0x5E"

abbreviation (input) DEV_SIG_LEN :: nat where "DEV_SIG_LEN \<equiv> 64"
abbreviation (input) DEV_HASH_LEN :: nat where "DEV_HASH_LEN \<equiv> 32"
abbreviation (input) EEPROM_SIG_LEN :: nat where "EEPROM_SIG_LEN \<equiv> 128"

section \<open>Layouts: name, address, width in bytes\<close>

definition info_layout :: "(string \<times> nat \<times> nat) list" where
  "info_layout =
    [(''PRODUCT'', ADDR_PRODUCT, 1),
     (''MODEL'', ADDR_MODEL, 1),
     (''HW_REV'', ADDR_HW_REV, 1),
     (''SERIAL'', ADDR_SERIAL, 4),
     (''MADE'', ADDR_MADE, 4),
     (''CHKSUM'', ADDR_CHKSUM, 16),
     (''SIGNATURE'', ADDR_SIGNATURE, 128),
     (''INFO_LOCK'', ADDR_INFO_LOCK, 1),
     (''CONF_SF'', ADDR_CONF_SF, 1),
     (''CONF_CR'', ADDR_CONF_CR, 1),
     (''CONF_TXP'', ADDR_CONF_TXP, 1),
     (''CONF_BW'', ADDR_CONF_BW, 4),
     (''CONF_FREQ'', ADDR_CONF_FREQ, 4),
     (''CONF_OK'', ADDR_CONF_OK, 1),
     (''CONF_BT'', ADDR_CONF_BT, 1),
     (''CONF_DSET'', ADDR_CONF_DSET, 1),
     (''CONF_DINT'', ADDR_CONF_DINT, 1),
     (''CONF_DADR'', ADDR_CONF_DADR, 1),
     (''CONF_DBLK'', ADDR_CONF_DBLK, 1),
     (''CONF_DROT'', ADDR_CONF_DROT, 1),
     (''CONF_PSET'', ADDR_CONF_PSET, 1),
     (''CONF_PINT'', ADDR_CONF_PINT, 1),
     (''CONF_BSET'', ADDR_CONF_BSET, 1),
     (''CONF_DIA'', ADDR_CONF_DIA, 1),
     (''CONF_WIFI'', ADDR_CONF_WIFI, 1),
     (''CONF_WCHN'', ADDR_CONF_WCHN, 1),
     (''CONF_SND'', ADDR_CONF_SND, 1),
     (''CONF_VSR'', ADDR_CONF_VSR, 1),
     (''CONF_BVS'', ADDR_CONF_BVS, 1),
     (''CONF_BUZ'', ADDR_CONF_BUZ, 1),
     (''CONF_EUP'', ADDR_CONF_EUP, 1),
     (''CONF_EDN'', ADDR_CONF_EDN, 1),
     (''CONF_EPR'', ADDR_CONF_EPR, 1),
     (''CONF_ENA'', ADDR_CONF_ENA, 1),
     (''CONF_ETHSPD'', ADDR_CONF_ETHSPD, 1),
     (''CONF_TZ'', ADDR_CONF_TZ, 1),
     (''CONF_ESPNOW'', ADDR_CONF_ESPNOW, 1),
     (''CONF_WS'', ADDR_CONF_WS, 1),
     (''CONF_GNSS'', ADDR_CONF_GNSS, 1),
     (''CONF_GNSS_INTERVAL'', ADDR_CONF_GNSS_INTERVAL, 1)]"

definition raw_layout :: "(string \<times> nat \<times> nat) list" where
  "raw_layout =
    [(''CONF_ESPNOW_MODE'', ADDR_CONF_ESPNOW_MODE, 1),
     (''CONF_ESPNOW_LR'', ADDR_CONF_ESPNOW_LR, 1),
     (''CONF_URNS'', ADDR_CONF_URNS, 1),
     (''CONF_URNS_TRANSPORT'', ADDR_CONF_URNS_TRANSPORT, 1),
     (''CONF_URNS_LINK_MTU_DISCOVERY'', ADDR_CONF_URNS_LINK_MTU_DISCOVERY, 1),
     (''CONF_URNS_REMOTE_MGMT'', ADDR_CONF_URNS_REMOTE_MGMT, 1),
     (''CONF_URNS_PROBE_DEST'', ADDR_CONF_URNS_PROBE_DEST, 1),
     (''CONF_BT_LEGACY_PAIRING'', ADDR_CONF_BT_LEGACY_PAIRING, 1),
     (''CONF_BT_JUST_WORKS'', ADDR_CONF_BT_JUST_WORKS, 1),
     (''CONF_MSNGR_RETRIES'', ADDR_CONF_MSNGR_RETRIES, 1),
     (''CONF_MSNGR_ANNOUNCE_AT_START'', ADDR_CONF_MSNGR_ANNOUNCE_AT_START, 1),
     (''CONF_MSNGR_ANNOUNCE_INTERVAL'', ADDR_CONF_MSNGR_ANNOUNCE_INTERVAL, 1),
     (''CONF_MSNGR_RETRY_DELAY'', ADDR_CONF_MSNGR_RETRY_DELAY, 1),
     (''CONF_BT_AUTO_START'', ADDR_CONF_BT_AUTO_START, 1),
     (''CONF_RADIO_AUTO_START'', ADDR_CONF_RADIO_AUTO_START, 1),
     (''CONF_BT_BATTERY_SERVICE'', ADDR_CONF_BT_BATTERY_SERVICE, 1),
     (''CONF_URNS_INTERFACE'', ADDR_CONF_URNS_INTERFACE, 1),
     (''CONF_MSNGR_PROP_ON_FAIL'', ADDR_CONF_MSNGR_PROP_ON_FAIL, 1),
     (''CONF_MSNGR_SYNC_INTERVAL'', ADDR_CONF_MSNGR_SYNC_INTERVAL, 1),
     (''CONF_MSNGR_SYNC_LIMIT'', ADDR_CONF_MSNGR_SYNC_LIMIT, 1),
     (''CONF_MSNGR_STAMP_COST'', ADDR_CONF_MSNGR_STAMP_COST, 1),
     (''CONF_VAULT_ENABLED'', ADDR_CONF_VAULT_ENABLED, 1),
     (''CONF_BLEKBD_ENABLED'', ADDR_CONF_BLEKBD_ENABLED, 1),
     (''CONF_BLEKBD_PEER_ADDR_TYPE'', ADDR_CONF_BLEKBD_PEER_ADDR_TYPE, 1),
     (''CONF_BLEKBD_PEER_ADDR'', ADDR_CONF_BLEKBD_PEER_ADDR, 6),
     (''CONF_MSNGR_PLAYBACK_VOLUME'', ADDR_CONF_MSNGR_PLAYBACK_VOLUME, 1)]"

definition config_layout :: "(string \<times> nat \<times> nat) list" where
  "config_layout =
    [(''CONF_SSID'', ADDR_CONF_SSID, 33),
     (''CONF_PSK'', ADDR_CONF_PSK, 33),
     (''CONF_IP'', ADDR_CONF_IP, 4),
     (''CONF_NM'', ADDR_CONF_NM, 4),
     (''CONF_ETH_IP'', ADDR_CONF_ETH_IP, 4),
     (''CONF_ETH_NM'', ADDR_CONF_ETH_NM, 4),
     (''CONF_GW'', ADDR_CONF_GW, 4),
     (''CONF_DNS'', ADDR_CONF_DNS, 4),
     (''CONF_ETH_GW'', ADDR_CONF_ETH_GW, 4),
     (''CONF_ETH_DNS'', ADDR_CONF_ETH_DNS, 4)]"

section \<open>Physical addresses\<close>

definition eeprom_offset :: "board \<Rightarrow> nat" where
  "eeprom_offset b = eeprom_size b - EEPROM_RESERVED"

definition eeprom_addr :: "board \<Rightarrow> nat \<Rightarrow> nat" where
  "eeprom_addr b a = a + eeprom_offset b"

definition config_addr :: "board \<Rightarrow> nat \<Rightarrow> nat" where
  "config_addr b a = a + config_offset b"

definition dev_sig_addr :: "board \<Rightarrow> nat \<Rightarrow> nat" where
  "dev_sig_addr b a = a + (eeprom_size b - EEPROM_RESERVED - DEV_SIG_LEN)"

definition dev_fwhash_addr :: "board \<Rightarrow> nat \<Rightarrow> nat" where
  "dev_fwhash_addr b a = a + (eeprom_size b - EEPROM_RESERVED - DEV_SIG_LEN - DEV_HASH_LEN)"

definition device_layout :: "board \<Rightarrow> (string \<times> nat \<times> nat) list" where
  "device_layout b = [(''dev_sig'', dev_sig_addr b 0, DEV_SIG_LEN),
                      (''dev_firmware_hash_target'', dev_fwhash_addr b 0, DEV_HASH_LEN)]"

text \<open>
  The raw addresses a build compiles: all of them on ESP32, and on nRF52 the two whose code is
  not restricted to ESP32 (\<open>radio_auto_start_conf_save\<close>, \<open>bt_battery_service_conf_save\<close>).
\<close>

definition nrf_raw_layout :: "(string \<times> nat \<times> nat) list" where
  "nrf_raw_layout = [(''CONF_RADIO_AUTO_START'', ADDR_CONF_RADIO_AUTO_START, 1),
                     (''CONF_BT_BATTERY_SERVICE'', ADDR_CONF_BT_BATTERY_SERVICE, 1)]"

definition physical_layout :: "board \<Rightarrow> (string \<times> nat \<times> nat) list" where
  "physical_layout b =
     map (\<lambda>(n, a, w). (n, eeprom_addr b a, w)) info_layout @
     (case mcu b of
        McuEsp32 \<Rightarrow> raw_layout @ map (\<lambda>(n, a, w). (n, config_addr b a, w)) config_layout @ device_layout b
      | McuNrf52 \<Rightarrow> nrf_raw_layout @ device_layout b
      | _ \<Rightarrow> device_layout b)"

section \<open>Overlap\<close>

definition overlaps :: "string \<times> nat \<times> nat \<Rightarrow> string \<times> nat \<times> nat \<Rightarrow> bool" where
  "overlaps p q = (case p of (n, a, w) \<Rightarrow> case q of (m, c, v) \<Rightarrow> a < c + v \<and> c < a + w)"

fun collisions :: "(string \<times> nat \<times> nat) list \<Rightarrow> (string \<times> string) list" where
  "collisions [] = []"
| "collisions (p # ps) = map (\<lambda>q. (fst p, fst q)) (filter (overlaps p) ps) @ collisions ps"

definition in_eeprom :: "board \<Rightarrow> string \<times> nat \<times> nat \<Rightarrow> bool" where
  "in_eeprom b p = (case p of (n, a, w) \<Rightarrow> a + w \<le> eeprom_size b)"

text \<open>A layout with no collisions gives every two of its fields disjoint address ranges.\<close>

lemma collisions_none:
  assumes "collisions ps = []" "i < j" "j < length ps"
  shows "\<not> overlaps (ps ! i) (ps ! j)"
  using assms
proof (induction ps arbitrary: i j)
  case (Cons p ps)
  then have f: "filter (overlaps p) ps = []" and c: "collisions ps = []" by simp_all
  show ?case
  proof (cases i)
    case 0
    then obtain k where k: "j = Suc k" using Cons.prems by (cases j) auto
    have "ps ! k \<in> set ps" using Cons.prems k by simp
    then show ?thesis using f 0 k by (auto simp: filter_empty_conv)
  next
    case (Suc i')
    then obtain k where "j = Suc k" using Cons.prems by (cases j) auto
    then show ?thesis using Cons.IH [OF c] Cons.prems Suc by simp
  qed
qed simp

lemma overlaps_iff:
  "0 < w \<Longrightarrow> 0 < v \<Longrightarrow> overlaps (n, a, w) (m, c, v) \<longleftrightarrow> {a..<a + w} \<inter> {c..<c + v} \<noteq> {}"
proof -
  assume "0 < w" "0 < v"
  then have "a < c + v \<and> c < a + w \<Longrightarrow> max a c \<in> {a..<a + w} \<inter> {c..<c + v}" by auto
  moreover have "x \<in> {a..<a + w} \<inter> {c..<c + v} \<Longrightarrow> a < c + v \<and> c < a + w" for x by auto
  ultimately show ?thesis unfolding overlaps_def prod.case by blast
qed

section \<open>Groups of fields\<close>

definition within :: "nat \<Rightarrow> nat \<Rightarrow> (string \<times> nat \<times> nat) list \<Rightarrow> bool" where
  "within lo hi ps = list_all (\<lambda>(n, a, w). lo \<le> a \<and> a + w \<le> hi) ps"

definition shift_layout :: "nat \<Rightarrow> (string \<times> nat \<times> nat) list \<Rightarrow> (string \<times> nat \<times> nat) list" where
  "shift_layout k ps = map (\<lambda>(n, a, w). (n, a + k, w)) ps"

lemma within_append [simp]: "within lo hi (ps @ qs) \<longleftrightarrow> within lo hi ps \<and> within lo hi qs"
  by (simp add: within_def)

lemma within_mono: "within lo hi ps \<Longrightarrow> lo' \<le> lo \<Longrightarrow> hi \<le> hi' \<Longrightarrow> within lo' hi' ps"
  by (fastforce simp: within_def list_all_iff)

lemma within_shift [simp]: "within lo hi ps \<Longrightarrow> within (k + lo) (k + hi) (shift_layout k ps)"
  by (fastforce simp: within_def shift_layout_def list_all_iff)

definition apart :: "(string \<times> nat \<times> nat) list \<Rightarrow> (string \<times> nat \<times> nat) list \<Rightarrow> bool" where
  "apart ps qs = list_all (\<lambda>p. list_all (\<lambda>q. \<not> overlaps p q) qs) ps"

lemma apart_append [simp]: "apart ps (qs @ rs) \<longleftrightarrow> apart ps qs \<and> apart ps rs"
  by (auto simp: apart_def list_all_iff)

lemma apart_within:
  assumes "within lo hi ps" "within lo' hi' qs" "hi \<le> lo' \<or> hi' \<le> lo"
  shows "apart ps qs"
  unfolding apart_def list_all_iff
proof (intro ballI)
  fix p q assume "p \<in> set ps" "q \<in> set qs"
  then have "lo \<le> fst (snd p) \<and> fst (snd p) + snd (snd p) \<le> hi"
    and "lo' \<le> fst (snd q) \<and> fst (snd q) + snd (snd q) \<le> hi'"
    using assms(1,2) by (auto simp: within_def list_all_iff)
  then show "\<not> overlaps p q"
    using assms(3) by (auto simp: overlaps_def split: prod.splits)
qed

lemma collisions_append:
  "apart ps qs \<Longrightarrow> collisions (ps @ qs) = collisions ps @ collisions qs"
proof (induction ps)
  case (Cons p ps)
  then have "filter (overlaps p) qs = []" by (auto simp: apart_def list_all_iff filter_empty_conv)
  moreover have "apart ps qs" using Cons.prems by (simp add: apart_def)
  ultimately show ?case using Cons.IH by simp
qed simp

lemma in_eeprom_within: "within lo (eeprom_size b) ps \<Longrightarrow> list_all (in_eeprom b) ps"
  by (fastforce simp: within_def in_eeprom_def list_all_iff)

lemma filter_overlaps_shift:
  "map (\<lambda>q. (fst p, fst q)) (filter (overlaps (fst p, fst (snd p) + k, snd (snd p))) (shift_layout k ps)) =
   map (\<lambda>q. (fst p, fst q)) (filter (overlaps p) ps)"
  by (induction ps) (auto simp: shift_layout_def overlaps_def split: prod.splits)

lemma collisions_shift [simp]: "collisions (shift_layout k ps) = collisions ps"
proof (induction ps)
  case (Cons p ps)
  have "shift_layout k (p # ps) = (fst p, fst (snd p) + k, snd (snd p)) # shift_layout k ps"
    by (simp add: shift_layout_def split: prod.splits)
  with Cons filter_overlaps_shift [of p k ps] show ?case by simp
qed (simp add: shift_layout_def)

lemma info_layout_ok: "collisions info_layout = []" "within 0 EEPROM_RESERVED info_layout"
  by (simp_all add: info_layout_def overlaps_def within_def)

lemma raw_layout_ok: "collisions raw_layout = []" "within 257 288 raw_layout"
  by (simp_all add: raw_layout_def overlaps_def within_def)

lemma config_layout_ok: "collisions config_layout = []" "within 0 CONFIG_SIZE config_layout"
  by (simp_all add: config_layout_def overlaps_def within_def)

lemma device_layout_ok:
  assumes "296 \<le> eeprom_size b"
  shows "collisions (device_layout b) = []"
    and "within (eeprom_size b - 296) (eeprom_offset b) (device_layout b)"
  using assms by (auto simp: device_layout_def dev_sig_addr_def dev_fwhash_addr_def overlaps_def
      within_def eeprom_offset_def)

lemma map_eeprom_addr: "map (\<lambda>(n, a, w). (n, eeprom_addr b a, w)) ps = shift_layout (eeprom_offset b) ps"
  by (simp add: shift_layout_def eeprom_addr_def)

lemma map_config_addr: "map (\<lambda>(n, a, w). (n, config_addr b a, w)) ps = shift_layout (config_offset b) ps"
  by (simp add: shift_layout_def config_addr_def)

text \<open>
  The physical layout of an ESP32 build: information block at the top, device signature and
  firmware hash below it, the configuration block at the bottom and the raw fields between.
\<close>

lemma esp32_layout:
  assumes "mcu b = McuEsp32" "config_offset b = 0" "584 \<le> eeprom_size b"
  shows "collisions (physical_layout b) = []" "within 0 (eeprom_size b) (physical_layout b)"
proof -
  let ?o = "eeprom_offset b"
  let ?i = "shift_layout ?o info_layout" and ?c = "shift_layout 0 config_layout"
    and ?d = "device_layout b"
  have o: "eeprom_size b = ?o + EEPROM_RESERVED" "384 \<le> ?o"
    using assms by (simp_all add: eeprom_offset_def)
  have d: "within 288 ?o ?d" "collisions ?d = []"
    using device_layout_ok [of b] o by (auto intro: within_mono)
  have i: "within ?o (eeprom_size b) ?i"
    using within_shift [OF info_layout_ok(2), of ?o] o by simp
  have c: "within 0 256 ?c" using within_shift [OF config_layout_ok(2), of 0] by simp
  note r = raw_layout_ok
  have e: "physical_layout b = ?i @ raw_layout @ ?c @ ?d"
    using assms by (simp add: physical_layout_def map_eeprom_addr map_config_addr)
  have "apart ?c ?d" "apart raw_layout (?c @ ?d)" "apart ?i (raw_layout @ ?c @ ?d)"
    using apart_within [OF c d(1)] apart_within [OF r(2) c] apart_within [OF r(2) d(1)]
      apart_within [OF i r(2)] apart_within [OF i c] apart_within [OF i d(1)] o by simp_all
  then show "collisions (physical_layout b) = []"
    by (simp add: e collisions_append info_layout_ok r config_layout_ok d)
  show "within 0 (eeprom_size b) (physical_layout b)"
    using within_mono [OF i] within_mono [OF r(2)] within_mono [OF c] within_mono [OF d(1)] o
    by (simp add: e)
qed

lemma avr_layout:
  assumes "mcu b = Mcu1284P \<or> mcu b = Mcu2560" "296 \<le> eeprom_size b"
  shows "collisions (physical_layout b) = []" "within 0 (eeprom_size b) (physical_layout b)"
proof -
  let ?o = "eeprom_offset b"
  let ?i = "shift_layout ?o info_layout" and ?d = "device_layout b"
  have o: "eeprom_size b = ?o + EEPROM_RESERVED" using assms by (simp add: eeprom_offset_def)
  have i: "within ?o (eeprom_size b) ?i"
    using within_shift [OF info_layout_ok(2), of ?o] o by simp
  note d = device_layout_ok [OF assms(2)]
  have e: "physical_layout b = ?i @ ?d"
    using assms by (auto simp: physical_layout_def map_eeprom_addr)
  have "apart ?i ?d" using apart_within [OF i d(2)] by simp
  then show "collisions (physical_layout b) = []"
    by (simp add: e collisions_append info_layout_ok d)
  show "within 0 (eeprom_size b) (physical_layout b)"
    using within_mono [OF i] within_mono [OF d(2)] o by (simp add: e)
qed

lemma nrf52_layout:
  assumes "mcu b = McuNrf52" "eeprom_size b = 296"
  shows "collisions (physical_layout b) = [(''CONF_BT'', ''CONF_BT_BATTERY_SERVICE'')]"
    and "within 0 (eeprom_size b) (physical_layout b)"
  using assms by (simp_all add: physical_layout_def info_layout_def nrf_raw_layout_def device_layout_def
      eeprom_addr_def dev_sig_addr_def dev_fwhash_addr_def eeprom_offset_def overlaps_def within_def)

lemmas layout_defs = info_layout_def raw_layout_def config_layout_def device_layout_def
  nrf_raw_layout_def physical_layout_def eeprom_addr_def config_addr_def dev_sig_addr_def
  dev_fwhash_addr_def eeprom_offset_def

section \<open>Properties\<close>

text \<open>
  On every ESP32 build with a store of at least 584 bytes and the configuration block at 0, no
  two stored fields share a byte: the provisioning block, the raw settings, the Wi-Fi and
  Ethernet configuration, the device signature and the firmware hash are pairwise disjoint, and
  all of them lie inside the store.
\<close>

theorem esp32_fields_disjoint:
  assumes "mcu b = McuEsp32" "config_offset b = 0" "584 \<le> eeprom_size b"
    and "i < j" "j < length (physical_layout b)"
  shows "\<not> overlaps (physical_layout b ! i) (physical_layout b ! j) \<and>
         list_all (in_eeprom b) (physical_layout b)"
  using collisions_none [OF esp32_layout(1) [OF assms(1-3)] assms(4,5)]
    in_eeprom_within [OF esp32_layout(2) [OF assms(1-3)]] by simp

theorem esp32_fields_disjoint_witness:
  "\<not> overlaps (physical_layout board_heltec32_v4 ! 14) (physical_layout board_heltec32_v4 ! 55) \<and>
   list_all (in_eeprom board_heltec32_v4) (physical_layout board_heltec32_v4)"
  by (rule esp32_fields_disjoint)
    (simp_all add: board_values physical_layout_def info_layout_def raw_layout_def)

text \<open>
  On the nRF52 builds (a store of 296 bytes) exactly one pair of fields shares a byte: the
  raw address of the battery service setting is the physical address of the Bluetooth enable
  byte.
\<close>

theorem nrf52_battery_service_collides_with_bt:
  assumes "mcu b = McuNrf52" "eeprom_size b = 296"
  shows "collisions (physical_layout b) = [(''CONF_BT'', ''CONF_BT_BATTERY_SERVICE'')] \<and>
         ADDR_CONF_BT_BATTERY_SERVICE = eeprom_addr b ADDR_CONF_BT"
  using nrf52_layout(1) [OF assms] assms by (simp add: eeprom_addr_def eeprom_offset_def)

theorem nrf52_battery_service_collides_with_bt_witness:
  "collisions (physical_layout board_rak4631) = [(''CONF_BT'', ''CONF_BT_BATTERY_SERVICE'')] \<and>
   ADDR_CONF_BT_BATTERY_SERVICE = eeprom_addr board_rak4631 ADDR_CONF_BT"
  by (rule nrf52_battery_service_collides_with_bt) (simp_all add: board_values)

end
