(* ===== verification/Rom.thy ===== *)
theory Rom
  imports Host Rom_Map
begin

text \<open>
  The non-volatile store (\<^verbatim>\<open>Utilities.h\<close>): reading and updating bytes, the information lock,
  dumping, erasing, the provisioning checks and the routines that save one setting each. The
  state \<open>rom\<close> extends the host link with the bytes of the store, the number of physical writes
  and flushes, and the globals these routines write. On nRF52 the store is a file
  (\<open>ee_file\<close>: it exists); reopening it in \<open>eeprom_flush\<close> is taken to succeed.

  The interface of the store to its users is the locale \<open>byte_store\<close>; it is interpreted on
  \<open>eeprom\<close> and \<open>eeprom_update\<close> of every build.
\<close>

section \<open>The contract of a byte store\<close>

fun write_from :: "(nat \<Rightarrow> u8 \<Rightarrow> 's \<Rightarrow> 's) \<Rightarrow> nat \<Rightarrow> u8 list \<Rightarrow> 's \<Rightarrow> 's" where
  "write_from wr a [] s = s"
| "write_from wr a (x # xs) s = write_from wr (Suc a) xs (wr a x s)"

definition read_from :: "('s \<Rightarrow> nat \<Rightarrow> u8) \<Rightarrow> nat \<Rightarrow> nat \<Rightarrow> 's \<Rightarrow> u8 list" where
  "read_from rd a n s = map (\<lambda>i. rd s (a + i)) [0..<n]"

locale byte_store =
  fixes rd :: "'s \<Rightarrow> nat \<Rightarrow> u8"
    and wr :: "nat \<Rightarrow> u8 \<Rightarrow> 's \<Rightarrow> 's"
    and cost :: "'s \<Rightarrow> nat"
  assumes rd_wr: "rd (wr a x s) c = (if c = a then x else rd s c)"
    and wr_same: "rd s a = x \<Longrightarrow> wr a x s = s"
    and cost_wr: "cost (wr a x s) \<le> Suc (cost s)"
begin

lemma rd_write_from:
  "rd (write_from wr a xs s) c = (if a \<le> c \<and> c < a + length xs then xs ! (c - a) else rd s c)"
proof (induction xs arbitrary: a s)
  case (Cons x xs)
  show ?case by (auto simp: Cons.IH rd_wr nth_Cons' Suc_diff_Suc not_less_eq_eq)
qed auto

lemma read_write_from: "length xs = n \<Longrightarrow> read_from rd a n (write_from wr a xs s) = xs"
  by (auto simp: read_from_def rd_write_from intro: nth_equalityI)

lemma read_write_from_other:
  "c + n \<le> a \<or> a + length xs \<le> c \<Longrightarrow> read_from rd c n (write_from wr a xs s) = read_from rd c n s"
  by (auto simp: read_from_def rd_write_from)

text \<open>Saving what is already stored changes nothing and costs nothing.\<close>

lemma write_from_same: "read_from rd a (length xs) s = xs \<Longrightarrow> write_from wr a xs s = s"
proof (induction xs arbitrary: a)
  case (Cons x xs)
  then have "rd s a # map (\<lambda>i. rd s (Suc (a + i))) [0..<length xs] = x # xs"
    by (simp add: read_from_def upt_Suc_map del: upt_Suc)
  then have "rd s a = x" "read_from rd (Suc a) (length xs) s = xs"
    by (simp_all add: read_from_def)
  then show ?case using Cons.IH wr_same [of s a x] by simp
qed simp

lemma cost_write_from: "cost (write_from wr a xs s) \<le> cost s + length xs"
proof (induction xs arbitrary: a s)
  case (Cons x xs)
  have "cost (write_from wr (Suc a) xs (wr a x s)) \<le> cost (wr a x s) + length xs" by (rule Cons.IH)
  then show ?case using cost_wr [of a x s] by simp
qed simp

end

section \<open>State\<close>

record rom = host +
  eeprom :: "nat \<Rightarrow> u8"
  ee_writes :: nat
  ee_flushes :: nat
  ee_file :: bool
  model :: u8
  hwrev :: u8
  sound_enabled :: bool
  encoder_enabled :: bool
  radio_auto_start_enabled :: bool
  display_blanking_code :: u8
  display_blanking_enabled :: bool
  display_blanking_timeout :: u32

section \<open>Bytes\<close>

text \<open>The file-backed store of nRF52 builds: \<open>#if !HAS_EEPROM && MCU_VARIANT == MCU_NRF52\<close>.\<close>

definition nrf_file :: "board \<Rightarrow> bool" where
  "nrf_file b \<longleftrightarrow> \<not> has_eeprom b \<and> mcu b = McuNrf52"

definition eeprom_flush :: "'a rom_scheme \<Rightarrow> 'a rom_scheme" where
  "eeprom_flush s = s\<lparr>ee_flushes := Suc (ee_flushes s)\<rparr>"

definition flush_if_nrf :: "board \<Rightarrow> 'a rom_scheme \<Rightarrow> 'a rom_scheme" where
  "flush_if_nrf b s = (if nrf_file b then eeprom_flush s else s)"

definition eeprom_begin :: "board \<Rightarrow> 'a rom_scheme \<Rightarrow> 'a rom_scheme" where
  "eeprom_begin b s =
     (if \<not> ee_file s then
        eeprom_flush (s\<lparr>ee_file := True, eeprom := (\<lambda>a. if a < eeprom_size b then 0xFF else eeprom s a)\<rparr>)
      else s)"

definition eeprom_read :: "'a rom_scheme \<Rightarrow> nat \<Rightarrow> u8" where
  "eeprom_read s a = eeprom s a"

definition store_byte :: "nat \<Rightarrow> u8 \<Rightarrow> 'a rom_scheme \<Rightarrow> 'a rom_scheme" where
  "store_byte a x s = s\<lparr>eeprom := (eeprom s)(a := x), ee_writes := Suc (ee_writes s)\<rparr>"

definition eeprom_update :: "board \<Rightarrow> nat \<Rightarrow> u8 \<Rightarrow> 'a rom_scheme \<Rightarrow> 'a rom_scheme" where
  "eeprom_update b a x s =
     (if eeprom_read s a \<noteq> x then
        (let s = store_byte a x s in if mcu b = McuNrf52 then eeprom_flush s else s)
      else s)"

definition kiss_indicate_error :: "board \<Rightarrow> u8 \<Rightarrow> 'a host_scheme \<Rightarrow> 'a host_scheme" where
  "kiss_indicate_error b e s =
     serial_write b FEND (serial_write b e (serial_write b CMD_ERROR (serial_write b FEND s)))"

definition eeprom_info_locked :: "board \<Rightarrow> 'a rom_scheme \<Rightarrow> bool" where
  "eeprom_info_locked b s \<longleftrightarrow> eeprom_read s (eeprom_addr b ADDR_INFO_LOCK) = INFO_LOCK_BYTE"

definition eeprom_lock_set :: "board \<Rightarrow> 'a rom_scheme \<Rightarrow> bool" where
  "eeprom_lock_set b s \<longleftrightarrow> eeprom_read s (eeprom_addr b ADDR_INFO_LOCK) = INFO_LOCK_BYTE"

definition eeprom_write :: "board \<Rightarrow> u8 \<Rightarrow> u8 \<Rightarrow> 'a rom_scheme \<Rightarrow> 'a rom_scheme" where
  "eeprom_write b a x s =
     (if \<not> eeprom_info_locked b s \<and> unat a < EEPROM_RESERVED
      then eeprom_update b (eeprom_addr b (unat a)) x s
      else kiss_indicate_error b ERROR_EEPROM_LOCKED s)"

definition eeprom_erase :: "board \<Rightarrow> 'a rom_scheme \<Rightarrow> 'a rom_scheme outcome" where
  "eeprom_erase b s =
     Rebooted (if nrf_file b then s\<lparr>ee_file := False\<rparr>
               else write_from (eeprom_update b) (eeprom_addr b 0) (replicate EEPROM_RESERVED 0xFF) s)"

definition unlock_rom :: "board \<Rightarrow> 'a rom_scheme \<Rightarrow> 'a rom_scheme outcome" where
  "unlock_rom b s = eeprom_erase b s"

section \<open>Dumps\<close>

definition dump_range :: "board \<Rightarrow> nat \<Rightarrow> nat \<Rightarrow> 'a rom_scheme \<Rightarrow> 'a rom_scheme" where
  "dump_range b a n s = escaped_writes b (read_from eeprom_read a n s) s"

definition eeprom_dump_info :: "board \<Rightarrow> 'a rom_scheme \<Rightarrow> 'a rom_scheme" where
  "eeprom_dump_info b = dump_range b (eeprom_addr b ADDR_PRODUCT) (ADDR_INFO_LOCK + 1 - ADDR_PRODUCT)"

definition eeprom_dump_config :: "board \<Rightarrow> 'a rom_scheme \<Rightarrow> 'a rom_scheme" where
  "eeprom_dump_config b = dump_range b (eeprom_addr b ADDR_CONF_SF) (ADDR_CONF_OK + 1 - ADDR_CONF_SF)"

definition eeprom_dump_all :: "board \<Rightarrow> 'a rom_scheme \<Rightarrow> 'a rom_scheme" where
  "eeprom_dump_all b = dump_range b (eeprom_addr b 0) EEPROM_RESERVED"

definition eeprom_config_dump_all :: "board \<Rightarrow> 'a rom_scheme \<Rightarrow> 'a rom_scheme" where
  "eeprom_config_dump_all b s =
     (if mcu b = McuEsp32 then dump_range b (config_addr b 0) CONFIG_SIZE s else s)"

definition kiss_dump_eeprom :: "board \<Rightarrow> 'a rom_scheme \<Rightarrow> 'a rom_scheme" where
  "kiss_dump_eeprom b s =
     serial_write b FEND (eeprom_dump_all b (serial_write b CMD_ROM_READ (serial_write b FEND s)))"

definition kiss_dump_config :: "board \<Rightarrow> 'a rom_scheme \<Rightarrow> 'a rom_scheme" where
  "kiss_dump_config b s =
     serial_write b FEND (eeprom_config_dump_all b (serial_write b CMD_CFG_READ (serial_write b FEND s)))"

section \<open>Provisioning checks\<close>

text \<open>The products a platform accepts and the models a board accepts.\<close>

definition products_of :: "mcu_variant \<Rightarrow> u8 list" where
  "products_of m =
     (case m of
        Mcu1284P \<Rightarrow> [PRODUCT_RNODE, PRODUCT_HMBRW]
      | Mcu2560 \<Rightarrow> [PRODUCT_RNODE, PRODUCT_HMBRW]
      | McuEsp32 \<Rightarrow> [PRODUCT_RNODE, BOARD_RNODE_NG_20, BOARD_RNODE_NG_21, PRODUCT_HMBRW, PRODUCT_TBEAM,
          PRODUCT_T32_10, PRODUCT_T32_20, PRODUCT_T32_21, PRODUCT_H32_V2, PRODUCT_H32_V3, PRODUCT_H32_V4,
          PRODUCT_H32_V4_R8, PRODUCT_TDECK_V1, PRODUCT_TBEAM_S_V1, PRODUCT_TBEAM_S_V3, PRODUCT_XIAO_S3,
          PRODUCT_TBEAM_1W, PRODUCT_HELTEC_WTRACKER_V2]
      | McuNrf52 \<Rightarrow> [PRODUCT_RAK4631, PRODUCT_HELTEC_T114, PRODUCT_HELTEC_T096, PRODUCT_HELTEC_T1,
          PRODUCT_TECHO, PRODUCT_HMBRW])"

definition eeprom_product_valid :: "board \<Rightarrow> 'a rom_scheme \<Rightarrow> bool" where
  "eeprom_product_valid b s \<longleftrightarrow> eeprom_read s (eeprom_addr b ADDR_PRODUCT) \<in> set (products_of (mcu b))"

definition model_table :: "(u8 \<times> u8 list) list" where
  "model_table =
    [(BOARD_RNODE, [MODEL_A4, MODEL_A9, MODEL_FF, MODEL_FE]),
     (BOARD_RNODE_NG_20, [MODEL_A3, MODEL_A8]),
     (BOARD_RNODE_NG_21, [MODEL_A2, MODEL_A7]),
     (BOARD_T3S3, [MODEL_A1, MODEL_A6, MODEL_A5, MODEL_AA, MODEL_AC]),
     (BOARD_HMBRW, [MODEL_FF, MODEL_FE, MODEL_FD]),
     (BOARD_TBEAM, [MODEL_E4, MODEL_E9, MODEL_E3, MODEL_E8]),
     (BOARD_TBEAM_1W, [MODEL_E5, MODEL_E6]),
     (BOARD_TDECK, [MODEL_D4, MODEL_D9]),
     (BOARD_TECHO, [MODEL_16, MODEL_17]),
     (BOARD_TBEAM_S_V1, [MODEL_DB, MODEL_DC]),
     (BOARD_TBEAM_S_V3, [MODEL_DB, MODEL_DC]),
     (BOARD_XIAO_S3, [MODEL_DD, MODEL_DE]),
     (BOARD_LORA32_V1_0, [MODEL_BA, MODEL_BB]),
     (BOARD_LORA32_V2_0, [MODEL_B3, MODEL_B8]),
     (BOARD_LORA32_V2_1, [MODEL_B4, MODEL_B9]),
     (BOARD_HELTEC32_V2, [MODEL_C4, MODEL_C9]),
     (BOARD_HELTEC32_V3, [MODEL_C5, MODEL_CA]),
     (BOARD_HELTEC32_V4, [MODEL_C8]),
     (BOARD_HELTEC32_V4_R8, [MODEL_C8]),
     (BOARD_HELTEC_T114, [MODEL_C6, MODEL_C7]),
     (BOARD_HELTEC_T096, [MODEL_D3, MODEL_D5]),
     (BOARD_HELTEC_WTRACKER_V2, [MODEL_D6, MODEL_D7]),
     (BOARD_HELTEC_T1, [MODEL_DF, MODEL_E2]),
     (BOARD_RAK4631, [MODEL_11, MODEL_12]),
     (BOARD_RAK3401, [MODEL_13]),
     (BOARD_HUZZAH32, [MODEL_FF]),
     (BOARD_GENERIC_ESP32, [MODEL_FF, MODEL_FE]),
     (BOARD_MESHPOE_S3, [MODEL_FF, MODEL_FE, MODEL_FD]),
     (BOARD_MESHADVENTURER_S3, [MODEL_FF, MODEL_FE, MODEL_FD]),
     (BOARD_MESHADVENTURER, [MODEL_FF, MODEL_FE, MODEL_FD]),
     (BOARD_DIY_V1, [MODEL_FF, MODEL_FE, MODEL_FD]),
     (BOARD_AETHERNODE, [MODEL_FF, MODEL_FE, MODEL_FD]),
     (BOARD_AETHERNODE_S3, [MODEL_FF, MODEL_FE, MODEL_FD]),
     (BOARD_PROMICRO, [MODEL_FF, MODEL_FE])]"

definition models_of :: "u8 \<Rightarrow> u8 list" where
  "models_of bm = (case map_of model_table bm of None \<Rightarrow> [] | Some ms \<Rightarrow> ms)"

definition eeprom_model_valid :: "board \<Rightarrow> 'a rom_scheme \<Rightarrow> bool \<times> 'a rom_scheme" where
  "eeprom_model_valid b s =
     (let m = eeprom_read s (eeprom_addr b ADDR_MODEL)
      in (m \<in> set (models_of (board_model b)), s\<lparr>model := m\<rparr>))"

definition eeprom_hwrev_valid :: "board \<Rightarrow> 'a rom_scheme \<Rightarrow> bool \<times> 'a rom_scheme" where
  "eeprom_hwrev_valid b s =
     (let r = eeprom_read s (eeprom_addr b ADDR_HW_REV) in (r \<noteq> 0x00 \<and> r \<noteq> 0xFF, s\<lparr>hwrev := r\<rparr>))"

text \<open>\<open>md5\<close> stands for \<open>MD5::make_hash\<close>: the sixteen bytes of the digest of its input.\<close>

definition eeprom_checksum_valid :: "(u8 list \<Rightarrow> u8 list) \<Rightarrow> board \<Rightarrow> 'a rom_scheme \<Rightarrow> bool" where
  "eeprom_checksum_valid md5 b s \<longleftrightarrow>
     (let data = read_from eeprom_read (eeprom_addr b 0) CHECKSUMMED_SIZE s; hash = md5 data
      in list_all (\<lambda>i. eeprom_read s (eeprom_addr b (ADDR_CHKSUM + i)) = hash ! i) [0..<16])"

section \<open>The store keeps its contract\<close>

lemma eeprom_read_update [simp]:
  "eeprom_read (eeprom_update b a x s) c = (if c = a then x else eeprom_read s c)"
  by (simp add: eeprom_update_def eeprom_read_def store_byte_def eeprom_flush_def Let_def)

interpretation rs: byte_store eeprom_read "eeprom_update b" ee_writes for b
proof unfold_locales
  fix a c :: nat and x :: u8 and s :: "'a rom_scheme"
  show "eeprom_read (eeprom_update b a x s) c = (if c = a then x else eeprom_read s c)" by simp
  show "eeprom_read s a = x \<Longrightarrow> eeprom_update b a x s = s" by (simp add: eeprom_update_def)
  show "ee_writes (eeprom_update b a x s) \<le> Suc (ee_writes s)"
    by (simp add: eeprom_update_def store_byte_def eeprom_flush_def Let_def)
qed

lemma eeprom_update_frame [simp]:
  "ee_file (eeprom_update b a x s) = ee_file s"
  "model (eeprom_update b a x s) = model s"
  "hwrev (eeprom_update b a x s) = hwrev s"
  "sound_enabled (eeprom_update b a x s) = sound_enabled s"
  "encoder_enabled (eeprom_update b a x s) = encoder_enabled s"
  "radio_auto_start_enabled (eeprom_update b a x s) = radio_auto_start_enabled s"
  "display_blanking_code (eeprom_update b a x s) = display_blanking_code s"
  "display_blanking_enabled (eeprom_update b a x s) = display_blanking_enabled s"
  "display_blanking_timeout (eeprom_update b a x s) = display_blanking_timeout s"
  "host_log (eeprom_update b a x s) = host_log s"
  "rom.more (eeprom_update b a x s) = rom.more s"
  by (simp_all add: eeprom_update_def store_byte_def eeprom_flush_def Let_def)

lemma host_bytes_eeprom_update [simp]: "host_bytes (eeprom_update b a x s) = host_bytes s"
  by (simp add: host_bytes_def)

lemma link_ok_eeprom_update [simp]: "link_ok c (eeprom_update b a x s) = link_ok c s"
  by (simp add: link_ok_def eeprom_update_def store_byte_def eeprom_flush_def Let_def)

lemma eeprom_read_flush [simp]: "eeprom_read (flush_if_nrf b s) a = eeprom_read s a"
  by (simp add: flush_if_nrf_def eeprom_flush_def eeprom_read_def)

lemma eeprom_serial_write [simp]:
  "eeprom (serial_write b x s) = eeprom s" "rom.more (serial_write b x s) = rom.more s"
  by (simp_all add: serial_write_defs)

lemma eeprom_read_serial_write [simp]: "eeprom_read (serial_write b x s) a = eeprom_read s a"
  by (simp add: eeprom_read_def)

lemma eeprom_read_escaped [simp]: "eeprom_read (escaped_serial_write b x s) a = eeprom_read s a"
  by (simp add: escaped_serial_write_def)

lemma eeprom_read_escaped_writes [simp]: "eeprom_read (escaped_writes b xs s) a = eeprom_read s a"
  by (induction xs arbitrary: s) simp_all

lemma eeprom_read_indicate_error [simp]: "eeprom_read (kiss_indicate_error b e s) a = eeprom_read s a"
  by (simp add: kiss_indicate_error_def)

lemma read_from_cong: "(\<And>i. i < n \<Longrightarrow> rd s (a + i) = rd' t (a + i)) \<Longrightarrow> read_from rd a n s = read_from rd' a n t"
  by (simp add: read_from_def)

text \<open>What the host reads in a dump.\<close>

lemma host_bytes_dump_range [simp]:
  "link_ok b s \<Longrightarrow> host_bytes (dump_range b a n s) = host_bytes s @ stuff_all (read_from eeprom_read a n s)"
  by (simp add: dump_range_def)

lemma link_ok_dump_range [simp]: "link_ok b (dump_range b a n s) = link_ok b s"
  by (simp add: dump_range_def)

lemma kiss_dump_eeprom_bytes:
  assumes "link_ok b s"
  shows "host_bytes (kiss_dump_eeprom b s) = host_bytes s @
    kiss_frame CMD_ROM_READ (read_from eeprom_read (eeprom_addr b 0) EEPROM_RESERVED s)"
proof -
  have "read_from eeprom_read a n (serial_write b x (serial_write b y s)) = read_from eeprom_read a n s"
    for a n x y by (rule read_from_cong) simp
  then show ?thesis using assms
    by (simp add: kiss_dump_eeprom_def eeprom_dump_all_def kiss_frame_def)
qed

section \<open>The information lock\<close>

lemma eeprom_write_locked:
  "eeprom_info_locked b s \<Longrightarrow> eeprom_read (eeprom_write b a x s) = eeprom_read s"
  by (rule ext) (simp add: eeprom_write_def)

fun eeprom_writes :: "board \<Rightarrow> (u8 \<times> u8) list \<Rightarrow> 'a rom_scheme \<Rightarrow> 'a rom_scheme" where
  "eeprom_writes b [] s = s"
| "eeprom_writes b ((a, x) # ws) s = eeprom_writes b ws (eeprom_write b a x s)"

lemma eeprom_writes_locked:
  "eeprom_info_locked b s \<Longrightarrow> eeprom_read (eeprom_writes b ws s) = eeprom_read s"
proof (induction ws arbitrary: s)
  case (Cons w ws)
  obtain a x where w: "w = (a, x)" by fastforce
  have r: "eeprom_read (eeprom_write b a x s) = eeprom_read s" using Cons.prems by (rule eeprom_write_locked)
  then have "eeprom_info_locked b (eeprom_write b a x s)" using Cons.prems by (simp add: eeprom_info_locked_def)
  then show ?case using Cons.IH [of "eeprom_write b a x s"] r w by simp
qed simp

lemma eeprom_write_in_block:
  "c < eeprom_offset b \<or> eeprom_offset b + EEPROM_RESERVED \<le> c \<Longrightarrow>
   eeprom_read (eeprom_write b a x s) c = eeprom_read s c"
  by (auto simp: eeprom_write_def eeprom_addr_def)

section \<open>Erasing\<close>

lemma eeprom_erase_bytes:
  assumes "\<not> nrf_file b" "i < EEPROM_RESERVED"
  shows "eeprom_read (state_of (eeprom_erase b s)) (eeprom_addr b i) = 0xFF"
  using assms by (simp add: eeprom_erase_def rs.rd_write_from eeprom_addr_def)

section \<open>Properties\<close>

definition rom_blank :: "(nat \<Rightarrow> u8) \<Rightarrow> rom" where
  "rom_blank m =
     \<lparr>bt_state = BT_STATE_NA, eth_is_connected = False, wifi_host_is_connected = False,
      ws_host_is_connected = False, usb_avail = True, usb_drains = True,
      kiss_host_tx_stalled = False, serial_in_frame = False, host_log = [],
      eeprom = m, ee_writes = 0, ee_flushes = 0, ee_file = True, model = 0, hwrev = 0,
      sound_enabled = False, encoder_enabled = False, radio_auto_start_enabled = True,
      display_blanking_code = 0, display_blanking_enabled = False, display_blanking_timeout = 0\<rparr>"

lemma eeprom_read_rom_blank [simp]: "eeprom_read (rom_blank m) a = m a"
  by (simp add: eeprom_read_def rom_blank_def)

text \<open>
  Once the information lock byte is set, no sequence of host writes (\<open>CMD_ROM_WRITE\<close>, which
  ends in \<open>eeprom_write\<close>) changes any byte of the store, the lock byte included, and every
  refused write is answered with an error frame.
\<close>

theorem locked_rom_is_immutable:
  assumes "eeprom_info_locked b s"
  shows "eeprom_read (eeprom_writes b ws s) = eeprom_read s \<and>
         eeprom_info_locked b (eeprom_writes b ws s) \<and>
         (link_ok b s \<longrightarrow>
            host_bytes (eeprom_write b a x s) = host_bytes s @ kiss_frame CMD_ERROR [ERROR_EEPROM_LOCKED])"
  using eeprom_writes_locked [OF assms, of ws] assms
  by (auto simp: eeprom_info_locked_def eeprom_write_def kiss_indicate_error_def kiss_frame_def stuff_def)

theorem locked_rom_is_immutable_witness:
  "eeprom_read (eeprom_writes board_rnode [(0x00, 0x42), (0x9B, 0x00)] (rom_blank (\<lambda>a. 0x73))) 3896 = 0x73 \<and>
   host_bytes (eeprom_write board_rnode 0x9B 0x00 (rom_blank (\<lambda>a. 0x73))) = [0xC0, 0x90, 0x03, 0xC0]"
  using locked_rom_is_immutable [of board_rnode "rom_blank (\<lambda>a. 0x73)" "[(0x00, 0x42), (0x9B, 0x00)]" "0x9B" "0x00"]
  by (simp add: rom_blank_def eeprom_info_locked_def eeprom_read_def board_values link_ok_def
      host_bytes_def kiss_frame_def stuff_def)

text \<open>
  Reading the store back over the host link is exact. On a working link the frame
  sent by \<open>kiss_dump_eeprom\<close> decodes to the command and the 200 bytes of the block, whatever
  those bytes are (bytes equal to the frame delimiters included).
\<close>

theorem rom_dump_decodes:
  assumes "link_ok b s" "host_log s = []"
  shows "kiss_decode (host_bytes (kiss_dump_eeprom b s)) =
    [(CMD_ROM_READ, read_from eeprom_read (eeprom_addr b 0) EEPROM_RESERVED s)]"
  using assms by (simp add: kiss_dump_eeprom_bytes host_bytes_def [of s])

theorem rom_dump_decodes_witness:
  "kiss_decode (host_bytes (kiss_dump_eeprom board_rnode (rom_blank (\<lambda>a. 0xC0)))) =
    [(CMD_ROM_READ, replicate EEPROM_RESERVED 0xC0)]"
proof -
  have "read_from eeprom_read a n (rom_blank (\<lambda>a. 0xC0)) = replicate n 0xC0" for a n
    by (simp add: read_from_def eeprom_read_def rom_blank_def map_replicate_const)
  then show ?thesis
    using rom_dump_decodes [of board_rnode "rom_blank (\<lambda>a. 0xC0)"]
    by (simp add: rom_blank_def link_ok_def board_values)
qed

text \<open>
  Erasing unlocks. After \<open>unlock_rom\<close> the device reboots with every byte of the
  block erased, so the lock is open; on nRF52 the file is removed and the next
  \<open>eeprom_begin\<close> creates it erased.
\<close>

theorem unlock_rom_opens_lock:
  assumes "EEPROM_RESERVED \<le> eeprom_size b"
  shows "\<not> returned (unlock_rom b s) \<and>
         \<not> eeprom_info_locked b (if nrf_file b then eeprom_begin b (state_of (unlock_rom b s))
                                 else state_of (unlock_rom b s))"
proof (cases "nrf_file b")
  case True
  then show ?thesis using assms
    by (simp add: unlock_rom_def eeprom_erase_def eeprom_info_locked_def eeprom_begin_def eeprom_flush_def
        eeprom_read_def eeprom_addr_def eeprom_offset_def)
next
  case False
  then show ?thesis using eeprom_erase_bytes [OF False, of ADDR_INFO_LOCK s]
    by (simp add: unlock_rom_def eeprom_info_locked_def eeprom_erase_def)
qed

theorem unlock_rom_opens_lock_witness:
  "\<not> eeprom_info_locked board_rak4631 (eeprom_begin board_rak4631 (state_of (unlock_rom board_rak4631 (rom_blank (\<lambda>a. 0x73)))))"
  using unlock_rom_opens_lock [of board_rak4631 "rom_blank (\<lambda>a. 0x73)"]
  by (simp add: board_values nrf_file_def)

end
