(* ===== verification/Settings.thy ===== *)
theory Settings
  imports Rom
begin

text \<open>
  The settings kept in the non-volatile store (\<^verbatim>\<open>Utilities.h\<close>, \<^verbatim>\<open>Display.h\<close>): one routine per
  setting, with the value it stores, the global it updates and whether the device reboots, and
  the readers of the time zone, the network addresses and the display timeout.
\<close>

section \<open>Display timeout codes\<close>

definition display_timeout_decode_seconds :: "u8 \<Rightarrow> u32" where
  "display_timeout_decode_seconds raw =
     (if raw \<le> 180 then ucast raw
      else if raw = 240 then 300 else if raw = 245 then 600 else if raw = 250 then 900 else 1800)"

definition display_timeout_codes :: "u8 list" where
  "display_timeout_codes = [0, 5, 10, 15, 30, 60, 120, 180, 240, 245, 250, 255]"

definition timeout_dist :: "u32 \<Rightarrow> u32 \<Rightarrow> u32" where
  "timeout_dist candidate target = (if candidate > target then candidate - target else target - candidate)"

fun timeout_search :: "u32 \<Rightarrow> u8 list \<Rightarrow> nat \<Rightarrow> nat \<Rightarrow> u32 \<Rightarrow> nat" where
  "timeout_search target [] i best best_dist = best"
| "timeout_search target (c # cs) i best best_dist =
     (let dist = timeout_dist (display_timeout_decode_seconds c) target
      in if dist < best_dist then timeout_search target cs (Suc i) i dist
         else timeout_search target cs (Suc i) best best_dist)"

definition display_timeout_code_index :: "u8 \<Rightarrow> nat" where
  "display_timeout_code_index raw =
     timeout_search (display_timeout_decode_seconds raw) display_timeout_codes 0 0 0xFFFFFFFF"

section \<open>Saving one setting\<close>

definition wr_conf_save :: "board \<Rightarrow> u8 \<Rightarrow> 'a rom_scheme \<Rightarrow> 'a rom_scheme" where
  "wr_conf_save b mode s = flush_if_nrf b (eeprom_update b (eeprom_addr b ADDR_CONF_WIFI) mode s)"

definition bt_conf_save :: "board \<Rightarrow> bool \<Rightarrow> 'a rom_scheme \<Rightarrow> 'a rom_scheme" where
  "bt_conf_save b is_enabled s =
     (if is_enabled then flush_if_nrf b (eeprom_update b (eeprom_addr b ADDR_CONF_BT) BT_ENABLE_BYTE s)
      else flush_if_nrf b (eeprom_update b (eeprom_addr b ADDR_CONF_BT) 0x00 s))"

definition radio_auto_start_conf_save :: "board \<Rightarrow> bool \<Rightarrow> 'a rom_scheme \<Rightarrow> 'a rom_scheme" where
  "radio_auto_start_conf_save b is_enabled s =
     eeprom_update b ADDR_CONF_RADIO_AUTO_START
       (if is_enabled then RADIO_AUTO_START_ENABLE_BYTE else RADIO_AUTO_START_DISABLE_BYTE)
       (s\<lparr>radio_auto_start_enabled := is_enabled\<rparr>)"

definition snd_conf_save :: "board \<Rightarrow> bool \<Rightarrow> 'a rom_scheme \<Rightarrow> 'a rom_scheme" where
  "snd_conf_save b is_enabled s =
     flush_if_nrf b (eeprom_update b (eeprom_addr b ADDR_CONF_SND)
       (if is_enabled then SND_ENABLE_BYTE else SND_DISABLE_BYTE) (s\<lparr>sound_enabled := is_enabled\<rparr>))"

definition enc_conf_save :: "board \<Rightarrow> bool \<Rightarrow> 'a rom_scheme \<Rightarrow> 'a rom_scheme" where
  "enc_conf_save b is_enabled s =
     flush_if_nrf b (eeprom_update b (eeprom_addr b ADDR_CONF_ENA)
       (if is_enabled then ENC_ENABLE_BYTE else ENC_DISABLE_BYTE) (s\<lparr>encoder_enabled := is_enabled\<rparr>))"

definition gnss_conf_save :: "board \<Rightarrow> bool \<Rightarrow> 'a rom_scheme \<Rightarrow> 'a rom_scheme" where
  "gnss_conf_save b is_enabled s =
     flush_if_nrf b (eeprom_update b (eeprom_addr b ADDR_CONF_GNSS)
       (if is_enabled then GNSS_ENABLE_BYTE else GNSS_DISABLE_BYTE) s)"

definition gnss_interval_conf_save :: "board \<Rightarrow> u8 \<Rightarrow> 'a rom_scheme \<Rightarrow> 'a rom_scheme" where
  "gnss_interval_conf_save b preset_index s =
     flush_if_nrf b (eeprom_update b (eeprom_addr b ADDR_CONF_GNSS_INTERVAL) preset_index s)"

text \<open>The pin, ESP-NOW and link-speed settings take effect at boot: they reboot on a change.\<close>

definition save_and_reset_on_change :: "board \<Rightarrow> nat \<Rightarrow> u8 \<Rightarrow> 'a rom_scheme \<Rightarrow> 'a rom_scheme outcome" where
  "save_and_reset_on_change b a val s =
     (let stored = eeprom_read s (eeprom_addr b a);
          s = flush_if_nrf b (eeprom_update b (eeprom_addr b a) val s)
      in if stored \<noteq> val then Rebooted s else Ret s)"

definition gpio_conf_save :: "board \<Rightarrow> u8 \<Rightarrow> u8 \<Rightarrow> 'a rom_scheme \<Rightarrow> 'a rom_scheme outcome" where
  "gpio_conf_save b addr val = save_and_reset_on_change b (unat addr) val"

definition espnow_conf_save :: "board \<Rightarrow> u8 \<Rightarrow> 'a rom_scheme \<Rightarrow> 'a rom_scheme outcome" where
  "espnow_conf_save b val = save_and_reset_on_change b ADDR_CONF_ESPNOW val"

definition ethspd_conf_save :: "board \<Rightarrow> u8 \<Rightarrow> 'a rom_scheme \<Rightarrow> 'a rom_scheme outcome" where
  "ethspd_conf_save b val = save_and_reset_on_change b ADDR_CONF_ETHSPD val"

definition espnow_mode_conf_save :: "board \<Rightarrow> u8 \<Rightarrow> 'a rom_scheme \<Rightarrow> 'a rom_scheme" where
  "espnow_mode_conf_save b val s = eeprom_update b ADDR_CONF_ESPNOW_MODE val s"

definition espnow_lr_conf_save :: "board \<Rightarrow> u8 \<Rightarrow> 'a rom_scheme \<Rightarrow> 'a rom_scheme" where
  "espnow_lr_conf_save b val s = eeprom_update b ADDR_CONF_ESPNOW_LR val s"

definition ethaddr_conf_save :: "board \<Rightarrow> nat \<Rightarrow> u8 list \<Rightarrow> 'a rom_scheme \<Rightarrow> 'a rom_scheme" where
  "ethaddr_conf_save b addr_base val s =
     write_from (eeprom_update b) (config_addr b addr_base) (take 4 val) s"

definition di_conf_save :: "board \<Rightarrow> u8 \<Rightarrow> 'a rom_scheme \<Rightarrow> 'a rom_scheme" where
  "di_conf_save b dint s = eeprom_update b (eeprom_addr b ADDR_CONF_DINT) dint s"

definition da_conf_save :: "board \<Rightarrow> u8 \<Rightarrow> 'a rom_scheme \<Rightarrow> 'a rom_scheme" where
  "da_conf_save b dadr s = eeprom_update b (eeprom_addr b ADDR_CONF_DADR) dadr s"

definition db_conf_save :: "board \<Rightarrow> u8 \<Rightarrow> 'a rom_scheme \<Rightarrow> 'a rom_scheme" where
  "db_conf_save b val s =
     (if has_display b then
        (let s = s\<lparr>display_blanking_code := val\<rparr>;
             s = (if val = 0x00 then s\<lparr>display_blanking_enabled := False\<rparr>
                  else s\<lparr>display_blanking_enabled := True,
                         display_blanking_timeout := display_timeout_decode_seconds val * 1000\<rparr>);
             s = eeprom_update b (eeprom_addr b ADDR_CONF_BSET) CONF_OK_BYTE s
         in eeprom_update b (eeprom_addr b ADDR_CONF_DBLK) val s)
      else s)"

definition drot_conf_save :: "board \<Rightarrow> u8 \<Rightarrow> 'a rom_scheme \<Rightarrow> 'a rom_scheme outcome" where
  "drot_conf_save b val s =
     (if has_display b \<and> val \<le> 0x03 then
        (let stored = eeprom_read s (eeprom_addr b ADDR_CONF_DROT);
             stored = (if stored > 0x03 then 0x00 else stored);
             rotation_changed = (stored \<noteq> val);
             s = eeprom_update b (eeprom_addr b ADDR_CONF_DROT) val s
         in if rotation_changed then Rebooted s else Ret s)
      else Ret s)"

definition dia_conf_save :: "board \<Rightarrow> u8 \<Rightarrow> 'a rom_scheme \<Rightarrow> 'a rom_scheme outcome" where
  "dia_conf_save b val s =
     Rebooted (eeprom_update b (eeprom_addr b ADDR_CONF_DIA) (if val > 0x00 then 0x01 else 0x00) s)"

definition np_int_conf_save :: "board \<Rightarrow> u8 \<Rightarrow> 'a rom_scheme \<Rightarrow> 'a rom_scheme" where
  "np_int_conf_save b p_int s =
     eeprom_update b (eeprom_addr b ADDR_CONF_PINT) p_int
       (eeprom_update b (eeprom_addr b ADDR_CONF_PSET) CONF_OK_BYTE s)"

section \<open>Reading settings back\<close>

text \<open>The part of \<open>display_init\<close> that restores the blanking timeout.\<close>

definition display_blanking_load :: "board \<Rightarrow> 'a rom_scheme \<Rightarrow> 'a rom_scheme" where
  "display_blanking_load b s =
     (if eeprom_read s (eeprom_addr b ADDR_CONF_BSET) = CONF_OK_BYTE then
        (let db_timeout = eeprom_read s (eeprom_addr b ADDR_CONF_DBLK);
             s = s\<lparr>display_blanking_code := db_timeout\<rparr>
         in if db_timeout = 0x00 then s\<lparr>display_blanking_enabled := False\<rparr>
            else s\<lparr>display_blanking_enabled := True,
                   display_blanking_timeout := display_timeout_decode_seconds db_timeout * 1000\<rparr>)
      else s)"

definition addr4_read :: "board \<Rightarrow> nat \<Rightarrow> 'a rom_scheme \<Rightarrow> bool \<times> u8 list" where
  "addr4_read b addr_base s =
     (let out = read_from eeprom_read (config_addr b addr_base) 4 s
      in (\<not> (list_all (\<lambda>x. x = 0x00) out \<or> list_all (\<lambda>x. x = 0xFF) out), out))"

text \<open>The time zone, in quarter hours; the stored byte is offset by 64.\<close>

definition get_tz_offset_qh :: "board \<Rightarrow> 'a rom_scheme \<Rightarrow> int" where
  "get_tz_offset_qh b s =
     (let raw = eeprom_read s (eeprom_addr b ADDR_CONF_TZ); qh = uint raw - 64
      in if qh < - 48 \<or> qh > 56 then 0 else qh)"

definition apply_tz_offset :: "board \<Rightarrow> u32 \<Rightarrow> 'a rom_scheme \<Rightarrow> u32" where
  "apply_tz_offset b utc_epoch s = word_of_int (uint utc_epoch + get_tz_offset_qh b s * 900)"

definition tz_conf_save :: "board \<Rightarrow> u8 \<Rightarrow> 'a rom_scheme \<Rightarrow> 'a rom_scheme" where
  "tz_conf_save b val s = eeprom_update b (eeprom_addr b ADDR_CONF_TZ) val s"

section \<open>Lemmas\<close>

lemma eeprom_read_ram [simp]:
  "eeprom_read (s\<lparr>radio_auto_start_enabled := x\<rparr>) = eeprom_read s"
  "eeprom_read (s\<lparr>sound_enabled := x\<rparr>) = eeprom_read s"
  "eeprom_read (s\<lparr>encoder_enabled := x\<rparr>) = eeprom_read s"
  "eeprom_read (s\<lparr>display_blanking_code := y\<rparr>) = eeprom_read s"
  "eeprom_read (s\<lparr>display_blanking_enabled := x\<rparr>) = eeprom_read s"
  "eeprom_read (s\<lparr>display_blanking_timeout := z\<rparr>) = eeprom_read s"
  by (simp_all add: eeprom_read_def fun_eq_iff)

lemmas saver_defs = wr_conf_save_def bt_conf_save_def radio_auto_start_conf_save_def snd_conf_save_def
  enc_conf_save_def gnss_conf_save_def gnss_interval_conf_save_def espnow_mode_conf_save_def
  espnow_lr_conf_save_def di_conf_save_def da_conf_save_def db_conf_save_def np_int_conf_save_def
  tz_conf_save_def dia_conf_save_def drot_conf_save_def save_and_reset_on_change_def
  gpio_conf_save_def espnow_conf_save_def ethspd_conf_save_def ethaddr_conf_save_def

text \<open>The search keeps the nearest code seen so far.\<close>

lemma timeout_search_nearest:
  fixes target :: u32
  defines "d \<equiv> \<lambda>c. timeout_dist (display_timeout_decode_seconds c) target"
  shows "(timeout_search target cs i best bd = best \<and> (\<forall>c \<in> set cs. bd \<le> d c)) \<or>
    (\<exists>k < length cs. timeout_search target cs i best bd = i + k \<and> d (cs ! k) < bd \<and>
       (\<forall>c \<in> set cs. d (cs ! k) \<le> d c))"
proof (induction cs arbitrary: i best bd)
  case (Cons c cs)
  show ?case
  proof (cases "d c < bd")
    case True
    then have r: "timeout_search target (c # cs) i best bd = timeout_search target cs (Suc i) i (d c)"
      by (simp add: d_def Let_def)
    show ?thesis using Cons.IH [of "Suc i" i "d c"]
    proof (elim disjE exE conjE)
      assume "timeout_search target cs (Suc i) i (d c) = i" "\<forall>x \<in> set cs. d c \<le> d x"
      then show ?thesis using r True by (intro disjI2 exI [of _ 0]) simp
    next
      fix k assume "k < length cs" "timeout_search target cs (Suc i) i (d c) = Suc i + k"
        "d (cs ! k) < d c" "\<forall>x \<in> set cs. d (cs ! k) \<le> d x"
      then show ?thesis using r True by (intro disjI2 exI [of _ "Suc k"]) auto
    qed
  next
    case False
    then have r: "timeout_search target (c # cs) i best bd = timeout_search target cs (Suc i) best bd"
      by (simp add: d_def Let_def)
    show ?thesis using Cons.IH [of "Suc i" best bd]
    proof (elim disjE exE conjE)
      assume "timeout_search target cs (Suc i) best bd = best" "\<forall>x \<in> set cs. bd \<le> d x"
      then show ?thesis using r False by (intro disjI1) (simp add: not_less)
    next
      fix k assume "k < length cs" "timeout_search target cs (Suc i) best bd = Suc i + k"
        "d (cs ! k) < bd" "\<forall>x \<in> set cs. d (cs ! k) \<le> d x"
      then show ?thesis using r False by (intro disjI2 exI [of _ "Suc k"]) auto
    qed
  qed
qed simp

lemma decode_seconds_le: "display_timeout_decode_seconds c \<le> 1800"
proof -
  have "ucast c \<le> (180 :: u32)" if "c \<le> 180"
  proof -
    have "unat c \<le> 180" using that by (simp add: word_le_nat_alt)
    then show ?thesis by (simp add: word_le_nat_alt)
  qed
  then show ?thesis by (auto simp: display_timeout_decode_seconds_def intro: order_trans)
qed

lemma timeout_dist_small: "timeout_dist (display_timeout_decode_seconds c) (display_timeout_decode_seconds r) < 0xFFFFFFFF"
proof -
  have "unat (display_timeout_decode_seconds c) \<le> 1800" for c
    using decode_seconds_le [of c] by (simp add: word_le_nat_alt)
  from this [of c] this [of r] show ?thesis
    by (auto simp: timeout_dist_def word_less_nat_alt unat_sub word_le_nat_alt not_less)
qed

lemma code_index_nearest:
  "display_timeout_code_index raw < length display_timeout_codes \<and>
   (\<forall>c \<in> set display_timeout_codes.
     timeout_dist (display_timeout_decode_seconds (display_timeout_codes ! display_timeout_code_index raw))
         (display_timeout_decode_seconds raw)
       \<le> timeout_dist (display_timeout_decode_seconds c) (display_timeout_decode_seconds raw))"
proof -
  have "(0 :: u8) \<in> set display_timeout_codes" by (simp add: display_timeout_codes_def)
  then have "\<not> (\<forall>c \<in> set display_timeout_codes. 0xFFFFFFFF \<le>
      timeout_dist (display_timeout_decode_seconds c) (display_timeout_decode_seconds raw))"
    using timeout_dist_small [of 0 raw] by (meson linorder_not_less)
  then show ?thesis
    using timeout_search_nearest [where target = "display_timeout_decode_seconds raw"
        and cs = display_timeout_codes and i = 0 and best = 0 and bd = "0xFFFFFFFF"]
    unfolding display_timeout_code_index_def by auto
qed

section \<open>Properties\<close>

text \<open>
  A setting that takes effect at boot reboots the device exactly when the stored value changes, and
  the new value is in the store before the reboot. An out-of-range rotation is ignored, and an
  erased rotation counts as rotation 0.
\<close>

theorem reboot_iff_setting_changes:
  "returned (gpio_conf_save b a v s) = (eeprom_read s (eeprom_addr b (unat a)) = v) \<and>
   eeprom_read (state_of (gpio_conf_save b a v s)) (eeprom_addr b (unat a)) = v \<and>
   returned (espnow_conf_save b v s) = (eeprom_read s (eeprom_addr b ADDR_CONF_ESPNOW) = v) \<and>
   eeprom_read (state_of (espnow_conf_save b v s)) (eeprom_addr b ADDR_CONF_ESPNOW) = v \<and>
   returned (ethspd_conf_save b v s) = (eeprom_read s (eeprom_addr b ADDR_CONF_ETHSPD) = v) \<and>
   eeprom_read (state_of (ethspd_conf_save b v s)) (eeprom_addr b ADDR_CONF_ETHSPD) = v \<and>
   (if has_display b \<and> v \<le> 3
    then returned (drot_conf_save b v s) =
           (let r = eeprom_read s (eeprom_addr b ADDR_CONF_DROT) in (if r \<le> 3 then r else 0) = v) \<and>
         eeprom_read (state_of (drot_conf_save b v s)) (eeprom_addr b ADDR_CONF_DROT) = v
    else drot_conf_save b v s = Ret s)"
  by (auto simp: saver_defs Let_def not_less)

text \<open>
  The display timeout survives a restart. After \<open>db_conf_save\<close>, a boot that starts from any
  state of the globals with the same store restores the code, the enable flag and the timeout
  that were set.
\<close>

theorem display_timeout_survives_restart:
  assumes "has_display b" "eeprom t = eeprom (db_conf_save b v s)"
  shows "display_blanking_code (display_blanking_load b t) = v \<and>
         display_blanking_enabled (display_blanking_load b t) = (v \<noteq> 0) \<and>
         (v \<noteq> 0 \<longrightarrow> display_blanking_timeout (display_blanking_load b t) =
                  display_blanking_timeout (db_conf_save b v s))"
proof -
  have "eeprom_read t = eeprom_read (db_conf_save b v s)"
    using assms(2) by (simp add: eeprom_read_def fun_eq_iff)
  then show ?thesis using assms(1)
    by (simp add: display_blanking_load_def db_conf_save_def Let_def eeprom_addr_def)
qed

theorem display_timeout_survives_restart_witness:
  "display_blanking_code (display_blanking_load board_heltec32_v4
     (rom_blank (eeprom (db_conf_save board_heltec32_v4 245 (rom_blank (\<lambda>a. 0xFF)))))) = 245"
  using display_timeout_survives_restart [of board_heltec32_v4
      "rom_blank (eeprom (db_conf_save board_heltec32_v4 245 (rom_blank (\<lambda>a. 0xFF))))" 245 "rom_blank (\<lambda>a. 0xFF)"]
  by (simp add: board_values rom_blank_def [of "eeprom _"])

text \<open>
  The settings menu shows the nearest stop. For every raw timeout byte, \<open>display_timeout_code_index\<close>
  is a valid index into the curated list and no entry of the list is closer in seconds; a byte
  taken from the list maps back to its own entry.
\<close>

theorem display_timeout_index_nearest:
  "display_timeout_code_index raw < length display_timeout_codes \<and>
   list_all (\<lambda>c.
     timeout_dist (display_timeout_decode_seconds (display_timeout_codes ! display_timeout_code_index raw))
         (display_timeout_decode_seconds raw)
       \<le> timeout_dist (display_timeout_decode_seconds c) (display_timeout_decode_seconds raw))
     display_timeout_codes \<and>
   map display_timeout_code_index display_timeout_codes = [0..<12]"
proof -
  have "map display_timeout_code_index display_timeout_codes = [0..<12]"
    by (simp add: display_timeout_code_index_def display_timeout_codes_def display_timeout_decode_seconds_def
        timeout_dist_def Let_def upt_rec)
  then show ?thesis using code_index_nearest [of raw] by (simp add: list_all_iff)
qed

text \<open>
  The time zone round trip. Every offset from UTC-12:00 to UTC+14:00 in quarter hours is read back as
  stored; whatever byte is stored, the offset read is in that range, and the erased bytes
  0x00 and 0xFF read as UTC. The displayed time is the UTC time shifted by the offset,
  modulo 2^32.
\<close>

theorem timezone_roundtrip:
  assumes "- 48 \<le> qh" "qh \<le> 56"
  shows "get_tz_offset_qh b (tz_conf_save b (word_of_int (qh + 64)) s) = qh \<and>
         - 48 \<le> get_tz_offset_qh b s \<and> get_tz_offset_qh b s \<le> 56 \<and>
         get_tz_offset_qh b (tz_conf_save b 0x00 s) = 0 \<and> get_tz_offset_qh b (tz_conf_save b 0xFF s) = 0 \<and>
         uint (apply_tz_offset b t (tz_conf_save b (word_of_int (qh + 64)) s)) = (uint t + qh * 900) mod 2 ^ 32"
proof -
  have "uint (word_of_int (qh + 64) :: u8) = qh + 64"
    using assms by (simp only: uint_word_of_int) simp
  then have g: "get_tz_offset_qh b (tz_conf_save b (word_of_int (qh + 64)) s) = qh"
    using assms by (simp add: get_tz_offset_qh_def tz_conf_save_def Let_def)
  have "uint (word_of_int (uint t + qh * 900) :: u32) = (uint t + qh * 900) mod 2 ^ 32"
    by (simp only: uint_word_of_int) simp
  then have "uint (apply_tz_offset b t (tz_conf_save b (word_of_int (qh + 64)) s)) = (uint t + qh * 900) mod 2 ^ 32"
    unfolding apply_tz_offset_def g .
  with g show ?thesis using assms
    by (auto simp: get_tz_offset_qh_def tz_conf_save_def Let_def)
qed

theorem timezone_roundtrip_witness:
  "get_tz_offset_qh board_rnode (tz_conf_save board_rnode (word_of_int (- 14 + 64)) (rom_blank (\<lambda>a. 0xFF))) = - 14"
  using timezone_roundtrip [of "- 14" board_rnode "rom_blank (\<lambda>a. 0xFF)" 0] by simp

end
