(* ===== verification/Floats.thy ===== *)
theory Floats
  imports Complex_Main Prelude
begin

text \<open>
  The floating-point arithmetic the firmware uses for the symbol rate, the bit rate and the
  airtime limits. A \<open>float\<close> or \<open>double\<close> value is the rational number it denotes, and every
  operation of the source is the exact operation followed by \<open>f32\<close> or \<open>f64\<close>, rounding
  to 24 or 53 significant bits, ties to even. Overflow, subnormal numbers and division by zero
  do not occur for the parameters of the theorems and are not represented.
\<close>

function bit_count :: "int \<Rightarrow> nat" where
  "bit_count n = (if n \<le> 0 then 0 else Suc (bit_count (n div 2)))"
  by pat_completeness auto
termination by (relation "measure nat") auto

declare bit_count.simps [simp del]

text \<open>The exponent: \<open>2 ^ k \<le> x < 2 ^ (k + 1)\<close> for a positive rational \<open>x\<close>.\<close>

definition pow2 :: "int \<Rightarrow> rat" where
  "pow2 k = (if 0 \<le> k then 2 ^ nat k else 1 / 2 ^ nat (- k))"

definition exponent :: "rat \<Rightarrow> int" where
  "exponent x =
     (let (a, b) = quotient_of x; k = int (bit_count a) - int (bit_count b)
      in if pow2 k \<le> x then k else k - 1)"

definition round_half_even :: "rat \<Rightarrow> int" where
  "round_half_even q =
     (let f = \<lfloor>q\<rfloor>; r = q - of_int f
      in if r < 1 / 2 then f else if r > 1 / 2 then f + 1 else if even f then f else f + 1)"

definition round_sig :: "nat \<Rightarrow> rat \<Rightarrow> rat" where
  "round_sig p x =
     (if x = 0 then 0
      else if x < 0 then - (let u = pow2 (exponent (- x) - int p + 1) in of_int (round_half_even (- x / u)) * u)
      else (let u = pow2 (exponent x - int p + 1) in of_int (round_half_even (x / u)) * u))"

definition f32 :: "rat \<Rightarrow> rat" where
  "f32 x = round_sig 24 x"

definition f64 :: "rat \<Rightarrow> rat" where
  "f64 x = round_sig 53 x"

section \<open>Rounding error\<close>

lemma pow2_powi: "pow2 k = 2 powi k"
  by (simp add: pow2_def power_int_def power_inverse inverse_eq_divide power_one_over)

lemma pow2_pos [simp]: "0 < pow2 k"
  by (simp add: pow2_def)

lemma pow2_add: "pow2 (i + j) = pow2 i * pow2 j"
  by (simp add: pow2_powi power_int_add)

lemma bit_count_bounds: "0 < n \<Longrightarrow> 0 < bit_count n \<and> 2 ^ (bit_count n - 1) \<le> n \<and> n < 2 ^ bit_count n"
proof (induction n rule: bit_count.induct)
  case (1 n)
  show ?case
  proof (cases "n div 2 > 0")
    case True
    with 1 have ih: "0 < bit_count (n div 2)" "2 ^ (bit_count (n div 2) - 1) \<le> n div 2" "n div 2 < 2 ^ bit_count (n div 2)"
      by auto
    obtain m where m: "bit_count (n div 2) = Suc m" using ih(1) by (cases "bit_count (n div 2)") auto
    have e: "bit_count n = Suc (Suc m)" using 1(2) m by (subst bit_count.simps) simp
    have "2 ^ m \<le> n div 2" "n div 2 < 2 * 2 ^ m" using ih m by simp_all
    then have "2 * 2 ^ m \<le> n" "n < 4 * 2 ^ m" by linarith+
    then show ?thesis using e by simp
  next
    case False
    then have "n = 1" using 1(2) by linarith
    then show ?thesis by (simp add: bit_count.simps)
  qed
qed

lemma exponent_bounds:
  assumes "0 < x"
  shows "pow2 (exponent x) \<le> x" "x < 2 * pow2 (exponent x)"
proof -
  obtain a c where q: "quotient_of x = (a, c)" by fastforce
  have x: "x = of_int a / of_int c" and c: "0 < c"
    using quotient_of_div [OF q] quotient_of_denom_pos [OF q] by auto
  have a: "0 < a" using assms x c by (simp add: zero_less_divide_iff)
  let ?i = "bit_count a" and ?j = "bit_count c"
  have A: "0 < ?i" "2 ^ (?i - 1) \<le> a" "a < 2 ^ ?i" and C: "0 < ?j" "2 ^ (?j - 1) \<le> c" "c < 2 ^ ?j"
    using bit_count_bounds a c by auto
  define k where "k = int ?i - int ?j"
  have half: "2 ^ n \<le> 2 * (of_int m :: rat)" if "0 < n" "2 ^ (n - 1) \<le> m" for n m
  proof -
    have "2 ^ n \<le> 2 * m" using that by (cases n) auto
    then have "(of_int (2 ^ n) :: rat) \<le> of_int (2 * m)" by (simp only: of_int_le_iff)
    then show ?thesis by simp
  qed
  have less: "of_int m < (2 ^ n :: rat)" if "m < 2 ^ n" for n m
  proof -
    have "(of_int m :: rat) < of_int (2 ^ n)" using that by (simp only: of_int_less_iff)
    then show ?thesis by simp
  qed
  note ra = less [OF A(3)] half [OF A(1,2)] less [OF C(3)] half [OF C(1,2)]
  have c': "(0 :: rat) < of_int c" using c by simp
  have k: "pow2 k * 2 ^ ?j = 2 ^ ?i"
    unfolding k_def pow2_powi by (simp add: power_int_diff)
  have up: "x < 2 * pow2 k"
  proof -
    have "of_int a < pow2 k * 2 ^ ?j" using ra(1) k by simp
    also have "\<dots> \<le> pow2 k * (2 * of_int c)" using ra(4) by (simp add: mult_left_mono less_imp_le)
    finally show ?thesis using c' by (simp add: x pos_divide_less_eq algebra_simps)
  qed
  have lo: "pow2 k < 2 * x"
  proof -
    have "pow2 k * of_int c < pow2 k * 2 ^ ?j" using ra(3) by simp
    also have "\<dots> \<le> 2 * of_int a" using ra(2) k by simp
    finally show ?thesis using c' by (simp add: x pos_less_divide_eq)
  qed
  have h: "2 * pow2 (k - 1) = pow2 k" unfolding pow2_powi by (simp add: power_int_diff)
  have "exponent x = (if pow2 k \<le> x then k else k - 1)"
    by (simp add: exponent_def q k_def Let_def)
  then show "pow2 (exponent x) \<le> x" "x < 2 * pow2 (exponent x)"
    using up lo h by (auto split: if_splits)
qed

lemma round_half_even_error: "\<bar>of_int (round_half_even q) - q\<bar> \<le> 1 / 2"
proof -
  have "of_int \<lfloor>q\<rfloor> \<le> q" "q < of_int \<lfloor>q\<rfloor> + 1" by linarith+
  then show ?thesis unfolding round_half_even_def Let_def abs_if
    by (auto simp: algebra_simps) linarith+
qed

text \<open>Half a unit in the last place: the relative error is at most \<open>2 ^ - p\<close>.\<close>

lemma round_sig_error:
  assumes "0 \<le> x" "0 < p"
  shows "\<bar>round_sig p x - x\<bar> \<le> x / 2 ^ p"
proof (cases "x = 0")
  case False
  then have x: "0 < x" using assms by simp
  define u where "u = pow2 (exponent x - int p + 1)"
  have u: "0 < u" by (simp add: u_def)
  have r: "round_sig p x = of_int (round_half_even (x / u)) * u"
    using x by (simp add: round_sig_def u_def Let_def)
  have "\<bar>round_sig p x - x\<bar> = \<bar>of_int (round_half_even (x / u)) - x / u\<bar> * u"
    using u by (simp add: r abs_mult_pos left_diff_distrib)
  also have "\<dots> \<le> 1 / 2 * u" using round_half_even_error u by (intro mult_right_mono) auto
  also have "\<dots> = pow2 (exponent x) / 2 ^ p"
    unfolding u_def pow2_powi by (simp add: power_int_add power_int_diff)
  also have "\<dots> \<le> x / 2 ^ p" using exponent_bounds(1) [OF x] by (simp add: divide_right_mono)
  finally show ?thesis .
qed (simp add: round_sig_def)

lemma round_sig_nonneg: "0 \<le> x \<Longrightarrow> 0 < p \<Longrightarrow> 0 \<le> round_sig p x"
proof -
  assume a: "0 \<le> x" "0 < p"
  have "x / 2 ^ p \<le> x" using a by (simp add: divide_le_eq mult_left_le one_le_power mult_le_cancel_left1)
  then show ?thesis using round_sig_error [OF a] by linarith
qed

section \<open>Exact cases\<close>

lemma exponent_unique: "0 < x \<Longrightarrow> pow2 k \<le> x \<Longrightarrow> x < 2 * pow2 k \<Longrightarrow> exponent x = k"
proof -
  assume x: "0 < x" and k: "pow2 k \<le> x" "x < 2 * pow2 k"
  have m: "2 * pow2 i \<le> pow2 j" if "i < j" for i j
  proof -
    have "pow2 (1 + i) \<le> pow2 j" using that unfolding pow2_powi by (intro power_int_increasing) auto
    then show ?thesis by (simp add: pow2_add) (simp add: pow2_def)
  qed
  show ?thesis
    using exponent_bounds [OF x] k m [of k "exponent x"] m [of "exponent x" k] by (cases k "exponent x" rule: linorder_cases) auto
qed

lemma round_half_even_int [simp]: "round_half_even (of_int n) = n"
  by (simp add: round_half_even_def)

lemma round_sig_representable:
  assumes "0 \<le> n" "n < 2 ^ p" "0 < p"
  shows "round_sig p (of_int n * pow2 k) = of_int n * pow2 k"
proof (cases "n = 0")
  case False
  define x :: rat where "x = of_int n * pow2 k"
  have x: "0 < x" using False assms by (simp add: x_def)
  define e where "e = exponent x"
  have "pow2 e \<le> x" using exponent_bounds(1) [OF x] by (simp add: e_def)
  also have "x < pow2 (int p + k)"
  proof -
    have "(of_int n :: rat) < of_int (2 ^ p)" using assms(2) by (simp only: of_int_less_iff)
    then show ?thesis by (simp add: x_def pow2_add) (simp add: pow2_def)
  qed
  finally have lt: "pow2 e < pow2 (int p + k)" .
  have "e < int p + k"
  proof (rule ccontr)
    assume "\<not> e < int p + k"
    then have "pow2 (int p + k) \<le> pow2 e" unfolding pow2_powi by (intro power_int_increasing) auto
    with lt show False by simp
  qed
  then obtain d where d: "int d = int p + k - e - 1" using zero_le_imp_eq_int [of "int p + k - e - 1"] by auto
  have "x / pow2 (e - int p + 1) = of_int n * pow2 (k - (e - int p + 1))"
    unfolding x_def pow2_powi by (simp add: power_int_diff)
  also have "k - (e - int p + 1) = int d" using d by simp
  also have "of_int n * pow2 (int d) = of_int (n * 2 ^ d)" by (simp add: pow2_def)
  finally have q: "x / pow2 (e - int p + 1) = of_int (n * 2 ^ d)" .
  have "round_sig p x = of_int (round_half_even (x / pow2 (e - int p + 1))) * pow2 (e - int p + 1)"
    using x by (simp add: round_sig_def Let_def e_def)
  also have "\<dots> = x / pow2 (e - int p + 1) * pow2 (e - int p + 1)" unfolding q round_half_even_int ..
  also have "\<dots> = x" using pow2_pos [of "e - int p + 1"] by (simp add: less_imp_neq [symmetric])
  finally show ?thesis unfolding x_def .
qed (simp add: round_sig_def)

lemma f32_int: "0 \<le> n \<Longrightarrow> n < 2 ^ 24 \<Longrightarrow> f32 (of_int n) = of_int n"
  using round_sig_representable [of n 24 0] by (simp add: f32_def pow2_def)

lemma f32_two_power: "f32 (2 ^ k) = 2 ^ k"
  using round_sig_representable [of 1 24 "int k"] by (simp add: f32_def pow2_def)

lemma f32_div_two_power: "0 \<le> n \<Longrightarrow> n < 2 ^ 24 \<Longrightarrow> f32 (of_int n / 2 ^ k) = of_int n / 2 ^ k"
  using round_sig_representable [of n 24 "- int k"]
  by (simp add: f32_def pow2_powi power_int_minus divide_inverse)

section \<open>Accumulated error\<close>

text \<open>\<open>near k x y\<close>: \<open>x\<close> is \<open>y\<close> up to \<open>k\<close> roundings to \<open>double\<close>.\<close>

definition lo64 :: rat where
  "lo64 = 1 - 1 / 2 ^ 53"

definition near :: "nat \<Rightarrow> rat \<Rightarrow> rat \<Rightarrow> bool" where
  "near k x y \<longleftrightarrow> 0 < x \<and> 0 < y \<and> y * lo64 ^ k \<le> x \<and> x * lo64 ^ k \<le> y"

lemma lo64_bounds: "0 < lo64" "lo64 < 1"
  by (simp_all add: lo64_def)

lemma near_refl: "0 < x \<Longrightarrow> near 0 x x"
  by (simp add: near_def)

lemma near_f64: "0 < x \<Longrightarrow> near 1 (f64 x) x"
proof -
  assume x: "0 < x"
  have e: "\<bar>f64 x - x\<bar> \<le> x / 2 ^ 53" using round_sig_error [of x 53] x by (simp add: f64_def)
  then have "x * lo64 \<le> f64 x" "f64 x \<le> x * (1 + 1 / 2 ^ 53)" 
    by (simp_all only: lo64_def abs_le_iff right_diff_distrib distrib_left) (simp_all add: algebra_simps)
  moreover have "x * (1 + 1 / 2 ^ 53) * lo64 \<le> x * 1" using x by (simp add: lo64_def)
  moreover have "0 < x * lo64" using x lo64_bounds by simp
  moreover have "f64 x * lo64 \<le> x * (1 + 1 / 2 ^ 53) * lo64"
    using calculation(2) lo64_bounds by (intro mult_right_mono) auto
  ultimately show ?thesis using x unfolding near_def power_one_right by linarith
qed

lemma near_mult: "near j x y \<Longrightarrow> near k x' y' \<Longrightarrow> near (j + k) (x * x') (y * y')"
proof -
  assume a: "near j x y" "near k x' y'"
  have "(y * lo64 ^ j) * (y' * lo64 ^ k) \<le> x * x'" "(x * lo64 ^ j) * (x' * lo64 ^ k) \<le> y * y'"
    using a lo64_bounds by (auto simp: near_def intro!: mult_mono)
  then show ?thesis using a by (simp add: near_def power_add mult_ac)
qed

lemma near_inverse: "near k x y \<Longrightarrow> near k (1 / x) (1 / y)"
  by (auto simp: near_def field_simps)

lemma near_divide: "near j x y \<Longrightarrow> near k x' y' \<Longrightarrow> near (j + k) (x / x') (y / y')"
  using near_mult [OF _ near_inverse, of j x y k x' y'] by simp

lemma near_trans: "near j x y \<Longrightarrow> near k y z \<Longrightarrow> near (j + k) x z"
proof -
  assume a: "near j x y" "near k y z"
  have p: "0 < lo64 ^ n" for n using lo64_bounds by simp
  have "z * lo64 ^ k * lo64 ^ j \<le> y * lo64 ^ j" "x * lo64 ^ j * lo64 ^ k \<le> y * lo64 ^ k"
    using a p by (auto simp: near_def intro!: mult_right_mono less_imp_le)
  then show ?thesis using a unfolding near_def power_add by (auto simp: mult_ac)
qed

lemma near_rounded: "near k x y \<Longrightarrow> near (Suc k) (f64 x) y"
  using near_trans [OF near_f64, of x k y] by (simp add: near_def)

lemma near_floor:
  assumes "near k x y" "k \<le> 8" "y < 2 ^ 40"
  shows "\<bar>\<lfloor>x\<rfloor> - \<lfloor>y\<rfloor>\<bar> \<le> 1"
proof -
  have "1 + of_nat k * (- (1 / 2 ^ 53)) \<le> (1 + - (1 / 2 ^ 53) :: rat) ^ k"
    by (rule Bernoulli_inequality) simp
  moreover have "(of_nat k :: rat) \<le> 8" using assms(2) by simp
  ultimately have l: "1 - 1 / 2 ^ 50 \<le> lo64 ^ k" by (simp add: lo64_def)
  have xy: "0 < x" "0 < y" "y * lo64 ^ k \<le> x" "x * lo64 ^ k \<le> y" using assms(1) by (auto simp: near_def)
  have "y * (1 - 1 / 2 ^ 50) \<le> x" using mult_left_mono [OF l, of y] xy by linarith
  moreover have "x * (1 - 1 / 2 ^ 50) \<le> y" using mult_left_mono [OF l, of x] xy by linarith
  ultimately have "\<bar>x - y\<bar> < 1" using assms(3) by (simp add: abs_less_iff algebra_simps)
  then show ?thesis by linarith
qed

end
