(* ===== verification/Radio_State.thy ===== *)
theory Radio_State
  imports Settings Floats
begin

text \<open>
  The LoRa radio parameters (\<^verbatim>\<open>Config.h\<close>) as a record that extends the non-volatile store, and
  the replies that report them to the host (\<open>kiss_indicate_*\<close> of \<^verbatim>\<open>Utilities.h\<close>). The modem chips appear as the quantisation their drivers apply to bandwidth and
  frequency (\<^verbatim>\<open>sx126x.cpp\<close>, \<^verbatim>\<open>sx127x.cpp\<close>, \<^verbatim>\<open>sx128x.cpp\<close>) and as a log of the driver
  calls made.
\<close>

section \<open>The modem drivers\<close>

datatype pa_pin = RFO | PA_BOOST

datatype modem_call =
    Begin u32 | End | EnableCrc | OnReceive | Receive nat | SetTxPower int pa_pin | SetSignalBandwidth u32
  | SetSpreadingFactor int | SetCodingRate4 int | SetSyncWord u8 | SetPreambleLength int | SetFrequency u32

text \<open>
  \<open>getSignalBandwidth\<close> after \<open>setSignalBandwidth\<close>. The parameter is a signed \<open>long\<close> on the
  SX127x and SX126x drivers and unsigned on the SX128x driver.
\<close>

definition subghz_bandwidth :: "int \<Rightarrow> u32" where
  "subghz_bandwidth sbw =
     (if sbw \<le> 7800 then 7800 else if sbw \<le> 10400 then 10400 else if sbw \<le> 15600 then 15600
      else if sbw \<le> 20800 then 20800 else if sbw \<le> 31250 then 31250 else if sbw \<le> 41700 then 41700
      else if sbw \<le> 62500 then 62500 else if sbw \<le> 125000 then 125000
      else if sbw \<le> 250000 then 250000 else 500000)"

definition sx128x_bandwidth :: "int \<Rightarrow> u32" where
  "sx128x_bandwidth sbw =
     (if sbw \<le> 203125 then 203125 else if sbw \<le> 406250 then 406250
      else if sbw \<le> 812500 then 812500 else 1625000)"

definition modem_bandwidth :: "modem_variant \<Rightarrow> u32 \<Rightarrow> u32" where
  "modem_bandwidth m sbw =
     (case m of SX1280 \<Rightarrow> sx128x_bandwidth (uint sbw) | _ \<Rightarrow> subghz_bandwidth (sint sbw))"

text \<open>
  \<open>getFrequency\<close> after \<open>setFrequency\<close>. The SX127x driver reads the 24-bit frequency
  register back; the other drivers return the value they were given.
\<close>

definition sx127x_frf :: "nat \<Rightarrow> nat" where
  "sx127x_frf frequency = frequency * 2 ^ 19 div 32000000 mod 2 ^ 24"

definition sx127x_frequency :: "nat \<Rightarrow> nat" where
  "sx127x_frequency frequency = sx127x_frf frequency * 32000000 div 2 ^ 19"

definition modem_frequency :: "modem_variant \<Rightarrow> u32 \<Rightarrow> u32" where
  "modem_frequency m f =
     (case m of SX1276 \<Rightarrow> of_nat (sx127x_frequency (unat f))
      | SX1278 \<Rightarrow> of_nat (sx127x_frequency (unat f)) | _ \<Rightarrow> f)"

section \<open>State\<close>

record radio = rom +
  lora_sf :: int
  lora_cr :: int
  lora_txp :: int
  lora_bw :: u32
  lora_freq :: u32
  lora_bitrate :: u32
  lora_sw :: u8
  radio_locked :: bool
  radio_online :: bool
  console_active :: bool
  hw_ready :: bool
  radio_error :: bool
  promisc :: bool
  implicit :: bool
  implicit_l :: u8
  lora_symbol_rate :: rat
  lora_symbol_time_ms :: rat
  lora_us_per_byte :: rat
  lora_limit_rate :: bool
  lora_guard_rate :: bool
  lora_preamble_symbols :: int
  lora_preamble_time_ms :: int
  lora_header_time_ms :: int
  csma_slot_ms :: int
  difs_ms :: int
  stat_rx :: u32
  stat_tx :: u32
  last_rssi :: int
  last_snr_raw :: u8
  pa_values_determined :: bool
  tx_gain :: "int list"
  lora_pa_model :: u8
  modem_responds :: bool
  modem_bw :: u32
  modem_freq :: u32
  modem_log :: "modem_call list"

definition modem_do :: "modem_call \<Rightarrow> 'a radio_scheme \<Rightarrow> 'a radio_scheme" where
  "modem_do c s = s\<lparr>modem_log := modem_log s @ [c]\<rparr>"

definition modem_set_bandwidth :: "board \<Rightarrow> u32 \<Rightarrow> 'a radio_scheme \<Rightarrow> 'a radio_scheme" where
  "modem_set_bandwidth b sbw s = modem_do (SetSignalBandwidth sbw) (s\<lparr>modem_bw := modem_bandwidth (modem b) sbw\<rparr>)"

definition modem_set_frequency :: "board \<Rightarrow> u32 \<Rightarrow> 'a radio_scheme \<Rightarrow> 'a radio_scheme" where
  "modem_set_frequency b f s = modem_do (SetFrequency f) (s\<lparr>modem_freq := modem_frequency (modem b) f\<rparr>)"

section \<open>Replies to the host\<close>

text \<open>A reply frame: command, then bytes written as they are, then escaped bytes.\<close>

definition raw_writes :: "board \<Rightarrow> u8 list \<Rightarrow> 'a host_scheme \<Rightarrow> 'a host_scheme" where
  "raw_writes b xs s = foldl (\<lambda>s x. serial_write b x s) s xs"

definition reply :: "board \<Rightarrow> u8 \<Rightarrow> u8 list \<Rightarrow> u8 list \<Rightarrow> 'a host_scheme \<Rightarrow> 'a host_scheme" where
  "reply b c raw esc s =
     serial_write b FEND (escaped_writes b esc (raw_writes b raw (serial_write b c (serial_write b FEND s))))"

definition kiss_select_interface :: "board \<Rightarrow> u8 \<Rightarrow> 'a host_scheme \<Rightarrow> 'a host_scheme" where
  "kiss_select_interface b vport = reply b CMD_SEL_INT [vport] []"

definition select0 :: "board \<Rightarrow> 'a host_scheme \<Rightarrow> 'a host_scheme" where
  "select0 b s = (if has_espnow b then kiss_select_interface b 0 s else s)"

definition byte_of_bool :: "bool \<Rightarrow> u8" where
  "byte_of_bool p = (if p then 0x01 else 0x00)"

definition kiss_indicate_reset :: "board \<Rightarrow> 'a host_scheme \<Rightarrow> 'a host_scheme" where
  "kiss_indicate_reset b = reply b CMD_RESET [CMD_RESET_BYTE] []"

definition kiss_indicate_radiostate :: "board \<Rightarrow> 'a radio_scheme \<Rightarrow> 'a radio_scheme" where
  "kiss_indicate_radiostate b s = reply b CMD_RADIO_STATE [byte_of_bool (radio_online s)] [] (select0 b s)"

definition kiss_indicate_stat_rx :: "board \<Rightarrow> 'a radio_scheme \<Rightarrow> 'a radio_scheme" where
  "kiss_indicate_stat_rx b s = reply b CMD_STAT_RX [] (be32 (stat_rx s)) (select0 b s)"

definition kiss_indicate_stat_tx :: "board \<Rightarrow> 'a radio_scheme \<Rightarrow> 'a radio_scheme" where
  "kiss_indicate_stat_tx b s = reply b CMD_STAT_TX [] (be32 (stat_tx s)) (select0 b s)"

abbreviation (input) rssi_offset :: int where "rssi_offset \<equiv> 157"

definition kiss_indicate_stat_rssi :: "board \<Rightarrow> 'a radio_scheme \<Rightarrow> 'a radio_scheme" where
  "kiss_indicate_stat_rssi b s = reply b CMD_STAT_RSSI [] [word_of_int (last_rssi s + rssi_offset)] (select0 b s)"

definition kiss_indicate_stat_snr :: "board \<Rightarrow> 'a radio_scheme \<Rightarrow> 'a radio_scheme" where
  "kiss_indicate_stat_snr b s = reply b CMD_STAT_SNR [] [last_snr_raw s] (select0 b s)"

definition kiss_indicate_radio_lock :: "board \<Rightarrow> 'a radio_scheme \<Rightarrow> 'a radio_scheme" where
  "kiss_indicate_radio_lock b s = reply b CMD_RADIO_LOCK [byte_of_bool (radio_locked s)] [] (select0 b s)"

definition kiss_indicate_spreadingfactor :: "board \<Rightarrow> 'a radio_scheme \<Rightarrow> 'a radio_scheme" where
  "kiss_indicate_spreadingfactor b s = reply b CMD_SF [word_of_int (lora_sf s)] [] (select0 b s)"

definition kiss_indicate_syncword :: "board \<Rightarrow> 'a radio_scheme \<Rightarrow> 'a radio_scheme" where
  "kiss_indicate_syncword b s = reply b CMD_SYNC_WORD [lora_sw s] [] (select0 b s)"

definition kiss_indicate_codingrate :: "board \<Rightarrow> 'a radio_scheme \<Rightarrow> 'a radio_scheme" where
  "kiss_indicate_codingrate b s = reply b CMD_CR [word_of_int (lora_cr s)] [] (select0 b s)"

definition kiss_indicate_implicit_length :: "board \<Rightarrow> 'a radio_scheme \<Rightarrow> 'a radio_scheme" where
  "kiss_indicate_implicit_length b s = reply b CMD_IMPLICIT [implicit_l s] [] s"

definition kiss_indicate_txpower :: "board \<Rightarrow> 'a radio_scheme \<Rightarrow> 'a radio_scheme" where
  "kiss_indicate_txpower b s = reply b CMD_TXPOWER [word_of_int (lora_txp s)] [] (select0 b s)"

definition kiss_indicate_bandwidth :: "board \<Rightarrow> 'a radio_scheme \<Rightarrow> 'a radio_scheme" where
  "kiss_indicate_bandwidth b s = reply b CMD_BANDWIDTH [] (be32 (lora_bw s)) (select0 b s)"

definition kiss_indicate_frequency :: "board \<Rightarrow> 'a radio_scheme \<Rightarrow> 'a radio_scheme" where
  "kiss_indicate_frequency b s = reply b CMD_FREQUENCY [] (be32 (lora_freq s)) (select0 b s)"

text \<open>The cast of a non-negative \<open>float\<close> to \<open>uint16_t\<close>.\<close>

definition u16_of_rat :: "rat \<Rightarrow> u16" where
  "u16_of_rat x = word_of_int \<lfloor>x\<rfloor>"

definition kiss_indicate_phy_stats :: "board \<Rightarrow> 'a radio_scheme \<Rightarrow> 'a radio_scheme" where
  "kiss_indicate_phy_stats b s =
     (if esp_or_nrf b then
        reply b CMD_STAT_PHYPRM []
          (be16 (u16_of_rat (f32 (lora_symbol_time_ms s * 1000))) @ be16 (u16_of_rat (lora_symbol_rate s)) @
           be16 (word_of_int (lora_preamble_symbols s)) @ be16 (word_of_int (lora_preamble_time_ms s)) @
           be16 (word_of_int (csma_slot_ms s)) @ be16 (word_of_int (difs_ms s))) s
      else s)"

definition kiss_indicate_random :: "board \<Rightarrow> u8 \<Rightarrow> 'a host_scheme \<Rightarrow> 'a host_scheme" where
  "kiss_indicate_random b byte = reply b CMD_RANDOM [byte] []"

definition kiss_indicate_ready :: "board \<Rightarrow> 'a host_scheme \<Rightarrow> 'a host_scheme" where
  "kiss_indicate_ready b = reply b CMD_READY [0x01] []"

definition kiss_indicate_not_ready :: "board \<Rightarrow> 'a host_scheme \<Rightarrow> 'a host_scheme" where
  "kiss_indicate_not_ready b = reply b CMD_READY [0x00] []"

definition kiss_indicate_promisc :: "board \<Rightarrow> 'a radio_scheme \<Rightarrow> 'a radio_scheme" where
  "kiss_indicate_promisc b s = reply b CMD_PROMISC [byte_of_bool (promisc s)] [] s"

definition kiss_indicate_detect :: "board \<Rightarrow> 'a host_scheme \<Rightarrow> 'a host_scheme" where
  "kiss_indicate_detect b = reply b CMD_DETECT [DETECT_RESP] []"

abbreviation (input) MAJ_VERS :: u8 where "MAJ_VERS \<equiv> 0x01"
abbreviation (input) MIN_VERS :: u8 where "MIN_VERS \<equiv> 0x56"

definition kiss_indicate_version :: "board \<Rightarrow> 'a host_scheme \<Rightarrow> 'a host_scheme" where
  "kiss_indicate_version b = reply b CMD_FW_VERSION [MAJ_VERS, MIN_VERS] (be32 (build_number b))"

definition kiss_indicate_platform :: "board \<Rightarrow> 'a host_scheme \<Rightarrow> 'a host_scheme" where
  "kiss_indicate_platform b = reply b CMD_PLATFORM [platform b] []"

definition kiss_indicate_board :: "board \<Rightarrow> 'a host_scheme \<Rightarrow> 'a host_scheme" where
  "kiss_indicate_board b = reply b CMD_BOARD [board_model b] []"

definition kiss_indicate_mcu :: "board \<Rightarrow> 'a host_scheme \<Rightarrow> 'a host_scheme" where
  "kiss_indicate_mcu b = reply b CMD_MCU [mcu_code (mcu b)] []"

section \<open>Lemmas\<close>

lemmas reply_defs = kiss_select_interface_def select0_def kiss_indicate_reset_def
  kiss_indicate_radiostate_def kiss_indicate_stat_rx_def kiss_indicate_stat_tx_def
  kiss_indicate_stat_rssi_def kiss_indicate_stat_snr_def kiss_indicate_radio_lock_def
  kiss_indicate_spreadingfactor_def kiss_indicate_syncword_def kiss_indicate_codingrate_def
  kiss_indicate_implicit_length_def kiss_indicate_txpower_def kiss_indicate_bandwidth_def
  kiss_indicate_frequency_def kiss_indicate_phy_stats_def kiss_indicate_random_def
  kiss_indicate_ready_def kiss_indicate_not_ready_def kiss_indicate_promisc_def
  kiss_indicate_detect_def kiss_indicate_version_def kiss_indicate_platform_def
  kiss_indicate_board_def kiss_indicate_mcu_def

lemma raw_writes_simps [simp]:
  "raw_writes b [] s = s"
  "raw_writes b (x # xs) s = raw_writes b xs (serial_write b x s)"
  by (simp_all add: raw_writes_def)

lemma link_ok_raw_writes [simp]: "link_ok b (raw_writes b xs s) = link_ok b s"
  by (induction xs arbitrary: s) simp_all

lemma host_bytes_raw_writes [simp]: "link_ok b s \<Longrightarrow> host_bytes (raw_writes b xs s) = host_bytes s @ xs"
  by (induction xs arbitrary: s) simp_all

lemma host_more_raw_writes [simp]: "host.more (raw_writes b xs s) = host.more s"
  by (induction xs arbitrary: s) simp_all

lemma link_ok_reply [simp]: "link_ok b (reply b c raw esc s) = link_ok b s"
  by (simp add: reply_def)

lemma host_more_reply [simp]: "host.more (reply b c raw esc s) = host.more s"
  by (simp add: reply_def)

lemma host_bytes_reply [simp]:
  "link_ok b s \<Longrightarrow> host_bytes (reply b c raw esc s) = host_bytes s @ [FEND, c] @ raw @ stuff_all esc @ [FEND]"
  by (simp add: reply_def)

lemma stuff_all_plain: "FEND \<notin> set xs \<Longrightarrow> FESC \<notin> set xs \<Longrightarrow> stuff_all xs = xs"
  by (induction xs) (auto simp: stuff_all_def stuff_def)

text \<open>A reply whose unescaped bytes need no escaping is the KISS frame of all its bytes.\<close>

lemma reply_frame:
  assumes "link_ok b s" "FEND \<notin> set raw" "FESC \<notin> set raw"
  shows "host_bytes (reply b c raw esc s) = host_bytes s @ kiss_frame c (raw @ esc)"
proof -
  have "stuff_all (raw @ esc) = raw @ stuff_all esc"
    using stuff_all_plain [OF assms(2,3)] by (simp add: stuff_all_def)
  then show ?thesis using assms(1) by (simp add: kiss_frame_def)
qed

lemma select0_frame:
  "link_ok b s \<Longrightarrow> host_bytes (select0 b s) =
    host_bytes s @ (if has_espnow b then kiss_frame CMD_SEL_INT [0] else [])"
  by (simp add: select0_def kiss_select_interface_def kiss_frame_def stuff_def)

lemma select0_simps [simp]:
  "link_ok b (select0 b s) = link_ok b s" "host.more (select0 b s) = host.more s"
  by (simp_all add: select0_def kiss_select_interface_def)

text \<open>Writing to the host changes the log and two link flags, nothing else.\<close>

definition host_update :: "host_event list \<Rightarrow> bool \<Rightarrow> bool \<Rightarrow> 'a host_scheme \<Rightarrow> 'a host_scheme" where
  "host_update l f st s = s\<lparr>host_log := l, serial_in_frame := f, kiss_host_tx_stalled := st\<rparr>"

lemma serial_write_update: "\<exists>l f st. serial_write b x s = host_update l f st s"
  using serial_write_eq [of b x s] by (simp add: host_update_def)

lemma host_update_twice: "host_update l f st (host_update l' f' st' s) = host_update l f st s"
  by (simp add: host_update_def)

lemma escaped_write_update: "\<exists>l f st. escaped_serial_write b x s = host_update l f st s"
proof -
  have "\<exists>l f st. serial_write b y (serial_write b z s) = host_update l f st s" for y z
    by (metis host_update_twice serial_write_update)
  then show ?thesis by (simp add: escaped_serial_write_def serial_write_update)
qed

lemma raw_writes_update: "\<exists>l f st. raw_writes b xs s = host_update l f st s"
proof (induction xs arbitrary: s)
  case Nil
  have "s = host_update (host_log s) (serial_in_frame s) (kiss_host_tx_stalled s) s"
    by (simp add: host_update_def)
  then show ?case by auto
next
  case (Cons x xs)
  then show ?case by (metis host_update_twice raw_writes_simps(2) serial_write_update)
qed

lemma escaped_writes_update: "\<exists>l f st. escaped_writes b xs s = host_update l f st s"
proof (induction xs arbitrary: s)
  case Nil
  have "s = host_update (host_log s) (serial_in_frame s) (kiss_host_tx_stalled s) s"
    by (simp add: host_update_def)
  then show ?case by auto
next
  case (Cons x xs)
  then show ?case by (metis escaped_write_update escaped_writes_simps(2) host_update_twice)
qed

lemma reply_update: "\<exists>l f st. reply b c raw esc s = host_update l f st s"
  unfolding reply_def
  by (metis host_update_twice serial_write_update escaped_writes_update raw_writes_update)

lemma host_update_host_fields [simp]:
  "bt_state (host_update l f st s) = bt_state s"
  "eth_is_connected (host_update l f st s) = eth_is_connected s"
  "wifi_host_is_connected (host_update l f st s) = wifi_host_is_connected s"
  "ws_host_is_connected (host_update l f st s) = ws_host_is_connected s"
  "usb_avail (host_update l f st s) = usb_avail s"
  "usb_drains (host_update l f st s) = usb_drains s"
  "host.more (host_update l f st s) = host.more s"
  by (simp_all add: host_update_def)

lemma reply_host_fields [simp]:
  "bt_state (reply b c raw esc s) = bt_state s"
  "eth_is_connected (reply b c raw esc s) = eth_is_connected s"
  "wifi_host_is_connected (reply b c raw esc s) = wifi_host_is_connected s"
  "ws_host_is_connected (reply b c raw esc s) = ws_host_is_connected s"
  "usb_avail (reply b c raw esc s) = usb_avail s"
  "usb_drains (reply b c raw esc s) = usb_drains s"
  "host.more (reply b c raw esc s) = host.more s"
proof -
  obtain l f st where "reply b c raw esc s = host_update l f st s" using reply_update by blast
  then show
    "bt_state (reply b c raw esc s) = bt_state s"
    "eth_is_connected (reply b c raw esc s) = eth_is_connected s"
    "wifi_host_is_connected (reply b c raw esc s) = wifi_host_is_connected s"
    "ws_host_is_connected (reply b c raw esc s) = ws_host_is_connected s"
    "usb_avail (reply b c raw esc s) = usb_avail s"
    "usb_drains (reply b c raw esc s) = usb_drains s"
    "host.more (reply b c raw esc s) = host.more s"
    by simp_all
qed

lemma select0_host_fields [simp]:
  "bt_state (select0 b s) = bt_state s"
  "eth_is_connected (select0 b s) = eth_is_connected s"
  "wifi_host_is_connected (select0 b s) = wifi_host_is_connected s"
  "ws_host_is_connected (select0 b s) = ws_host_is_connected s"
  "usb_avail (select0 b s) = usb_avail s"
  "usb_drains (select0 b s) = usb_drains s"
  "host.more (select0 b s) = host.more s"
  by (simp_all add: select0_def kiss_select_interface_def)

lemma host_update_rom_fields [simp]:
  "eeprom (host_update l f st s) = eeprom s"
  "ee_writes (host_update l f st s) = ee_writes s"
  "ee_flushes (host_update l f st s) = ee_flushes s"
  "ee_file (host_update l f st s) = ee_file s"
  "model (host_update l f st s) = model s"
  "hwrev (host_update l f st s) = hwrev s"
  "sound_enabled (host_update l f st s) = sound_enabled s"
  "encoder_enabled (host_update l f st s) = encoder_enabled s"
  "radio_auto_start_enabled (host_update l f st s) = radio_auto_start_enabled s"
  "display_blanking_code (host_update l f st s) = display_blanking_code s"
  "display_blanking_enabled (host_update l f st s) = display_blanking_enabled s"
  "display_blanking_timeout (host_update l f st s) = display_blanking_timeout s"
  "rom.more (host_update l f st s) = rom.more s"
  by (simp_all add: host_update_def)

lemma reply_rom_fields [simp]:
  "eeprom (reply b c raw esc s) = eeprom s"
  "ee_writes (reply b c raw esc s) = ee_writes s"
  "ee_flushes (reply b c raw esc s) = ee_flushes s"
  "ee_file (reply b c raw esc s) = ee_file s"
  "model (reply b c raw esc s) = model s"
  "hwrev (reply b c raw esc s) = hwrev s"
  "sound_enabled (reply b c raw esc s) = sound_enabled s"
  "encoder_enabled (reply b c raw esc s) = encoder_enabled s"
  "radio_auto_start_enabled (reply b c raw esc s) = radio_auto_start_enabled s"
  "display_blanking_code (reply b c raw esc s) = display_blanking_code s"
  "display_blanking_enabled (reply b c raw esc s) = display_blanking_enabled s"
  "display_blanking_timeout (reply b c raw esc s) = display_blanking_timeout s"
  "rom.more (reply b c raw esc s) = rom.more s"
proof -
  obtain l f st where "reply b c raw esc s = host_update l f st s" using reply_update by blast
  then show
    "eeprom (reply b c raw esc s) = eeprom s"
    "ee_writes (reply b c raw esc s) = ee_writes s"
    "ee_flushes (reply b c raw esc s) = ee_flushes s"
    "ee_file (reply b c raw esc s) = ee_file s"
    "model (reply b c raw esc s) = model s"
    "hwrev (reply b c raw esc s) = hwrev s"
    "sound_enabled (reply b c raw esc s) = sound_enabled s"
    "encoder_enabled (reply b c raw esc s) = encoder_enabled s"
    "radio_auto_start_enabled (reply b c raw esc s) = radio_auto_start_enabled s"
    "display_blanking_code (reply b c raw esc s) = display_blanking_code s"
    "display_blanking_enabled (reply b c raw esc s) = display_blanking_enabled s"
    "display_blanking_timeout (reply b c raw esc s) = display_blanking_timeout s"
    "rom.more (reply b c raw esc s) = rom.more s"
    by simp_all
qed

lemma select0_rom_fields [simp]:
  "eeprom (select0 b s) = eeprom s"
  "ee_writes (select0 b s) = ee_writes s"
  "ee_flushes (select0 b s) = ee_flushes s"
  "ee_file (select0 b s) = ee_file s"
  "model (select0 b s) = model s"
  "hwrev (select0 b s) = hwrev s"
  "sound_enabled (select0 b s) = sound_enabled s"
  "encoder_enabled (select0 b s) = encoder_enabled s"
  "radio_auto_start_enabled (select0 b s) = radio_auto_start_enabled s"
  "display_blanking_code (select0 b s) = display_blanking_code s"
  "display_blanking_enabled (select0 b s) = display_blanking_enabled s"
  "display_blanking_timeout (select0 b s) = display_blanking_timeout s"
  "rom.more (select0 b s) = rom.more s"
  by (simp_all add: select0_def kiss_select_interface_def)

lemma host_update_radio_fields [simp]:
  "lora_sf (host_update l f st s) = lora_sf s"
  "lora_cr (host_update l f st s) = lora_cr s"
  "lora_txp (host_update l f st s) = lora_txp s"
  "lora_bw (host_update l f st s) = lora_bw s"
  "lora_freq (host_update l f st s) = lora_freq s"
  "lora_bitrate (host_update l f st s) = lora_bitrate s"
  "lora_sw (host_update l f st s) = lora_sw s"
  "radio_locked (host_update l f st s) = radio_locked s"
  "radio_online (host_update l f st s) = radio_online s"
  "console_active (host_update l f st s) = console_active s"
  "hw_ready (host_update l f st s) = hw_ready s"
  "radio_error (host_update l f st s) = radio_error s"
  "promisc (host_update l f st s) = promisc s"
  "implicit (host_update l f st s) = implicit s"
  "implicit_l (host_update l f st s) = implicit_l s"
  "lora_symbol_rate (host_update l f st s) = lora_symbol_rate s"
  "lora_symbol_time_ms (host_update l f st s) = lora_symbol_time_ms s"
  "lora_us_per_byte (host_update l f st s) = lora_us_per_byte s"
  "lora_limit_rate (host_update l f st s) = lora_limit_rate s"
  "lora_guard_rate (host_update l f st s) = lora_guard_rate s"
  "lora_preamble_symbols (host_update l f st s) = lora_preamble_symbols s"
  "lora_preamble_time_ms (host_update l f st s) = lora_preamble_time_ms s"
  "lora_header_time_ms (host_update l f st s) = lora_header_time_ms s"
  "csma_slot_ms (host_update l f st s) = csma_slot_ms s"
  "difs_ms (host_update l f st s) = difs_ms s"
  "stat_rx (host_update l f st s) = stat_rx s"
  "stat_tx (host_update l f st s) = stat_tx s"
  "last_rssi (host_update l f st s) = last_rssi s"
  "last_snr_raw (host_update l f st s) = last_snr_raw s"
  "pa_values_determined (host_update l f st s) = pa_values_determined s"
  "tx_gain (host_update l f st s) = tx_gain s"
  "lora_pa_model (host_update l f st s) = lora_pa_model s"
  "modem_responds (host_update l f st s) = modem_responds s"
  "modem_bw (host_update l f st s) = modem_bw s"
  "modem_freq (host_update l f st s) = modem_freq s"
  "modem_log (host_update l f st s) = modem_log s"
  "radio.more (host_update l f st s) = radio.more s"
  by (simp_all add: host_update_def)

lemma reply_radio_fields [simp]:
  "lora_sf (reply b c raw esc s) = lora_sf s"
  "lora_cr (reply b c raw esc s) = lora_cr s"
  "lora_txp (reply b c raw esc s) = lora_txp s"
  "lora_bw (reply b c raw esc s) = lora_bw s"
  "lora_freq (reply b c raw esc s) = lora_freq s"
  "lora_bitrate (reply b c raw esc s) = lora_bitrate s"
  "lora_sw (reply b c raw esc s) = lora_sw s"
  "radio_locked (reply b c raw esc s) = radio_locked s"
  "radio_online (reply b c raw esc s) = radio_online s"
  "console_active (reply b c raw esc s) = console_active s"
  "hw_ready (reply b c raw esc s) = hw_ready s"
  "radio_error (reply b c raw esc s) = radio_error s"
  "promisc (reply b c raw esc s) = promisc s"
  "implicit (reply b c raw esc s) = implicit s"
  "implicit_l (reply b c raw esc s) = implicit_l s"
  "lora_symbol_rate (reply b c raw esc s) = lora_symbol_rate s"
  "lora_symbol_time_ms (reply b c raw esc s) = lora_symbol_time_ms s"
  "lora_us_per_byte (reply b c raw esc s) = lora_us_per_byte s"
  "lora_limit_rate (reply b c raw esc s) = lora_limit_rate s"
  "lora_guard_rate (reply b c raw esc s) = lora_guard_rate s"
  "lora_preamble_symbols (reply b c raw esc s) = lora_preamble_symbols s"
  "lora_preamble_time_ms (reply b c raw esc s) = lora_preamble_time_ms s"
  "lora_header_time_ms (reply b c raw esc s) = lora_header_time_ms s"
  "csma_slot_ms (reply b c raw esc s) = csma_slot_ms s"
  "difs_ms (reply b c raw esc s) = difs_ms s"
  "stat_rx (reply b c raw esc s) = stat_rx s"
  "stat_tx (reply b c raw esc s) = stat_tx s"
  "last_rssi (reply b c raw esc s) = last_rssi s"
  "last_snr_raw (reply b c raw esc s) = last_snr_raw s"
  "pa_values_determined (reply b c raw esc s) = pa_values_determined s"
  "tx_gain (reply b c raw esc s) = tx_gain s"
  "lora_pa_model (reply b c raw esc s) = lora_pa_model s"
  "modem_responds (reply b c raw esc s) = modem_responds s"
  "modem_bw (reply b c raw esc s) = modem_bw s"
  "modem_freq (reply b c raw esc s) = modem_freq s"
  "modem_log (reply b c raw esc s) = modem_log s"
  "radio.more (reply b c raw esc s) = radio.more s"
proof -
  obtain l f st where "reply b c raw esc s = host_update l f st s" using reply_update by blast
  then show
    "lora_sf (reply b c raw esc s) = lora_sf s"
    "lora_cr (reply b c raw esc s) = lora_cr s"
    "lora_txp (reply b c raw esc s) = lora_txp s"
    "lora_bw (reply b c raw esc s) = lora_bw s"
    "lora_freq (reply b c raw esc s) = lora_freq s"
    "lora_bitrate (reply b c raw esc s) = lora_bitrate s"
    "lora_sw (reply b c raw esc s) = lora_sw s"
    "radio_locked (reply b c raw esc s) = radio_locked s"
    "radio_online (reply b c raw esc s) = radio_online s"
    "console_active (reply b c raw esc s) = console_active s"
    "hw_ready (reply b c raw esc s) = hw_ready s"
    "radio_error (reply b c raw esc s) = radio_error s"
    "promisc (reply b c raw esc s) = promisc s"
    "implicit (reply b c raw esc s) = implicit s"
    "implicit_l (reply b c raw esc s) = implicit_l s"
    "lora_symbol_rate (reply b c raw esc s) = lora_symbol_rate s"
    "lora_symbol_time_ms (reply b c raw esc s) = lora_symbol_time_ms s"
    "lora_us_per_byte (reply b c raw esc s) = lora_us_per_byte s"
    "lora_limit_rate (reply b c raw esc s) = lora_limit_rate s"
    "lora_guard_rate (reply b c raw esc s) = lora_guard_rate s"
    "lora_preamble_symbols (reply b c raw esc s) = lora_preamble_symbols s"
    "lora_preamble_time_ms (reply b c raw esc s) = lora_preamble_time_ms s"
    "lora_header_time_ms (reply b c raw esc s) = lora_header_time_ms s"
    "csma_slot_ms (reply b c raw esc s) = csma_slot_ms s"
    "difs_ms (reply b c raw esc s) = difs_ms s"
    "stat_rx (reply b c raw esc s) = stat_rx s"
    "stat_tx (reply b c raw esc s) = stat_tx s"
    "last_rssi (reply b c raw esc s) = last_rssi s"
    "last_snr_raw (reply b c raw esc s) = last_snr_raw s"
    "pa_values_determined (reply b c raw esc s) = pa_values_determined s"
    "tx_gain (reply b c raw esc s) = tx_gain s"
    "lora_pa_model (reply b c raw esc s) = lora_pa_model s"
    "modem_responds (reply b c raw esc s) = modem_responds s"
    "modem_bw (reply b c raw esc s) = modem_bw s"
    "modem_freq (reply b c raw esc s) = modem_freq s"
    "modem_log (reply b c raw esc s) = modem_log s"
    "radio.more (reply b c raw esc s) = radio.more s"
    by simp_all
qed

lemma select0_radio_fields [simp]:
  "lora_sf (select0 b s) = lora_sf s"
  "lora_cr (select0 b s) = lora_cr s"
  "lora_txp (select0 b s) = lora_txp s"
  "lora_bw (select0 b s) = lora_bw s"
  "lora_freq (select0 b s) = lora_freq s"
  "lora_bitrate (select0 b s) = lora_bitrate s"
  "lora_sw (select0 b s) = lora_sw s"
  "radio_locked (select0 b s) = radio_locked s"
  "radio_online (select0 b s) = radio_online s"
  "console_active (select0 b s) = console_active s"
  "hw_ready (select0 b s) = hw_ready s"
  "radio_error (select0 b s) = radio_error s"
  "promisc (select0 b s) = promisc s"
  "implicit (select0 b s) = implicit s"
  "implicit_l (select0 b s) = implicit_l s"
  "lora_symbol_rate (select0 b s) = lora_symbol_rate s"
  "lora_symbol_time_ms (select0 b s) = lora_symbol_time_ms s"
  "lora_us_per_byte (select0 b s) = lora_us_per_byte s"
  "lora_limit_rate (select0 b s) = lora_limit_rate s"
  "lora_guard_rate (select0 b s) = lora_guard_rate s"
  "lora_preamble_symbols (select0 b s) = lora_preamble_symbols s"
  "lora_preamble_time_ms (select0 b s) = lora_preamble_time_ms s"
  "lora_header_time_ms (select0 b s) = lora_header_time_ms s"
  "csma_slot_ms (select0 b s) = csma_slot_ms s"
  "difs_ms (select0 b s) = difs_ms s"
  "stat_rx (select0 b s) = stat_rx s"
  "stat_tx (select0 b s) = stat_tx s"
  "last_rssi (select0 b s) = last_rssi s"
  "last_snr_raw (select0 b s) = last_snr_raw s"
  "pa_values_determined (select0 b s) = pa_values_determined s"
  "tx_gain (select0 b s) = tx_gain s"
  "lora_pa_model (select0 b s) = lora_pa_model s"
  "modem_responds (select0 b s) = modem_responds s"
  "modem_bw (select0 b s) = modem_bw s"
  "modem_freq (select0 b s) = modem_freq s"
  "modem_log (select0 b s) = modem_log s"
  "radio.more (select0 b s) = radio.more s"
  by (simp_all add: select0_def kiss_select_interface_def)

lemma eeprom_read_reply [simp]: "eeprom_read (reply b c raw esc s) a = eeprom_read s a"
  by (simp add: eeprom_read_def)

section \<open>Properties\<close>

definition radio_blank :: "(nat \<Rightarrow> u8) \<Rightarrow> radio" where
  "radio_blank m = rom.extend (rom_blank m)
     \<lparr>lora_sf = 0, lora_cr = 5, lora_txp = 0xFF, lora_bw = 0, lora_freq = 0, lora_bitrate = 0,
      lora_sw = 0x12, radio_locked = True, radio_online = False, console_active = False,
      hw_ready = False, radio_error = False, promisc = False, implicit = False, implicit_l = 0,
      lora_symbol_rate = 0, lora_symbol_time_ms = 0, lora_us_per_byte = 0, lora_limit_rate = False,
      lora_guard_rate = False, lora_preamble_symbols = 18, lora_preamble_time_ms = 0,
      lora_header_time_ms = 0, csma_slot_ms = 24, difs_ms = 48, stat_rx = 0, stat_tx = 0,
      last_rssi = - 292, last_snr_raw = 0x80, pa_values_determined = False,
      tx_gain = 100 # replicate 21 0, lora_pa_model = LORA_PA_UNKNOWN, modem_responds = True,
      modem_bw = 0, modem_freq = 0, modem_log = []\<rparr>"

lemmas radio_blank_defs = radio_blank_def rom.defs rom_blank_def

lemma eeprom_radio_blank [simp]: "eeprom (radio_blank m) = m"
  by (simp add: radio_blank_defs)

text \<open>
  The multi-byte replies reach the host intact. On a working link, on a build without the second
  interface, the replies that carry 32-bit counters, the bandwidth, the frequency and the
  version decode to one frame with the command and the big-endian value, for all values.
\<close>

theorem replies_decode:
  assumes "link_ok b s" "host_log s = []" "\<not> has_espnow b"
  shows "kiss_decode (host_bytes (kiss_indicate_stat_rx b s)) = [(CMD_STAT_RX, be32 (stat_rx s))] \<and>
         kiss_decode (host_bytes (kiss_indicate_stat_tx b s)) = [(CMD_STAT_TX, be32 (stat_tx s))] \<and>
         kiss_decode (host_bytes (kiss_indicate_bandwidth b s)) = [(CMD_BANDWIDTH, be32 (lora_bw s))] \<and>
         kiss_decode (host_bytes (kiss_indicate_frequency b s)) = [(CMD_FREQUENCY, be32 (lora_freq s))] \<and>
         kiss_decode (host_bytes (kiss_indicate_stat_snr b s)) = [(CMD_STAT_SNR, [last_snr_raw s])] \<and>
         kiss_decode (host_bytes (kiss_indicate_version b s)) =
           [(CMD_FW_VERSION, [MAJ_VERS, MIN_VERS] @ be32 (build_number b))]"
proof -
  have "host_bytes s = []" using assms(2) by (simp add: host_bytes_def)
  then have "host_bytes (reply b c raw esc s) = kiss_frame c (raw @ esc)"
    if "FEND \<notin> set raw" "FESC \<notin> set raw" for c raw esc
    using reply_frame [OF assms(1) that] by simp
  then show ?thesis using assms(3) by (simp add: reply_defs del: host_bytes_reply)
qed

theorem replies_decode_witness:
  "kiss_decode (host_bytes (kiss_indicate_frequency board_rnode ((radio_blank (\<lambda>a. 0))\<lparr>lora_freq := 0xC0DBC0DB\<rparr>))) =
    [(CMD_FREQUENCY, be32 0xC0DBC0DB)]"
  using replies_decode [of board_rnode "(radio_blank (\<lambda>a. 0))\<lparr>lora_freq := 0xC0DBC0DB\<rparr>"]
  by (simp add: radio_blank_defs link_ok_def board_values)

text \<open>
  The sync word, the implicit length and the random byte are written without escaping, so the reply is
  well formed for every byte but the two KISS control bytes; with a sync word of 0xC0 the
  host decodes an empty report.
\<close>

theorem unescaped_replies:
  assumes "link_ok b s" "host_log s = []" "\<not> has_espnow b"
  shows "(lora_sw s \<noteq> FEND \<and> lora_sw s \<noteq> FESC \<longrightarrow>
            kiss_decode (host_bytes (kiss_indicate_syncword b s)) = [(CMD_SYNC_WORD, [lora_sw s])]) \<and>
         (lora_sw s = FEND \<longrightarrow>
            kiss_decode (host_bytes (kiss_indicate_syncword b s)) = [(CMD_SYNC_WORD, [])]) \<and>
         kiss_decode (host_bytes (kiss_indicate_random b FEND s)) = [(CMD_RANDOM, [])]"
proof -
  have h: "host_bytes s = []" using assms(2) by (simp add: host_bytes_def)
  have "kiss_decode (host_bytes (kiss_indicate_syncword b s)) = [(CMD_SYNC_WORD, [lora_sw s])]"
    if "lora_sw s \<noteq> FEND" "lora_sw s \<noteq> FESC"
    using reply_frame [OF assms(1), of "[lora_sw s]" CMD_SYNC_WORD "[]"] that h assms(3)
    by (simp add: reply_defs del: host_bytes_reply)
  moreover have "kiss_decode (host_bytes (reply b c [FEND] [] s)) = [(c, [])]" if "c \<noteq> FEND" for c
    using that assms(1) h by (simp add: kiss_decode_def close_frame_def)
  ultimately show ?thesis using assms(3) by (simp add: reply_defs del: host_bytes_reply)
qed

theorem unescaped_replies_witness:
  "kiss_decode (host_bytes (kiss_indicate_syncword board_rnode ((radio_blank (\<lambda>a. 0))\<lparr>lora_sw := 0xC0\<rparr>))) =
    [(CMD_SYNC_WORD, [])]"
  using unescaped_replies [of board_rnode "(radio_blank (\<lambda>a. 0))\<lparr>lora_sw := 0xC0\<rparr>"]
  by (simp add: radio_blank_defs link_ok_def board_values)

text \<open>Frequency register of the SX127x: the step is 32 MHz / 2^19, about 61 Hz.\<close>

lemma sx127x_frf_small: "f < 1024000000 \<Longrightarrow> sx127x_frf f = f * 2 ^ 19 div 32000000"
proof -
  assume "f < 1024000000"
  then have "f * 2 ^ 19 div 32000000 < 2 ^ 24" by (simp add: less_mult_imp_div_less)
  then show ?thesis by (simp add: sx127x_frf_def)
qed

lemma sx127x_frequency_bounds:
  assumes "f < 1024000000"
  shows "sx127x_frequency f \<le> f" "f \<le> sx127x_frequency f + 62"
proof -
  define n where "n = f * 2 ^ 19 div 32000000"
  define g where "g = n * 32000000 div 2 ^ 19"
  have e: "sx127x_frequency f = g" using sx127x_frf_small [OF assms] by (simp add: sx127x_frequency_def n_def g_def)
  have "n * 32000000 \<le> f * 524288" "f * 524288 < (n + 1) * 32000000" unfolding n_def by simp_all
  moreover have "g * 524288 \<le> n * 32000000" "n * 32000000 < (g + 1) * 524288" unfolding g_def by simp_all
  ultimately have "f * 524288 < (f + 1) * 524288" "g * 524288 \<le> f * 524288"
    "f * 524288 < g * 524288 + 32524288" by (simp_all add: algebra_simps)
  then show "sx127x_frequency f \<le> f" "f \<le> sx127x_frequency f + 62" unfolding e by simp_all
qed

text \<open>
  On the SX127x the frequency read back is within 62 Hz below the frequency requested, for every frequency
  the 24-bit register can hold; on the other chips it is the requested one. The read-back value
  is not a fixed point: since \<open>startRadio\<close> and \<open>setFrequency\<close> store it in \<open>lora_freq\<close>, each
  further start at 867.2 MHz lowers the frequency by one more step.
\<close>

theorem modem_frequency_error:
  assumes "unat f < 1024000000"
  shows "unat (modem_frequency m f) \<le> unat f \<and> unat f \<le> unat (modem_frequency m f) + 62 \<and>
         modem_frequency SX1276 867200000 = 867199951 \<and> modem_frequency SX1276 867199951 = 867199890 \<and>
         modem_frequency SX1276 867199890 = 867199829"
proof -
  have "unat (of_nat (sx127x_frequency (unat f)) :: u32) = sx127x_frequency (unat f)"
    using sx127x_frequency_bounds(1) [OF assms] assms by (simp add: unat_of_nat)
  then have "unat (modem_frequency m f) \<le> unat f \<and> unat f \<le> unat (modem_frequency m f) + 62"
    using sx127x_frequency_bounds [OF assms] by (cases m) (simp_all add: modem_frequency_def)
  then show ?thesis by (simp add: modem_frequency_def sx127x_frequency_def sx127x_frf_def)
qed

theorem modem_frequency_error_witness:
  "unat (868000000 :: u32) \<le> unat (modem_frequency SX1278 868000000) + 62"
  using modem_frequency_error [of 868000000 SX1278] by simp

text \<open>
  The modem rounds a bandwidth up to the next one it supports: the result is supported, not below a
  request the chip can satisfy, and asking for it again gives it again.
\<close>

theorem modem_bandwidth_quantised:
  "modem_bandwidth m (modem_bandwidth m w) = modem_bandwidth m w \<and>
   (uint w \<le> 500000 \<or> (m = SX1280 \<and> uint w \<le> 1625000) \<longrightarrow> w \<le> modem_bandwidth m w) \<and>
   0 < modem_bandwidth m w"
proof -
  have s: "sint w = uint w" if "uint w \<le> 500000"
    using that order_trans [of "- (2 ^ 31)" 0 "uint w"] by (simp add: sint_uint signed_take_bit_int_eq_self_iff)
  have "modem_bandwidth m (modem_bandwidth m w) = modem_bandwidth m w" "0 < modem_bandwidth m w"
    by (cases m; simp add: modem_bandwidth_def subghz_bandwidth_def sx128x_bandwidth_def)+
  moreover have "w \<le> modem_bandwidth m w" if "uint w \<le> 500000 \<or> (m = SX1280 \<and> uint w \<le> 1625000)"
    using that s by (cases m) (auto simp: modem_bandwidth_def subghz_bandwidth_def sx128x_bandwidth_def
        word_le_def)
  ultimately show ?thesis by blast
qed

theorem modem_bandwidth_quantised_witness:
  "(130000 :: u32) \<le> modem_bandwidth SX1262 130000"
  using modem_bandwidth_quantised [of SX1262 130000] by simp

end
