(* ===== verification/Radio.thy ===== *)
theory Radio
  imports Radio_State
begin

text \<open>
  Configuring the radio (\<^verbatim>\<open>Utilities.h\<close>): the timing values derived from spreading factor,
  bandwidth and coding rate, the setters that push parameters to the modem and read back what
  it took, the mapping between requested transmit power and modem output on boards with an
  external amplifier, and saving and loading the radio configuration. The report of the bit
  rate to the on-board Reticulum node (\<open>HAS_URNS\<close>) is not modelled.
\<close>

section \<open>Timing\<close>

abbreviation (input) PHY_HEADER_LORA_SYMBOLS :: int where "PHY_HEADER_LORA_SYMBOLS \<equiv> 20"
abbreviation (input) PHY_CRC_LORA_BITS :: int where "PHY_CRC_LORA_BITS \<equiv> 16"
abbreviation (input) LORA_PREAMBLE_SYMBOLS_MIN :: int where "LORA_PREAMBLE_SYMBOLS_MIN \<equiv> 18"
abbreviation (input) LORA_PREAMBLE_TARGET_MS :: int where "LORA_PREAMBLE_TARGET_MS \<equiv> 24"
abbreviation (input) LORA_PREAMBLE_FAST_DELTA :: int where "LORA_PREAMBLE_FAST_DELTA \<equiv> 18"
abbreviation (input) LORA_FAST_THRESHOLD_BPS :: int where "LORA_FAST_THRESHOLD_BPS \<equiv> 30000"
abbreviation (input) LORA_LIMIT_THRESHOLD_BPS :: int where "LORA_LIMIT_THRESHOLD_BPS \<equiv> 60000"
abbreviation (input) LORA_GUARD_THRESHOLD_BPS :: int where "LORA_GUARD_THRESHOLD_BPS \<equiv> 14000"
abbreviation (input) CSMA_SIFS_MS :: int where "CSMA_SIFS_MS \<equiv> 0"
abbreviation (input) CSMA_SLOT_MAX_MS :: int where "CSMA_SLOT_MAX_MS \<equiv> 100"
abbreviation (input) CSMA_SLOT_MIN_MS :: int where "CSMA_SLOT_MIN_MS \<equiv> 24"
abbreviation (input) CSMA_SLOT_MIN_FAST_DELTA :: int where "CSMA_SLOT_MIN_FAST_DELTA \<equiv> 18"
abbreviation (input) CSMA_SLOT_SYMBOLS :: int where "CSMA_SLOT_SYMBOLS \<equiv> 12"

definition setPreamble :: "board \<Rightarrow> 'a radio_scheme \<Rightarrow> 'a radio_scheme" where
  "setPreamble b s =
     kiss_indicate_phy_stats b
       (if radio_online s then modem_do (SetPreambleLength (lora_preamble_symbols s)) s else s)"

text \<open>
  The floating-point expressions of \<open>updateBitrate\<close>, with every intermediate rounding: \<open>bw\<close>
  and \<open>2 ^ sf\<close> are exact as \<open>float\<close>, constants such as \<open>4.0\<close> make an operation \<open>double\<close>.
\<close>

definition symbol_rate :: "int \<Rightarrow> nat \<Rightarrow> rat" where
  "symbol_rate bw sf = f32 (f32 (of_int bw) / f32 (2 ^ sf))"

definition symbol_time_ms :: "int \<Rightarrow> nat \<Rightarrow> rat" where
  "symbol_time_ms bw sf = f32 (f64 (f64 (1 / symbol_rate bw sf) * 1000))"

definition bitrate_bps :: "int \<Rightarrow> nat \<Rightarrow> int \<Rightarrow> rat" where
  "bitrate_bps bw sf cr =
     f64 (f64 (of_nat sf * f64 (f64 (4 / f32 (of_int cr)) / f64 (f32 (2 ^ sf) / f64 (f32 (of_int bw) / 1000)))) * 1000)"

definition us_per_byte :: "u32 \<Rightarrow> rat" where
  "us_per_byte br = f32 (f64 (1000000 / f64 (f32 (of_int (uint br)) / 8)))"

definition slot_ms :: "bool \<Rightarrow> rat \<Rightarrow> int" where
  "slot_ms fast_rate symbol_ms =
     (let csma_slot_min_ms = (if fast_rate then CSMA_SLOT_MIN_MS - CSMA_SLOT_MIN_FAST_DELTA else CSMA_SLOT_MIN_MS);
          slot = \<lfloor>f32 (symbol_ms * of_int CSMA_SLOT_SYMBOLS)\<rfloor>;
          slot = (if slot > CSMA_SLOT_MAX_MS then CSMA_SLOT_MAX_MS else slot)
      in if slot < CSMA_SLOT_MIN_MS then csma_slot_min_ms else slot)"

definition preamble_symbols :: "bool \<Rightarrow> rat \<Rightarrow> int" where
  "preamble_symbols fast_rate symbol_ms =
     (let target_ms = (if fast_rate then LORA_PREAMBLE_TARGET_MS - LORA_PREAMBLE_FAST_DELTA else LORA_PREAMBLE_TARGET_MS);
          target = f32 (of_int target_ms / symbol_ms)
      in if target < of_int LORA_PREAMBLE_SYMBOLS_MIN then LORA_PREAMBLE_SYMBOLS_MIN else \<lceil>target\<rceil>)"

definition updateBitrate :: "board \<Rightarrow> 'a radio_scheme \<Rightarrow> 'a radio_scheme" where
  "updateBitrate b s =
     (if esp_or_nrf b then
        if \<not> radio_online s then s\<lparr>lora_bitrate := 0\<rparr>
        else
          (let bw = uint (lora_bw s); sf = nat (lora_sf s); cr = lora_cr s;
               rate = word_of_int \<lfloor>bitrate_bps bw sf cr\<rfloor>;
               symt = symbol_time_ms bw sf;
               fast_rate = (uint rate > LORA_FAST_THRESHOLD_BPS);
               limit_rate = (uint rate > LORA_LIMIT_THRESHOLD_BPS);
               slot = slot_ms fast_rate symt;
               s = s\<lparr>lora_symbol_rate := symbol_rate bw sf,
                     lora_symbol_time_ms := symt,
                     lora_bitrate := rate,
                     lora_us_per_byte := us_per_byte rate,
                     lora_limit_rate := limit_rate,
                     lora_guard_rate := (\<not> limit_rate \<and> uint rate > LORA_GUARD_THRESHOLD_BPS),
                     csma_slot_ms := slot,
                     difs_ms := CSMA_SIFS_MS + 2 * slot,
                     lora_preamble_symbols := preamble_symbols fast_rate symt\<rparr>;
               s = setPreamble b s
           in s\<lparr>lora_preamble_time_ms := \<lceil>f32 (of_int (lora_preamble_symbols s) * symt)\<rceil>,
                lora_header_time_ms := \<lceil>f32 (of_int PHY_HEADER_LORA_SYMBOLS * symt)\<rceil>\<rparr>)
      else s)"

section \<open>Setters\<close>

definition setSpreadingFactor :: "board \<Rightarrow> 'a radio_scheme \<Rightarrow> 'a radio_scheme" where
  "setSpreadingFactor b s =
     updateBitrate b (if radio_online s then modem_do (SetSpreadingFactor (lora_sf s)) s else s)"

definition setCodingRate :: "board \<Rightarrow> 'a radio_scheme \<Rightarrow> 'a radio_scheme" where
  "setCodingRate b s =
     updateBitrate b (if radio_online s then modem_do (SetCodingRate4 (lora_cr s)) s else s)"

definition setSyncWord :: "'a radio_scheme \<Rightarrow> 'a radio_scheme" where
  "setSyncWord s = (if radio_online s then modem_do (SetSyncWord (lora_sw s)) s else s)"

definition set_implicit_length :: "u8 \<Rightarrow> 'a radio_scheme \<Rightarrow> 'a radio_scheme" where
  "set_implicit_length len s = s\<lparr>implicit_l := len, implicit := (len \<noteq> 0)\<rparr>"

definition getBandwidth :: "board \<Rightarrow> 'a radio_scheme \<Rightarrow> 'a radio_scheme" where
  "getBandwidth b s = updateBitrate b (if radio_online s then s\<lparr>lora_bw := modem_bw s\<rparr> else s)"

definition setBandwidth :: "board \<Rightarrow> 'a radio_scheme \<Rightarrow> 'a radio_scheme" where
  "setBandwidth b s = (if radio_online s then getBandwidth b (modem_set_bandwidth b (lora_bw s) s) else s)"

definition getFrequency :: "'a radio_scheme \<Rightarrow> 'a radio_scheme" where
  "getFrequency s = (if radio_online s then s\<lparr>lora_freq := modem_freq s\<rparr> else s)"

definition setFrequency :: "board \<Rightarrow> 'a radio_scheme \<Rightarrow> 'a radio_scheme" where
  "setFrequency b s = (if radio_online s then getFrequency (modem_set_frequency b (lora_freq s) s) else s)"

definition promisc_enable :: "'a radio_scheme \<Rightarrow> 'a radio_scheme" where
  "promisc_enable s = s\<lparr>promisc := True\<rparr>"

definition promisc_disable :: "'a radio_scheme \<Rightarrow> 'a radio_scheme" where
  "promisc_disable s = s\<lparr>promisc := False\<rparr>"

definition lora_receive :: "'a radio_scheme \<Rightarrow> 'a radio_scheme" where
  "lora_receive s = modem_do (Receive (if implicit s then unat (implicit_l s) else 0)) s"

section \<open>Transmit power\<close>

abbreviation (input) PA_GAIN_POINTS :: nat where "PA_GAIN_POINTS \<equiv> 22"

definition PA_GC1109_VALUES :: "int list" where
  "PA_GC1109_VALUES = [11, 11, 11, 11, 11, 11, 11, 11, 11, 11, 11, 11, 11, 11, 11, 11, 10, 10, 9, 9, 8, 7]"

definition PA_KCT8103L_VALUES :: "int list" where
  "PA_KCT8103L_VALUES = [13, 13, 13, 13, 13, 13, 13, 13, 13, 13, 13, 13, 13, 13, 12, 12, 11, 11, 10, 9, 8, 7]"

text \<open>The digits \<open>Serial.printf("%d", n)\<close> writes for a gain, which is between 0 and 99.\<close>

definition gain_text :: "int \<Rightarrow> u8 list" where
  "gain_text g = 0x20 # (if g < 10 then [word_of_int (48 + g)] else [word_of_int (48 + g div 10), word_of_int (48 + g mod 10)])"

definition usb_print :: "u8 list \<Rightarrow> 'a host_scheme \<Rightarrow> 'a host_scheme" where
  "usb_print xs s = foldl (\<lambda>s x. put Usb x s) s xs"

definition is_heltec32_v4 :: "board \<Rightarrow> bool" where
  "is_heltec32_v4 b \<longleftrightarrow> board_model b = BOARD_HELTEC32_V4 \<or> board_model b = BOARD_HELTEC32_V4_R8"

definition is_t096_or_wtracker :: "board \<Rightarrow> bool" where
  "is_t096_or_wtracker b \<longleftrightarrow> board_model b = BOARD_HELTEC_T096 \<or> board_model b = BOARD_HELTEC_WTRACKER_V2"

definition determine_pa_values :: "board \<Rightarrow> 'a radio_scheme \<Rightarrow> 'a radio_scheme" where
  "determine_pa_values b s =
     (if is_heltec32_v4 b then
        if lora_pa_model s = LORA_PA_GC1109 then
          usb_print (concat (map gain_text PA_GC1109_VALUES))
            (s\<lparr>tx_gain := PA_GC1109_VALUES, pa_values_determined := True\<rparr>)
        else if lora_pa_model s = LORA_PA_KCT8103L then
          usb_print (concat (map gain_text PA_KCT8103L_VALUES))
            (s\<lparr>tx_gain := PA_KCT8103L_VALUES, pa_values_determined := True\<rparr>)
        else s
      else if is_t096_or_wtracker b then
        if lora_pa_model s = LORA_PA_KCT8103L then
          s\<lparr>tx_gain := PA_KCT8103L_VALUES, pa_values_determined := True\<rparr>
        else s
      else s)"

text \<open>The loop over the gain points, from point \<open>i\<close>.\<close>

fun power_search :: "int \<Rightarrow> int \<Rightarrow> int list \<Rightarrow> int" where
  "power_search target i [] = - 9"
| "power_search target i (gain # gains) =
     (let effective = i + gain
      in if effective > target then - 1 * (effective - target)
         else if effective = target then i
         else if gains = [] then i + (target - effective)
         else power_search target (i + 1) gains)"

definition map_target_power_to_modem_output :: "board \<Rightarrow> int \<Rightarrow> 'a radio_scheme \<Rightarrow> int \<times> 'a radio_scheme" where
  "map_target_power_to_modem_output b target s =
     (if has_lora_pa b then
        (let s = (if \<not> pa_values_determined s then determine_pa_values b s else s)
         in (power_search target 0 (tx_gain s), s))
      else (target, s))"

definition map_modem_output_to_target_power :: "board \<Rightarrow> int \<Rightarrow> 'a radio_scheme \<Rightarrow> int" where
  "map_modem_output_to_target_power b out s =
     (if has_lora_pa b then
        (let out = (if out < 0 then 0 else out);
             out = (if out \<ge> int PA_GAIN_POINTS then int PA_GAIN_POINTS - 1 else out)
         in out + tx_gain s ! nat out)
      else out)"

definition lora_txp_max :: "board \<Rightarrow> int" where
  "lora_txp_max b =
     (case modem b of
        SX1262 \<Rightarrow> (if has_lora_pa b then pa_max_output b else 22)
      | SX1280 \<Rightarrow> (if has_pa b then 20 else 13)
      | _ \<Rightarrow> 20)"

definition txp_table :: "(u8 \<times> pa_pin) list" where
  "txp_table =
    [(MODEL_11, RFO), (MODEL_12, RFO), (MODEL_13, RFO), (MODEL_C6, RFO), (MODEL_C7, RFO),
     (MODEL_A1, PA_BOOST), (MODEL_A2, PA_BOOST), (MODEL_A3, RFO), (MODEL_A4, RFO), (MODEL_A5, PA_BOOST),
     (MODEL_A6, PA_BOOST), (MODEL_A7, PA_BOOST), (MODEL_A8, PA_BOOST), (MODEL_A9, PA_BOOST),
     (MODEL_AA, PA_BOOST), (MODEL_AC, PA_BOOST), (MODEL_BA, PA_BOOST), (MODEL_BB, PA_BOOST),
     (MODEL_B3, PA_BOOST), (MODEL_B4, PA_BOOST), (MODEL_B8, PA_BOOST), (MODEL_B9, PA_BOOST),
     (MODEL_C4, PA_BOOST), (MODEL_C9, PA_BOOST), (MODEL_C5, PA_BOOST), (MODEL_CA, PA_BOOST),
     (MODEL_C8, PA_BOOST), (MODEL_D3, PA_BOOST), (MODEL_D5, PA_BOOST), (MODEL_D4, PA_BOOST),
     (MODEL_D9, PA_BOOST), (MODEL_DB, PA_BOOST), (MODEL_DC, PA_BOOST), (MODEL_DD, PA_BOOST),
     (MODEL_DE, PA_BOOST), (MODEL_E4, PA_BOOST), (MODEL_E9, PA_BOOST), (MODEL_E3, PA_BOOST),
     (MODEL_E8, PA_BOOST), (MODEL_E5, PA_BOOST), (MODEL_E6, PA_BOOST), (MODEL_FD, PA_BOOST),
     (MODEL_FE, PA_BOOST), (MODEL_FF, RFO)]"

definition setTXPower :: "board \<Rightarrow> 'a radio_scheme \<Rightarrow> 'a radio_scheme" where
  "setTXPower b s =
     (if radio_online s then
        (let (mapped, s) = map_target_power_to_modem_output b (lora_txp s) s;
             s = (if has_lora_pa b then s\<lparr>lora_txp := map_modem_output_to_target_power b mapped s\<rparr> else s);
             mapped = (if model s = MODEL_FD \<and> mapped > 8 then 8 else mapped)
         in foldl (\<lambda>s (m, pin). if model s = m then modem_do (SetTxPower mapped pin) s else s) s txp_table)
      else s)"

section \<open>Saving and loading the radio configuration\<close>

definition eeprom_have_conf :: "board \<Rightarrow> 'a rom_scheme \<Rightarrow> bool" where
  "eeprom_have_conf b s \<longleftrightarrow> eeprom_read s (eeprom_addr b ADDR_CONF_OK) = CONF_OK_BYTE"

definition read_be32 :: "'a rom_scheme \<Rightarrow> nat \<Rightarrow> u32" where
  "read_be32 s a = of_be32 (eeprom_read s a) (eeprom_read s (a + 1)) (eeprom_read s (a + 2)) (eeprom_read s (a + 3))"

definition eeprom_conf_load :: "board \<Rightarrow> 'a radio_scheme \<Rightarrow> 'a radio_scheme" where
  "eeprom_conf_load b s =
     (if eeprom_have_conf b s then
        s\<lparr>lora_sf := uint (eeprom_read s (eeprom_addr b ADDR_CONF_SF)),
          lora_cr := uint (eeprom_read s (eeprom_addr b ADDR_CONF_CR)),
          lora_txp := uint (eeprom_read s (eeprom_addr b ADDR_CONF_TXP)),
          lora_freq := read_be32 s (eeprom_addr b ADDR_CONF_FREQ),
          lora_bw := read_be32 s (eeprom_addr b ADDR_CONF_BW)\<rparr>
      else s)"

definition eeprom_conf_save :: "board \<Rightarrow> 'a radio_scheme \<Rightarrow> 'a radio_scheme" where
  "eeprom_conf_save b s =
     (if hw_ready s \<and> radio_online s then
        (let s = eeprom_update b (eeprom_addr b ADDR_CONF_SF) (word_of_int (lora_sf s)) s;
             s = eeprom_update b (eeprom_addr b ADDR_CONF_CR) (word_of_int (lora_cr s)) s;
             s = eeprom_update b (eeprom_addr b ADDR_CONF_TXP) (word_of_int (lora_txp s)) s;
             s = write_from (eeprom_update b) (eeprom_addr b ADDR_CONF_BW) (be32 (lora_bw s)) s;
             s = write_from (eeprom_update b) (eeprom_addr b ADDR_CONF_FREQ) (be32 (lora_freq s)) s
         in eeprom_update b (eeprom_addr b ADDR_CONF_OK) CONF_OK_BYTE s)
      else s)"

definition eeprom_conf_delete :: "board \<Rightarrow> 'a rom_scheme \<Rightarrow> 'a rom_scheme" where
  "eeprom_conf_delete b s = eeprom_update b (eeprom_addr b ADDR_CONF_OK) 0x00 s"

section \<open>Lemmas\<close>

lemma modem_do_fields [simp]:
  "lora_sf (modem_do c s) = lora_sf s" "lora_cr (modem_do c s) = lora_cr s" "lora_bw (modem_do c s) = lora_bw s"
  "lora_txp (modem_do c s) = lora_txp s" "lora_freq (modem_do c s) = lora_freq s"
  "radio_online (modem_do c s) = radio_online s" "model (modem_do c s) = model s"
  "modem_log (modem_do c s) = modem_log s @ [c]" "radio.more (modem_do c s) = radio.more s"
  "lora_preamble_symbols (modem_do c s) = lora_preamble_symbols s"
  "csma_slot_ms (modem_do c s) = csma_slot_ms s" "difs_ms (modem_do c s) = difs_ms s"
  "lora_limit_rate (modem_do c s) = lora_limit_rate s" "lora_guard_rate (modem_do c s) = lora_guard_rate s"
  "modem_bw (modem_do c s) = modem_bw s" "modem_freq (modem_do c s) = modem_freq s"
  by (simp_all add: modem_do_def)

lemma slot_ms_bounds: "slot_ms fast symt = 6 \<and> fast \<or> 24 \<le> slot_ms fast symt \<and> slot_ms fast symt \<le> 100"
  by (auto simp: slot_ms_def Let_def)

lemma preamble_symbols_min: "18 \<le> preamble_symbols fast symt"
  by (auto simp: preamble_symbols_def Let_def not_less le_ceiling_iff)

lemma bitrate_near:
  assumes "0 < bw" "bw < 2 ^ 24" "0 < sf" "0 < cr" "cr < 2 ^ 24"
  shows "near 6 (bitrate_bps bw sf cr) (of_nat sf * (4 / of_int cr / (2 ^ sf / (of_int bw / 1000))) * 1000)"
proof -
  have r: "f32 (of_int cr) = of_int cr" "f32 (of_int bw) = of_int bw" "f32 (2 ^ sf) = 2 ^ sf"
    using assms by (simp_all add: f32_int f32_two_power)
  define c b1 c1 d where "c = f64 (4 / of_int cr)" and "b1 = f64 (of_int bw / 1000)"
    and "c1 = f64 (2 ^ sf / b1)" and "d = f64 (c / c1)"
  have 1: "near 1 c (4 / of_int cr)" unfolding c_def using assms by (intro near_f64) simp
  have 2: "near 1 b1 (of_int bw / 1000)" unfolding b1_def using assms by (intro near_f64) simp
  have 3: "near 2 c1 (2 ^ sf / (of_int bw / 1000))"
    using near_rounded [OF near_divide [OF near_refl [of "2 ^ sf"] 2]] by (simp add: c1_def numeral_2_eq_2)
  have 4: "near 4 d (4 / of_int cr / (2 ^ sf / (of_int bw / 1000)))"
    using near_rounded [OF near_divide [OF 1 3]] by (simp only: d_def) (simp add: eval_nat_numeral)
  have 5: "near 5 (f64 (of_nat sf * d)) (of_nat sf * (4 / of_int cr / (2 ^ sf / (of_int bw / 1000))))"
    using near_rounded [OF near_mult [OF near_refl [of "of_nat sf"] 4]] assms(3) by (simp add: eval_nat_numeral)
  have "near 6 (f64 (f64 (of_nat sf * d) * 1000)) (of_nat sf * (4 / of_int cr / (2 ^ sf / (of_int bw / 1000))) * 1000)"
    using near_rounded [OF near_mult [OF 5 near_refl [of 1000]]] by (simp add: eval_nat_numeral)
  then show ?thesis unfolding bitrate_bps_def r c_def [symmetric] b1_def [symmetric] c1_def [symmetric] d_def [symmetric] .
qed

lemma power_search_nth:
  assumes "\<And>j. Suc j < length gains \<Longrightarrow> gains ! j \<le> gains ! Suc j + 1" "k < length gains"
    and "i + int k + gains ! k = t"
  shows "\<exists>j \<le> k. power_search t i gains = i + int j \<and> i + int j + gains ! j = t"
  using assms
proof (induction gains arbitrary: i k)
  case (Cons g gs)
  have mono: "g + i \<le> i + int m + (g # gs) ! m" if "m < length (g # gs)" for m using that
  proof (induction m)
    case (Suc m)
    then have "(g # gs) ! m \<le> (g # gs) ! Suc m + 1" using Cons.prems(1) [of m] by simp
    with Suc show ?case by simp
  qed simp
  show ?case
  proof (cases "i + g = t")
    case True
    then show ?thesis by (intro exI [of _ 0]) simp
  next
    case False
    then have k: "k \<noteq> 0" using Cons.prems(3) by (cases k) auto
    then obtain k' where k': "k = Suc k'" by (cases k) auto
    have lt: "i + g < t" using mono [OF Cons.prems(2)] Cons.prems(3) False by simp
    have "gs \<noteq> []" using Cons.prems(2) k' by auto
    then have r: "power_search t i (g # gs) = power_search t (i + 1) gs" using lt by simp
    have "\<exists>j \<le> k'. power_search t (i + 1) gs = i + 1 + int j \<and> i + 1 + int j + gs ! j = t"
    proof (rule Cons.IH)
      show "gs ! j \<le> gs ! Suc j + 1" if "Suc j < length gs" for j using Cons.prems(1) [of "Suc j"] that by simp
    qed (use Cons.prems k' in simp_all)
    then obtain j where "j \<le> k'" "power_search t (i + 1) gs = i + 1 + int j" "i + 1 + int j + gs ! j = t" by auto
    then show ?thesis using r k' by (intro exI [of _ "Suc j"]) simp
  qed
qed simp

lemma usb_print_eq: "usb_print xs s = s\<lparr>host_log := host_log s @ map (Put Usb) xs\<rparr>"
  by (induction xs arbitrary: s) (simp_all add: usb_print_def put_def)

lemma determine_pa_fields [simp]:
  "model (determine_pa_values b s) = model s" "radio_online (determine_pa_values b s) = radio_online s"
  "modem_log (determine_pa_values b s) = modem_log s" "lora_txp (determine_pa_values b s) = lora_txp s"
  by (simp_all add: determine_pa_values_def usb_print_eq)

lemma map_target_fields [simp]:
  "model (snd (map_target_power_to_modem_output b t s)) = model s"
  "modem_log (snd (map_target_power_to_modem_output b t s)) = modem_log s"
  by (simp_all add: map_target_power_to_modem_output_def Let_def)

lemma txp_calls:
  "distinct (map fst tab) \<Longrightarrow>
    modem_log (foldl (\<lambda>s (m, pin). if model s = m then modem_do (SetTxPower p pin) s else s) s tab) =
    modem_log s @ (case map_of tab (model s) of None \<Rightarrow> [] | Some pin \<Rightarrow> [SetTxPower p pin])"
proof (induction tab arbitrary: s)
  case (Cons e tab)
  obtain m pin where e: "e = (m, pin)" by fastforce
  have "map_of tab m = None" using Cons.prems e by (simp add: map_of_eq_None_iff)
  then show ?case using Cons by (auto simp: e)
qed simp

lemma txp_table_distinct: "distinct (map fst txp_table)"
  by (simp add: txp_table_def)

lemma eeprom_read_conf_save:
  assumes "hw_ready s" "radio_online s"
  shows "eeprom_read (eeprom_conf_save b s) a =
    (let o' = eeprom_offset b in
     if a = ADDR_CONF_OK + o' then CONF_OK_BYTE
     else if ADDR_CONF_FREQ + o' \<le> a \<and> a < ADDR_CONF_FREQ + o' + 4 then be32 (lora_freq s) ! (a - (ADDR_CONF_FREQ + o'))
     else if ADDR_CONF_BW + o' \<le> a \<and> a < ADDR_CONF_BW + o' + 4 then be32 (lora_bw s) ! (a - (ADDR_CONF_BW + o'))
     else if a = ADDR_CONF_TXP + o' then word_of_int (lora_txp s)
     else if a = ADDR_CONF_CR + o' then word_of_int (lora_cr s)
     else if a = ADDR_CONF_SF + o' then word_of_int (lora_sf s)
     else eeprom_read s a)"
proof -
  have f: "lora_sf (eeprom_update b c x t) = lora_sf t" "lora_cr (eeprom_update b c x t) = lora_cr t"
    "lora_txp (eeprom_update b c x t) = lora_txp t" "lora_bw (eeprom_update b c x t) = lora_bw t"
    "lora_freq (eeprom_update b c x t) = lora_freq t" for c x and t :: "'a radio_scheme"
    by (simp_all add: eeprom_update_def store_byte_def eeprom_flush_def Let_def)
  have w: "lora_freq (write_from (eeprom_update b) c xs t) = lora_freq t" for c xs and t :: "'a radio_scheme"
    by (induction xs arbitrary: c t) (simp_all add: f)
  show ?thesis using assms
    by (simp add: eeprom_conf_save_def Let_def f w rs.rd_write_from eeprom_addr_def)
qed

lemma read_be32_be32:
  assumes "\<And>i. i < 4 \<Longrightarrow> eeprom_read s (a + i) = be32 w ! i"
  shows "read_be32 s a = w"
  using assms [of 0] assms [of 1] assms [of 2] assms [of 3] by (simp add: read_be32_def be32_def)

section \<open>Properties\<close>

text \<open>
  C37: the computed bit rate is right to one bit per second. For every bandwidth below 2^24 Hz,
  spreading factor up to 12 and coding rate denominator below 2^24, the value the
  floating-point expression of \<open>updateBitrate\<close> truncates to differs by at most one from the
  exact \<open>4 sf bw / (cr 2^sf)\<close>, and the symbol rate is exact. (It is one too low for 7800 Hz at
  spreading factor 5.)
\<close>

theorem bitrate_accurate:
  assumes "0 < bw" "bw < 2 ^ 24" "0 < sf" "sf \<le> 12" "0 < cr" "cr < 2 ^ 24"
  shows "\<bar>\<lfloor>bitrate_bps bw sf cr\<rfloor> - int sf * 4 * bw div (cr * 2 ^ sf)\<bar> \<le> 1 \<and>
         symbol_rate bw sf = of_int bw / 2 ^ sf"
proof -
  let ?v = "of_nat sf * (4 / of_int cr / (2 ^ sf / (of_int bw / 1000))) * 1000 :: rat"
  have v: "?v = of_int (int sf * 4 * bw) / of_int (cr * 2 ^ sf)" using assms by simp
  have "?v \<le> of_int (int sf * 4 * bw)"
  proof -
    have "(1 :: int) * 1 \<le> cr * 2 ^ sf" using assms by (intro mult_mono) auto
    then have "(1 :: rat) \<le> of_int (cr * 2 ^ sf)" by (metis mult_1 of_int_1 of_int_le_iff)
    moreover have "(0 :: rat) \<le> of_int (int sf * 4 * bw)" using assms by simp
    ultimately show ?thesis unfolding v by (metis div_by_1 divide_left_mono mult_1 zero_less_one
        less_le_trans mult_pos_pos)
  qed
  also have "\<dots> < 2 ^ 40"
  proof -
    have "int sf * 4 * bw \<le> 12 * 4 * 2 ^ 24" using assms by (intro mult_mono) auto
    then have "(of_int (int sf * 4 * bw) :: rat) \<le> of_int (12 * 4 * 2 ^ 24)" by (simp only: of_int_le_iff)
    then show ?thesis by simp
  qed
  finally have "\<bar>\<lfloor>bitrate_bps bw sf cr\<rfloor> - \<lfloor>?v\<rfloor>\<bar> \<le> 1"
    using bitrate_near assms by (intro near_floor) auto
  moreover have "\<lfloor>?v\<rfloor> = int sf * 4 * bw div (cr * 2 ^ sf)" unfolding v by (rule floor_divide_of_int_eq)
  moreover have "symbol_rate bw sf = of_int bw / 2 ^ sf"
    using assms by (simp add: symbol_rate_def f32_int f32_two_power f32_div_two_power)
  ultimately show ?thesis by simp
qed

theorem bitrate_accurate_witness:
  "\<bar>\<lfloor>bitrate_bps 7800 5 5\<rfloor> - 975\<bar> \<le> 1 \<and> \<lfloor>bitrate_bps 7800 5 5\<rfloor> = 974"
proof -
  have "\<lfloor>bitrate_bps 7800 5 5\<rfloor> = 974" by code_simp
  then show ?thesis using bitrate_accurate [of 7800 5 5] by simp
qed

text \<open>
  The timing values stay in range whatever the parameters. With the radio online, \<open>updateBitrate\<close>
  leaves a slot of 24 to 100 ms, or of 6 ms above 30 kbit/s, an interframe space of two slots, a
  preamble of at least 18 symbols that the modem was told about, and never both the limit and
  the guard flag.
\<close>

theorem timing_in_range:
  assumes "esp_or_nrf b" "radio_online s"
  shows "(let t = updateBitrate b s in
     (24 \<le> csma_slot_ms t \<and> csma_slot_ms t \<le> 100 \<or> csma_slot_ms t = 6 \<and> uint (lora_bitrate t) > 30000) \<and>
     difs_ms t = 2 * csma_slot_ms t \<and> 18 \<le> lora_preamble_symbols t \<and>
     last (modem_log t) = SetPreambleLength (lora_preamble_symbols t) \<and>
     \<not> (lora_limit_rate t \<and> lora_guard_rate t))"
  using assms slot_ms_bounds preamble_symbols_min
  by (auto simp: updateBitrate_def setPreamble_def kiss_indicate_phy_stats_def Let_def modem_do_def)

theorem timing_in_range_witness:
  "18 \<le> lora_preamble_symbols (updateBitrate board_rak4631
     ((radio_blank (\<lambda>a. 0))\<lparr>radio_online := True, lora_sf := 8, lora_bw := 125000\<rparr>))"
  using timing_in_range [of board_rak4631 "(radio_blank (\<lambda>a. 0))\<lparr>radio_online := True, lora_sf := 8, lora_bw := 125000\<rparr>"]
  by (simp add: board_values esp_or_nrf_def Let_def)

lemma pa_gain_steps:
  "gains = PA_GC1109_VALUES \<or> gains = PA_KCT8103L_VALUES \<Longrightarrow> Suc j < length gains \<Longrightarrow> gains ! j \<le> gains ! Suc j + 1"
proof -
  have "list_all (\<lambda>j. gains ! j \<le> gains ! Suc j + 1) [0..<21] \<and> length gains = 22"
    if "gains = PA_GC1109_VALUES \<or> gains = PA_KCT8103L_VALUES"
    using that by (elim disjE) (simp_all add: PA_GC1109_VALUES_def PA_KCT8103L_VALUES_def upt_rec)
  then show "gains = PA_GC1109_VALUES \<or> gains = PA_KCT8103L_VALUES \<Longrightarrow> Suc j < length gains \<Longrightarrow> gains ! j \<le> gains ! Suc j + 1"
    by (auto simp: list_all_iff)
qed

lemma length_pa_values [simp]: "length PA_GC1109_VALUES = 22" "length PA_KCT8103L_VALUES = 22"
  by (simp_all add: PA_GC1109_VALUES_def PA_KCT8103L_VALUES_def)

text \<open>
  On a board with a characterised amplifier every power the amplifier can produce is set exactly: when the
  requested power is the effective output of some modem level, the level found has that effective
  output, and mapping it back gives the requested power.
\<close>

theorem pa_power_exact:
  assumes "has_lora_pa b" "pa_values_determined s"
    and "tx_gain s = PA_GC1109_VALUES \<or> tx_gain s = PA_KCT8103L_VALUES"
    and "k < PA_GAIN_POINTS" "int k + tx_gain s ! k = t"
  shows "map_modem_output_to_target_power b (fst (map_target_power_to_modem_output b t s))
           (snd (map_target_power_to_modem_output b t s)) = t \<and>
         0 \<le> fst (map_target_power_to_modem_output b t s) \<and> fst (map_target_power_to_modem_output b t s) \<le> int k"
proof -
  have l: "length (tx_gain s) = 22" using assms(3) by auto
  obtain j where "j \<le> k" "power_search t 0 (tx_gain s) = int j" "int j + tx_gain s ! j = t"
    using power_search_nth [of "tx_gain s" k 0 t] pa_gain_steps [OF assms(3)] assms(4,5) l by auto
  then show ?thesis using assms(1,2,4)
    by (simp add: map_target_power_to_modem_output_def map_modem_output_to_target_power_def Let_def)
qed

theorem pa_power_exact_witness:
  "map_modem_output_to_target_power board_heltec32_v4 14
     ((radio_blank (\<lambda>a. 0))\<lparr>tx_gain := PA_KCT8103L_VALUES, pa_values_determined := True\<rparr>) = 26 \<and>
   fst (map_target_power_to_modem_output board_heltec32_v4 26
     ((radio_blank (\<lambda>a. 0))\<lparr>tx_gain := PA_KCT8103L_VALUES, pa_values_determined := True\<rparr>)) \<le> 14"
  using pa_power_exact [of board_heltec32_v4
      "(radio_blank (\<lambda>a. 0))\<lparr>tx_gain := PA_KCT8103L_VALUES, pa_values_determined := True\<rparr>" 14 26]
  by (simp add: board_values map_modem_output_to_target_power_def PA_KCT8103L_VALUES_def Let_def)

text \<open>
  Below the lowest effective output the reported power is wrong. With a lowest gain \<open>g\<close> and a request
  \<open>t < g\<close>, the modem is set \<open>g - t\<close> dB below zero, which gives \<open>t\<close>, but \<open>lora_txp\<close> is
  overwritten with \<open>g\<close>; applying \<open>setTXPower\<close> again then raises the modem output to 0.
\<close>

theorem pa_low_power_not_stable:
  assumes "has_lora_pa b" "pa_values_determined s" "radio_online s" "length (tx_gain s) = PA_GAIN_POINTS"
    and "lora_txp s < tx_gain s ! 0" "map_of txp_table (model s) = Some pin" "model s \<noteq> MODEL_FD"
  shows "modem_log (setTXPower b s) = modem_log s @ [SetTxPower (lora_txp s - tx_gain s ! 0) pin] \<and>
         lora_txp (setTXPower b s) = tx_gain s ! 0 \<and>
         last (modem_log (setTXPower b (setTXPower b s))) = SetTxPower 0 pin"
proof -
  let ?f = "\<lambda>p s (m, pin). if model s = m then modem_do (SetTxPower p pin) s else s"
  have keep: "lora_txp (foldl (?f p) u tab) = lora_txp u \<and> tx_gain (foldl (?f p) u tab) = tx_gain u \<and>
      pa_values_determined (foldl (?f p) u tab) = pa_values_determined u \<and>
      radio_online (foldl (?f p) u tab) = radio_online u \<and> model (foldl (?f p) u tab) = model u" for p u tab
  proof (induction tab arbitrary: u)
    case (Cons e tab)
    then show ?case by (cases e) (simp add: modem_do_def)
  qed simp
  obtain g gs where g: "tx_gain s = g # gs" using assms(4) by (cases "tx_gain s") auto
  have step: "setTXPower b u = foldl (?f p) (u\<lparr>lora_txp := q\<rparr>) txp_table"
    if "tx_gain u = g # gs" "pa_values_determined u" "radio_online u" "model u \<noteq> MODEL_FD"
      "power_search (lora_txp u) 0 (tx_gain u) = p" "map_modem_output_to_target_power b p u = q" for u p q
    using that(2-6) assms(1) by (simp add: setTXPower_def map_target_power_to_modem_output_def Let_def)
  let ?u = "s\<lparr>lora_txp := g\<rparr>"
  have t: "lora_txp s < g" using assms(5) g by simp
  have s1: "setTXPower b s = foldl (?f (lora_txp s - g)) ?u txp_table"
    using step [of s "lora_txp s - g" g] g t assms by (simp add: map_modem_output_to_target_power_def)
  let ?v = "setTXPower b s"
  have v: "lora_txp ?v = g" "tx_gain ?v = g # gs" "pa_values_determined ?v" "radio_online ?v" "model ?v = model s"
    unfolding s1 using keep [of "lora_txp s - g" ?u txp_table] assms g by simp_all
  have s2: "setTXPower b ?v = foldl (?f 0) (?v\<lparr>lora_txp := g\<rparr>) txp_table"
    using step [of ?v 0 g] v assms(1,7) by (simp add: map_modem_output_to_target_power_def)
  have "modem_log ?v = modem_log s @ [SetTxPower (lora_txp s - g) pin]"
    unfolding s1 txp_calls [OF txp_table_distinct] using assms(6) by simp
  moreover have "modem_log (setTXPower b ?v) = modem_log ?v @ [SetTxPower 0 pin]"
    unfolding s2 txp_calls [OF txp_table_distinct] using assms(6) v(5) by simp
  ultimately show ?thesis using v(1) g by simp
qed

theorem pa_low_power_not_stable_witness:
  "(let s = (radio_blank (\<lambda>a. 0))\<lparr>tx_gain := PA_KCT8103L_VALUES, pa_values_determined := True,
              radio_online := True, lora_txp := 5, model := MODEL_C8\<rparr>
    in lora_txp (setTXPower board_heltec32_v4 s) = 13 \<and>
       last (modem_log (setTXPower board_heltec32_v4 (setTXPower board_heltec32_v4 s))) = SetTxPower 0 PA_BOOST)"
  using pa_low_power_not_stable [of board_heltec32_v4 "(radio_blank (\<lambda>a. 0))\<lparr>tx_gain := PA_KCT8103L_VALUES,
      pa_values_determined := True, radio_online := True, lora_txp := 5, model := MODEL_C8\<rparr>" PA_BOOST]
  by (simp add: Let_def) (simp add: board_values PA_KCT8103L_VALUES_def txp_table_def)

text \<open>
  Setting the transmit power reaches the modem exactly once for every model of \<open>setTXPower\<close>'s list, and
  of the models \<open>eeprom_model_valid\<close> accepts exactly six are missing from that list: on them the
  power is never set.
\<close>

theorem tx_power_models:
  assumes "radio_online s" "\<not> has_lora_pa b"
  shows "modem_log (setTXPower b s) = modem_log s @
           (case map_of txp_table (model s) of None \<Rightarrow> []
            | Some pin \<Rightarrow> [SetTxPower (if model s = MODEL_FD \<and> lora_txp s > 8 then 8 else lora_txp s) pin]) \<and>
         filter (\<lambda>m. map_of txp_table m = None) (concat (map snd model_table)) =
           [MODEL_16, MODEL_17, MODEL_D6, MODEL_D7, MODEL_DF, MODEL_E2]"
proof -
  have "filter (\<lambda>m. map_of txp_table m = None) (concat (map snd model_table)) =
      [MODEL_16, MODEL_17, MODEL_D6, MODEL_D7, MODEL_DF, MODEL_E2]"
    by (simp add: model_table_def txp_table_def)
  then show ?thesis using assms
    by (simp add: setTXPower_def map_target_power_to_modem_output_def Let_def txp_calls [OF txp_table_distinct])
qed

theorem tx_power_models_witness:
  "modem_log (setTXPower board_rak4631 ((radio_blank (\<lambda>a. 0))\<lparr>radio_online := True, lora_txp := 22, model := MODEL_16\<rparr>)) = []"
  using tx_power_models [of "(radio_blank (\<lambda>a. 0))\<lparr>radio_online := True, lora_txp := 22, model := MODEL_16\<rparr>" board_rak4631]
  by (simp add: radio_blank_defs board_values txp_table_def)

text \<open>
  C17: the saved radio configuration is restored. After \<open>eeprom_conf_save\<close> on a ready, online radio whose
  spreading factor, coding rate and power fit a byte, \<open>eeprom_conf_load\<close> from any state with
  the same store gives back all five parameters; saving touches no byte outside them.
\<close>

theorem radio_config_roundtrip:
  assumes "hw_ready s" "radio_online s" "0 \<le> lora_sf s" "lora_sf s < 256" "0 \<le> lora_cr s" "lora_cr s < 256"
    and "0 \<le> lora_txp s" "lora_txp s < 256" "eeprom t = eeprom (eeprom_conf_save b s)"
  shows "lora_sf (eeprom_conf_load b t) = lora_sf s \<and> lora_cr (eeprom_conf_load b t) = lora_cr s \<and>
         lora_txp (eeprom_conf_load b t) = lora_txp s \<and> lora_bw (eeprom_conf_load b t) = lora_bw s \<and>
         lora_freq (eeprom_conf_load b t) = lora_freq s \<and>
         (a < eeprom_addr b ADDR_CONF_SF \<or> eeprom_addr b ADDR_CONF_OK < a \<longrightarrow> eeprom_read t a = eeprom_read s a)"
proof -
  have t: "eeprom_read t c = eeprom_read (eeprom_conf_save b s) c" for c using assms(9) by (simp add: eeprom_read_def)
  note r = t eeprom_read_conf_save [OF assms(1,2)]
  have be: "i < 4 \<Longrightarrow> i = 0 \<or> i = 1 \<or> i = 2 \<or> i = 3" for i :: nat by auto
  have f: "read_be32 t (eeprom_addr b ADDR_CONF_FREQ) = lora_freq s"
    by (rule read_be32_be32) (use be in \<open>auto simp: r eeprom_addr_def Let_def\<close>)
  have w: "read_be32 t (eeprom_addr b ADDR_CONF_BW) = lora_bw s"
    by (rule read_be32_be32) (use be in \<open>auto simp: r eeprom_addr_def Let_def\<close>)
  have ok: "eeprom_have_conf b t" by (simp add: eeprom_have_conf_def r eeprom_addr_def Let_def)
  have u: "uint (word_of_int k :: u8) = k" if "0 \<le> k" "k < 256" for k using that by (simp add: uint_word_of_int)
  show ?thesis using ok f w assms(3-8)
    by (auto simp: eeprom_conf_load_def r u eeprom_addr_def Let_def)
qed

theorem radio_config_roundtrip_witness:
  "(let s = (radio_blank (\<lambda>a. 0xFF))\<lparr>hw_ready := True, radio_online := True, lora_sf := 8, lora_cr := 5,
              lora_txp := 17, lora_bw := 125000, lora_freq := 868000000\<rparr>
    in lora_freq (eeprom_conf_load board_rnode (radio_blank (eeprom (eeprom_conf_save board_rnode s)))) = 868000000)"
  using radio_config_roundtrip [of "(radio_blank (\<lambda>a. 0xFF))\<lparr>hw_ready := True, radio_online := True, lora_sf := 8, lora_cr := 5,
              lora_txp := 17, lora_bw := 125000, lora_freq := 868000000\<rparr>" "radio_blank (eeprom (eeprom_conf_save board_rnode
              ((radio_blank (\<lambda>a. 0xFF))\<lparr>hw_ready := True, radio_online := True, lora_sf := 8, lora_cr := 5,
              lora_txp := 17, lora_bw := 125000, lora_freq := 868000000\<rparr>)))" board_rnode 0]
  by (simp add: Let_def)

end
