(* ===== verification/Channel.thy ===== *)
theory Channel
  imports Radio
begin

text \<open>
  The channel as the node sees it (\<^verbatim>\<open>RNode_Firmware.ino\<close>, \<^verbatim>\<open>Config.h\<close>): the airtime accounted per
  bin of 7.5 seconds over the last hour, channel utilisation, the noise floor, interference
  detection and the contention window band derived from the airtime. Inputs from the modem (the
  carrier detector and the current RSSI) and the clock are arguments or fields of the state.
\<close>

section \<open>State\<close>

abbreviation (input) STATUS_INTERVAL_MS :: nat where "STATUS_INTERVAL_MS \<equiv> 3"
abbreviation (input) DCD_SAMPLES :: nat where "DCD_SAMPLES \<equiv> 2500"
abbreviation (input) UTIL_UPDATE_INTERVAL :: nat where "UTIL_UPDATE_INTERVAL \<equiv> 333"
abbreviation (input) AIRTIME_LONGTERM_MS :: nat where "AIRTIME_LONGTERM_MS \<equiv> 3600000"
abbreviation (input) AIRTIME_BINLEN_MS :: nat where "AIRTIME_BINLEN_MS \<equiv> 7500"
abbreviation (input) AIRTIME_BINS :: nat where "AIRTIME_BINS \<equiv> 480"
abbreviation (input) NOISE_FLOOR_SAMPLES :: nat where "NOISE_FLOOR_SAMPLES \<equiv> 128"
abbreviation (input) CSMA_CW_BANDS :: int where "CSMA_CW_BANDS \<equiv> 4"
abbreviation (input) CSMA_CW_PER_BAND_WINDOWS :: u8 where "CSMA_CW_PER_BAND_WINDOWS \<equiv> 15"
abbreviation (input) CSMA_BAND_1_MAX_AIRTIME :: int where "CSMA_BAND_1_MAX_AIRTIME \<equiv> 7"
abbreviation (input) CSMA_BAND_N_MIN_AIRTIME :: int where "CSMA_BAND_N_MIN_AIRTIME \<equiv> 85"
abbreviation (input) CSMA_RFENV_RECAL_MS :: u32 where "CSMA_RFENV_RECAL_MS \<equiv> 2500"
abbreviation (input) CSMA_RFENV_RECAL_LIMIT_DB :: int where "CSMA_RFENV_RECAL_LIMIT_DB \<equiv> - 83"
abbreviation (input) LNA_GD_THRSHLD :: int where "LNA_GD_THRSHLD \<equiv> - 109"
abbreviation (input) LNA_GD_LIMIT :: int where "LNA_GD_LIMIT \<equiv> - 89"
abbreviation (input) LORA_LNA_GVT :: int where "LORA_LNA_GVT \<equiv> 12"
abbreviation (input) LED_ID_TRIG :: u8 where "LED_ID_TRIG \<equiv> 16"

definition CSMA_INFR_THRESHOLD_DB :: "board \<Rightarrow> int" where
  "CSMA_INFR_THRESHOLD_DB b =
     (if board_model b = BOARD_MESHADVENTURER_S3 \<or> board_model b = BOARD_MESHADVENTURER \<or>
         board_model b = BOARD_MESHPOE_S3 \<or> board_model b = BOARD_TBEAM_1W then 14
      else if board_model b = BOARD_PROMICRO then 28 else 11)"

record channel = radio +
  millis :: u32
  lora_low_datarate :: bool
  airtime_bins :: "u16 list"
  longterm_bins :: "rat list"
  util_samples :: "bool list"
  dcd_sample :: nat
  local_channel_util :: rat
  total_channel_util :: rat
  longterm_channel_util :: rat
  airtime :: rat
  longterm_airtime :: rat
  st_airtime_limit :: rat
  lt_airtime_limit :: rat
  airtime_lock :: bool
  dcd :: bool
  current_rssi :: int
  noise_floor :: int
  noise_floor_sampled :: bool
  noise_floor_sample :: nat
  noise_floor_buffer :: "int list"
  interference_detected :: bool
  avoid_interference :: bool
  interference_persists :: bool
  interference_start :: u32
  led_id_filter :: u8
  last_status_update :: u32
  cw_band :: u8
  cw_min :: u8
  cw_max :: u8
  kiss_stats_pending :: bool

section \<open>Replies\<close>

text \<open>The cast \<open>(uint16_t)(x*100*100)\<close> of a \<open>float\<close> share to hundredths of a percent.\<close>

definition u16_percent :: "rat \<Rightarrow> u16" where
  "u16_percent x = u16_of_rat (f32 (f32 (x * 100) * 100))"

definition kiss_indicate_st_alock :: "board \<Rightarrow> 'a channel_scheme \<Rightarrow> 'a channel_scheme" where
  "kiss_indicate_st_alock b s = reply b CMD_ST_ALOCK [] (be16 (u16_percent (st_airtime_limit s))) (select0 b s)"

definition kiss_indicate_lt_alock :: "board \<Rightarrow> 'a channel_scheme \<Rightarrow> 'a channel_scheme" where
  "kiss_indicate_lt_alock b s = reply b CMD_LT_ALOCK [] (be16 (u16_percent (lt_airtime_limit s))) (select0 b s)"

definition kiss_indicate_channel_stats :: "board \<Rightarrow> 'a channel_scheme \<Rightarrow> 'a channel_scheme" where
  "kiss_indicate_channel_stats b s =
     (if esp_or_nrf b then
        reply b CMD_STAT_CHTM []
          (be16 (u16_percent (airtime s)) @ be16 (u16_percent (longterm_airtime s)) @
           be16 (u16_percent (total_channel_util s)) @ be16 (u16_percent (longterm_channel_util s)) @
           [word_of_int (current_rssi s + rssi_offset), word_of_int (noise_floor s + rssi_offset),
            if interference_detected s then word_of_int (current_rssi s + rssi_offset) else 0xFF]) s
      else s)"

definition kiss_indicate_csma_stats :: "board \<Rightarrow> 'a channel_scheme \<Rightarrow> 'a channel_scheme" where
  "kiss_indicate_csma_stats b s =
     (if esp_or_nrf b then reply b CMD_STAT_CSMA [] [cw_band s, cw_min s, cw_max s] s else s)"

section \<open>Airtime\<close>

definition init_channel_stats :: "board \<Rightarrow> 'a channel_scheme \<Rightarrow> 'a channel_scheme" where
  "init_channel_stats b s =
     (if mcu b = McuEsp32 then
        s\<lparr>util_samples := replicate DCD_SAMPLES False, airtime_bins := replicate AIRTIME_BINS 0,
          longterm_bins := replicate AIRTIME_BINS 0, local_channel_util := 0, total_channel_util := 0,
          airtime := 0, longterm_airtime := 0\<rparr>
      else s)"

definition current_airtime_bin :: "'a channel_scheme \<Rightarrow> nat" where
  "current_airtime_bin s = (unat (millis s) mod AIRTIME_LONGTERM_MS) div AIRTIME_BINLEN_MS"

definition next_bin :: "nat \<Rightarrow> nat" where
  "next_bin cb = (if cb + 1 = AIRTIME_BINS then 0 else cb + 1)"

definition prev_bin :: "nat \<Rightarrow> nat" where
  "prev_bin cb = (if cb = 0 then AIRTIME_BINS - 1 else cb - 1)"

text \<open>The cost in milliseconds of a packet of \<open>written\<close> bytes, as \<open>add_airtime\<close> computes it.\<close>

definition packet_cost_ms :: "board \<Rightarrow> int \<Rightarrow> 'a channel_scheme \<Rightarrow> rat" where
  "packet_cost_ms b written s =
     (let ldr_opt = (if lora_low_datarate s then 1 else 0);
          sf = lora_sf s;
          short_sf = ((modem b = SX1262 \<or> modem b = SX1280) \<and> sf < 7);
          payload = (if short_sf then 8 * written + PHY_CRC_LORA_BITS - 4 * sf + PHY_HEADER_LORA_SYMBOLS
                     else 8 * written + PHY_CRC_LORA_BITS - 4 * sf + 8 + PHY_HEADER_LORA_SYMBOLS);
          divisor = (if short_sf then 4 * sf else 4 * (sf - 2 * ldr_opt));
          overhead = (if short_sf then of_int (lora_preamble_symbols s) + 225 / 100 + 8
                      else of_int (lora_preamble_symbols s) + 25 / 100 + 8);
          symbols = f32 (f32 (of_int payload) / of_int divisor);
          symbols = f32 (symbols * of_int (lora_cr s));
          symbols = f32 (f64 (symbols + overhead))
      in f32 (symbols * lora_symbol_time_ms s))"

definition add_airtime :: "board \<Rightarrow> nat \<Rightarrow> 'a channel_scheme \<Rightarrow> 'a channel_scheme" where
  "add_airtime b written s =
     (if esp_or_nrf b then
        (let cb = current_airtime_bin s; nb = next_bin cb;
             cost = packet_cost_ms b (int written) s;
             bins = (airtime_bins s)[cb := u16_of_rat (f32 (of_int (uint (airtime_bins s ! cb)) + cost))]
         in s\<lparr>airtime_bins := bins[nb := 0]\<rparr>)
      else s)"

section \<open>Contention window\<close>

text \<open>Arduino's \<open>map()\<close>, for arguments on which the integer division does not see a negative value.\<close>

definition arduino_map :: "int \<Rightarrow> int \<Rightarrow> int \<Rightarrow> int \<Rightarrow> int \<Rightarrow> int" where
  "arduino_map x in_min in_max out_min out_max = (x - in_min) * (out_max - out_min) div (in_max - in_min) + out_min"

definition new_cw_band :: "int \<Rightarrow> int" where
  "new_cw_band airtime_pct =
     (let n = (if airtime_pct \<le> CSMA_BAND_1_MAX_AIRTIME then 1
               else arduino_map (airtime_pct + CSMA_BAND_1_MAX_AIRTIME) CSMA_BAND_1_MAX_AIRTIME
                      CSMA_BAND_N_MIN_AIRTIME 2 CSMA_CW_BANDS)
      in if n > CSMA_CW_BANDS then CSMA_CW_BANDS else n)"

definition update_csma_parameters :: "board \<Rightarrow> 'a channel_scheme \<Rightarrow> 'a channel_scheme" where
  "update_csma_parameters b s =
     (let airtime_pct = \<lfloor>f32 (airtime s * 100)\<rfloor>; n = new_cw_band airtime_pct
      in if n \<noteq> uint (cw_band s) then
           (let band = word_of_int n
            in kiss_indicate_csma_stats b
                 (s\<lparr>cw_band := band, cw_min := (band - 1) * CSMA_CW_PER_BAND_WINDOWS,
                    cw_max := band * CSMA_CW_PER_BAND_WINDOWS - 1\<rparr>))
         else s)"

definition update_airtime :: "board \<Rightarrow> 'a channel_scheme \<Rightarrow> 'a channel_scheme" where
  "update_airtime b s =
     (if esp_or_nrf b then
        (let cb = current_airtime_bin s; pb = prev_bin cb; nb = next_bin cb;
             s = s\<lparr>airtime_bins := (airtime_bins s)[nb := 0]\<rparr>;
             s = s\<lparr>airtime := f32 (f64 (f32 (of_int (uint (airtime_bins s ! cb) + uint (airtime_bins s ! pb))) / 15000))\<rparr>;
             total = (\<Sum>x \<leftarrow> airtime_bins s. uint x) mod 2 ^ 32;
             s = s\<lparr>longterm_airtime := f32 (f32 (of_int total) / f32 (of_nat AIRTIME_LONGTERM_MS))\<rparr>;
             util_sum = foldl (\<lambda>acc x. f32 (acc + x)) 0 (longterm_bins s);
             s = s\<lparr>longterm_channel_util := f32 (util_sum / of_nat AIRTIME_BINS)\<rparr>;
             s = update_csma_parameters b s
         in if mcu b = McuEsp32 \<and> has_urns b then
              (if millis s > 10000 then s\<lparr>kiss_stats_pending := True\<rparr> else s)
            else kiss_indicate_channel_stats b s)
      else s)"

section \<open>Noise floor and carrier detection\<close>

definition noise_sample_ok :: "board \<Rightarrow> 'a channel_scheme \<Rightarrow> bool" where
  "noise_sample_ok b s \<longleftrightarrow>
     (\<not> noise_floor_sampled s \<or> current_rssi s < noise_floor s + CSMA_INFR_THRESHOLD_DB b) \<or>
     (is_heltec32_v4 b \<and> noise_floor_sampled s \<and> noise_floor s < LNA_GD_THRSHLD \<and> current_rssi s \<le> LNA_GD_LIMIT)"

definition update_noise_floor :: "board \<Rightarrow> 'a channel_scheme \<Rightarrow> 'a channel_scheme" where
  "update_noise_floor b s =
     (if esp_or_nrf b \<and> \<not> dcd s \<and> noise_sample_ok b s \<and>
         \<not> (has_lora_lna b \<and> current_rssi s < noise_floor s - LORA_LNA_GVT) then
        (let s = s\<lparr>noise_floor_buffer := (noise_floor_buffer s)[noise_floor_sample s := current_rssi s],
                   noise_floor_sample := noise_floor_sample s + 1\<rparr>
         in if noise_floor_sample s \<ge> NOISE_FLOOR_SAMPLES then
              s\<lparr>noise_floor_sample := noise_floor_sample s mod NOISE_FLOOR_SAMPLES, noise_floor_sampled := True,
                noise_floor := c_div (sum_list (noise_floor_buffer s)) (int NOISE_FLOOR_SAMPLES)\<rparr>
            else s)
      else s)"

text \<open>
  \<open>update_modem_status\<close> with the carrier detector and the RSSI the modem reports. The LEDs are
  not modelled.
\<close>

definition update_modem_status :: "board \<Rightarrow> bool \<Rightarrow> int \<Rightarrow> 'a channel_scheme \<Rightarrow> 'a channel_scheme" where
  "update_modem_status b carrier_detected rssi s =
     (let s = s\<lparr>current_rssi := rssi, last_status_update := millis s\<rparr>;
          detected = (\<not> carrier_detected \<and>
            (if is_heltec32_v4 b \<and> \<not> noise_floor s > LNA_GD_THRSHLD then current_rssi s > LNA_GD_LIMIT
             else current_rssi s > noise_floor s + CSMA_INFR_THRESHOLD_DB b));
          s = s\<lparr>interference_detected := detected\<rparr>;
          s = s\<lparr>led_id_filter :=
                  (if detected then (if led_id_filter s < LED_ID_TRIG then led_id_filter s + 1 else led_id_filter s)
                   else (if led_id_filter s > 0 then led_id_filter s - 1 else led_id_filter s))\<rparr>;
          s = (if detected \<and> current_rssi s < CSMA_RFENV_RECAL_LIMIT_DB then
                 (if \<not> interference_persists s then s\<lparr>interference_persists := True, interference_start := millis s\<rparr>
                  else if millis s - interference_start s \<ge> CSMA_RFENV_RECAL_MS then
                    s\<lparr>noise_floor_sampled := False, interference_persists := False\<rparr>
                  else s)
               else s\<lparr>interference_persists := False\<rparr>);
          s = s\<lparr>dcd := carrier_detected\<rparr>
      in update_noise_floor b s)"

definition medium_free :: "board \<Rightarrow> bool \<Rightarrow> int \<Rightarrow> 'a channel_scheme \<Rightarrow> bool \<times> 'a channel_scheme" where
  "medium_free b carrier_detected rssi s =
     (let s = update_modem_status b carrier_detected rssi s
      in (if avoid_interference s \<and> interference_detected s then False else \<not> dcd s, s))"

definition check_modem_status :: "board \<Rightarrow> bool \<Rightarrow> int \<Rightarrow> 'a channel_scheme \<Rightarrow> 'a channel_scheme" where
  "check_modem_status b carrier_detected rssi s =
     (if millis s - last_status_update s \<ge> of_nat STATUS_INTERVAL_MS then
        (let s = update_modem_status b carrier_detected rssi s
         in if esp_or_nrf b then
              (let s = s\<lparr>util_samples := (util_samples s)[dcd_sample s := dcd s],
                         dcd_sample := (dcd_sample s + 1) mod DCD_SAMPLES\<rparr>
               in if dcd_sample s mod UTIL_UPDATE_INTERVAL = 0 then
                    (let util_count = length (filter id (util_samples s));
                         s = s\<lparr>local_channel_util := f32 (of_nat util_count / of_nat DCD_SAMPLES)\<rparr>;
                         total = f32 (local_channel_util s + airtime s);
                         s = s\<lparr>total_channel_util := (if total > 1 then 1 else total)\<rparr>;
                         cb = current_airtime_bin s; nb = next_bin cb;
                         bins = (if total_channel_util s > longterm_bins s ! cb
                                 then (longterm_bins s)[cb := total_channel_util s] else longterm_bins s);
                         s = s\<lparr>longterm_bins := bins[nb := 0]\<rparr>
                     in update_airtime b s)
                  else s)
            else s)
      else s)"

text \<open>The airtime lock, computed in every pass of \<open>loop\<close>.\<close>

definition update_airtime_lock :: "'a channel_scheme \<Rightarrow> 'a channel_scheme" where
  "update_airtime_lock s =
     s\<lparr>airtime_lock := (st_airtime_limit s \<noteq> 0 \<and> airtime s \<ge> st_airtime_limit s) \<or>
                       (lt_airtime_limit s \<noteq> 0 \<and> longterm_airtime s \<ge> lt_airtime_limit s)\<rparr>"

section \<open>Lemmas\<close>

lemma new_cw_band_cases:
  "new_cw_band p = (if p \<le> 7 then 1 else if p < 39 then 2 else if p < 78 then 3 else 4)"
proof -
  consider "p \<le> 7" | "7 < p" "p < 39" | "39 \<le> p" "p < 78" | "78 \<le> p" by linarith
  then show ?thesis
  proof cases
    case 2
    then have "p * 2 div 78 = 0" by simp
    then show ?thesis using 2 by (simp add: new_cw_band_def arduino_map_def)
  next
    case 3
    then have "1 \<le> p * 2 div 78" "p * 2 div 78 < 2"
      using zdiv_mono1 [of 78 "p * 2" 78] by (simp_all add: div_less_iff_less_mult)
    then have "p * 2 div 78 = 1" by linarith
    then show ?thesis using 3 by (simp add: new_cw_band_def arduino_map_def)
  next
    case 4
    then have "2 \<le> p * 2 div 78" using zdiv_mono1 [of 156 "p * 2" 78] by simp
    then show ?thesis using 4 by (simp add: new_cw_band_def arduino_map_def)
  qed (simp add: new_cw_band_def)
qed

lemma new_cw_band_range: "1 \<le> new_cw_band p \<and> new_cw_band p \<le> 4"
  by (simp add: new_cw_band_cases)

lemma new_cw_band_mono: "p \<le> q \<Longrightarrow> new_cw_band p \<le> new_cw_band q"
  by (simp add: new_cw_band_cases)

text \<open>The contention window of the state is the one of its band.\<close>

definition cw_ok :: "'a channel_scheme \<Rightarrow> bool" where
  "cw_ok s \<longleftrightarrow> 1 \<le> cw_band s \<and> cw_band s \<le> 4 \<and>
     uint (cw_min s) = 15 * (uint (cw_band s) - 1) \<and>
     (uint (cw_max s) = 15 * uint (cw_band s) - 1 \<or> cw_band s = 1 \<and> cw_max s = 15)"

lemma channel_reply_fields [simp]:
  "millis (reply b c raw esc s) = millis s" "airtime (reply b c raw esc s) = airtime s"
  "cw_band (reply b c raw esc s) = cw_band s" "cw_min (reply b c raw esc s) = cw_min s"
  "cw_max (reply b c raw esc s) = cw_max s" "airtime_bins (reply b c raw esc s) = airtime_bins s"
  "longterm_airtime (reply b c raw esc s) = longterm_airtime s"
  "longterm_bins (reply b c raw esc s) = longterm_bins s" "channel.more (reply b c raw esc s) = channel.more s"
proof -
  obtain l f st where "reply b c raw esc s = host_update l f st s" using reply_update by blast
  then show
    "millis (reply b c raw esc s) = millis s" "airtime (reply b c raw esc s) = airtime s"
    "cw_band (reply b c raw esc s) = cw_band s" "cw_min (reply b c raw esc s) = cw_min s"
    "cw_max (reply b c raw esc s) = cw_max s" "airtime_bins (reply b c raw esc s) = airtime_bins s"
    "longterm_airtime (reply b c raw esc s) = longterm_airtime s"
    "longterm_bins (reply b c raw esc s) = longterm_bins s" "channel.more (reply b c raw esc s) = channel.more s"
    by (simp_all add: host_update_def)
qed

lemma cw_ok_update:
  assumes "cw_ok s"
  shows "cw_ok (update_csma_parameters b s)"
    and "uint (cw_band (update_csma_parameters b s)) = new_cw_band \<lfloor>f32 (airtime s * 100)\<rfloor>"
proof -
  define n where "n = new_cw_band \<lfloor>f32 (airtime s * 100)\<rfloor>"
  have "n = 1 \<or> n = 2 \<or> n = 3 \<or> n = 4" using new_cw_band_range [of "\<lfloor>f32 (airtime s * 100)\<rfloor>"] unfolding n_def by linarith
  moreover have "uint (word_of_int n :: u8) = n" using calculation by auto
  ultimately show "cw_ok (update_csma_parameters b s)"
    and "uint (cw_band (update_csma_parameters b s)) = new_cw_band \<lfloor>f32 (airtime s * 100)\<rfloor>"
    using assms unfolding update_csma_parameters_def n_def [symmetric] Let_def
    by (auto simp: cw_ok_def kiss_indicate_csma_stats_def word_le_def)
qed

lemma c_div_bounds: "0 < d \<Longrightarrow> d * lo \<le> a \<Longrightarrow> a \<le> d * hi \<Longrightarrow> lo \<le> c_div a d \<and> c_div a d \<le> hi"
proof -
  assume d: "0 < d" and a: "d * lo \<le> a" "a \<le> d * hi"
  have e: "d * lo div d = lo" "d * hi div d = hi" "d * (- lo) div d = - lo" "d * (- hi) div d = - hi"
    using d by (simp_all only: nonzero_mult_div_cancel_left less_imp_neq [symmetric] not_False_eq_True)
  show ?thesis
  proof (cases "0 \<le> a")
    case True
    have "lo \<le> a div d" "a div d \<le> hi" using zdiv_mono1 [OF a(1) d] zdiv_mono1 [OF a(2) d] e by simp_all
    then show ?thesis using True by (simp add: c_div_def)
  next
    case False
    have "- hi \<le> - a div d" "- a div d \<le> - lo"
      using zdiv_mono1 [of "d * (- hi)" "- a" d] zdiv_mono1 [of "- a" "d * (- lo)" d] a d e by simp_all
    then show ?thesis using False by (simp add: c_div_def)
  qed
qed

lemma sum_list_bounds:
  "\<forall>x \<in> set xs. lo \<le> x \<and> x \<le> (hi :: int) \<Longrightarrow> int (length xs) * lo \<le> sum_list xs \<and> sum_list xs \<le> int (length xs) * hi"
  by (induction xs) (auto simp: algebra_simps)

definition noise_ok :: "int \<Rightarrow> int \<Rightarrow> 'a channel_scheme \<Rightarrow> bool" where
  "noise_ok lo hi s \<longleftrightarrow> length (noise_floor_buffer s) = NOISE_FLOOR_SAMPLES \<and>
     noise_floor_sample s < NOISE_FLOOR_SAMPLES \<and> list_all (\<lambda>x. lo \<le> x \<and> x \<le> hi) (noise_floor_buffer s)"

lemma noise_ok_update:
  assumes "noise_ok lo hi s" "lo \<le> current_rssi s" "current_rssi s \<le> hi"
  shows "noise_ok lo hi (update_noise_floor b s)"
    and "noise_floor (update_noise_floor b s) = noise_floor s \<or>
         lo \<le> noise_floor (update_noise_floor b s) \<and> noise_floor (update_noise_floor b s) \<le> hi"
proof -
  let ?buf = "(noise_floor_buffer s)[noise_floor_sample s := current_rssi s]"
  have in_range: "list_all (\<lambda>x. lo \<le> x \<and> x \<le> hi) ?buf"
    using assms set_update_subset_insert [of "noise_floor_buffer s" "noise_floor_sample s" "current_rssi s"]
    by (auto simp: noise_ok_def list_all_iff)
  then have "int (length ?buf) * lo \<le> sum_list ?buf \<and> sum_list ?buf \<le> int (length ?buf) * hi"
    by (intro sum_list_bounds) (simp add: list_all_iff)
  then have "lo \<le> c_div (sum_list ?buf) 128 \<and> c_div (sum_list ?buf) 128 \<le> hi"
    using assms by (intro c_div_bounds) (simp_all add: noise_ok_def)
  then show "noise_ok lo hi (update_noise_floor b s)"
    and "noise_floor (update_noise_floor b s) = noise_floor s \<or>
         lo \<le> noise_floor (update_noise_floor b s) \<and> noise_floor (update_noise_floor b s) \<le> hi"
    using assms in_range by (auto simp: update_noise_floor_def noise_ok_def Let_def)
qed

fun channel_samples :: "board \<Rightarrow> (u32 \<times> bool \<times> int) list \<Rightarrow> 'a channel_scheme \<Rightarrow> 'a channel_scheme" where
  "channel_samples b [] s = s"
| "channel_samples b ((t, carrier, rssi) # xs) s =
     channel_samples b xs (update_modem_status b carrier rssi (s\<lparr>millis := t\<rparr>))"

lemma update_modem_status_noise:
  "\<exists>u. update_modem_status b c r s = update_noise_floor b u \<and> current_rssi u = r \<and>
     noise_floor u = noise_floor s \<and> noise_floor_buffer u = noise_floor_buffer s \<and>
     noise_floor_sample u = noise_floor_sample s"
  unfolding update_modem_status_def Let_def by (rule exI, rule conjI, rule refl) simp

lemma update_noise_floor_fields [simp]:
  "dcd (update_noise_floor b s) = dcd s" "interference_detected (update_noise_floor b s) = interference_detected s"
  "avoid_interference (update_noise_floor b s) = avoid_interference s" "millis (update_noise_floor b s) = millis s"
  "interference_persists (update_noise_floor b s) = interference_persists s"
  "interference_start (update_noise_floor b s) = interference_start s"
  by (simp_all add: update_noise_floor_def Let_def)

text \<open>The state \<open>update_modem_status\<close> hands to \<open>update_noise_floor\<close>, when interference is weak.\<close>

lemma update_modem_status_weak:
  assumes "\<not> is_heltec32_v4 b" "r > noise_floor s + CSMA_INFR_THRESHOLD_DB b" "r < CSMA_RFENV_RECAL_LIMIT_DB"
  obtains u where "update_modem_status b False r s = update_noise_floor b u" "current_rssi u = r" "\<not> dcd u"
    "interference_detected u" "avoid_interference u = avoid_interference s" "noise_floor u = noise_floor s"
    "noise_floor_buffer u = noise_floor_buffer s" "noise_floor_sample u = noise_floor_sample s"
    "interference_persists s \<and> millis s - interference_start s \<ge> CSMA_RFENV_RECAL_MS \<Longrightarrow> \<not> noise_floor_sampled u"
    "\<not> interference_persists s \<Longrightarrow> interference_persists u \<and> interference_start u = millis s"
proof -
  let ?u = "s\<lparr>current_rssi := r, last_status_update := millis s, interference_detected := True,
      led_id_filter := (if led_id_filter s < LED_ID_TRIG then led_id_filter s + 1 else led_id_filter s)\<rparr>"
  let ?v = "if \<not> interference_persists s then ?u\<lparr>interference_persists := True, interference_start := millis s\<rparr>
      else if millis s - interference_start s \<ge> CSMA_RFENV_RECAL_MS then ?u\<lparr>noise_floor_sampled := False, interference_persists := False\<rparr>
      else ?u"
  have "update_modem_status b False r s = update_noise_floor b (?v\<lparr>dcd := False\<rparr>)"
    unfolding update_modem_status_def Let_def using assms by simp
  then show ?thesis by (rule that) (simp_all split: if_splits)
qed

section \<open>Properties\<close>

definition channel_blank :: "(nat \<Rightarrow> u8) \<Rightarrow> channel" where
  "channel_blank m = radio.extend (radio_blank m)
     \<lparr>millis = 0, lora_low_datarate = False, airtime_bins = replicate AIRTIME_BINS 0,
      longterm_bins = replicate AIRTIME_BINS 0, util_samples = replicate DCD_SAMPLES False, dcd_sample = 0,
      local_channel_util = 0, total_channel_util = 0, longterm_channel_util = 0, airtime = 0,
      longterm_airtime = 0, st_airtime_limit = 0, lt_airtime_limit = 0, airtime_lock = False, dcd = False,
      current_rssi = - 292, noise_floor = - 292, noise_floor_sampled = False, noise_floor_sample = 0,
      noise_floor_buffer = replicate NOISE_FLOOR_SAMPLES 0, interference_detected = False,
      avoid_interference = True, interference_persists = False, interference_start = 0, led_id_filter = 0,
      last_status_update = 0, cw_band = 1, cw_min = 0, cw_max = 15, kiss_stats_pending = False\<rparr>"

lemmas channel_blank_defs = channel_blank_def radio.defs

lemma channel_blank_fields [simp]:
  "noise_floor_buffer (channel_blank m) = replicate NOISE_FLOOR_SAMPLES 0" "noise_floor_sample (channel_blank m) = 0"
  "noise_floor (channel_blank m) = - 292" "avoid_interference (channel_blank m)" "cw_band (channel_blank m) = 1"
  "cw_min (channel_blank m) = 0" "cw_max (channel_blank m) = 15" "millis (channel_blank m) = 0"
  by (simp_all add: channel_blank_defs)

text \<open>
  C31: the contention window follows the airtime. From any state whose window belongs to its band (the
  initial state included), \<open>update_csma_parameters\<close> selects band 1 up to 7 percent, band 2 below
  39, band 3 below 78 and band 4 above, and leaves the window of that band: fifteen slots,
  disjoint from those of the other bands, and higher the more the node transmits.
\<close>

theorem contention_window_follows_airtime:
  assumes "cw_ok s" "p = \<lfloor>f32 (airtime s * 100)\<rfloor>" "t = update_csma_parameters b s"
  shows "cw_ok t \<and> uint (cw_band t) = (if p \<le> 7 then 1 else if p < 39 then 2 else if p < 78 then 3 else 4) \<and>
         (q \<le> p \<longrightarrow> new_cw_band q \<le> uint (cw_band t))"
  using cw_ok_update [OF assms(1), of b] new_cw_band_mono [of q p] assms(2,3) by (simp add: new_cw_band_cases)

theorem contention_window_follows_airtime_witness:
  "uint (cw_band (update_csma_parameters board_rak4631 ((channel_blank (\<lambda>a. 0))\<lparr>airtime := 1 / 2\<rparr>))) = 3"
proof -
  have "\<lfloor>f32 (1 / 2 * 100)\<rfloor> = 50" by code_simp
  then show ?thesis
    using contention_window_follows_airtime [of "(channel_blank (\<lambda>a. 0))\<lparr>airtime := 1 / 2\<rparr>" 50
        "update_csma_parameters board_rak4631 ((channel_blank (\<lambda>a. 0))\<lparr>airtime := 1 / 2\<rparr>)" board_rak4631 0]
    by (simp add: cw_ok_def)
qed

text \<open>
  The noise floor is a mean of what was measured. If every entry of the sample buffer and every RSSI
  reported lies in an interval, then after any sequence of modem status updates, at any times
  and with any carrier states, the noise floor is the previous one or lies in that interval,
  and the sample index stays inside the buffer.
\<close>

theorem noise_floor_in_range:
  assumes "noise_ok lo hi s" "list_all (\<lambda>(t, c, r). lo \<le> r \<and> r \<le> hi) xs"
  shows "noise_ok lo hi (channel_samples b xs s) \<and>
         (noise_floor (channel_samples b xs s) = noise_floor s \<or>
          lo \<le> noise_floor (channel_samples b xs s) \<and> noise_floor (channel_samples b xs s) \<le> hi)"
  using assms
proof (induction xs arbitrary: s)
  case (Cons x xs)
  obtain t c r where x: "x = (t, c, r)" by (cases x) auto
  let ?s = "s\<lparr>millis := t\<rparr>"
  obtain u where u: "update_modem_status b c r ?s = update_noise_floor b u" "current_rssi u = r"
    "noise_floor u = noise_floor s" "noise_floor_buffer u = noise_floor_buffer s"
    "noise_floor_sample u = noise_floor_sample s"
    using update_modem_status_noise [of b c r ?s] by auto
  have "noise_ok lo hi u" using Cons.prems(1) u by (simp add: noise_ok_def)
  then have n: "noise_ok lo hi (update_modem_status b c r ?s)"
    "noise_floor (update_modem_status b c r ?s) = noise_floor s \<or>
     lo \<le> noise_floor (update_modem_status b c r ?s) \<and> noise_floor (update_modem_status b c r ?s) \<le> hi"
    using noise_ok_update [of lo hi u b] u Cons.prems(2) x by auto
  show ?case using Cons.IH [OF n(1)] Cons.prems(2) n(2) x by auto
qed simp

theorem noise_floor_in_range_witness:
  "noise_ok (- 120) 0 (channel_samples board_rak4631 [(5, False, - 110), (9, True, - 60)] (channel_blank (\<lambda>a. 0)))"
proof -
  have "noise_ok (- 120) 0 (channel_blank (\<lambda>a. 0))" by (simp add: noise_ok_def list_all_iff)
  then show ?thesis
    using noise_floor_in_range [of "- 120" 0 "channel_blank (\<lambda>a. 0)" "[(5, False, - 110), (9, True, - 60)]" board_rak4631]
    by simp
qed

text \<open>
  A medium that only looks busy is given up on. When weak interference (below -83 dBm, above the
  threshold) has persisted for 2500 ms, the next status update declares the noise floor unknown
  and takes the level as a sample, so that the floor is learned again; until then the medium
  counts as busy, and it is free exactly when there is no carrier and no interference that is
  to be avoided.
\<close>

theorem interference_recalibrates:
  assumes "esp_or_nrf b" "\<not> is_heltec32_v4 b" "avoid_interference s" "noise_floor_sample s + 1 < NOISE_FLOOR_SAMPLES"
    and "r > noise_floor s + CSMA_INFR_THRESHOLD_DB b" "r < CSMA_RFENV_RECAL_LIMIT_DB"
  shows "\<not> fst (medium_free b c r s) \<and>
         (interference_persists s \<and> millis s - interference_start s \<ge> CSMA_RFENV_RECAL_MS \<and> \<not> c \<longrightarrow>
            \<not> noise_floor_sampled (snd (medium_free b c r s)) \<and>
            noise_floor_buffer (snd (medium_free b c r s)) = (noise_floor_buffer s)[noise_floor_sample s := r]) \<and>
         (\<not> interference_persists s \<and> \<not> c \<longrightarrow>
            interference_persists (snd (medium_free b c r s)) \<and> interference_start (snd (medium_free b c r s)) = millis s)"
proof (cases c)
  case True
  have "dcd (update_modem_status b c r s) = c" unfolding update_modem_status_def Let_def by simp
  then show ?thesis using True by (simp add: medium_free_def Let_def)
next
  case False
  obtain u where u: "update_modem_status b False r s = update_noise_floor b u" "current_rssi u = r" "\<not> dcd u"
    "interference_detected u" "avoid_interference u = avoid_interference s" "noise_floor u = noise_floor s"
    "noise_floor_buffer u = noise_floor_buffer s" "noise_floor_sample u = noise_floor_sample s"
    "interference_persists s \<and> millis s - interference_start s \<ge> CSMA_RFENV_RECAL_MS \<Longrightarrow> \<not> noise_floor_sampled u"
    "\<not> interference_persists s \<Longrightarrow> interference_persists u \<and> interference_start u = millis s"
    using update_modem_status_weak [OF assms(2,5,6)] by blast
  have "0 \<le> CSMA_INFR_THRESHOLD_DB b" by (simp add: CSMA_INFR_THRESHOLD_DB_def)
  then have "\<not> noise_floor_sampled u \<Longrightarrow> \<not> noise_floor_sampled (update_noise_floor b u) \<and>
      noise_floor_buffer (update_noise_floor b u) = (noise_floor_buffer s)[noise_floor_sample s := r]"
    using assms u(2-8) by (simp add: update_noise_floor_def noise_sample_ok_def Let_def)
  then show ?thesis using False u assms(3) by (simp add: medium_free_def Let_def)
qed

theorem interference_recalibrates_witness:
  "(let s = (channel_blank (\<lambda>a. 0))\<lparr>noise_floor := - 110, noise_floor_sampled := True,
              interference_persists := True, interference_start := 1000, millis := 4000\<rparr>
    in \<not> noise_floor_sampled (snd (medium_free board_rak4631 False (- 90) s)))"
  using interference_recalibrates [of board_rak4631 "(channel_blank (\<lambda>a. 0))\<lparr>noise_floor := - 110, noise_floor_sampled := True,
      interference_persists := True, interference_start := 1000, millis := 4000\<rparr>" "- 90" False]
  by (simp add: Let_def) (simp add: board_values esp_or_nrf_def is_heltec32_v4_def CSMA_INFR_THRESHOLD_DB_def)

end
