(* ===== verification/Packet_Link.thy ===== *)
theory Packet_Link
  imports Prelude
begin

text \<open>
  The contract of a link that carries packets as frames. A sender turns a packet into frames, with
  a random byte for their headers; a receiver takes frames one at a time and has a queue of
  received packets of limited capacity. Both radios of the firmware, LoRa and ESP-NOW, fulfil it,
  each with its own framing; what follows from the contract for a stream of packets is proved here
  once.
\<close>

locale packet_link =
  fixes frames :: "u8 \<Rightarrow> u8 list \<Rightarrow> u8 list list"
    and receive :: "u8 list \<Rightarrow> 's \<Rightarrow> 's"
    and received :: "'s \<Rightarrow> u8 list list"
    and idle :: "'s \<Rightarrow> bool"
    and carried :: "u8 list \<Rightarrow> bool"
    and capacity :: nat
  assumes idle_after: "idle s \<Longrightarrow> carried p \<Longrightarrow> idle (fold receive (frames r p) s)"
    and received_after: "idle s \<Longrightarrow> carried p \<Longrightarrow>
      received (fold receive (frames r p) s) =
        (if length (received s) < capacity then received s @ [p] else received s)"
begin

lemma stream_idle:
  "idle s \<Longrightarrow> list_all (\<lambda>(r, p). carried p) ps \<Longrightarrow> idle (fold receive (concat (map (\<lambda>(r, p). frames r p) ps)) s)"
  by (induction ps arbitrary: s) (auto intro: idle_after)

lemma stream_received:
  "idle s \<Longrightarrow> list_all (\<lambda>(r, p). carried p) ps \<Longrightarrow>
    received (fold receive (concat (map (\<lambda>(r, p). frames r p) ps)) s) =
      received s @ take (capacity - length (received s)) (map snd ps)"
proof (induction ps arbitrary: s)
  case (Cons rp ps)
  obtain r p where rp: "rp = (r, p)" by fastforce
  let ?t = "fold receive (frames r p) s"
  have t: "idle ?t" "received ?t = (if length (received s) < capacity then received s @ [p] else received s)"
    using Cons.prems idle_after received_after by (simp_all add: rp)
  have "capacity - length (received s) = Suc (capacity - Suc (length (received s)))" if "length (received s) < capacity"
    using that by simp
  then show ?case using Cons.IH [OF t(1)] Cons.prems t(2) by (simp add: rp)
qed simp

text \<open>A frame sequence cut between two packets loses nothing of what came before the cut.\<close>

lemma stream_split:
  assumes "idle s" "list_all (\<lambda>(r, p). carried p) (ps @ qs)" "length (received s) + length ps \<le> capacity"
  shows "take (length (received s) + length ps)
      (received (fold receive (concat (map (\<lambda>(r, p). frames r p) (ps @ qs))) s)) = received s @ map snd ps"
proof -
  have "received (fold receive (concat (map (\<lambda>(r, p). frames r p) (ps @ qs))) s) =
      received s @ take (capacity - length (received s)) (map snd (ps @ qs))"
    by (rule stream_received [OF assms(1,2)])
  then show ?thesis using assms(3) by simp
qed

end

end
