(* ===== verification/Lora_Frames.thy ===== *)
theory Lora_Frames
  imports Channel Packet_Link
begin

text \<open>
  Packets over the air (\<^verbatim>\<open>RNode_Firmware.ino\<close>): \<open>transmit\<close> splits a packet of up to 508 bytes into
  LoRa frames with a one-byte header, \<open>receive_callback\<close> reassembles them, and packets are
  handed to the host directly on AVR or through the modem packet queue on ESP32 and nRF52. The
  frames put on the air are a log in the state; what the modem and the heap answer (the result
  of \<open>endPacket\<close>, RSSI and SNR, success of \<open>malloc\<close>) are arguments.
\<close>

section \<open>State\<close>

abbreviation (input) MTU :: nat where "MTU \<equiv> 508"
abbreviation (input) SINGLE_MTU :: nat where "SINGLE_MTU \<equiv> 255"
abbreviation (input) HEADER_L :: nat where "HEADER_L \<equiv> 1"
abbreviation (input) MIN_L :: nat where "MIN_L \<equiv> 1"
abbreviation (input) MODEM_QUEUE_SIZE :: nat where "MODEM_QUEUE_SIZE \<equiv> 8"

record modem_packet =
  mp_rssi :: int
  mp_snr_raw :: u8
  mp_data :: "u8 list"

record packets = channel +
  seq :: u8
  read_len :: nat
  host_write_len :: nat
  pbuf :: "u8 list"
  tbuf :: "u8 list"
  memory_low :: bool
  packet_rx_count :: u32
  packet_tx_count :: u32
  modem_packet_queue :: "modem_packet list"
  aired :: "u8 list list"
  urns_ready :: bool
  urns_rx_staging_buf :: "u8 list"
  urns_rx_staging_len :: nat
  urns_rx_pending :: bool

record rx_env =
  alloc_ok :: bool
  packet_rssi :: int
  packet_snr_raw :: u8

section \<open>Headers\<close>

definition isSplitPacket :: "u8 \<Rightarrow> bool" where
  "isSplitPacket header \<longleftrightarrow> header AND FLAG_SPLIT \<noteq> 0"

definition packetSequence :: "u8 \<Rightarrow> u8" where
  "packetSequence header = drop_bit 4 header"

section \<open>Transmitting\<close>

text \<open>
  The loop of \<open>transmit\<close>: \<open>cur\<close> is the frame being written, its header included. A frame is
  ended when it has 255 bytes and the packet is split, and the next one starts with the header.
\<close>

fun tx_loop :: "u8 \<Rightarrow> u8 list \<Rightarrow> u8 list \<Rightarrow> u8 list list" where
  "tx_loop header [] cur = [cur]"
| "tx_loop header (x # xs) cur =
     (let cur = cur @ [x]
      in if length cur = 255 \<and> isSplitPacket header then cur # tx_loop header xs [header]
         else tx_loop header xs cur)"

definition tx_header :: "u8 \<Rightarrow> nat \<Rightarrow> u8" where
  "tx_header rnd sz =
     (let header = rnd AND 0xF0
      in if sz > SINGLE_MTU - HEADER_L then header OR FLAG_SPLIT else header)"

text \<open>
  What \<open>endPacket\<close> does with the frame of that number: it returns whether the frame was sent, or, for
  \<open>None\<close>, it never returns, as the SX127x driver does while the chip does not report the end of the
  transmission.
\<close>

type_synonym end_packet = "nat \<Rightarrow> bool option"

text \<open>Airing the frames in turn; a failing \<open>endPacket\<close> is reported and resets the device.\<close>

fun air_frames :: "board \<Rightarrow> end_packet \<Rightarrow> u8 list list \<Rightarrow> 'a packets_scheme \<Rightarrow> 'a packets_scheme outcome" where
  "air_frames b end_ok [] s = Ret s"
| "air_frames b end_ok (f # fs) s =
     (case end_ok (length (aired s)) of
        None \<Rightarrow> Hung s
      | Some True \<Rightarrow> air_frames b end_ok fs (add_airtime b (length f) (s\<lparr>aired := aired s @ [f]\<rparr>))
      | Some False \<Rightarrow> Rebooted (kiss_indicate_error b ERROR_TXFAILED (kiss_indicate_error b ERROR_MODEM_TIMEOUT s)))"

definition transmit :: "board \<Rightarrow> u8 \<Rightarrow> end_packet \<Rightarrow> nat \<Rightarrow> 'a packets_scheme \<Rightarrow> 'a packets_scheme outcome" where
  "transmit b rnd end_ok sz s =
     (if radio_online s then
        (let s = s\<lparr>packet_tx_count := packet_tx_count s + 1\<rparr>
         in if \<not> promisc s then
              (let header = tx_header rnd sz
               in air_frames b end_ok (tx_loop header (take sz (tbuf s)) [header]) s)
            else
              (let sz = (if sz > SINGLE_MTU then SINGLE_MTU else sz); f = take sz (tbuf s)
               in case end_ok (length (aired s)) of
                    None \<Rightarrow> Hung s
                  | Some ok \<Rightarrow> Ret (add_airtime b (length f) (s\<lparr>aired := aired s @ [f]\<rparr>))))
      else Ret (kiss_indicate_error b ERROR_TXFAILED s))"

section \<open>Receiving\<close>

text \<open>
  \<open>getPacketData\<close>: at most \<open>len\<close> bytes from the modem FIFO into \<open>pbuf\<close>, never past its end.
  Reading an empty FIFO gives -1.
\<close>

fun rx_fill :: "nat \<Rightarrow> u8 list \<Rightarrow> u8 list \<Rightarrow> nat \<Rightarrow> u8 list \<times> nat" where
  "rx_fill 0 fifo buf n = (buf, n)"
| "rx_fill (Suc len) fifo buf n =
     (if n < MTU then
        (let x = (case fifo of [] \<Rightarrow> 0xFF | y # ys \<Rightarrow> y)
         in rx_fill len (tl fifo) (copy_at n [x] buf) (n + 1))
      else (buf, n))"

definition getPacketData :: "nat \<Rightarrow> u8 list \<Rightarrow> 'a packets_scheme \<Rightarrow> 'a packets_scheme" where
  "getPacketData len fifo s =
     (let (buf, n) = rx_fill len fifo (pbuf s) (read_len s) in s\<lparr>pbuf := buf, read_len := n\<rparr>)"

definition copy_into :: "u8 list \<Rightarrow> u8 list \<Rightarrow> u8 list" where
  "copy_into xs buf = xs @ drop (length xs) buf"

text \<open>The copy kept for the node that runs on the board itself: one slot, dropped while it is taken.\<close>

definition urns_stage_incoming :: "u8 list \<Rightarrow> 'a packets_scheme \<Rightarrow> 'a packets_scheme" where
  "urns_stage_incoming data s =
     (if urns_rx_pending s then s
      else (let data = take MTU data
            in s\<lparr>urns_rx_staging_buf := copy_into data (urns_rx_staging_buf s),
                 urns_rx_staging_len := length data, urns_rx_pending := True\<rparr>))"

text \<open>The state in which \<open>kiss_write_packet\<close> starts writing.\<close>

definition staged_for_host :: "board \<Rightarrow> 'a packets_scheme \<Rightarrow> 'a packets_scheme" where
  "staged_for_host b s =
     (let s = s\<lparr>packet_rx_count := packet_rx_count s + 1\<rparr>
      in if has_urns b \<and> urns_ready s then urns_stage_incoming (take (host_write_len s) (pbuf s)) s else s)"

definition kiss_write_packet :: "board \<Rightarrow> 'a packets_scheme \<Rightarrow> 'a packets_scheme" where
  "kiss_write_packet b s =
     (let s = staged_for_host b s;
          s = serial_write b CMD_DATA (serial_write b FEND s);
          s = escaped_writes b (take (host_write_len s) (pbuf s)) s;
          s = serial_write b FEND s;
          s = s\<lparr>host_write_len := 0\<rparr>
      in if mcu b = McuEsp32 \<and> has_ble b \<and> bt_state s = BT_STATE_CONNECTED
         then s\<lparr>host_log := host_log s @ [BtFlush]\<rparr> else s)"

definition note_signal :: "board \<Rightarrow> rx_env \<Rightarrow> 'a packets_scheme \<Rightarrow> 'a packets_scheme" where
  "note_signal b env s =
     (if esp_or_nrf b then s else s\<lparr>last_rssi := packet_rssi env, last_snr_raw := packet_snr_raw env\<rparr>)"

definition average_signal :: "board \<Rightarrow> rx_env \<Rightarrow> 'a packets_scheme \<Rightarrow> 'a packets_scheme" where
  "average_signal b env s =
     (if esp_or_nrf b then s
      else s\<lparr>last_rssi := c_div (last_rssi s + packet_rssi env) 2,
             last_snr_raw := word_of_int ((uint (last_snr_raw s) + uint (packet_snr_raw env)) div 2)\<rparr>)"

text \<open>The end of \<open>receive_callback\<close>, when a whole packet is in the buffer.\<close>

definition packet_complete :: "board \<Rightarrow> rx_env \<Rightarrow> 'a packets_scheme \<Rightarrow> 'a packets_scheme" where
  "packet_complete b env s =
     (if \<not> esp_or_nrf b then
        (let s = kiss_indicate_stat_snr b (kiss_indicate_stat_rssi b s);
             s = kiss_write_packet b (s\<lparr>host_write_len := read_len s\<rparr>)
         in s\<lparr>read_len := 0\<rparr>)
      else if \<not> alloc_ok env then s\<lparr>memory_low := True\<rparr>
      else
        (let p = \<lparr>mp_rssi = packet_rssi env, mp_snr_raw = packet_snr_raw env, mp_data = take (read_len s) (pbuf s)\<rparr>;
             s = s\<lparr>read_len := 0\<rparr>
         in if length (modem_packet_queue s) < MODEM_QUEUE_SIZE
            then s\<lparr>modem_packet_queue := modem_packet_queue s @ [p]\<rparr> else s))"

definition receive_callback :: "board \<Rightarrow> rx_env \<Rightarrow> u8 list \<Rightarrow> 'a packets_scheme \<Rightarrow> 'a packets_scheme" where
  "receive_callback b env frame s =
     (if \<not> promisc s then
        (let header = (case frame of [] \<Rightarrow> 0xFF | h # rest \<Rightarrow> h); fifo = tl frame;
             packet_size = (length frame + 65535) mod 65536;
             sequence = packetSequence header
         in if isSplitPacket header \<and> seq s = SEQ_UNSET then
              getPacketData packet_size fifo (note_signal b env (s\<lparr>read_len := 0, seq := sequence\<rparr>))
            else if isSplitPacket header \<and> seq s = sequence then
              packet_complete b env ((getPacketData packet_size fifo (average_signal b env s))\<lparr>seq := SEQ_UNSET\<rparr>)
            else if isSplitPacket header then
              getPacketData packet_size fifo (note_signal b env (s\<lparr>read_len := 0, seq := sequence\<rparr>))
            else
              (let s = (if seq s \<noteq> SEQ_UNSET then s\<lparr>read_len := 0, seq := SEQ_UNSET\<rparr> else s)
               in packet_complete b env (getPacketData packet_size fifo (note_signal b env s))))
      else
        (let s = getPacketData (length frame) frame (note_signal b env (s\<lparr>read_len := 0\<rparr>))
         in if \<not> esp_or_nrf b then kiss_write_packet b (kiss_indicate_stat_snr b (kiss_indicate_stat_rssi b s))
            else packet_complete b env s))"

text \<open>The part of \<open>loop\<close> that takes one packet from the modem queue to the host.\<close>

definition deliver_packet :: "board \<Rightarrow> rx_env \<Rightarrow> 'a packets_scheme \<Rightarrow> 'a packets_scheme" where
  "deliver_packet b env s =
     (case modem_packet_queue s of
        [] \<Rightarrow> s
      | p # ps \<Rightarrow>
          (let s = s\<lparr>modem_packet_queue := ps, host_write_len := length (mp_data p),
                     pbuf := copy_into (mp_data p) (pbuf s),
                     last_rssi := (if mcu b = McuEsp32 then mp_rssi p else packet_rssi env),
                     last_snr_raw := (if mcu b = McuEsp32 then mp_snr_raw p else packet_snr_raw env)\<rparr>
           in kiss_write_packet b (kiss_indicate_stat_snr b (kiss_indicate_stat_rssi b s))))"

section \<open>Lemmas on frames\<close>

lemma bit_F0: "bit (0xF0 :: int) n \<longleftrightarrow> 4 \<le> n \<and> n < 8"
proof (cases "n < 8")
  case True
  then have "n = 0 \<or> n = 1 \<or> n = 2 \<or> n = 3 \<or> n = 4 \<or> n = 5 \<or> n = 6 \<or> n = 7" by auto
  then show ?thesis by (elim disjE) simp_all
next
  case False
  then have "(2 :: int) ^ 8 \<le> 2 ^ n" by (intro power_increasing) auto
  then have "(0xF0 :: int) div 2 ^ n = 0" by simp
  then show ?thesis using False by (simp add: bit_iff_odd)
qed

lemma isSplit_tx_header [simp]: "isSplitPacket (tx_header rnd n) \<longleftrightarrow> 254 < n"
proof -
  have "(rnd AND 0xF0) AND 1 = 0" "((rnd AND 0xF0) OR 1) AND 1 = 1"
    by (rule bit_word_eqI, auto simp: bit_simps bit_1_iff bit_F0)+
  then show ?thesis by (simp add: isSplitPacket_def tx_header_def Let_def)
qed

lemma packetSequence_less: "unat (packetSequence h) < 16"
proof -
  have "unat h < 16 * 16" using unat_less_256 [of h] by simp
  then show ?thesis by (simp add: packetSequence_def drop_bit_eq_div unat_div less_mult_imp_div_less)
qed

lemma packetSequence_not_unset [simp]: "packetSequence h \<noteq> 255" "255 \<noteq> packetSequence h"
  using packetSequence_less [of h] by auto

lemma packetSequence_tx_header: "packetSequence (tx_header rnd n) = packetSequence rnd"
  unfolding packetSequence_def tx_header_def Let_def
  by (rule bit_word_eqI) (auto simp: bit_simps bit_1_iff bit_F0 dest: bit_imp_le_length)

lemma tx_loop_unsplit: "\<not> isSplitPacket h \<Longrightarrow> tx_loop h xs cur = [cur @ xs]"
  by (induction xs arbitrary: cur) (simp_all add: Let_def)

lemma tx_loop_short: "length cur + length xs < 255 \<Longrightarrow> tx_loop h xs cur = [cur @ xs]"
  by (induction xs arbitrary: cur) (simp_all add: Let_def)

lemma tx_loop_split:
  "isSplitPacket h \<Longrightarrow> length cur < 255 \<Longrightarrow> 255 \<le> length cur + length xs \<Longrightarrow>
    tx_loop h xs cur = (cur @ take (255 - length cur) xs) # tx_loop h (drop (255 - length cur) xs) [h]"
proof (induction xs arbitrary: cur)
  case (Cons x xs)
  show ?case
  proof (cases "length cur = 254")
    case False
    then have "255 - length cur = Suc (255 - length (cur @ [x]))" using Cons.prems by simp
    moreover have "tx_loop h (x # xs) cur = tx_loop h xs (cur @ [x])" using False by (simp add: Let_def)
    ultimately show ?thesis using Cons.IH [of "cur @ [x]"] Cons.prems False by simp
  qed (use Cons.prems in \<open>simp add: Let_def\<close>)
qed simp

text \<open>The frames of a packet, by its length.\<close>

definition tx_frames :: "u8 \<Rightarrow> u8 list \<Rightarrow> u8 list list" where
  "tx_frames rnd p = (let h = tx_header rnd (length p) in tx_loop h p [h])"

lemma tx_frames_single:
  "length p \<le> 254 \<Longrightarrow> tx_frames rnd p = [tx_header rnd (length p) # p]"
  by (simp add: tx_frames_def Let_def tx_loop_unsplit)

lemma tx_frames_two:
  "254 < length p \<Longrightarrow> length p \<le> 507 \<Longrightarrow>
    tx_frames rnd p = [tx_header rnd (length p) # take 254 p, tx_header rnd (length p) # drop 254 p]"
  by (simp add: tx_frames_def Let_def tx_loop_split [of _ "[tx_header rnd (length p)]"] tx_loop_short)

lemma tx_frames_three:
  "length p = 508 \<Longrightarrow>
    tx_frames rnd p = [tx_header rnd (length p) # take 254 p, tx_header rnd (length p) # drop 254 p, [tx_header rnd (length p)]]"
  by (simp add: tx_frames_def Let_def tx_loop_split [of "tx_header rnd 508" "[tx_header rnd 508]"])

text \<open>\<open>transmit\<close> airs these frames.\<close>

lemma air_frames_ok:
  "(\<And>n. end_ok n = Some True) \<Longrightarrow> \<exists>t. air_frames b end_ok fs s = Ret t \<and> aired t = aired s @ fs"
proof (induction fs arbitrary: s)
  case (Cons f fs)
  have "aired (add_airtime b k s) = aired s" for k and s :: "'a packets_scheme"
    by (simp add: add_airtime_def Let_def)
  then show ?case using Cons.IH [of "add_airtime b (length f) (s\<lparr>aired := aired s @ [f]\<rparr>)"] Cons.prems by simp
qed simp

lemma transmit_airs:
  assumes "radio_online s" "\<not> promisc s" "length p \<le> length (tbuf s)" "take (length p) (tbuf s) = p" "\<And>n. end_ok n = Some True"
  shows "\<exists>t. transmit b rnd end_ok (length p) s = Ret t \<and> aired t = aired s @ tx_frames rnd p"
  using assms air_frames_ok [of end_ok b "tx_frames rnd p" "s\<lparr>packet_tx_count := packet_tx_count s + 1\<rparr>"]
  by (simp add: transmit_def Let_def tx_frames_def)

section \<open>Lemmas on reception\<close>

lemma rx_fill_append:
  "n + length fifo \<le> MTU \<Longrightarrow> length buf = MTU \<Longrightarrow>
    rx_fill (length fifo) fifo buf n = (take n buf @ fifo @ drop (n + length fifo) buf, n + length fifo)"
proof (induction fifo arbitrary: buf n)
  case (Cons x fifo)
  have "take (Suc n) (buf[n := x]) = take n buf @ [x]"
    using Cons.prems by (simp add: take_Suc_conv_app_nth)
  then show ?case using Cons.IH [of "Suc n" "buf[n := x]"] Cons.prems by (simp add: copy_at_update)
qed simp

lemma rx_fill_bounds:
  "n \<le> MTU \<Longrightarrow> length buf = MTU \<Longrightarrow> length (fst (rx_fill len fifo buf n)) = MTU \<and> snd (rx_fill len fifo buf n) \<le> MTU"
  by (induction len fifo buf n rule: rx_fill.induct) (simp_all add: Let_def copy_at_update)

definition rx_inv :: "'a packets_scheme \<Rightarrow> bool" where
  "rx_inv s \<longleftrightarrow> length (pbuf s) = MTU \<and> read_len s \<le> MTU \<and> (seq s = SEQ_UNSET \<longrightarrow> read_len s = 0)"

definition queue_packet :: "rx_env \<Rightarrow> u8 list \<Rightarrow> modem_packet list \<Rightarrow> modem_packet list" where
  "queue_packet env p q =
     (if length q < MODEM_QUEUE_SIZE
      then q @ [\<lparr>mp_rssi = packet_rssi env, mp_snr_raw = packet_snr_raw env, mp_data = p\<rparr>] else q)"

lemma getPacketData_append:
  "read_len s + length p \<le> MTU \<Longrightarrow> length (pbuf s) = MTU \<Longrightarrow>
    getPacketData (length p) p s = s\<lparr>pbuf := take (read_len s) (pbuf s) @ p @ drop (read_len s + length p) (pbuf s),
                                     read_len := read_len s + length p\<rparr>"
  by (simp add: getPacketData_def rx_fill_append)

lemma frame_size: "length p < 65536 \<Longrightarrow> (length (h # p) + 65535) mod 65536 = length p"
  by simp

text \<open>The three ways a frame is received on ESP32 and nRF52.\<close>

lemma receive_unsplit:
  assumes "esp_or_nrf b" "alloc_ok env" "\<not> promisc s" "rx_inv s" "\<not> isSplitPacket h" "length p \<le> MTU"
  shows "receive_callback b env (h # p) s =
    s\<lparr>seq := SEQ_UNSET, read_len := 0, pbuf := p @ drop (length p) (pbuf s),
      modem_packet_queue := queue_packet env p (modem_packet_queue s)\<rparr>"
proof -
  have l: "length (pbuf s) = MTU" using assms(4) by (simp add: rx_inv_def)
  let ?s = "if seq s \<noteq> SEQ_UNSET then s\<lparr>read_len := 0, seq := SEQ_UNSET\<rparr> else s"
  have s: "?s = s\<lparr>read_len := 0, seq := SEQ_UNSET\<rparr>" using assms(4) by (simp add: rx_inv_def)
  show ?thesis
    using assms(1-3,5,6) getPacketData_append [of "s\<lparr>read_len := 0, seq := SEQ_UNSET\<rparr>" p] l
    unfolding receive_callback_def Let_def s
    by (simp add: frame_size note_signal_def packet_complete_def queue_packet_def Let_def)
qed

lemma receive_first:
  assumes "esp_or_nrf b" "\<not> promisc s" "length (pbuf s) = MTU" "isSplitPacket h" "length p \<le> MTU"
    and "seq s \<noteq> packetSequence h"
  shows "receive_callback b env (h # p) s =
    s\<lparr>seq := packetSequence h, read_len := length p, pbuf := p @ drop (length p) (pbuf s)\<rparr>"
  using assms getPacketData_append [of "s\<lparr>read_len := 0, seq := packetSequence h\<rparr>" p]
  by (simp add: receive_callback_def Let_def frame_size note_signal_def)

lemma receive_second:
  assumes "esp_or_nrf b" "alloc_ok env" "\<not> promisc s" "length (pbuf s) = MTU" "isSplitPacket h"
    and "seq s = packetSequence h" "read_len s + length p \<le> MTU"
  shows "receive_callback b env (h # p) s =
    s\<lparr>seq := SEQ_UNSET, read_len := 0,
      pbuf := take (read_len s) (pbuf s) @ p @ drop (read_len s + length p) (pbuf s),
      modem_packet_queue := queue_packet env (take (read_len s) (pbuf s) @ p) (modem_packet_queue s)\<rparr>"
  using assms getPacketData_append [of s p]
  by (simp add: receive_callback_def Let_def frame_size average_signal_def packet_complete_def queue_packet_def)

fun receive_frames :: "board \<Rightarrow> rx_env \<Rightarrow> u8 list list \<Rightarrow> 'a packets_scheme \<Rightarrow> 'a packets_scheme" where
  "receive_frames b env [] s = s"
| "receive_frames b env (f # fs) s = receive_frames b env fs (receive_callback b env f s)"

lemma receive_single_packet:
  assumes "esp_or_nrf b" "alloc_ok env" "\<not> promisc s" "rx_inv s" "length p \<le> 254"
  shows "receive_frames b env (tx_frames rnd p) s =
    s\<lparr>seq := SEQ_UNSET, read_len := 0, pbuf := p @ drop (length p) (pbuf s),
      modem_packet_queue := queue_packet env p (modem_packet_queue s)\<rparr>"
  using assms receive_unsplit [of b env s "tx_header rnd (length p)" p] by (simp add: tx_frames_single)

lemma receive_split_packet:
  assumes "esp_or_nrf b" "alloc_ok env" "\<not> promisc s" "rx_inv s" "isSplitPacket h" "packetSequence h \<noteq> seq s"
    and "254 < length p" "length p \<le> MTU"
  shows "receive_callback b env (h # drop 254 p) (receive_callback b env (h # take 254 p) s) =
    s\<lparr>seq := SEQ_UNSET, read_len := 0, pbuf := p @ drop (length p) (pbuf s),
      modem_packet_queue := queue_packet env p (modem_packet_queue s)\<rparr>"
proof -
  let ?t = "s\<lparr>seq := packetSequence h, read_len := 254, pbuf := take 254 p @ drop 254 (pbuf s)\<rparr>"
  have l: "length (pbuf s) = MTU" using assms(4) by (simp add: rx_inv_def)
  have 1: "receive_callback b env (h # take 254 p) s = ?t"
    using receive_first [of b s h "take 254 p" env] assms l by simp
  have 2: "length (pbuf ?t) = MTU" using assms(7) l by simp
  show ?thesis unfolding 1 using receive_second [of b env ?t h "drop 254 p"] assms(1-3,5,7,8) 2 l
    by (simp add: min_absorb2)
qed

lemma receive_whole_packet:
  assumes "esp_or_nrf b" "alloc_ok env" "\<not> promisc s" "rx_inv s" "seq s \<noteq> packetSequence rnd" "length p \<le> 507"
  shows "receive_frames b env (tx_frames rnd p) s =
    s\<lparr>seq := SEQ_UNSET, read_len := 0, pbuf := p @ drop (length p) (pbuf s),
      modem_packet_queue := queue_packet env p (modem_packet_queue s)\<rparr>"
proof (cases "length p \<le> 254")
  case True
  then show ?thesis using receive_single_packet assms by blast
next
  case False
  then show ?thesis
    using receive_split_packet [of b env s "tx_header rnd (length p)" p] assms
    by (simp add: tx_frames_two packetSequence_tx_header)
qed

lemma length_add_airtime [simp]: "aired (add_airtime b k s) = aired s"
  by (simp add: add_airtime_def Let_def)

section \<open>Properties\<close>

definition packets_blank :: "(nat \<Rightarrow> u8) \<Rightarrow> packets" where
  "packets_blank m = channel.extend (channel_blank m)
     \<lparr>seq = SEQ_UNSET, read_len = 0, host_write_len = 0, pbuf = replicate MTU 0, tbuf = replicate MTU 0,
      memory_low = False, packet_rx_count = 0, packet_tx_count = 0, modem_packet_queue = [], aired = [],
      urns_ready = False, urns_rx_staging_buf = replicate MTU 0, urns_rx_staging_len = 0, urns_rx_pending = False\<rparr>"

definition good_env :: rx_env where
  "good_env = \<lparr>alloc_ok = True, packet_rssi = - 80, packet_snr_raw = 40\<rparr>"

lemma packets_blank_fields [simp]:
  "seq (packets_blank m) = SEQ_UNSET" "read_len (packets_blank m) = 0" "pbuf (packets_blank m) = replicate MTU 0"
  "tbuf (packets_blank m) = replicate MTU 0" "modem_packet_queue (packets_blank m) = []" "aired (packets_blank m) = []"
  "\<not> promisc (packets_blank m)" "host_log (packets_blank m) = []" "usb_avail (packets_blank m)"
  by (simp_all add: packets_blank_def channel.defs channel_blank_defs radio_blank_defs)

lemma rx_inv_blank [simp]: "rx_inv (packets_blank m)"
  by (simp add: rx_inv_def)

text \<open>
  C5: a packet crosses the air intact. When a node in normal mode transmits a packet of 1 to 507 bytes and
  every \<open>endPacket\<close> succeeds, and a second node receives the frames it put on the air in order
  while not in the middle of a packet with the same sequence number, then the second node queues
  exactly that packet, and is ready for the next.
\<close>

theorem packet_crosses_air:
  assumes "radio_online u" "\<not> promisc u" "length p \<le> length (tbuf u)" "take (length p) (tbuf u) = p" "\<And>n. end_ok n = Some True"
    and "1 \<le> length p" "length p \<le> 507"
    and "esp_or_nrf b" "alloc_ok env" "\<not> promisc s" "rx_inv s" "seq s \<noteq> packetSequence rnd"
  shows "\<exists>t. transmit b' rnd end_ok (length p) u = Ret t \<and>
    (let r = receive_frames b env (drop (length (aired u)) (aired t)) s
     in modem_packet_queue r = queue_packet env p (modem_packet_queue s) \<and> seq r = SEQ_UNSET \<and> rx_inv r)"
proof -
  obtain t where t: "transmit b' rnd end_ok (length p) u = Ret t" "aired t = aired u @ tx_frames rnd p"
    using transmit_airs [of u p end_ok b' rnd] assms(1-5) by blast
  have l: "length (pbuf s) = MTU" using assms(11) by (simp add: rx_inv_def)
  show ?thesis using t receive_whole_packet [OF assms(8-12,7)] l assms(7) by (simp add: Let_def rx_inv_def)
qed

theorem packet_crosses_air_witness:
  "\<exists>t. transmit board_rak4631 0x37 (\<lambda>n. Some True) 300 ((packets_blank (\<lambda>a. 0))\<lparr>radio_online := True\<rparr>) = Ret t \<and>
     modem_packet_queue (receive_frames board_heltec32_v4 good_env (aired t) (packets_blank (\<lambda>a. 0))) =
       [\<lparr>mp_rssi = - 80, mp_snr_raw = 40, mp_data = replicate 300 0\<rparr>]"
proof -
  have "esp_or_nrf board_heltec32_v4" by (simp add: esp_or_nrf_def board_values)
  then have "\<exists>t. transmit board_rak4631 0x37 (\<lambda>n. Some True) 300 ((packets_blank (\<lambda>a. 0))\<lparr>radio_online := True\<rparr>) = Ret t \<and>
    (let r = receive_frames board_heltec32_v4 good_env (drop 0 (aired t)) (packets_blank (\<lambda>a. 0))
     in modem_packet_queue r = queue_packet good_env (replicate 300 0) [] \<and> seq r = SEQ_UNSET \<and> rx_inv r)"
    using packet_crosses_air [where u = "(packets_blank (\<lambda>a. 0))\<lparr>radio_online := True\<rparr>" and p = "replicate 300 0"
        and end_ok = "\<lambda>n. Some True" and b = board_heltec32_v4 and env = good_env and s = "packets_blank (\<lambda>a. 0)"
        and rnd = "0x37" and b' = board_rak4631] by (simp add: good_env_def)
  then show ?thesis by (auto simp: Let_def queue_packet_def good_env_def)
qed

text \<open>
  C39: a packet of the full 508 bytes leaves the receiver out of step. It is sent as three frames, the third
  empty; the receiver queues the packet after the second and takes the third for the first part
  of another, so a following split packet with the same sequence number is queued with only
  its first 254 bytes.
\<close>

theorem full_size_packet_desyncs:
  assumes "esp_or_nrf b" "alloc_ok env" "\<not> promisc s" "rx_inv s" "seq s \<noteq> packetSequence rnd"
    and "length p = MTU" "254 < length q" "length q \<le> 507" "modem_packet_queue s = []"
  shows "length (tx_frames rnd p) = 3 \<and>
         map mp_data (modem_packet_queue (receive_frames b env (tx_frames rnd p) s)) = [p] \<and>
         seq (receive_frames b env (tx_frames rnd p) s) = packetSequence rnd \<and>
         map mp_data (modem_packet_queue (receive_frames b env (tx_frames rnd p @ tx_frames rnd q) s)) = [p, take 254 q]"
proof -
  have l: "length (pbuf s) = MTU" using assms(4) by (simp add: rx_inv_def)
  define h where "h = tx_header rnd MTU"
  define k where "k = tx_header rnd (length q)"
  have h: "isSplitPacket h" "packetSequence h = packetSequence rnd" "isSplitPacket k" "packetSequence k = packetSequence rnd"
    using assms(7) by (simp_all add: h_def k_def packetSequence_tx_header)
  define r2 where "r2 = s\<lparr>seq := SEQ_UNSET, read_len := 0, pbuf := p, modem_packet_queue := queue_packet env p []\<rparr>"
  have r2: "receive_callback b env (h # drop 254 p) (receive_callback b env (h # take 254 p) s) = r2"
    using receive_split_packet [of b env s h p] assms h l by (simp add: r2_def)
  define r3 where "r3 = r2\<lparr>seq := packetSequence rnd\<rparr>"
  have r3: "receive_callback b env [h] r2 = r3"
    using receive_first [of b r2 h "[]" env] assms h by (simp add: r3_def r2_def)
  have f: "tx_frames rnd p = [h # take 254 p, h # drop 254 p, [h]]" "tx_frames rnd q = [k # take 254 q, k # drop 254 q]"
    using assms by (simp_all add: tx_frames_three tx_frames_two h_def k_def)
  define r4 where "r4 = r3\<lparr>seq := SEQ_UNSET, read_len := 0, pbuf := take 254 q @ drop 254 p,
      modem_packet_queue := queue_packet env (take 254 q) (queue_packet env p [])\<rparr>"
  have r4: "receive_callback b env (k # take 254 q) r3 = r4"
    using receive_second [of b env r3 k "take 254 q"] assms h by (simp add: r4_def r3_def r2_def)
  have r5: "modem_packet_queue (receive_callback b env (k # drop 254 q) r4) = modem_packet_queue r4"
    using receive_first [of b r4 k "drop 254 q" env] assms h by (simp add: r4_def r3_def r2_def)
  show ?thesis using r2 r3 r4 r5 by (simp add: f r3_def r2_def r4_def queue_packet_def)
qed

theorem full_size_packet_desyncs_witness:
  "map mp_data (modem_packet_queue (receive_frames board_heltec32_v4 good_env
     (tx_frames 0x30 (replicate 508 1) @ tx_frames 0x30 (replicate 300 2)) (packets_blank (\<lambda>a. 0)))) =
   [replicate 508 1, replicate 254 2]"
  using full_size_packet_desyncs [of board_heltec32_v4 good_env "packets_blank (\<lambda>a. 0)" "0x30" "replicate 508 1" "replicate 300 2"]
  by (simp add: good_env_def esp_or_nrf_def board_values)

lemma getPacketData_fields [simp]:
  "seq (getPacketData n f s) = seq s" "modem_packet_queue (getPacketData n f s) = modem_packet_queue s"
  "promisc (getPacketData n f s) = promisc s"
  by (simp_all add: getPacketData_def split: prod.splits)

lemma getPacketData_bounds:
  assumes "length (pbuf s) = MTU" "read_len s \<le> MTU"
  shows "length (pbuf (getPacketData n f s)) = MTU" "read_len (getPacketData n f s) \<le> MTU"
  using rx_fill_bounds [OF assms(2,1), of n f]
  by (auto simp: getPacketData_def split: prod.splits)

text \<open>
  What every reception keeps, also when no memory can be allocated: the packet buffer has its 508 bytes, the
  read position is within it, and the modem queue holds at most its 8 entries, none longer than the buffer.
\<close>

definition rx_bounds :: "'a packets_scheme \<Rightarrow> bool" where
  "rx_bounds s \<longleftrightarrow> length (pbuf s) = MTU \<and> read_len s \<le> MTU \<and>
     length (modem_packet_queue s) \<le> MODEM_QUEUE_SIZE \<and> list_all (\<lambda>p. length (mp_data p) \<le> MTU) (modem_packet_queue s)"

fun receive_with :: "board \<Rightarrow> (rx_env \<times> u8 list) list \<Rightarrow> 'a packets_scheme \<Rightarrow> 'a packets_scheme" where
  "receive_with b [] s = s"
| "receive_with b ((env, frame) # fs) s = receive_with b fs (receive_callback b env frame s)"

lemma receive_with_append: "receive_with b (fs @ gs) s = receive_with b gs (receive_with b fs s)"
  by (induction b fs s rule: receive_with.induct) simp_all

lemma rx_bounds_complete: "esp_or_nrf b \<Longrightarrow> rx_bounds s \<Longrightarrow> rx_bounds (packet_complete b env s)"
  by (simp add: rx_bounds_def packet_complete_def Let_def)

lemma rx_bounds_updates [simp]: "rx_bounds (s\<lparr>seq := k\<rparr>) = rx_bounds s" "rx_bounds s \<Longrightarrow> rx_bounds (s\<lparr>read_len := 0, seq := k\<rparr>)"
  "rx_bounds s \<Longrightarrow> rx_bounds (s\<lparr>read_len := 0\<rparr>)"
  by (simp_all add: rx_bounds_def)

lemma rx_bounds_getPacketData: "rx_bounds s \<Longrightarrow> rx_bounds (getPacketData n f s)"
  using getPacketData_bounds [of s n f] by (simp add: rx_bounds_def)

lemma rx_bounds_receive: "esp_or_nrf b \<Longrightarrow> rx_bounds s \<Longrightarrow> rx_bounds (receive_callback b env frame s)"
  by (simp add: receive_callback_def Let_def note_signal_def average_signal_def rx_bounds_complete rx_bounds_getPacketData)

lemma rx_inv_complete: "esp_or_nrf b \<Longrightarrow> alloc_ok env \<Longrightarrow> length (pbuf s) = MTU \<Longrightarrow> rx_inv (packet_complete b env s)"
  by (simp add: packet_complete_def rx_inv_def Let_def)

lemma rx_inv_receive:
  assumes "esp_or_nrf b" "alloc_ok env" "rx_inv s"
  shows "rx_inv (receive_callback b env frame s)" "promisc (receive_callback b env frame s) = promisc s"
proof -
  have l: "length (pbuf s) = MTU" "read_len s \<le> MTU" using assms(3) by (simp_all add: rx_inv_def)
  have fill: "length (pbuf (getPacketData n f (t\<lparr>read_len := 0\<rparr>))) = MTU" "read_len (getPacketData n f (t\<lparr>read_len := 0\<rparr>)) \<le> MTU"
    if "length (pbuf t) = MTU" for n f and t :: "'a packets_scheme"
    using getPacketData_bounds [of "t\<lparr>read_len := 0\<rparr>"] that by simp_all
  have fill': "length (pbuf (getPacketData n f t)) = MTU" if "length (pbuf t) = MTU" "read_len t \<le> MTU" for n f and t :: "'a packets_scheme"
    using getPacketData_bounds(1) [OF that] .
  have swap: "s\<lparr>read_len := 0, seq := k\<rparr> = s\<lparr>seq := k\<rparr>\<lparr>read_len := 0\<rparr>" for k by simp
  show "rx_inv (receive_callback b env frame s)"
    unfolding receive_callback_def Let_def note_signal_def average_signal_def swap
    using assms(1,2) l fill [of s] fill [of "s\<lparr>seq := k\<rparr>" for k] fill' [of s]
    by (auto simp: rx_inv_def [of "getPacketData _ _ _"] intro!: rx_inv_complete)
  show "promisc (receive_callback b env frame s) = promisc s"
    using assms(1) by (simp add: receive_callback_def Let_def note_signal_def average_signal_def packet_complete_def)
qed

lemma rx_inv_receive_with:
  "esp_or_nrf b \<Longrightarrow> list_all (\<lambda>(env, f). alloc_ok env) fs \<Longrightarrow> rx_inv s \<Longrightarrow>
    rx_inv (receive_with b fs s) \<and> promisc (receive_with b fs s) = promisc s"
  by (induction b fs s rule: receive_with.induct) (simp_all add: rx_inv_receive)

lemma rx_bounds_receive_with: "esp_or_nrf b \<Longrightarrow> rx_bounds s \<Longrightarrow> rx_bounds (receive_with b fs s)"
  by (induction b fs s rule: receive_with.induct) (simp_all add: rx_bounds_receive)

text \<open>
  C6: reception never writes past the packet buffer and never delivers a mixture. Whatever frames arrive, with
  fewer bytes than a header or more than fit, and whether or not memory for the packets can be allocated, the
  buffer keeps its 508 bytes (a byte written past its end would make it longer), the read position stays within
  it and no queued packet is longer than it. If the allocations so far succeeded, an unsplit packet that comes
  next is queued exactly as sent, whatever fragments came before.
\<close>

theorem reception_is_safe:
  assumes "esp_or_nrf b" "rx_bounds s"
  shows "rx_bounds (receive_with b fs s) \<and>
         (rx_inv s \<and> list_all (\<lambda>(env, f). alloc_ok env) fs \<and> alloc_ok env \<and> \<not> promisc s \<and> length p \<le> 254 \<longrightarrow>
            modem_packet_queue (receive_with b (fs @ map (Pair env) (tx_frames rnd p)) s) =
            queue_packet env p (modem_packet_queue (receive_with b fs s)))"
proof -
  have "modem_packet_queue (receive_with b (fs @ map (Pair env) (tx_frames rnd p)) s) =
      queue_packet env p (modem_packet_queue (receive_with b fs s))"
    if a: "rx_inv s" "list_all (\<lambda>(env, f). alloc_ok env) fs" "alloc_ok env" "\<not> promisc s" "length p \<le> 254"
    using rx_inv_receive_with [OF assms(1) a(2,1)] receive_single_packet [of b env "receive_with b fs s" p rnd] assms(1) a
    by (simp add: receive_with_append tx_frames_single)
  then show ?thesis using rx_bounds_receive_with [OF assms] by blast
qed

theorem reception_is_safe_witness:
  "rx_bounds (receive_with board_heltec32_v4 (replicate 4 (good_env\<lparr>alloc_ok := False\<rparr>, replicate 255 0)) (packets_blank (\<lambda>a. 0))) \<and>
   map mp_data (modem_packet_queue (receive_with board_heltec32_v4 ([(good_env, 0x11 # replicate 254 7)] @ map (Pair good_env) (tx_frames 0x30 [5, 6]))
     (packets_blank (\<lambda>a. 0)))) = [[5, 6]]"
proof -
  have b: "esp_or_nrf board_heltec32_v4" "rx_bounds (packets_blank (\<lambda>a. 0))"
    by (simp_all add: esp_or_nrf_def board_values rx_bounds_def)
  have "modem_packet_queue (receive_with board_heltec32_v4 [(good_env, 0x11 # replicate 254 7)] (packets_blank (\<lambda>a. 0))) = []"
    using receive_first [of board_heltec32_v4 "packets_blank (\<lambda>a. 0)" "0x11" "replicate 254 7" good_env] b(1)
    by (simp add: isSplitPacket_def)
  then show ?thesis
    using reception_is_safe [OF b, where fs = "replicate 4 (good_env\<lparr>alloc_ok := False\<rparr>, replicate 255 0)"]
      reception_is_safe [OF b, where fs = "[(good_env, 0x11 # replicate 254 7)]" and env = good_env and p = "[5, 6]" and rnd = "0x30"]
    by (simp add: good_env_def queue_packet_def del: receive_with.simps)
qed

text \<open>
  When memory for a packet cannot be allocated, the next packet is corrupted. The failed packet stays in
  the buffer because the read position is not reset, and the next unsplit packet is queued with
  the failed one in front of it.
\<close>

theorem failed_allocation_corrupts_next:
  assumes "esp_or_nrf b" "\<not> alloc_ok bad" "alloc_ok env" "\<not> promisc s" "rx_inv s" "seq s = SEQ_UNSET"
    and "length p + length q \<le> 254" "modem_packet_queue s = []"
  shows "map mp_data (modem_packet_queue (receive_frames b env (tx_frames rnd q)
           (receive_frames b bad (tx_frames rnd' p) s))) = [p @ q]"
proof -
  have l: "length (pbuf s) = MTU" "read_len s = 0" using assms(5,6) by (simp_all add: rx_inv_def)
  define t where "t = s\<lparr>read_len := length p, pbuf := p @ drop (length p) (pbuf s), memory_low := True\<rparr>"
  have 1: "receive_frames b bad (tx_frames rnd' p) s = t"
    using assms l getPacketData_append [of s p]
    by (simp add: tx_frames_single receive_callback_def Let_def note_signal_def packet_complete_def t_def frame_size)
  have t: "seq t = SEQ_UNSET" "read_len t = length p" "length (pbuf t) = MTU" "\<not> promisc t" "modem_packet_queue t = []"
    "take (length p) (pbuf t) = p"
    using assms l by (simp_all add: t_def)
  have "map mp_data (modem_packet_queue (receive_frames b env (tx_frames rnd q) t)) = [p @ q]"
    using assms t getPacketData_append [of t q]
    by (simp add: tx_frames_single receive_callback_def Let_def note_signal_def packet_complete_def frame_size)
  then show ?thesis unfolding 1 .
qed

theorem failed_allocation_corrupts_next_witness:
  "map mp_data (modem_packet_queue (receive_frames board_rak4631 good_env (tx_frames 0 [3, 4])
     (receive_frames board_rak4631 (good_env\<lparr>alloc_ok := False\<rparr>) (tx_frames 0 [1, 2]) (packets_blank (\<lambda>a. 0))))) = [[1, 2, 3, 4]]"
  using failed_allocation_corrupts_next [of board_rak4631 "good_env\<lparr>alloc_ok := False\<rparr>" good_env "packets_blank (\<lambda>a. 0)" "[1, 2]" "[3, 4]" 0 0]
  by (simp add: good_env_def esp_or_nrf_def board_values)

text \<open>Replies and writes to the host leave the packet state alone.\<close>

lemma packets_host_update [simp]:
  "pbuf (host_update l f st s) = pbuf s" "host_write_len (host_update l f st s) = host_write_len s"
  "modem_packet_queue (host_update l f st s) = modem_packet_queue s"
  "urns_ready (host_update l f st s) = urns_ready s" "urns_rx_pending (host_update l f st s) = urns_rx_pending s"
  "urns_rx_staging_buf (host_update l f st s) = urns_rx_staging_buf s"
  "urns_rx_staging_len (host_update l f st s) = urns_rx_staging_len s"
  "packets.more (host_update l f st s) = packets.more s"
  by (simp_all add: host_update_def)

lemma stat_replies_update: "\<exists>l f st. kiss_indicate_stat_snr b (kiss_indicate_stat_rssi b s) = host_update l f st s"
proof -
  have sel: "\<exists>l f st. select0 b s = host_update l f st s" for s :: "'a radio_scheme"
  proof -
    have "s = host_update (host_log s) (serial_in_frame s) (kiss_host_tx_stalled s) s" by (simp add: host_update_def)
    then show ?thesis unfolding select0_def kiss_select_interface_def by (metis reply_update)
  qed
  then have "\<exists>l f st. reply b c raw esc (select0 b s) = host_update l f st s" for c raw esc and s :: "'a radio_scheme"
    by (metis reply_update host_update_twice)
  then show ?thesis unfolding kiss_indicate_stat_snr_def kiss_indicate_stat_rssi_def
    by (metis host_update_twice)
qed

definition select_frames :: "board \<Rightarrow> (u8 \<times> u8 list) list" where
  "select_frames b = (if has_espnow b then [(CMD_SEL_INT, [0])] else [])"

definition frames_bytes :: "(u8 \<times> u8 list) list \<Rightarrow> u8 list" where
  "frames_bytes fs = concat (map (\<lambda>(c, p). kiss_frame c p) fs)"

lemma select0_bytes:
  "link_ok b s \<Longrightarrow> host_bytes (select0 b s) = host_bytes s @ frames_bytes (select_frames b)"
  "link_ok b (select0 b s) = link_ok b s"
  by (simp_all add: select0_def kiss_select_interface_def select_frames_def frames_bytes_def reply_frame del: host_bytes_reply)

lemma select_frames_ok: "\<forall>f \<in> set (select_frames b). fst f \<noteq> FEND"
  by (simp add: select_frames_def)

lemma frames_bytes_decode:
  "\<forall>f \<in> set fs. fst f \<noteq> FEND \<Longrightarrow> c \<noteq> FEND \<Longrightarrow> kiss_decode (frames_bytes fs @ kiss_frame c p) = fs @ [(c, p)]"
  using kiss_decode_frames [of fs "kiss_frame c p"] by (simp add: frames_bytes_def)

lemma staged_for_host_fields [simp]:
  "link_ok b (staged_for_host b s) = link_ok b s" "host_bytes (staged_for_host b s) = host_bytes s"
  "host_write_len (staged_for_host b s) = host_write_len s" "pbuf (staged_for_host b s) = pbuf s"
  "modem_packet_queue (staged_for_host b s) = modem_packet_queue s"
  by (simp_all add: staged_for_host_def Let_def urns_stage_incoming_def link_ok_def host_bytes_def)

lemma kiss_write_packet_eq:
  assumes "link_ok b s"
  shows "\<exists>l f st. kiss_write_packet b s = (host_update l f st (staged_for_host b s))\<lparr>host_write_len := 0\<rparr> \<and>
     concat (map put_byte l) = host_bytes s @ kiss_frame CMD_DATA (take (host_write_len s) (pbuf s))"
proof -
  let ?s1 = "staged_for_host b s"
  let ?d = "take (host_write_len s) (pbuf s)"
  obtain l f st where u: "serial_write b CMD_DATA (serial_write b FEND ?s1) = host_update l f st ?s1"
    by (metis serial_write_update host_update_twice)
  define s2 where "s2 = serial_write b FEND (escaped_writes b ?d (serial_write b CMD_DATA (serial_write b FEND ?s1)))"
  obtain l2 f2 st2 where u2: "s2 = host_update l2 f2 st2 ?s1"
    unfolding s2_def by (metis serial_write_update host_update_twice escaped_writes_update)
  have "host_bytes s2 = host_bytes s @ kiss_frame CMD_DATA ?d"
    unfolding s2_def kiss_frame_def using assms by simp
  then have l2: "concat (map put_byte l2) = host_bytes s @ kiss_frame CMD_DATA ?d"
    unfolding u2 by (simp add: host_bytes_def host_update_def)
  have k: "kiss_write_packet b s = (if mcu b = McuEsp32 \<and> has_ble b \<and> bt_state s2 = BT_STATE_CONNECTED
      then s2\<lparr>host_write_len := 0, host_log := host_log s2 @ [BtFlush]\<rparr> else s2\<lparr>host_write_len := 0\<rparr>)"
    using u unfolding kiss_write_packet_def Let_def s2_def by simp
  have "kiss_write_packet b s = (host_update (if mcu b = McuEsp32 \<and> has_ble b \<and> bt_state s2 = BT_STATE_CONNECTED
      then l2 @ [BtFlush] else l2) f2 st2 ?s1)\<lparr>host_write_len := 0\<rparr>"
    unfolding k u2 by (simp add: host_update_def)
  then show ?thesis using l2 by fastforce
qed

lemma kiss_write_packet_bytes:
  "link_ok b s \<Longrightarrow> host_bytes (kiss_write_packet b s) = host_bytes s @ kiss_frame CMD_DATA (take (host_write_len s) (pbuf s))"
  using kiss_write_packet_eq [of b s] by (auto simp: host_bytes_def host_update_def)

lemma kiss_write_packet_fields:
  assumes "link_ok b s"
  shows "modem_packet_queue (kiss_write_packet b s) = modem_packet_queue s" "link_ok b (kiss_write_packet b s)"
    and "has_urns b \<Longrightarrow> urns_ready s \<Longrightarrow> \<not> urns_rx_pending s \<Longrightarrow> host_write_len s \<le> MTU \<Longrightarrow>
      take (urns_rx_staging_len (kiss_write_packet b s)) (urns_rx_staging_buf (kiss_write_packet b s)) =
      take (host_write_len s) (pbuf s)"
proof -
  have "link_ok b ((host_update l f st (staged_for_host b s))\<lparr>host_write_len := 0\<rparr>) = link_ok b (staged_for_host b s)" for l f st
    by (simp add: link_ok_def host_update_def)
  then show "modem_packet_queue (kiss_write_packet b s) = modem_packet_queue s" "link_ok b (kiss_write_packet b s)"
    using kiss_write_packet_eq [OF assms] assms by auto
  show "has_urns b \<Longrightarrow> urns_ready s \<Longrightarrow> \<not> urns_rx_pending s \<Longrightarrow> host_write_len s \<le> MTU \<Longrightarrow>
      take (urns_rx_staging_len (kiss_write_packet b s)) (urns_rx_staging_buf (kiss_write_packet b s)) =
      take (host_write_len s) (pbuf s)"
    using kiss_write_packet_eq [OF assms]
    by (auto simp: staged_for_host_def urns_stage_incoming_def copy_into_def Let_def min_def)
qed

text \<open>What the host is sent for one packet: signal strength, signal-to-noise ratio, the data.\<close>

definition delivery_frames :: "board \<Rightarrow> rx_env \<Rightarrow> modem_packet \<Rightarrow> (u8 \<times> u8 list) list" where
  "delivery_frames b env p =
     select_frames b @
     [(CMD_STAT_RSSI, [word_of_int ((if mcu b = McuEsp32 then mp_rssi p else packet_rssi env) + rssi_offset)])] @
     select_frames b @
     [(CMD_STAT_SNR, [if mcu b = McuEsp32 then mp_snr_raw p else packet_snr_raw env]), (CMD_DATA, mp_data p)]"

lemma delivered_bytes:
  assumes "link_ok b s" "modem_packet_queue s = p # ps" "length (mp_data p) \<le> MTU"
  shows "host_bytes (deliver_packet b env s) = host_bytes s @ frames_bytes (delivery_frames b env p)"
    and "link_ok b (deliver_packet b env s)" "modem_packet_queue (deliver_packet b env s) = ps"
    and "has_urns b \<and> urns_ready s \<and> \<not> urns_rx_pending s \<longrightarrow>
      take (urns_rx_staging_len (deliver_packet b env s)) (urns_rx_staging_buf (deliver_packet b env s)) = mp_data p"
proof -
  define rssi where "rssi = (if mcu b = McuEsp32 then mp_rssi p else packet_rssi env)"
  define snr where "snr = (if mcu b = McuEsp32 then mp_snr_raw p else packet_snr_raw env)"
  define s1 where "s1 = s\<lparr>modem_packet_queue := ps, host_write_len := length (mp_data p),
      pbuf := copy_into (mp_data p) (pbuf s), last_rssi := rssi, last_snr_raw := snr\<rparr>"
  define s2 where "s2 = kiss_indicate_stat_snr b (kiss_indicate_stat_rssi b s1)"
  have t: "deliver_packet b env s = kiss_write_packet b s2"
    unfolding deliver_packet_def assms(2) s2_def s1_def rssi_def snr_def by simp
  have l1: "link_ok b s1" "host_bytes s1 = host_bytes s" "last_rssi s1 = rssi" "last_snr_raw s1 = snr"
    using assms(1) by (simp_all add: s1_def link_ok_def host_bytes_def)
  have l2: "link_ok b s2"
    using l1 select0_bytes by (simp add: s2_def kiss_indicate_stat_snr_def kiss_indicate_stat_rssi_def)
  have b2: "host_bytes s2 = host_bytes s @ frames_bytes (select_frames b @
      [(CMD_STAT_RSSI, [word_of_int (rssi + rssi_offset)])] @ select_frames b @ [(CMD_STAT_SNR, [snr])])"
    using l1
    by (simp add: s2_def kiss_indicate_stat_snr_def kiss_indicate_stat_rssi_def reply_frame select0_bytes frames_bytes_def
          del: host_bytes_reply)
  obtain l f st where u: "s2 = host_update l f st s1" using stat_replies_update unfolding s2_def by blast
  have d: "host_write_len s2 = length (mp_data p)" "take (host_write_len s2) (pbuf s2) = mp_data p" "modem_packet_queue s2 = ps"
    "urns_ready s2 = urns_ready s" "urns_rx_pending s2 = urns_rx_pending s"
    unfolding u by (simp_all add: s1_def copy_into_def)
  show "host_bytes (deliver_packet b env s) = host_bytes s @ frames_bytes (delivery_frames b env p)"
    unfolding t kiss_write_packet_bytes [OF l2] b2 d(2)
    by (simp add: delivery_frames_def frames_bytes_def rssi_def snr_def)
  show "link_ok b (deliver_packet b env s)" "modem_packet_queue (deliver_packet b env s) = ps"
    unfolding t using kiss_write_packet_fields [OF l2] d l2 by simp_all
  show "has_urns b \<and> urns_ready s \<and> \<not> urns_rx_pending s \<longrightarrow>
      take (urns_rx_staging_len (deliver_packet b env s)) (urns_rx_staging_buf (deliver_packet b env s)) = mp_data p"
    unfolding t using kiss_write_packet_fields(3) [OF l2] d assms(3) by simp
qed

lemma delivery_frames_ok: "\<forall>f \<in> set (delivery_frames b env p). fst f \<noteq> FEND"
  by (auto simp: delivery_frames_def select_frames_def)

text \<open>
  C7: a queued packet reaches the host whole. When the link accepts bytes, the host decodes the signal strength, the
  signal-to-noise ratio and then one data frame with exactly the bytes of the packet, whatever they
  are; the packet leaves the modem queue, and the node running on the board is handed the same bytes
  if its slot is free.
\<close>

theorem delivered_packet_decodes:
  assumes "link_ok b s" "host_log s = []" "modem_packet_queue s = p # ps" "length (mp_data p) \<le> MTU"
  shows "kiss_decode (host_bytes (deliver_packet b env s)) =
           select_frames b @
           [(CMD_STAT_RSSI, [word_of_int ((if mcu b = McuEsp32 then mp_rssi p else packet_rssi env) + rssi_offset)])] @
           select_frames b @
           [(CMD_STAT_SNR, [if mcu b = McuEsp32 then mp_snr_raw p else packet_snr_raw env]),
            (CMD_DATA, mp_data p)] \<and>
         modem_packet_queue (deliver_packet b env s) = ps \<and>
         (has_urns b \<and> urns_ready s \<and> \<not> urns_rx_pending s \<longrightarrow>
            take (urns_rx_staging_len (deliver_packet b env s)) (urns_rx_staging_buf (deliver_packet b env s)) = mp_data p)"
proof -
  have "host_bytes (deliver_packet b env s) = frames_bytes (delivery_frames b env p)"
    using delivered_bytes(1) [OF assms(1,3,4)] assms(2) by (simp add: host_bytes_def [of s])
  then have "kiss_decode (host_bytes (deliver_packet b env s)) = delivery_frames b env p"
    using kiss_decode_frames [OF delivery_frames_ok, of b env p "[]"] by (simp add: frames_bytes_def)
  then show ?thesis using delivered_bytes(3,4) [OF assms(1,3,4)] by (simp add: delivery_frames_def)
qed

theorem delivered_packet_decodes_witness:
  "kiss_decode (host_bytes (deliver_packet board_rnode good_env ((packets_blank (\<lambda>a. 0))
     \<lparr>modem_packet_queue := [\<lparr>mp_rssi = - 100, mp_snr_raw = 7, mp_data = [0xC0, 0xDB, 1]\<rparr>]\<rparr>))) =
   [(CMD_STAT_RSSI, [77]), (CMD_STAT_SNR, [40]), (CMD_DATA, [0xC0, 0xDB, 1])]"
  using delivered_packet_decodes [of board_rnode "(packets_blank (\<lambda>a. 0))
     \<lparr>modem_packet_queue := [\<lparr>mp_rssi = - 100, mp_snr_raw = 7, mp_data = [0xC0, 0xDB, 1]\<rparr>]\<rparr>" _ "[]" good_env]
  by (simp add: good_env_def link_ok_def select_frames_def board_values)

section \<open>LoRa as a packet link\<close>

definition lora_idle :: "board \<Rightarrow> rx_env \<Rightarrow> 'a packets_scheme \<Rightarrow> bool" where
  "lora_idle b env s \<longleftrightarrow> esp_or_nrf b \<and> alloc_ok env \<and> \<not> promisc s \<and> rx_inv s \<and> seq s = SEQ_UNSET"

lemma receive_packet:
  assumes "lora_idle b env s" "length p \<le> 507"
  shows "fold (receive_callback b env) (tx_frames rnd p) s =
    s\<lparr>seq := SEQ_UNSET, read_len := 0, pbuf := p @ drop (length p) (pbuf s),
      modem_packet_queue := queue_packet env p (modem_packet_queue s)\<rparr>"
proof (cases "length p \<le> 254")
  case True
  then show ?thesis using receive_single_packet [of b env s p rnd] assms by (simp add: lora_idle_def tx_frames_single)
next
  case False
  then show ?thesis
    using receive_split_packet [of b env s "tx_header rnd (length p)" p] assms
    by (simp add: lora_idle_def tx_frames_two packetSequence_tx_header)
qed

interpretation lora: packet_link tx_frames "receive_callback b env" "\<lambda>s. map mp_data (modem_packet_queue s)"
  "lora_idle b env" "\<lambda>p. length p \<le> 507" MODEM_QUEUE_SIZE for b env
proof
  fix s :: "'a packets_scheme" and p :: "u8 list" and r :: u8
  assume a: "lora_idle b env s" "length p \<le> 507"
  then have "length (pbuf s) = MTU" by (simp add: lora_idle_def rx_inv_def)
  then show "lora_idle b env (fold (receive_callback b env) (tx_frames r p) s)"
    using a by (simp add: receive_packet) (simp add: lora_idle_def rx_inv_def)
  show "map mp_data (modem_packet_queue (fold (receive_callback b env) (tx_frames r p) s)) =
      (if length (map mp_data (modem_packet_queue s)) < MODEM_QUEUE_SIZE
       then map mp_data (modem_packet_queue s) @ [p] else map mp_data (modem_packet_queue s))"
    using a by (simp add: receive_packet queue_packet_def)
qed

text \<open>
  A stream of packets crosses the LoRa link. A node that is between packets and receives the
  frames of any sequence of packets of at most 507 bytes queues these packets whole and in order,
  as many as its modem queue has room for, and is between packets again.
\<close>

theorem lora_packet_stream:
  assumes "esp_or_nrf b" "alloc_ok env" "\<not> promisc s" "rx_inv s" "seq s = SEQ_UNSET"
    and "list_all (\<lambda>(r, p). length p \<le> 507) ps"
  shows "(let t = fold (receive_callback b env) (concat (map (\<lambda>(r, p). tx_frames r p) ps)) s
          in map mp_data (modem_packet_queue t) = map mp_data (modem_packet_queue s) @
               take (MODEM_QUEUE_SIZE - length (modem_packet_queue s)) (map snd ps) \<and>
             seq t = SEQ_UNSET \<and> rx_inv t)"
proof -
  have i: "lora_idle b env s" using assms(1-5) by (simp add: lora_idle_def)
  show ?thesis using lora.stream_received [OF i assms(6)] lora.stream_idle [OF i assms(6)]
    by (simp add: Let_def lora_idle_def)
qed

theorem lora_packet_stream_witness:
  "map mp_data (modem_packet_queue (fold (receive_callback board_heltec32_v4 good_env)
     (tx_frames 0x30 (replicate 400 1) @ tx_frames 0x30 [7, 8]) (packets_blank (\<lambda>a. 0)))) = [replicate 400 1, [7, 8]]"
  using lora_packet_stream [of board_heltec32_v4 good_env "packets_blank (\<lambda>a. 0)" "[(0x30, replicate 400 1), (0x30, [7, 8])]"]
  by (simp add: good_env_def esp_or_nrf_def board_values Let_def)

end
