(* ===== verification/Packet_Queue.thy ===== *)
theory Packet_Queue
  imports Fifo Lora_Frames
begin

text \<open>
  The transmit queue (\<^verbatim>\<open>RNode_Firmware.ino\<close>): packets from the host and from the node on the board
  are kept back to back in the ring \<open>packet_queue\<close>, with their start positions and lengths in two
  \<open>FIFOBuffer16\<close>s, until \<open>flush_queue\<close> or \<open>pop_queue\<close> transmits them. The loop of \<open>flush_queue\<close> is a
  partial function, so that not returning is the value \<open>None\<close>. The abstraction \<open>queue_rep\<close> is a list
  of packets and the packet being assembled.
\<close>

section \<open>State\<close>

record pqueue = packets +
  packet_starts :: FIFOBuffer16
  packet_lengths :: FIFOBuffer16
  packet_queue :: "u8 list"
  queue_height :: u8
  queued_bytes :: u16
  queue_cursor :: u16
  current_packet_start :: u16
  queue_flushing :: bool
  IN_FRAME :: bool
  kiss_command :: u8

section \<open>Filling the queue\<close>

definition advance_cursor :: "board \<Rightarrow> u16 \<Rightarrow> u16" where
  "advance_cursor b c = (let c = c + 1 in if unat c = queue_size b then 0 else c)"

text \<open>One data byte of a host frame, in \<open>serial_callback\<close>.\<close>

definition queue_byte :: "board \<Rightarrow> u8 \<Rightarrow> 'a pqueue_scheme \<Rightarrow> 'a pqueue_scheme" where
  "queue_byte b x s =
     (if unat (queue_height s) < queue_max_length b \<and> unat (queued_bytes s) < queue_size b then
        s\<lparr>queued_bytes := queued_bytes s + 1,
          packet_queue := (packet_queue s)[unat (queue_cursor s) := x],
          queue_cursor := advance_cursor b (queue_cursor s)\<rparr>
      else s)"

text \<open>The end of a host data frame, in \<open>serial_callback\<close>.\<close>

definition frame_length :: "board \<Rightarrow> u16 \<Rightarrow> u16 \<Rightarrow> u16" where
  "frame_length b start cursor =
     (let s = uint start;
          e = uint cursor - 1;
          e = (if e = - 1 then int (queue_size b) - 1 else e)
      in if s \<noteq> e then (if s < e then word_of_int (e - s + 1) else word_of_int (int (queue_size b) - s + e + 1)) else 1)"

definition queue_close :: "board \<Rightarrow> 'a pqueue_scheme \<Rightarrow> 'a pqueue_scheme" where
  "queue_close b s =
     (if \<not> fifo16_isfull (packet_starts s) \<and> unat (queued_bytes s) < queue_size b then
        (let l = frame_length b (current_packet_start s) (queue_cursor s)
         in if unat l \<ge> MIN_L then
              s\<lparr>queue_height := queue_height s + 1,
                packet_starts := fifo16_push (packet_starts s) (current_packet_start s),
                packet_lengths := fifo16_push (packet_lengths s) l,
                current_packet_start := queue_cursor s\<rparr>
            else s)
      else s)"

definition queue_full :: "board \<Rightarrow> 'a pqueue_scheme \<Rightarrow> bool" where
  "queue_full b s \<longleftrightarrow> unat (queue_height s) \<ge> queue_max_length b \<or> unat (queued_bytes s) \<ge> queue_size b"

fun write_ring :: "board \<Rightarrow> u8 list \<Rightarrow> 'a pqueue_scheme \<Rightarrow> 'a pqueue_scheme" where
  "write_ring b [] s = s"
| "write_ring b (x # xs) s =
     write_ring b xs (s\<lparr>packet_queue := (packet_queue s)[unat (queue_cursor s) := x],
                        queue_cursor := advance_cursor b (queue_cursor s)\<rparr>)"

definition urns_enqueue_outgoing :: "board \<Rightarrow> u8 list \<Rightarrow> 'a pqueue_scheme \<Rightarrow> bool \<times> 'a pqueue_scheme" where
  "urns_enqueue_outgoing b data s =
     (if IN_FRAME s \<and> kiss_command s = CMD_DATA then (False, s)
      else if length data < MIN_L \<or> length data > MTU then (False, s)
      else if fifo16_isfull (packet_starts s) \<or> unat (queue_height s) \<ge> queue_max_length b then (False, s)
      else if unat (queued_bytes s) + length data > queue_size b then (False, s)
      else
        (let start = queue_cursor s;
             s = write_ring b data s;
             s = s\<lparr>queued_bytes := queued_bytes s + of_nat (length data), queue_height := queue_height s + 1,
                   packet_starts := fifo16_push (packet_starts s) start,
                   packet_lengths := fifo16_push (packet_lengths s) (of_nat (length data)),
                   current_packet_start := queue_cursor s\<rparr>
         in (True, s)))"

section \<open>Emptying the queue\<close>

text \<open>
  Taking one packet from the queue and transmitting it, the body common to \<open>flush_queue\<close> and
  \<open>pop_queue\<close>. The random byte of the header and the result of \<open>endPacket\<close> are functions of the
  number of frames aired so far.
\<close>

definition ring_read :: "u8 list \<Rightarrow> nat \<Rightarrow> nat \<Rightarrow> u8 list" where
  "ring_read q start n = map (\<lambda>i. q ! ((start + i) mod length q)) [0..<n]"

definition send_next :: "board \<Rightarrow> (nat \<Rightarrow> u8) \<Rightarrow> end_packet \<Rightarrow> 'a pqueue_scheme \<Rightarrow> u16 \<times> 'a pqueue_scheme outcome" where
  "send_next b rnd end_ok s =
     (let (start, starts) = fifo16_pop (packet_starts s);
          (len, lengths) = fifo16_pop (packet_lengths s);
          s = s\<lparr>packet_starts := starts, packet_lengths := lengths\<rparr>
      in (len,
          if unat len \<ge> MIN_L \<and> unat len \<le> MTU then
            transmit b (rnd (length (aired s))) end_ok (unat len)
              (s\<lparr>tbuf := copy_into (ring_read (packet_queue s) (unat start) (unat len)) (tbuf s)\<rparr>)
          else Ret s))"

partial_function (option) drain_queue ::
  "board \<Rightarrow> (nat \<Rightarrow> u8) \<Rightarrow> end_packet \<Rightarrow> 'a pqueue_scheme \<Rightarrow> 'a pqueue_scheme outcome option" where
  "drain_queue b rnd end_ok s =
     (if fifo16_isempty (packet_starts s) then Some (Ret s)
      else (case snd (send_next b rnd end_ok s) of
              Ret s \<Rightarrow> drain_queue b rnd end_ok s
            | Rebooted s \<Rightarrow> Some (Rebooted s)
            | Hung s \<Rightarrow> Some (Hung s)))"

definition flush_queue ::
  "board \<Rightarrow> (nat \<Rightarrow> u8) \<Rightarrow> end_packet \<Rightarrow> 'a pqueue_scheme \<Rightarrow> 'a pqueue_scheme outcome option" where
  "flush_queue b rnd end_ok s =
     map_option (\<lambda>r. then_do r (\<lambda>s. Ret ((update_airtime b (s\<lparr>queue_height := 0, queued_bytes := 0\<rparr>))\<lparr>queue_flushing := False\<rparr>)))
       (if \<not> queue_flushing s then
          map_option (\<lambda>r. then_do r (\<lambda>s. Ret (lora_receive s))) (drain_queue b rnd end_ok (s\<lparr>queue_flushing := True\<rparr>))
        else Some (Ret s))"

definition pop_queue ::
  "board \<Rightarrow> (nat \<Rightarrow> u8) \<Rightarrow> end_packet \<Rightarrow> 'a pqueue_scheme \<Rightarrow> 'a pqueue_scheme outcome" where
  "pop_queue b rnd end_ok s =
     then_do
       (if \<not> queue_flushing s then
          then_do
            (let s = s\<lparr>queue_flushing := True\<rparr>
             in if \<not> fifo16_isempty (packet_starts s) then
                  (let (len, r) = send_next b rnd end_ok s
                   in then_do r (\<lambda>s. Ret (s\<lparr>queue_height := queue_height s - 1, queued_bytes := queued_bytes s - len\<rparr>)))
                else Ret s)
            (\<lambda>s. Ret (lora_receive s))
        else Ret s)
       (\<lambda>s. Ret ((update_airtime b s)\<lparr>queue_flushing := False\<rparr>))"

section \<open>What transmitting leaves alone\<close>

text \<open>The states that differ from \<open>s\<close> only in what \<open>transmit\<close> and \<open>update_airtime\<close> write.\<close>

definition air_update :: "u32 \<Rightarrow> u16 list \<Rightarrow> u8 list list \<Rightarrow> 'a packets_scheme \<Rightarrow> 'a packets_scheme" where
  "air_update n bins fs s = s\<lparr>packet_tx_count := n, airtime_bins := bins, aired := fs\<rparr>"

lemma air_update_same: "s = air_update (packet_tx_count s) (airtime_bins s) (aired s) s"
  by (simp add: air_update_def)

lemma add_airtime_air: "\<exists>bins. add_airtime b k s = s\<lparr>airtime_bins := bins\<rparr>"
proof -
  have "s = s\<lparr>airtime_bins := airtime_bins s\<rparr>" by simp
  then show ?thesis unfolding add_airtime_def Let_def by (metis (full_types))
qed

lemma air_frames_air:
  "(\<And>n. end_ok n = Some True) \<Longrightarrow> \<exists>bins. air_frames b end_ok fs s = Ret (s\<lparr>airtime_bins := bins, aired := aired s @ fs\<rparr>)"
proof (induction fs arbitrary: s)
  case Nil
  have "s = s\<lparr>airtime_bins := airtime_bins s, aired := aired s @ []\<rparr>" by simp
  then show ?case by (metis air_frames.simps(1))
next
  case (Cons f fs)
  obtain bins where a: "add_airtime b (length f) (s\<lparr>aired := aired s @ [f]\<rparr>) = s\<lparr>aired := aired s @ [f], airtime_bins := bins\<rparr>"
    using add_airtime_air by blast
  show ?case using Cons.IH [OF Cons.prems, of "s\<lparr>aired := aired s @ [f], airtime_bins := bins\<rparr>"] Cons.prems a by simp
qed

lemma transmit_air:
  assumes "radio_online s" "\<not> promisc s" "\<And>n. end_ok n = Some True" "length p \<le> length (tbuf s)" "take (length p) (tbuf s) = p"
  shows "\<exists>n bins. transmit b rnd end_ok (length p) s = Ret (air_update n bins (aired s @ tx_frames rnd p) s)"
proof -
  obtain bins where "air_frames b end_ok (tx_frames rnd p) (s\<lparr>packet_tx_count := packet_tx_count s + 1\<rparr>) =
      Ret (s\<lparr>packet_tx_count := packet_tx_count s + 1, airtime_bins := bins, aired := aired s @ tx_frames rnd p\<rparr>)"
    using air_frames_air [where b = b and fs = "tx_frames rnd p" and s = "s\<lparr>packet_tx_count := packet_tx_count s + 1\<rparr>" and
        end_ok = end_ok] assms(3) by auto
  then show ?thesis using assms by (auto simp: transmit_def Let_def tx_frames_def air_update_def)
qed

section \<open>The ring\<close>

lemma length_ring_read [simp]: "length (ring_read q o' n) = n"
  by (simp add: ring_read_def)

lemma ring_read_0 [simp]: "ring_read q o' 0 = []"
  by (simp add: ring_read_def)

lemma ring_read_nth: "i < n \<Longrightarrow> ring_read q o' n ! i = q ! ((o' + i) mod length q)"
  by (simp add: ring_read_def)

lemma ring_read_add: "ring_read q o' (m + n) = ring_read q o' m @ ring_read q (o' + m) n"
  by (rule nth_equalityI) (simp_all add: ring_read_nth nth_append add.assoc)

lemma ring_read_mod: "ring_read q (o' mod length q) n = ring_read q o' n"
  by (simp add: ring_read_def mod_add_left_eq)

lemma ring_mod_inj:
  assumes "(a + i) mod n = (a + j) mod n" "i < (n :: nat)" "j < n"
  shows "i = j"
proof -
  have "i = j" if "i \<le> j" "(a + j) mod n = (a + i) mod n" "i < n" "j < n" for i j
    using that mod_eq_dvd_iff_nat [of "a + i" "a + j" n] by (auto dest: dvd_imp_le)
  then show ?thesis using assms by (metis nat_le_linear)
qed

lemma ring_read_write:
  assumes "n < length q"
  shows "ring_read (q[(o' + n) mod length q := x]) o' (Suc n) = ring_read q o' n @ [x]"
proof (rule nth_equalityI)
  fix i assume "i < length (ring_read (q[(o' + n) mod length q := x]) o' (Suc n))"
  moreover have "(o' + n) mod length q < length q" using assms by (intro mod_less_divisor) auto
  moreover have "(o' + i) mod length q \<noteq> (o' + n) mod length q" if "i < n"
    using ring_mod_inj [of o' i "length q" n] that assms by auto
  ultimately show "ring_read (q[(o' + n) mod length q := x]) o' (Suc n) ! i = (ring_read q o' n @ [x]) ! i"
    by (cases "i = n") (simp_all add: ring_read_nth nth_append)
qed simp

section \<open>Abstraction\<close>

definition queue_geometry :: "board \<Rightarrow> bool" where
  "queue_geometry b \<longleftrightarrow> MTU < queue_size b \<and> queue_size b < 2 ^ 15 \<and> 0 < queue_max_length b \<and> queue_max_length b < 2 ^ 8"

definition total_len :: "u8 list list \<Rightarrow> nat" where
  "total_len pkts = length (concat pkts)"

fun starts_from :: "nat \<Rightarrow> nat \<Rightarrow> u8 list list \<Rightarrow> u16 list" where
  "starts_from n o' [] = []"
| "starts_from n o' (p # ps) = of_nat (o' mod n) # starts_from n (o' + length p) ps"

text \<open>
  The ring holds the queued packets \<open>pkts\<close> and then the packet \<open>cur\<close> being assembled, from
  offset \<open>o'\<close> on; the two buffers hold the starts and lengths of the queued packets.
\<close>

definition ring_rep :: "board \<Rightarrow> nat \<Rightarrow> u8 list list \<Rightarrow> u8 list \<Rightarrow> 'a pqueue_scheme \<Rightarrow> bool" where
  "ring_rep b o' pkts cur s \<longleftrightarrow>
     length (packet_queue s) = queue_size b \<and> total_len pkts + length cur \<le> queue_size b \<and>
     unat (current_packet_start s) = (o' + total_len pkts) mod queue_size b \<and>
     unat (queue_cursor s) = (o' + total_len pkts + length cur) mod queue_size b \<and>
     ring_read (packet_queue s) o' (total_len pkts + length cur) = concat pkts @ cur \<and>
     fifo_invar (packet_starts s) \<and> fifo_invar (packet_lengths s) \<and>
     fifo_cap (packet_starts s) = queue_max_length b \<and> fifo_cap (packet_lengths s) = queue_max_length b \<and>
     fifo_list (packet_starts s) = starts_from (queue_size b) o' pkts \<and>
     fifo_list (packet_lengths s) = map (\<lambda>p. of_nat (length p)) pkts"

definition counters :: "u8 list list \<Rightarrow> u8 list \<Rightarrow> 'a pqueue_scheme \<Rightarrow> bool" where
  "counters pkts cur s \<longleftrightarrow> unat (queue_height s) = length pkts \<and> unat (queued_bytes s) = total_len pkts + length cur"

definition queue_rep :: "board \<Rightarrow> nat \<Rightarrow> u8 list list \<Rightarrow> u8 list \<Rightarrow> 'a pqueue_scheme \<Rightarrow> bool" where
  "queue_rep b o' pkts cur s \<longleftrightarrow> ring_rep b o' pkts cur s \<and> counters pkts cur s"

lemma total_len_simps [simp]:
  "total_len [] = 0" "total_len (p # ps) = length p + total_len ps" "total_len (ps @ qs) = total_len ps + total_len qs"
  by (simp_all add: total_len_def)

lemma length_starts_from [simp]: "length (starts_from n o' pkts) = length pkts"
  by (induction pkts arbitrary: o') simp_all

lemma starts_from_append:
  "starts_from n o' (ps @ [p]) = starts_from n o' ps @ [of_nat ((o' + total_len ps) mod n)]"
  by (induction ps arbitrary: o') (simp_all add: add.assoc)

lemma unat_of_nat16: "n < 2 ^ 16 \<Longrightarrow> unat (of_nat n :: u16) = n"
  by (simp add: unat_of_nat)

lemma unat_Suc16: "unat c + 1 < 2 ^ 16 \<Longrightarrow> unat (c + 1 :: u16) = unat c + 1"
  by (simp add: unat_word_ariths)

lemma queue_mod_less: "queue_geometry b \<Longrightarrow> k mod queue_size b < 2 ^ 15"
  by (rule order.strict_trans [OF mod_less_divisor]) (simp_all add: queue_geometry_def)

lemma advance_cursor_mod:
  assumes "queue_geometry b" "unat c = k mod queue_size b"
  shows "unat (advance_cursor b c) = (k + 1) mod queue_size b"
proof -
  have "unat c < 2 ^ 15" using queue_mod_less [OF assms(1), of k] assms(2) by simp
  then have "unat (c + 1) = k mod queue_size b + 1" using assms(2) by (subst unat_Suc16) auto
  then show ?thesis by (simp add: advance_cursor_def Let_def mod_Suc)
qed

text \<open>Writing a byte at the cursor extends the packet being assembled.\<close>

lemma ring_rep_write:
  assumes "ring_rep b o' pkts cur s" "queue_geometry b" "total_len pkts + length cur < queue_size b"
  shows "ring_rep b o' pkts (cur @ [x]) (s\<lparr>packet_queue := (packet_queue s)[unat (queue_cursor s) := x],
           queue_cursor := advance_cursor b (queue_cursor s)\<rparr>)"
proof -
  let ?n = "total_len pkts + length cur"
  have l: "length (packet_queue s) = queue_size b" and c: "unat (queue_cursor s) = (o' + ?n) mod queue_size b"
    using assms(1) by (simp_all add: ring_rep_def add.assoc)
  have "ring_read ((packet_queue s)[unat (queue_cursor s) := x]) o' (Suc ?n) = ring_read (packet_queue s) o' ?n @ [x]"
    unfolding c l [symmetric] by (rule ring_read_write) (simp add: l assms(3))
  then show ?thesis
    using assms advance_cursor_mod [OF assms(2) c] by (simp add: ring_rep_def add.assoc)
qed

lemma queue_byte_rep:
  assumes "queue_rep b o' pkts cur s" "queue_geometry b" "length pkts < queue_max_length b"
    and "total_len pkts + length cur < queue_size b"
  shows "queue_rep b o' pkts (cur @ [x]) (queue_byte b x s)"
proof -
  have g: "unat (queue_height s) < queue_max_length b" "unat (queued_bytes s) = total_len pkts + length cur"
    using assms by (simp_all add: queue_rep_def counters_def)
  have "unat (queued_bytes s + 1) = unat (queued_bytes s) + 1"
    using g assms(2,4) by (intro unat_Suc16) (simp add: queue_geometry_def)
  then show ?thesis
    using ring_rep_write [of b o' pkts cur s x] assms g
    by (simp add: queue_rep_def queue_byte_def counters_def ring_rep_def)
qed

text \<open>The length computed at the end of a frame.\<close>

lemma frame_length_ring:
  assumes "queue_geometry b" "unat start = k mod queue_size b" "unat cursor = (k + n) mod queue_size b"
    and "1 \<le> n" "n \<le> queue_size b"
  shows "frame_length b start cursor = of_nat n"
proof -
  define z where "z = queue_size b"
  define a where "a = k mod z"
  have z: "0 < z" using assms(1) by (simp add: z_def queue_geometry_def)
  have a: "a < z" using z by (simp add: a_def)
  have c: "unat cursor = (if a + n < z then a + n else a + n - z)"
  proof -
    have "unat cursor = (a + n) mod z" using assms(3) by (simp add: a_def z_def mod_add_left_eq)
    then show ?thesis using a assms(5) by (simp add: z_def [symmetric] le_mod_geq)
  qed
  have u: "uint start = int a" "uint cursor = int (unat cursor)"
    using assms(2) by (simp_all only: uint_nat a_def z_def)
  show ?thesis
  proof (cases "a + n < z")
    case True
    then have "uint cursor = int a + int n" using c u by simp
    then show ?thesis using True assms(4) u(1) by (cases "n = 1") (simp_all add: frame_length_def Let_def)
  next
    case False
    then have "uint cursor = int a + int n - int z" using c u by simp
    then show ?thesis using False assms(4,5) u(1) a
      by (cases "z = a + n") (auto simp add: frame_length_def Let_def z_def [symmetric])
  qed
qed

lemma queue_close_rep:
  assumes "queue_rep b o' pkts cur s" "queue_geometry b" "length pkts < queue_max_length b"
    and "cur \<noteq> []" "total_len pkts + length cur < queue_size b"
  shows "queue_rep b o' (pkts @ [cur]) [] (queue_close b s)"
proof -
  have r: "ring_rep b o' pkts cur s" and h: "unat (queue_height s) = length pkts"
    and q: "unat (queued_bytes s) = total_len pkts + length cur"
    using assms(1) by (simp_all add: queue_rep_def counters_def)
  have l: "frame_length b (current_packet_start s) (queue_cursor s) = of_nat (length cur)"
    using r assms(2,4,5) by (intro frame_length_ring [where k = "o' + total_len pkts"]) (auto simp: ring_rep_def Suc_le_eq)
  have n: "unat (of_nat (length cur) :: u16) = length cur"
    using assms(2,5) by (intro unat_of_nat16) (simp add: queue_geometry_def)
  have nf: "\<not> fifo16_isfull (packet_starts s)" "\<not> fifo16_isfull (packet_lengths s)"
    using r assms(3) by (auto simp: ring_rep_def fq16.isfull_iff)
  have hs: "unat (queue_height s + 1) = length pkts + 1"
    using h assms(2,3) by (simp add: unat_word_ariths queue_geometry_def)
  have st: "current_packet_start s = of_nat ((o' + total_len pkts) mod queue_size b)"
    using r unfolding ring_rep_def by (metis of_nat_unat ucast_id)
  show ?thesis
    using r q nf hs st assms(4,5) n l
    by (simp add: queue_close_def Let_def queue_rep_def counters_def ring_rep_def fq16.queue_laws
        starts_from_append add.assoc Suc_le_eq)
qed

text \<open>Queueing a whole host frame.\<close>

definition queue_frame :: "board \<Rightarrow> u8 list \<Rightarrow> 'a pqueue_scheme \<Rightarrow> 'a pqueue_scheme" where
  "queue_frame b p s = queue_close b (fold (queue_byte b) p s)"

lemma queue_bytes_rep:
  "queue_rep b o' pkts cur s \<Longrightarrow> queue_geometry b \<Longrightarrow> length pkts < queue_max_length b \<Longrightarrow>
    total_len pkts + length cur + length p \<le> queue_size b \<Longrightarrow> queue_rep b o' pkts (cur @ p) (fold (queue_byte b) p s)"
proof (induction p arbitrary: cur s)
  case (Cons x p)
  then show ?case using queue_byte_rep [of b o' pkts cur s x] Cons.IH [of "cur @ [x]" "queue_byte b x s"] by simp
qed simp

lemma queue_frame_rep:
  assumes "queue_rep b o' pkts [] s" "queue_geometry b" "length pkts < queue_max_length b" "p \<noteq> []"
    and "total_len pkts + length p < queue_size b"
  shows "queue_rep b o' (pkts @ [p]) [] (queue_frame b p s)"
  unfolding queue_frame_def
  using queue_bytes_rep [of b o' pkts "[]" s p] queue_close_rep [of b o' pkts p] assms by simp

lemma queue_frames_rep:
  "queue_rep b o' pkts [] s \<Longrightarrow> queue_geometry b \<Longrightarrow> length pkts + length ps \<le> queue_max_length b \<Longrightarrow>
    [] \<notin> set ps \<Longrightarrow> total_len pkts + total_len ps < queue_size b \<Longrightarrow>
    queue_rep b o' (pkts @ ps) [] (fold (queue_frame b) ps s)"
proof (induction ps arbitrary: pkts s)
  case (Cons p ps)
  then show ?case using queue_frame_rep [of b o' pkts s p] Cons.IH [of "pkts @ [p]" "queue_frame b p s"] by auto
qed simp

section \<open>Sending the queue\<close>

lemma fifo16_pop_list:
  "fifo_invar f \<Longrightarrow> fifo_list f = x # xs \<Longrightarrow>
    fst (fifo16_pop f) = x \<and> fifo_list (snd (fifo16_pop f)) = xs \<and> fifo_invar (snd (fifo16_pop f)) \<and>
    fifo_cap (snd (fifo16_pop f)) = fifo_cap f"
  using fq16.contents_pop [of f] fq16.isempty_iff [of f] by (simp add: fq16.queue_laws)

text \<open>What a pass over one packet needs of the radio, kept by every pass.\<close>

definition ready_to_send :: "'a packets_scheme \<Rightarrow> bool" where
  "ready_to_send s \<longleftrightarrow> radio_online s \<and> \<not> promisc s \<and> length (tbuf s) = MTU"

lemma send_next_rep:
  assumes "ring_rep b o' (p # ps) cur s" "queue_geometry b" "1 \<le> length p" "length p \<le> MTU"
    and "ready_to_send s" "\<And>n. end_ok n = Some True"
  shows "\<exists>t. send_next b rnd end_ok s = (of_nat (length p), Ret t) \<and> ring_rep b (o' + length p) ps cur t \<and>
    aired t = aired s @ tx_frames (rnd (length (aired s))) p \<and> ready_to_send t \<and>
    queue_height t = queue_height s \<and> queued_bytes t = queued_bytes s \<and> queue_flushing t = queue_flushing s"
proof -
  note r = assms(1) [unfolded ring_rep_def]
  have ps: "fst (fifo16_pop (packet_starts s)) = of_nat (o' mod queue_size b)"
    "fifo_list (snd (fifo16_pop (packet_starts s))) = starts_from (queue_size b) (o' + length p) ps"
    "fifo_invar (snd (fifo16_pop (packet_starts s)))" "fifo_cap (snd (fifo16_pop (packet_starts s))) = queue_max_length b"
    using fifo16_pop_list [of "packet_starts s"] r by auto
  have pl: "fst (fifo16_pop (packet_lengths s)) = of_nat (length p)"
    "fifo_list (snd (fifo16_pop (packet_lengths s))) = map (\<lambda>p. of_nat (length p)) ps"
    "fifo_invar (snd (fifo16_pop (packet_lengths s)))" "fifo_cap (snd (fifo16_pop (packet_lengths s))) = queue_max_length b"
    using fifo16_pop_list [of "packet_lengths s"] r by auto
  have n: "unat (of_nat (length p) :: u16) = length p" using assms(4) by (intro unat_of_nat16) simp
  have "unat (of_nat (o' mod queue_size b) :: u16) = o' mod queue_size b"
    using queue_mod_less [OF assms(2), of o'] by (intro unat_of_nat16) simp
  moreover have rd: "ring_read (packet_queue s) o' (length p) = p"
    "ring_read (packet_queue s) (o' + length p) (total_len ps + length cur) = concat ps @ cur"
    using r ring_read_add [of "packet_queue s" o' "length p" "total_len ps + length cur"] by (simp_all add: add.assoc)
  ultimately have rd': "ring_read (packet_queue s) (unat (of_nat (o' mod queue_size b) :: u16)) (length p) = p"
    using ring_read_mod [of "packet_queue s" o' "length p"] r by simp
  define s1 where "s1 = s\<lparr>packet_starts := snd (fifo16_pop (packet_starts s)),
      packet_lengths := snd (fifo16_pop (packet_lengths s)), tbuf := copy_into p (tbuf s)\<rparr>"
  have sn: "send_next b rnd end_ok s = (of_nat (length p), transmit b (rnd (length (aired s))) end_ok (length p) s1)"
    using ps(1) pl(1) rd' n assms(3,4)
    by (simp add: send_next_def Let_def s1_def case_prod_unfold)
  have "radio_online s1" "\<not> promisc s1" "length p \<le> length (tbuf s1)" "take (length p) (tbuf s1) = p"
    using assms(4,5) by (simp_all add: s1_def ready_to_send_def copy_into_def)
  then obtain n bins where t: "transmit b (rnd (length (aired s))) end_ok (length p) s1 =
      Ret (air_update n bins (aired s1 @ tx_frames (rnd (length (aired s))) p) s1)"
    using transmit_air [of s1 end_ok p b "rnd (length (aired s))"] assms(6) by auto
  show ?thesis
    unfolding sn t using r ps pl rd assms(4,5)
    by (simp add: air_update_def s1_def ring_rep_def ready_to_send_def copy_into_def add.assoc)
qed

text \<open>The frames of a list of packets, in order, with the random bytes drawn for them.\<close>

fun frames_of :: "(nat \<Rightarrow> u8) \<Rightarrow> nat \<Rightarrow> u8 list list \<Rightarrow> u8 list list" where
  "frames_of rnd n [] = []"
| "frames_of rnd n (p # ps) = tx_frames (rnd n) p @ frames_of rnd (n + length (tx_frames (rnd n) p)) ps"

definition sendable :: "u8 list list \<Rightarrow> bool" where
  "sendable ps \<longleftrightarrow> list_all (\<lambda>p. 1 \<le> length p \<and> length p \<le> MTU) ps"

lemma sendable_simps [simp]: "sendable []" "sendable (p # ps) \<longleftrightarrow> 1 \<le> length p \<and> length p \<le> MTU \<and> sendable ps"
  by (auto simp: sendable_def)

lemma sendable_not_Nil: "sendable ps \<Longrightarrow> [] \<notin> set ps"
  by (induction ps) auto

lemma drain_queue_rep:
  assumes "ring_rep b o' ps cur s" "queue_geometry b" "sendable ps" "ready_to_send s" "\<And>n. end_ok n = Some True"
  shows "\<exists>t. drain_queue b rnd end_ok s = Some (Ret t) \<and> ring_rep b (o' + total_len ps) [] cur t \<and>
    aired t = aired s @ frames_of rnd (length (aired s)) ps \<and> ready_to_send t"
  using assms(1,3,4)
proof (induction ps arbitrary: o' s)
  case Nil
  then have "fifo16_isempty (packet_starts s)" using fq16.isempty_iff by (simp add: ring_rep_def)
  then show ?case using Nil by (simp add: drain_queue.simps)
next
  case (Cons p ps)
  obtain t where t: "send_next b rnd end_ok s = (of_nat (length p), Ret t)" "ring_rep b (o' + length p) ps cur t"
    "aired t = aired s @ tx_frames (rnd (length (aired s))) p" "ready_to_send t"
    using send_next_rep [OF Cons.prems(1) assms(2) _ _ Cons.prems(3), where end_ok = end_ok and rnd = rnd] assms(5) Cons.prems(2)
    by auto
  have "\<not> fifo16_isempty (packet_starts s)" using Cons.prems(1) fq16.isempty_iff by (simp add: ring_rep_def)
  then have "drain_queue b rnd end_ok s = drain_queue b rnd end_ok t"
    using t(1) by (subst drain_queue.simps) simp
  then show ?case using Cons.IH [OF t(2) _ t(4)] Cons.prems(2) t(3) by (auto simp: add.assoc)
qed

text \<open>Replies and the airtime statistics leave the queue alone.\<close>

lemma queue_host_update [simp]:
  "aired (host_update l f st s) = aired s"
  "tbuf (host_update l f st s) = tbuf s"
  "radio_online (host_update l f st s) = radio_online s"
  "promisc (host_update l f st s) = promisc s"
  "packet_starts (host_update l f st s) = packet_starts s"
  "packet_lengths (host_update l f st s) = packet_lengths s"
  "packet_queue (host_update l f st s) = packet_queue s"
  "queue_height (host_update l f st s) = queue_height s"
  "queued_bytes (host_update l f st s) = queued_bytes s"
  "queue_cursor (host_update l f st s) = queue_cursor s"
  "current_packet_start (host_update l f st s) = current_packet_start s"
  "queue_flushing (host_update l f st s) = queue_flushing s"
  "IN_FRAME (host_update l f st s) = IN_FRAME s"
  "kiss_command (host_update l f st s) = kiss_command s"
  "modem_log (host_update l f st s) = modem_log s"
  "modem_packet_queue (host_update l f st s) = modem_packet_queue s"
  "pbuf (host_update l f st s) = pbuf s"
  "seq (host_update l f st s) = seq s"
  "read_len (host_update l f st s) = read_len s"
  by (simp_all add: host_update_def)

lemma queue_reply [simp]:
  "aired (reply b c raw esc s) = aired s"
  "tbuf (reply b c raw esc s) = tbuf s"
  "radio_online (reply b c raw esc s) = radio_online s"
  "promisc (reply b c raw esc s) = promisc s"
  "packet_starts (reply b c raw esc s) = packet_starts s"
  "packet_lengths (reply b c raw esc s) = packet_lengths s"
  "packet_queue (reply b c raw esc s) = packet_queue s"
  "queue_height (reply b c raw esc s) = queue_height s"
  "queued_bytes (reply b c raw esc s) = queued_bytes s"
  "queue_cursor (reply b c raw esc s) = queue_cursor s"
  "current_packet_start (reply b c raw esc s) = current_packet_start s"
  "queue_flushing (reply b c raw esc s) = queue_flushing s"
  "IN_FRAME (reply b c raw esc s) = IN_FRAME s"
  "kiss_command (reply b c raw esc s) = kiss_command s"
  "modem_log (reply b c raw esc s) = modem_log s"
  "modem_packet_queue (reply b c raw esc s) = modem_packet_queue s"
  "pbuf (reply b c raw esc s) = pbuf s"
  "seq (reply b c raw esc s) = seq s"
  "read_len (reply b c raw esc s) = read_len s"
proof -
  obtain l f st where u: "reply b c raw esc s = host_update l f st s" using reply_update by blast
  show
  "  aired (reply b c raw esc s) = aired s"
  "  tbuf (reply b c raw esc s) = tbuf s"
  "  radio_online (reply b c raw esc s) = radio_online s"
  "  promisc (reply b c raw esc s) = promisc s"
  "  packet_starts (reply b c raw esc s) = packet_starts s"
  "  packet_lengths (reply b c raw esc s) = packet_lengths s"
  "  packet_queue (reply b c raw esc s) = packet_queue s"
  "  queue_height (reply b c raw esc s) = queue_height s"
  "  queued_bytes (reply b c raw esc s) = queued_bytes s"
  "  queue_cursor (reply b c raw esc s) = queue_cursor s"
  "  current_packet_start (reply b c raw esc s) = current_packet_start s"
  "  queue_flushing (reply b c raw esc s) = queue_flushing s"
  "  IN_FRAME (reply b c raw esc s) = IN_FRAME s"
  "  kiss_command (reply b c raw esc s) = kiss_command s"
  "  modem_log (reply b c raw esc s) = modem_log s"
  "  modem_packet_queue (reply b c raw esc s) = modem_packet_queue s"
  "  pbuf (reply b c raw esc s) = pbuf s"
  "  seq (reply b c raw esc s) = seq s"
  "  read_len (reply b c raw esc s) = read_len s"
    unfolding u by simp_all
qed

lemma queue_update_airtime [simp]:
  "aired (update_airtime b s) = aired s"
  "tbuf (update_airtime b s) = tbuf s"
  "radio_online (update_airtime b s) = radio_online s"
  "promisc (update_airtime b s) = promisc s"
  "packet_starts (update_airtime b s) = packet_starts s"
  "packet_lengths (update_airtime b s) = packet_lengths s"
  "packet_queue (update_airtime b s) = packet_queue s"
  "queue_height (update_airtime b s) = queue_height s"
  "queued_bytes (update_airtime b s) = queued_bytes s"
  "queue_cursor (update_airtime b s) = queue_cursor s"
  "current_packet_start (update_airtime b s) = current_packet_start s"
  "queue_flushing (update_airtime b s) = queue_flushing s"
  "IN_FRAME (update_airtime b s) = IN_FRAME s"
  "kiss_command (update_airtime b s) = kiss_command s"
  "modem_log (update_airtime b s) = modem_log s"
  "modem_packet_queue (update_airtime b s) = modem_packet_queue s"
  "pbuf (update_airtime b s) = pbuf s"
  "seq (update_airtime b s) = seq s"
  "read_len (update_airtime b s) = read_len s"
  by (simp_all add: update_airtime_def update_csma_parameters_def kiss_indicate_csma_stats_def
      kiss_indicate_channel_stats_def Let_def)

lemma queue_lora_receive [simp]:
  "aired (lora_receive s) = aired s"
  "tbuf (lora_receive s) = tbuf s"
  "radio_online (lora_receive s) = radio_online s"
  "promisc (lora_receive s) = promisc s"
  "packet_starts (lora_receive s) = packet_starts s"
  "packet_lengths (lora_receive s) = packet_lengths s"
  "packet_queue (lora_receive s) = packet_queue s"
  "queue_height (lora_receive s) = queue_height s"
  "queued_bytes (lora_receive s) = queued_bytes s"
  "queue_cursor (lora_receive s) = queue_cursor s"
  "current_packet_start (lora_receive s) = current_packet_start s"
  "queue_flushing (lora_receive s) = queue_flushing s"
  "IN_FRAME (lora_receive s) = IN_FRAME s"
  "kiss_command (lora_receive s) = kiss_command s"
  "modem_packet_queue (lora_receive s) = modem_packet_queue s"
  "pbuf (lora_receive s) = pbuf s"
  "seq (lora_receive s) = seq s"
  "read_len (lora_receive s) = read_len s"
  by (simp_all add: lora_receive_def modem_do_def)

lemma flush_queue_rep:
  assumes "queue_rep b o' ps [] s" "queue_geometry b" "sendable ps" "ready_to_send s" "\<And>n. end_ok n = Some True" "\<not> queue_flushing s"
  shows "\<exists>t. flush_queue b rnd end_ok s = Some (Ret t) \<and> queue_rep b (o' + total_len ps) [] [] t \<and>
    aired t = aired s @ frames_of rnd (length (aired s)) ps \<and> ready_to_send t \<and> \<not> queue_flushing t"
proof -
  have "ring_rep b o' ps [] (s\<lparr>queue_flushing := True\<rparr>)" "ready_to_send (s\<lparr>queue_flushing := True\<rparr>)"
    using assms(1,4) by (simp_all add: queue_rep_def ring_rep_def ready_to_send_def)
  then obtain t where t: "drain_queue b rnd end_ok (s\<lparr>queue_flushing := True\<rparr>) = Some (Ret t)" "ring_rep b (o' + total_len ps) [] [] t"
    "aired t = aired s @ frames_of rnd (length (aired s)) ps" "ready_to_send t"
    using drain_queue_rep [where end_ok = end_ok and rnd = rnd and s = "s\<lparr>queue_flushing := True\<rparr>" and b = b and ps = ps and cur = "[]" and o' = o']
      assms(2,3,5) by auto
  then show ?thesis using assms(6)
    by (simp add: flush_queue_def queue_rep_def counters_def ring_rep_def ready_to_send_def)
qed

lemma pop_queue_rep:
  assumes "queue_rep b o' (p # ps) cur s" "queue_geometry b" "1 \<le> length p" "length p \<le> MTU" "length ps < queue_max_length b"
    and "ready_to_send s" "\<And>n. end_ok n = Some True" "\<not> queue_flushing s"
  shows "\<exists>t. pop_queue b rnd end_ok s = Ret t \<and> queue_rep b (o' + length p) ps cur t \<and>
    aired t = aired s @ tx_frames (rnd (length (aired s))) p \<and> ready_to_send t \<and> \<not> queue_flushing t"
proof -
  let ?s = "s\<lparr>queue_flushing := True\<rparr>"
  have r: "ring_rep b o' (p # ps) cur ?s" "ready_to_send ?s"
    using assms(1,6) by (simp_all add: queue_rep_def ring_rep_def ready_to_send_def)
  then obtain t where t: "send_next b rnd end_ok ?s = (of_nat (length p), Ret t)" "ring_rep b (o' + length p) ps cur t"
    "aired t = aired s @ tx_frames (rnd (length (aired s))) p" "ready_to_send t"
    "queue_height t = queue_height s" "queued_bytes t = queued_bytes s"
    using send_next_rep [of b o' p ps cur ?s end_ok rnd] assms(2,3,4,7) by auto
  have ne: "\<not> fifo16_isempty (packet_starts s)" using r(1) fq16.isempty_iff by (simp add: ring_rep_def)
  have c: "unat (queue_height s) = Suc (length ps)" "unat (queued_bytes s) = length p + (total_len ps + length cur)"
    using assms(1) by (simp_all add: queue_rep_def counters_def)
  have h: "unat (queue_height s - 1) = length ps"
    using c(1) by (simp add: unat_sub word_le_nat_alt)
  have n: "unat (of_nat (length p) :: u16) = length p" using assms(4) by (intro unat_of_nat16) simp
  have q: "unat (queued_bytes s - of_nat (length p)) = total_len ps + length cur"
    using c(2) n by (simp add: unat_sub word_le_nat_alt)
  show ?thesis using t ne h q assms(8)
    by (simp add: pop_queue_def queue_rep_def counters_def ring_rep_def ready_to_send_def)
qed

lemma queue_frame_fields [simp]:
  "aired (fold (queue_frame b) ps s) = aired s"
  "radio_online (fold (queue_frame b) ps s) = radio_online s"
  "promisc (fold (queue_frame b) ps s) = promisc s"
  "tbuf (fold (queue_frame b) ps s) = tbuf s"
  "queue_flushing (fold (queue_frame b) ps s) = queue_flushing s"
proof -
  have q: "aired (queue_byte b x s) = aired s" "radio_online (queue_byte b x s) = radio_online s"
    "promisc (queue_byte b x s) = promisc s" "tbuf (queue_byte b x s) = tbuf s"
    "queue_flushing (queue_byte b x s) = queue_flushing s" for x and s :: "'a pqueue_scheme"
    by (simp_all add: queue_byte_def)
  have "aired (fold (queue_byte b) p s) = aired s" "radio_online (fold (queue_byte b) p s) = radio_online s"
    "promisc (fold (queue_byte b) p s) = promisc s" "tbuf (fold (queue_byte b) p s) = tbuf s"
    "queue_flushing (fold (queue_byte b) p s) = queue_flushing s" for p and s :: "'a pqueue_scheme"
    by (induction p arbitrary: s) (simp_all add: q)
  then have "aired (queue_frame b p s) = aired s" "radio_online (queue_frame b p s) = radio_online s"
    "promisc (queue_frame b p s) = promisc s" "tbuf (queue_frame b p s) = tbuf s"
    "queue_flushing (queue_frame b p s) = queue_flushing s" for p and s :: "'a pqueue_scheme"
    by (simp_all add: queue_frame_def queue_close_def Let_def)
  then show
    "aired (fold (queue_frame b) ps s) = aired s"
    "radio_online (fold (queue_frame b) ps s) = radio_online s"
    "promisc (fold (queue_frame b) ps s) = promisc s"
    "tbuf (fold (queue_frame b) ps s) = tbuf s"
    "queue_flushing (fold (queue_frame b) ps s) = queue_flushing s"
    by (induction ps arbitrary: s) simp_all
qed

section \<open>Termination\<close>

lemma air_frames_queue:
  "air_frames b end_ok fs s = Ret t \<Longrightarrow> packet_starts t = packet_starts s"
proof (induction fs arbitrary: s)
  case (Cons f fs)
  have "packet_starts (add_airtime b k s) = packet_starts s" for k and s :: "'a pqueue_scheme"
    by (simp add: add_airtime_def Let_def)
  then show ?case using Cons.IH Cons.prems by (force split: option.splits bool.splits)
qed simp

lemma serial_write_queue [simp]: "packet_starts (serial_write b x s) = packet_starts s"
  using serial_write_update [of b x s] by auto

lemma transmit_queue: "transmit b rnd end_ok n s = Ret t \<Longrightarrow> packet_starts t = packet_starts s"
  by (auto simp: transmit_def Let_def add_airtime_def kiss_indicate_error_def dest!: air_frames_queue split: if_splits option.splits)

lemma send_next_starts:
  "snd (send_next b rnd end_ok s) = Ret t \<Longrightarrow> packet_starts t = snd (fifo16_pop (packet_starts s))"
  by (auto simp: send_next_def Let_def case_prod_unfold split: if_splits dest!: transmit_queue)

text \<open>
  How emptying the queue can end: with nothing left, with a restart after an \<open>endPacket\<close> that failed, or inside
  an \<open>endPacket\<close> that does not return.
\<close>

fun drained :: "end_packet \<Rightarrow> ('a pqueue_scheme \<Rightarrow> bool) \<Rightarrow> 'a pqueue_scheme outcome \<Rightarrow> bool" where
  "drained end_ok P (Ret t) \<longleftrightarrow> P t"
| "drained end_ok P (Rebooted t) \<longleftrightarrow> (\<exists>n. end_ok n = Some False)"
| "drained end_ok P (Hung t) \<longleftrightarrow> (\<exists>n. end_ok n = None)"

lemma air_frames_ends: "drained end_ok (\<lambda>t. True) (air_frames b end_ok fs s)"
  by (induction b end_ok fs s rule: air_frames.induct) (auto split: option.splits bool.splits)

lemma send_next_ends: "drained end_ok (\<lambda>t. True) (snd (send_next b rnd end_ok s))"
  by (auto simp: send_next_def transmit_def Let_def case_prod_unfold air_frames_ends split: option.splits)

lemma drain_queue_ends:
  "fifo_invar (packet_starts s) \<Longrightarrow>
    \<exists>r. drain_queue b rnd end_ok s = Some r \<and> drained end_ok (\<lambda>t. fifo_list (packet_starts t) = []) r"
proof (induction "length (fifo_list (packet_starts s))" arbitrary: s)
  case 0
  then show ?case using fq16.isempty_iff [of "packet_starts s"] by (simp add: drain_queue.simps del: length_fifo_list)
next
  case (Suc n)
  then have ne: "\<not> fifo16_isempty (packet_starts s)" using fq16.isempty_iff by fastforce
  show ?case
  proof (cases "snd (send_next b rnd end_ok s)")
    case (Ret t)
    then have p: "packet_starts t = snd (fifo16_pop (packet_starts s))" by (rule send_next_starts)
    then have "length (fifo_list (packet_starts t)) = n" "fifo_invar (packet_starts t)"
      using Suc.hyps(2) Suc.prems ne fq16.contents_pop [of "packet_starts s"] fq16.invar_pop by (auto simp del: length_fifo_list)
    then show ?thesis using Suc.hyps(1) [of t] Ret ne by (subst drain_queue.simps) simp
  qed (use ne send_next_ends [of end_ok b rnd s] in \<open>simp_all add: drain_queue.simps\<close>)
qed

section \<open>Properties\<close>

definition pqueue_blank :: "board \<Rightarrow> (nat \<Rightarrow> u8) \<Rightarrow> pqueue" where
  "pqueue_blank b m = packets.extend (packets_blank m)
     \<lparr>packet_starts = fifo16_init \<lparr>f_begin = 0, f_end = 0, f_head = 0, f_tail = 0, f_mem = (\<lambda>a. 0)\<rparr> 0 (of_nat (queue_max_length b)),
      packet_lengths = fifo16_init \<lparr>f_begin = 0, f_end = 0, f_head = 0, f_tail = 0, f_mem = (\<lambda>a. 0)\<rparr> 0 (of_nat (queue_max_length b)),
      packet_queue = replicate (queue_size b) 0, queue_height = 0, queued_bytes = 0, queue_cursor = 0,
      current_packet_start = 0, queue_flushing = False, IN_FRAME = False, kiss_command = CMD_UNKNOWN\<rparr>"

lemma pqueue_blank_fields [simp]:
  "aired (pqueue_blank b m) = []" "tbuf (pqueue_blank b m) = replicate MTU 0" "\<not> promisc (pqueue_blank b m)"
  "\<not> queue_flushing (pqueue_blank b m)" "queue_height (pqueue_blank b m) = 0"
  "\<not> IN_FRAME (pqueue_blank b m)" "kiss_command (pqueue_blank b m) = CMD_UNKNOWN"
  by (simp_all add: pqueue_blank_def packets.defs packets_blank_def channel.defs channel_blank_defs radio_blank_defs)

lemma pqueue_blank_rep: "queue_geometry b \<Longrightarrow> queue_rep b 0 [] [] ((pqueue_blank b m)\<lparr>radio_online := r\<rparr>)"
  by (simp add: queue_rep_def ring_rep_def counters_def pqueue_blank_def packets.defs fifo16_init_empty queue_geometry_def unat_of_nat)

text \<open>
  C4: the transmit queue is a queue of packets. Starting from an empty queue, the frames the host sends (each of
  1 to 508 bytes, together fewer bytes than the ring has, and no more than its slots) are put on
  the air by one \<open>flush_queue\<close> whole, once each and in the order they came, and the queue is empty
  again, wherever in the ring it started and however often it wrapped.
\<close>

theorem queued_packets_are_sent:
  assumes "queue_rep b o' [] [] s" "queue_geometry b" "sendable ps" "length ps \<le> queue_max_length b"
    and "total_len ps < queue_size b" "radio_online s" "\<not> promisc s" "length (tbuf s) = MTU" "\<not> queue_flushing s" "\<And>n. end_ok n = Some True"
  shows "\<exists>t. flush_queue b rnd end_ok (fold (queue_frame b) ps s) = Some (Ret t) \<and>
    aired t = aired s @ frames_of rnd (length (aired s)) ps \<and> queue_rep b (o' + total_len ps) [] [] t"
proof -
  have "queue_rep b o' ps [] (fold (queue_frame b) ps s)"
    using queue_frames_rep [of b o' "[]" s ps] sendable_not_Nil assms by simp
  then show ?thesis
    using flush_queue_rep [where b = b and o' = o' and ps = ps and end_ok = end_ok and rnd = rnd and s = "fold (queue_frame b) ps s"] assms
    by (auto simp: ready_to_send_def)
qed

theorem queued_packets_are_sent_witness:
  "\<exists>t. flush_queue board_rak4631 (\<lambda>n. 0x37) (\<lambda>n. Some True)
         (fold (queue_frame board_rak4631) [[1, 2], [3]] ((pqueue_blank board_rak4631 (\<lambda>a. 0))\<lparr>radio_online := True\<rparr>)) = Some (Ret t) \<and>
       aired t = [[0x30, 1, 2], [0x30, 3]]"
proof -
  have g: "queue_geometry board_rak4631" by (simp add: queue_geometry_def board_values)
  have "frames_of (\<lambda>n. 0x37) 0 [[1, 2], [3]] = [[0x30, 1, 2], [0x30, 3]]"
    by (simp add: tx_frames_def tx_header_def Let_def isSplitPacket_def)
  then show ?thesis
    using queued_packets_are_sent [where b = board_rak4631 and s = "(pqueue_blank board_rak4631 (\<lambda>a. 0))\<lparr>radio_online := True\<rparr>"
        and ps = "[[1, 2], [3]]" and rnd = "\<lambda>n. 0x37" and end_ok = "\<lambda>n. Some True", OF pqueue_blank_rep [OF g, where m = "\<lambda>a. 0" and r = True] g]
    by (auto simp: board_values)
qed

text \<open>
  C30: flushing the queue ends. Whatever the queue holds, also lengths that match no packet, the loop takes one entry per
  pass and comes to an end: \<open>flush_queue\<close> returns with an empty queue and its counters and its lock reset, unless
  an \<open>endPacket\<close> of the modem driver failed, which restarts the device, or itself never returned, as the SX127x
  driver's does when the chip does not report the end of the transmission.
\<close>

theorem flush_queue_terminates:
  assumes "fifo_invar (packet_starts s)"
  shows "\<exists>r. flush_queue b rnd end_ok s = Some r \<and>
    (case r of
       Ret t \<Rightarrow> (\<not> queue_flushing s \<longrightarrow> fifo_list (packet_starts t) = []) \<and>
         queue_height t = 0 \<and> queued_bytes t = 0 \<and> \<not> queue_flushing t
     | Rebooted t \<Rightarrow> (\<exists>n. end_ok n = Some False)
     | Hung t \<Rightarrow> (\<exists>n. end_ok n = None))"
proof (cases "queue_flushing s")
  case False
  obtain r where r: "drain_queue b rnd end_ok (s\<lparr>queue_flushing := True\<rparr>) = Some r"
    "drained end_ok (\<lambda>t. fifo_list (packet_starts t) = []) r"
    using drain_queue_ends [of "s\<lparr>queue_flushing := True\<rparr>" b rnd end_ok] assms by auto
  then show ?thesis using False by (cases r) (simp_all add: flush_queue_def)
qed (simp add: flush_queue_def)

theorem flush_queue_terminates_witness:
  "\<exists>t. flush_queue board_rak4631 (\<lambda>n. 0) (\<lambda>n. Some True)
         (fold (queue_frame board_rak4631) [[1, 2], [3]] ((pqueue_blank board_rak4631 (\<lambda>a. 0))\<lparr>radio_online := True\<rparr>)) = Some (Ret t) \<and>
       fifo_list (packet_starts t) = [] \<and> queue_height t = 0"
proof -
  define s where "s = (pqueue_blank board_rak4631 (\<lambda>a. 0))\<lparr>radio_online := True\<rparr>"
  define u where "u = fold (queue_frame board_rak4631) [[1, 2], [3]] s"
  have g: "queue_geometry board_rak4631" by (simp add: queue_geometry_def board_values)
  have "queue_rep board_rak4631 0 [[1, 2], [3]] [] u"
    using queue_frames_rep [OF pqueue_blank_rep [OF g, where m = "\<lambda>a. 0" and r = True] g, of "[[1, 2], [3]]"]
    by (simp add: board_values s_def u_def)
  then have i: "fifo_invar (packet_starts u)" by (simp add: queue_rep_def ring_rep_def)
  have f: "\<not> queue_flushing u" using queue_frame_fields [of board_rak4631 "[[1, 2], [3]]" s] by (simp add: u_def s_def)
  obtain r where r: "flush_queue board_rak4631 (\<lambda>n. 0) (\<lambda>n. Some True) u = Some r"
    "case r of Ret t \<Rightarrow> (\<not> queue_flushing u \<longrightarrow> fifo_list (packet_starts t) = []) \<and>
         queue_height t = 0 \<and> queued_bytes t = 0 \<and> \<not> queue_flushing t
     | Rebooted t \<Rightarrow> (\<exists>n :: nat. Some True = Some False) | Hung t \<Rightarrow> (\<exists>n :: nat. Some True = None)"
    using flush_queue_terminates [OF i, of board_rak4631 "\<lambda>n. 0" "\<lambda>n. Some True"] by blast
  then show ?thesis using f unfolding u_def s_def by (cases r) simp_all
qed

lemma unat_neg16: "0 < n \<Longrightarrow> n < 2 ^ 16 \<Longrightarrow> unat (- of_nat n :: u16) = 2 ^ 16 - n"
proof -
  assume n: "0 < n" "n < 2 ^ 16"
  have "uint (- of_nat n :: u16) = (- int n) mod 2 ^ 16" using n by (simp add: uint_word_ariths unsigned_of_nat take_bit_eq_mod mod_minus_eq)
  also have "\<dots> = 2 ^ 16 - int n" using n by (simp add: zmod_zminus1_eq_if)
  finally show ?thesis using n by (simp add: unat_eq_nat_uint nat_diff_distrib)
qed

text \<open>A blocked queue: it holds nothing that could be sent and accepts nothing.\<close>

definition queue_blocked :: "board \<Rightarrow> 'a pqueue_scheme \<Rightarrow> bool" where
  "queue_blocked b s \<longleftrightarrow> queue_height s = 0 \<and> queue_size b \<le> unat (queued_bytes s)"

lemma queue_blocked_byte: "queue_blocked b s \<Longrightarrow> queue_byte b x s = s"
  by (simp add: queue_blocked_def queue_byte_def)

lemma queue_blocked_frames: "queue_blocked b s \<Longrightarrow> fold (queue_frame b) ps s = s"
proof -
  assume b: "queue_blocked b s"
  then have "fold (queue_byte b) p s = s" for p by (induction p) (simp_all add: queue_blocked_byte)
  then have "queue_frame b p s = s" for p using b by (simp add: queue_frame_def queue_close_def queue_blocked_def)
  then show ?thesis by (induction ps) simp_all
qed

lemma queue_blocked_enqueue: "queue_blocked b s \<Longrightarrow> urns_enqueue_outgoing b d s = (False, s)"
  by (cases d) (auto simp: urns_enqueue_outgoing_def queue_blocked_def)

text \<open>
  One empty data frame from the host blocks a rate-limited node until it is reset. The frame is queued with
  the length of the whole ring; \<open>pop_queue\<close> sends nothing and subtracts that length from
  \<open>queued_bytes\<close>, which wraps, so the queue looks full while it is empty: every later frame, from the
  host or from the node on the board, is dropped.
\<close>

theorem empty_data_frame_blocks_queue:
  assumes "queue_rep b o' [] [] s" "queue_geometry b" "\<not> queue_flushing s"
  shows "\<exists>t. pop_queue b rnd end_ok (queue_frame b [] s) = Ret t \<and> queue_blocked b t \<and> aired t = aired s \<and>
    (\<forall>ps. fold (queue_frame b) ps t = t) \<and> (\<forall>d. urns_enqueue_outgoing b d t = (False, t))"
proof -
  note r = assms(1) [unfolded queue_rep_def ring_rep_def counters_def]
  have f: "frame_length b (current_packet_start s) (queue_cursor s) = of_nat (queue_size b)"
    using r assms(2) by (intro frame_length_ring [where k = o']) (auto simp: queue_geometry_def)
  have z: "unat (of_nat (queue_size b) :: u16) = queue_size b" "MTU < queue_size b"
    using assms(2) by (auto simp: queue_geometry_def unat_of_nat)
  have nf: "\<not> fifo16_isfull (packet_starts s)" "\<not> fifo16_isfull (packet_lengths s)"
    using r assms(2) by (auto simp: fq16.isfull_iff queue_geometry_def)
  define l where "l = fifo16_push (packet_lengths s) (of_nat (queue_size b))"
  define p where "p = fifo16_push (packet_starts s) (current_packet_start s)"
  have lp: "fifo_list l = [of_nat (queue_size b)]" "fifo_invar l" "fifo_list p = [current_packet_start s]" "fifo_invar p"
    using r nf by (simp_all add: l_def p_def fq16.queue_laws)
  have q: "queue_frame b [] s = s\<lparr>queue_height := 1, packet_starts := p, packet_lengths := l, current_packet_start := queue_cursor s\<rparr>"
    using r z nf by (simp add: queue_frame_def queue_close_def f l_def p_def unat_eq_zero)
  have ne: "\<not> fifo16_isempty p" using lp fq16.isempty_iff by simp
  define t where "t = (update_airtime b (lora_receive (s\<lparr>current_packet_start := queue_cursor s, queue_flushing := True,
      packet_starts := snd (fifo16_pop p), packet_lengths := snd (fifo16_pop l), queue_height := 0,
      queued_bytes := queued_bytes s - of_nat (queue_size b)\<rparr>)))\<lparr>queue_flushing := False\<rparr>"
  have "pop_queue b rnd end_ok (queue_frame b [] s) = Ret t"
    using ne assms(3) z fifo16_pop_list [OF lp(2,1)]
    by (simp add: q pop_queue_def send_next_def Let_def case_prod_unfold t_def)
  moreover have "queue_blocked b t"
    using r assms(2) unat_neg16 [of "queue_size b"] by (auto simp add: queue_blocked_def t_def unat_eq_zero queue_geometry_def unat_word_ariths unat_of_nat)
  ultimately show ?thesis
    using queue_blocked_frames queue_blocked_enqueue by (fastforce simp: t_def)
qed

theorem empty_data_frame_blocks_queue_witness:
  "\<exists>t. pop_queue board_rak4631 (\<lambda>n. 0) (\<lambda>n. Some True) (queue_frame board_rak4631 [] ((pqueue_blank board_rak4631 (\<lambda>a. 0))\<lparr>radio_online := True\<rparr>)) = Ret t \<and>
    fold (queue_frame board_rak4631) [[1, 2, 3]] t = t"
proof -
  have g: "queue_geometry board_rak4631" by (simp add: queue_geometry_def board_values)
  have "\<not> queue_flushing ((pqueue_blank board_rak4631 (\<lambda>a. 0))\<lparr>radio_online := True\<rparr>)" by simp
  then show ?thesis
    using empty_data_frame_blocks_queue [OF pqueue_blank_rep [OF g, where m = "\<lambda>a. 0" and r = True] g, where rnd = "\<lambda>n. 0" and end_ok = "\<lambda>n. Some True"] by blast
qed

text \<open>
  A data frame as long as the ring blocks the queue until the node is reset. The bytes that do not fit are
  dropped, the end of the frame is refused because the ring is full, and the bytes stay counted though no packet
  was queued, so nothing is ever sent that would free them.
\<close>

theorem oversized_frame_blocks_queue:
  assumes "queue_rep b o' [] [] s" "queue_geometry b" "queue_size b \<le> length p"
  shows "queue_blocked b (queue_frame b p s) \<and> fold (queue_frame b) ps (queue_frame b p s) = queue_frame b p s"
proof -
  define h where "h = take (queue_size b) p"
  define t where "t = fold (queue_byte b) h s"
  have h: "length h = queue_size b" "p = h @ drop (queue_size b) p" using assms(3) by (simp_all add: h_def)
  have "queue_rep b o' [] h t"
    using queue_bytes_rep [OF assms(1,2), of h] h assms(2) by (simp add: queue_geometry_def t_def)
  then have t: "queue_height t = 0" "unat (queued_bytes t) = queue_size b"
    using h by (auto simp: queue_rep_def counters_def unat_eq_zero)
  then have "queue_blocked b t" by (simp add: queue_blocked_def)
  then have "fold (queue_byte b) q t = t" for q by (induction q) (simp_all add: queue_blocked_byte)
  then have "fold (queue_byte b) p s = t" using h by (metis fold_append comp_apply t_def)
  then have "queue_frame b p s = t" using t by (simp add: queue_frame_def queue_close_def)
  then show ?thesis using \<open>queue_blocked b t\<close> queue_blocked_frames by simp
qed

theorem oversized_frame_blocks_queue_witness:
  "fold (queue_frame board_rnode) [[1]] (queue_frame board_rnode (replicate 6144 7) ((pqueue_blank board_rnode (\<lambda>a. 0))\<lparr>radio_online := True\<rparr>)) =
   queue_frame board_rnode (replicate 6144 7) ((pqueue_blank board_rnode (\<lambda>a. 0))\<lparr>radio_online := True\<rparr>)"
proof -
  have g: "queue_geometry board_rnode" by (simp add: queue_geometry_def board_values)
  show ?thesis
    using oversized_frame_blocks_queue [OF pqueue_blank_rep [OF g, where m = "\<lambda>a. 0" and r = True] g, where p = "replicate 6144 7" and ps = "[[1]]"]
    by (simp add: board_values del: fold_replicate)
qed

lemma write_ring_rep:
  "ring_rep b o' pkts cur s \<Longrightarrow> queue_geometry b \<Longrightarrow> total_len pkts + length cur + length d \<le> queue_size b \<Longrightarrow>
    ring_rep b o' pkts (cur @ d) (write_ring b d s)"
proof (induction d arbitrary: cur s)
  case (Cons x d)
  then show ?case using ring_rep_write [of b o' pkts cur s x] Cons.IH [of "cur @ [x]"] by simp
qed simp

lemma write_ring_fields [simp]:
  "queued_bytes (write_ring b d s) = queued_bytes s" "queue_height (write_ring b d s) = queue_height s"
  "packet_starts (write_ring b d s) = packet_starts s" "packet_lengths (write_ring b d s) = packet_lengths s"
  by (induction d arbitrary: s) simp_all

text \<open>
  The node on the board shares the queue safely. Unless the host is in the middle of a data frame,
  \<open>urns_enqueue_outgoing\<close> either queues the whole packet behind the others or leaves the queue as it
  was, and it succeeds exactly when the packet is one that can be sent and there is room.
\<close>

theorem onboard_node_enqueues_whole_packets:
  assumes "queue_rep b o' pkts [] s" "queue_geometry b" "length pkts \<le> queue_max_length b"
  shows "let (ok, t) = urns_enqueue_outgoing b d s
    in (ok \<longleftrightarrow> \<not> (IN_FRAME s \<and> kiss_command s = CMD_DATA) \<and> 1 \<le> length d \<and> length d \<le> MTU \<and>
          length pkts < queue_max_length b \<and> total_len pkts + length d \<le> queue_size b) \<and>
       (if ok then queue_rep b o' (pkts @ [d]) [] t else t = s)"
proof -
  note r = assms(1) [unfolded queue_rep_def ring_rep_def counters_def]
  have full: "fifo16_isfull (packet_starts s) \<longleftrightarrow> length pkts = queue_max_length b"
    "fifo16_isfull (packet_lengths s) \<longleftrightarrow> length pkts = queue_max_length b"
    using r fq16.isfull_iff [of "packet_starts s"] fq16.isfull_iff [of "packet_lengths s"]
    by (simp_all del: length_fifo_list)
  define w where "w = write_ring b d s"
  define t where "t = w\<lparr>queued_bytes := queued_bytes s + of_nat (length d), queue_height := queue_height s + 1,
      packet_starts := fifo16_push (packet_starts s) (queue_cursor s),
      packet_lengths := fifo16_push (packet_lengths s) (of_nat (length d)), current_packet_start := queue_cursor w\<rparr>"
  have "queue_rep b o' (pkts @ [d]) [] t" if d: "total_len pkts + length d \<le> queue_size b" "length pkts < queue_max_length b" "length d \<le> MTU"
  proof -
    note wr = write_ring_rep [of b o' pkts "[]" s d, folded w_def, unfolded ring_rep_def]
    have "queue_cursor s = of_nat ((o' + total_len pkts) mod queue_size b)" using r by (metis of_nat_unat ucast_id add_0_right list.size(3))
    moreover have "unat (queued_bytes s + of_nat (length d)) = total_len pkts + length d"
      using r d assms(2) by (simp add: unat_word_ariths unat_of_nat queue_geometry_def)
    moreover have "unat (queue_height s + 1) = length pkts + 1"
      using r d assms(2) by (simp add: unat_word_ariths queue_geometry_def)
    ultimately show ?thesis
      using wr r d assms(1,2) full
      by (simp add: t_def w_def queue_rep_def ring_rep_def counters_def fq16.queue_laws starts_from_append add.assoc)
  qed
  then show ?thesis using r full assms(3)
    by (auto simp: urns_enqueue_outgoing_def Let_def t_def w_def Suc_le_eq)
qed

theorem onboard_node_enqueues_whole_packets_witness:
  "fst (urns_enqueue_outgoing board_heltec32_v4 [1, 2] ((pqueue_blank board_heltec32_v4 (\<lambda>a. 0))\<lparr>radio_online := True\<rparr>))"
proof -
  have g: "queue_geometry board_heltec32_v4" "queue_size board_heltec32_v4 = 6144" "queue_max_length board_heltec32_v4 = 200"
    by (simp_all add: queue_geometry_def board_values)
  show ?thesis
    using onboard_node_enqueues_whole_packets [OF pqueue_blank_rep [OF g(1), where m = "\<lambda>a. 0" and r = True] g(1), where d = "[1, 2]"] g
    by (simp add: case_prod_unfold Let_def)
qed

end
