(* ===== verification/Csma.thy ===== *)
theory Csma
  imports Packet_Queue
begin

text \<open>
  Medium access (\<^verbatim>\<open>RNode_Firmware.ino\<close>, \<open>tx_queue_handler\<close>): before the queue is sent the medium has to
  be free for the interframe space and then for a random number of slots. The handler runs once per
  pass of \<open>loop\<close>; the clock and what the modem reports in a pass are its environment. Waiting times are
  32-bit and use -1 for "not started", as in the source.
\<close>

section \<open>State and handler\<close>

record csma = pqueue +
  csma_cw :: int
  difs_wait_start :: u32
  cw_wait_start :: u32
  cw_wait_target :: u32
  cw_wait_passed :: u32

text \<open>
  One pass: the clock, the carrier detector and the RSSI, the number drawn by \<open>random\<close>, and for a
  transmission the random bytes of the headers and the results of \<open>endPacket\<close>. The several reads of
  \<open>millis\<close> within one pass are taken to give the same value.
\<close>

record csma_env =
  now :: u32
  carrier :: bool
  rssi :: int
  drawn :: nat
  headers :: "nat \<Rightarrow> u8"
  end_ok :: end_packet

definition arduino_random :: "int \<Rightarrow> int \<Rightarrow> nat \<Rightarrow> int" where
  "arduino_random lo hi r = (if lo \<ge> hi then lo else lo + int r mod (hi - lo))"

definition draw_window :: "nat \<Rightarrow> 'a csma_scheme \<Rightarrow> 'a csma_scheme" where
  "draw_window r s =
     (if csma_cw s = - 1 then
        (let cw = arduino_random (uint (cw_min s)) (uint (cw_max s)) r
         in s\<lparr>csma_cw := cw, cw_wait_target := word_of_int (cw * csma_slot_ms s)\<rparr>)
      else s)"

definition send_queue :: "board \<Rightarrow> csma_env \<Rightarrow> 'a csma_scheme \<Rightarrow> 'a csma_scheme outcome option" where
  "send_queue b e s =
     map_option (\<lambda>r. then_do r (\<lambda>s. Ret (s\<lparr>cw_wait_passed := 0, csma_cw := - 1, difs_wait_start := - 1\<rparr>)))
       (if \<not> lora_limit_rate s \<and> \<not> lora_guard_rate s then flush_queue b (headers e) (end_ok e) s
        else Some (pop_queue b (headers e) (end_ok e) s))"

definition tx_queue_handler :: "board \<Rightarrow> csma_env \<Rightarrow> 'a csma_scheme \<Rightarrow> 'a csma_scheme outcome option" where
  "tx_queue_handler b e s =
     (if \<not> airtime_lock s \<and> queue_height s > 0 then
        (let (free, s) = medium_free b (carrier e) (rssi e) (draw_window (drawn e) s)
         in if difs_wait_start s = - 1 then
              (if free then Some (Ret (s\<lparr>difs_wait_start := millis s\<rparr>)) else Some (Ret s))
            else if \<not> free then Some (Ret (s\<lparr>difs_wait_start := - 1, cw_wait_start := - 1\<rparr>))
            else if millis s < difs_wait_start s + word_of_int (difs_ms s) then Some (Ret s)
            else if cw_wait_start s = - 1 then Some (Ret (s\<lparr>cw_wait_start := millis s\<rparr>))
            else
              (let s = s\<lparr>cw_wait_passed := cw_wait_passed s + (millis s - cw_wait_start s), cw_wait_start := millis s\<rparr>
               in if cw_wait_passed s < cw_wait_target s then Some (Ret s) else send_queue b e s))
      else Some (Ret s))"

text \<open>A pass of \<open>loop\<close> as far as the handler is concerned.\<close>

definition csma_pass :: "board \<Rightarrow> csma_env \<Rightarrow> 'a csma_scheme \<Rightarrow> 'a csma_scheme outcome option" where
  "csma_pass b e s = tx_queue_handler b e (s\<lparr>millis := now e\<rparr>)"

section \<open>What a pass leaves alone\<close>

text \<open>
  Sampling the modem writes fields of the channel statistics only. The relation is closed under
  composition, so that each assignment of \<open>update_modem_status\<close> is checked alone.
\<close>

definition same_queue :: "'a csma_scheme \<Rightarrow> 'a csma_scheme \<Rightarrow> bool" where
  "same_queue s t \<longleftrightarrow>
     millis t = millis s \<and>
     queue_height t = queue_height s \<and>
     airtime_lock t = airtime_lock s \<and>
     difs_ms t = difs_ms s \<and>
     csma_slot_ms t = csma_slot_ms s \<and>
     cw_min t = cw_min s \<and>
     cw_max t = cw_max s \<and>
     lora_limit_rate t = lora_limit_rate s \<and>
     lora_guard_rate t = lora_guard_rate s \<and>
     aired t = aired s \<and>
     csma_cw t = csma_cw s \<and>
     difs_wait_start t = difs_wait_start s \<and>
     cw_wait_start t = cw_wait_start s \<and>
     cw_wait_target t = cw_wait_target s \<and>
     cw_wait_passed t = cw_wait_passed s \<and>
     queue_flushing t = queue_flushing s \<and>
     packet_starts t = packet_starts s \<and>
     packet_lengths t = packet_lengths s \<and>
     packet_queue t = packet_queue s \<and>
     queued_bytes t = queued_bytes s \<and>
     queue_cursor t = queue_cursor s \<and>
     current_packet_start t = current_packet_start s \<and>
     tbuf t = tbuf s \<and>
     radio_online t = radio_online s \<and>
     promisc t = promisc s \<and>
     avoid_interference t = avoid_interference s"

lemma same_queue_trans: "same_queue s t \<Longrightarrow> same_queue t u \<Longrightarrow> same_queue s u"
  by (simp add: same_queue_def)

lemma same_queue_if: "same_queue s t \<Longrightarrow> same_queue s u \<Longrightarrow> same_queue s (if p then t else u)"
  by simp

lemma same_queue_let: "(\<And>x. same_queue s (f x)) \<Longrightarrow> same_queue s (Let y f)"
  by (simp add: Let_def)

lemma same_queue_updates [simp]:
  "same_queue s (s\<lparr>current_rssi := x1, last_status_update := x2\<rparr>)" "same_queue s (s\<lparr>interference_detected := p\<rparr>)"
  "same_queue s (s\<lparr>led_id_filter := x3\<rparr>)" "same_queue s (s\<lparr>interference_persists := p, interference_start := x4\<rparr>)"
  "same_queue s (s\<lparr>noise_floor_sampled := p, interference_persists := q\<rparr>)" "same_queue s (s\<lparr>interference_persists := p\<rparr>)"
  "same_queue s (s\<lparr>dcd := p\<rparr>)" "same_queue s (s\<lparr>noise_floor_buffer := x5, noise_floor_sample := x6\<rparr>)"
  "same_queue s (s\<lparr>noise_floor_buffer := x5, noise_floor_sample := x6, noise_floor_sampled := p, noise_floor := x7\<rparr>)"
  "same_queue s s"
  by (simp_all add: same_queue_def)

lemma update_noise_floor_same: "same_queue s (update_noise_floor b s)"
  by (simp add: update_noise_floor_def Let_def)

lemma update_modem_status_same: "same_queue s (update_modem_status b c r s)"
proof -
  define s1 where "s1 = s\<lparr>current_rssi := r, last_status_update := millis s\<rparr>"
  define d where "d = (\<not> c \<and> (if is_heltec32_v4 b \<and> \<not> noise_floor s1 > LNA_GD_THRSHLD then current_rssi s1 > LNA_GD_LIMIT
             else current_rssi s1 > noise_floor s1 + CSMA_INFR_THRESHOLD_DB b))"
  define s2 where "s2 = s1\<lparr>interference_detected := d\<rparr>"
  define s3 where "s3 = s2\<lparr>led_id_filter := (if d then (if led_id_filter s2 < LED_ID_TRIG then led_id_filter s2 + 1 else led_id_filter s2)
                   else (if led_id_filter s2 > 0 then led_id_filter s2 - 1 else led_id_filter s2))\<rparr>"
  define s4 where "s4 = (if d \<and> current_rssi s3 < CSMA_RFENV_RECAL_LIMIT_DB then
                 (if \<not> interference_persists s3 then s3\<lparr>interference_persists := True, interference_start := millis s3\<rparr>
                  else if millis s3 - interference_start s3 \<ge> CSMA_RFENV_RECAL_MS then
                    s3\<lparr>noise_floor_sampled := False, interference_persists := False\<rparr>
                  else s3)
               else s3\<lparr>interference_persists := False\<rparr>)"
  have "update_modem_status b c r s = update_noise_floor b (s4\<lparr>dcd := c\<rparr>)"
    unfolding update_modem_status_def Let_def s4_def s3_def s2_def d_def s1_def ..
  moreover have "same_queue s s1" "same_queue s1 s2" "same_queue s2 s3" "same_queue s4 (s4\<lparr>dcd := c\<rparr>)"
    by (simp_all only: s1_def s2_def s3_def same_queue_updates)
  moreover have "same_queue s3 s4" unfolding s4_def by (intro same_queue_if same_queue_updates)
  ultimately show ?thesis using update_noise_floor_same same_queue_trans by metis
qed

lemma medium_free_same: "same_queue s (snd (medium_free b c r s))"
  using update_modem_status_same by (simp add: medium_free_def Let_def)

lemma medium_free_fields [simp]:
  fixes s :: "'a csma_scheme"
  shows
    "millis (snd (medium_free b c r s)) = millis s"
    "queue_height (snd (medium_free b c r s)) = queue_height s"
    "airtime_lock (snd (medium_free b c r s)) = airtime_lock s"
    "difs_ms (snd (medium_free b c r s)) = difs_ms s"
    "csma_slot_ms (snd (medium_free b c r s)) = csma_slot_ms s"
    "cw_min (snd (medium_free b c r s)) = cw_min s"
    "cw_max (snd (medium_free b c r s)) = cw_max s"
    "lora_limit_rate (snd (medium_free b c r s)) = lora_limit_rate s"
    "lora_guard_rate (snd (medium_free b c r s)) = lora_guard_rate s"
    "aired (snd (medium_free b c r s)) = aired s"
    "csma_cw (snd (medium_free b c r s)) = csma_cw s"
    "difs_wait_start (snd (medium_free b c r s)) = difs_wait_start s"
    "cw_wait_start (snd (medium_free b c r s)) = cw_wait_start s"
    "cw_wait_target (snd (medium_free b c r s)) = cw_wait_target s"
    "cw_wait_passed (snd (medium_free b c r s)) = cw_wait_passed s"
    "queue_flushing (snd (medium_free b c r s)) = queue_flushing s"
    "packet_starts (snd (medium_free b c r s)) = packet_starts s"
    "packet_lengths (snd (medium_free b c r s)) = packet_lengths s"
    "packet_queue (snd (medium_free b c r s)) = packet_queue s"
    "queued_bytes (snd (medium_free b c r s)) = queued_bytes s"
    "queue_cursor (snd (medium_free b c r s)) = queue_cursor s"
    "current_packet_start (snd (medium_free b c r s)) = current_packet_start s"
    "tbuf (snd (medium_free b c r s)) = tbuf s"
    "radio_online (snd (medium_free b c r s)) = radio_online s"
    "promisc (snd (medium_free b c r s)) = promisc s"
    "avoid_interference (snd (medium_free b c r s)) = avoid_interference s"
  using medium_free_same [of s b c r] unfolding same_queue_def by blast+

lemma draw_window_fields [simp]:
  "millis (draw_window n s) = millis s"
  "queue_height (draw_window n s) = queue_height s"
  "airtime_lock (draw_window n s) = airtime_lock s"
  "difs_ms (draw_window n s) = difs_ms s"
  "csma_slot_ms (draw_window n s) = csma_slot_ms s"
  "cw_min (draw_window n s) = cw_min s"
  "cw_max (draw_window n s) = cw_max s"
  "lora_limit_rate (draw_window n s) = lora_limit_rate s"
  "lora_guard_rate (draw_window n s) = lora_guard_rate s"
  "aired (draw_window n s) = aired s"
  "difs_wait_start (draw_window n s) = difs_wait_start s"
  "cw_wait_start (draw_window n s) = cw_wait_start s"
  "cw_wait_passed (draw_window n s) = cw_wait_passed s"
  "queue_flushing (draw_window n s) = queue_flushing s"
  "packet_starts (draw_window n s) = packet_starts s"
  "packet_lengths (draw_window n s) = packet_lengths s"
  "packet_queue (draw_window n s) = packet_queue s"
  "queued_bytes (draw_window n s) = queued_bytes s"
  "queue_cursor (draw_window n s) = queue_cursor s"
  "current_packet_start (draw_window n s) = current_packet_start s"
  "tbuf (draw_window n s) = tbuf s"
  "radio_online (draw_window n s) = radio_online s"
  "promisc (draw_window n s) = promisc s"
  "avoid_interference (draw_window n s) = avoid_interference s"
  by (simp_all add: draw_window_def Let_def)

lemma draw_window_again [simp]: "csma_cw s \<noteq> - 1 \<Longrightarrow> draw_window n s = s"
  by (simp add: draw_window_def)

definition hears_interference :: "board \<Rightarrow> int \<Rightarrow> 'a channel_scheme \<Rightarrow> bool" where
  "hears_interference b r s \<longleftrightarrow>
     (if is_heltec32_v4 b \<and> \<not> noise_floor s > LNA_GD_THRSHLD then r > LNA_GD_LIMIT
      else r > noise_floor s + CSMA_INFR_THRESHOLD_DB b)"

lemma medium_free_iff:
  "fst (medium_free b c r s) \<longleftrightarrow> \<not> c \<and> \<not> (avoid_interference s \<and> hears_interference b r s)"
  unfolding medium_free_def update_modem_status_def Let_def hears_interference_def by auto

lemma medium_free_draw [simp]: "fst (medium_free b c r (draw_window n s)) = fst (medium_free b c r s)"
proof -
  have "noise_floor (draw_window n s) = noise_floor s" by (simp add: draw_window_def Let_def)
  then show ?thesis by (simp add: medium_free_iff hears_interference_def)
qed

text \<open>The queue and the parameters, which no pass changes before it sends.\<close>

definition kept :: "'a csma_scheme \<Rightarrow> 'a csma_scheme \<Rightarrow> bool" where
  "kept s t \<longleftrightarrow>
     airtime_lock t = airtime_lock s \<and>
     queue_height t = queue_height s \<and>
     difs_ms t = difs_ms s \<and>
     csma_slot_ms t = csma_slot_ms s \<and>
     cw_min t = cw_min s \<and>
     cw_max t = cw_max s \<and>
     lora_limit_rate t = lora_limit_rate s \<and>
     lora_guard_rate t = lora_guard_rate s \<and>
     aired t = aired s \<and>
     queue_flushing t = queue_flushing s \<and>
     packet_starts t = packet_starts s \<and>
     packet_lengths t = packet_lengths s \<and>
     packet_queue t = packet_queue s \<and>
     queued_bytes t = queued_bytes s \<and>
     queue_cursor t = queue_cursor s \<and>
     current_packet_start t = current_packet_start s \<and>
     tbuf t = tbuf s \<and>
     radio_online t = radio_online s \<and>
     promisc t = promisc s \<and>
     avoid_interference t = avoid_interference s"

lemma kept_trans: "kept s t \<Longrightarrow> kept t u \<Longrightarrow> kept s u"
  by (simp add: kept_def)

text \<open>The waiting state of the handler: start of the interframe space, of the window, time waited and target.\<close>

definition waits :: "u32 \<Rightarrow> u32 \<Rightarrow> u32 \<Rightarrow> u32 \<Rightarrow> 'a csma_scheme \<Rightarrow> bool" where
  "waits d w p t s \<longleftrightarrow> difs_wait_start s = d \<and> cw_wait_start s = w \<and> cw_wait_passed s = p \<and> cw_wait_target s = t \<and> csma_cw s \<noteq> - 1"

definition active :: "'a csma_scheme \<Rightarrow> bool" where
  "active s \<longleftrightarrow> \<not> airtime_lock s \<and> queue_height s > 0"

definition hears_free :: "board \<Rightarrow> csma_env \<Rightarrow> 'a csma_scheme \<Rightarrow> bool" where
  "hears_free b e s \<longleftrightarrow> fst (medium_free b (carrier e) (rssi e) (s\<lparr>millis := now e\<rparr>))"

text \<open>The state \<open>m\<close> after drawing a window and sampling the medium, and what the pass does from there.\<close>

definition sampled :: "csma_env \<Rightarrow> 'a csma_scheme \<Rightarrow> 'a csma_scheme \<Rightarrow> bool" where
  "sampled e s m \<longleftrightarrow> kept s m \<and> millis m = now e \<and> csma_cw m = csma_cw (draw_window (drawn e) s) \<and>
     cw_wait_target m = cw_wait_target (draw_window (drawn e) s) \<and> difs_wait_start m = difs_wait_start s \<and>
     cw_wait_start m = cw_wait_start s \<and> cw_wait_passed m = cw_wait_passed s"

definition pass_from :: "board \<Rightarrow> csma_env \<Rightarrow> bool \<Rightarrow> 'a csma_scheme \<Rightarrow> 'a csma_scheme outcome option" where
  "pass_from b e free m =
     (if difs_wait_start m = - 1 then (if free then Some (Ret (m\<lparr>difs_wait_start := millis m\<rparr>)) else Some (Ret m))
      else if \<not> free then Some (Ret (m\<lparr>difs_wait_start := - 1, cw_wait_start := - 1\<rparr>))
      else if millis m < difs_wait_start m + word_of_int (difs_ms m) then Some (Ret m)
      else if cw_wait_start m = - 1 then Some (Ret (m\<lparr>cw_wait_start := millis m\<rparr>))
      else
        (let m = m\<lparr>cw_wait_passed := cw_wait_passed m + (millis m - cw_wait_start m), cw_wait_start := millis m\<rparr>
         in if cw_wait_passed m < cw_wait_target m then Some (Ret m) else send_queue b e m))"

lemma pass_unfold:
  fixes s :: "'a csma_scheme"
  assumes "active s"
  obtains m where "sampled e s m" "csma_pass b e s = pass_from b e (hears_free b e s) m"
proof -
  let ?s = "s\<lparr>millis := now e\<rparr>"
  let ?m = "snd (medium_free b (carrier e) (rssi e) (draw_window (drawn e) ?s))"
  have d: "csma_cw (draw_window (drawn e) ?s) = csma_cw (draw_window (drawn e) s)"
    "cw_wait_target (draw_window (drawn e) ?s) = cw_wait_target (draw_window (drawn e) s)"
    by (simp_all add: draw_window_def Let_def)
  have "kept s ?m" by (simp add: kept_def)
  then have "sampled e s ?m" using d by (simp add: sampled_def)
  moreover have "csma_pass b e s = pass_from b e (hears_free b e s) ?m"
    using assms unfolding csma_pass_def tx_queue_handler_def active_def hears_free_def pass_from_def
    by (simp add: Let_def case_prod_unfold)
  ultimately show ?thesis by (rule that)
qed

section \<open>Reachable states\<close>

text \<open>
  The history of a run holds, latest first, the time of every pass in which the handler sampled the
  medium and whether it was free. Between passes the rest of the firmware may do anything but write
  the start of the interframe space, which only the handler does.
\<close>

definition observed :: "board \<Rightarrow> csma_env \<Rightarrow> 'a csma_scheme \<Rightarrow> (u32 \<times> bool) list" where
  "observed b e s = (if active s then [(now e, hears_free b e s)] else [])"

inductive csma_reach :: "board \<Rightarrow> (u32 \<times> bool) list \<Rightarrow> 'a csma_scheme \<Rightarrow> bool" for b where
  init: "difs_wait_start s = - 1 \<Longrightarrow> csma_reach b [] s"
| pass: "csma_reach b h s \<Longrightarrow> csma_pass b e s = Some (Ret t) \<Longrightarrow> csma_reach b (observed b e s @ h) t"
| other: "csma_reach b h s \<Longrightarrow> difs_wait_start t = difs_wait_start s \<Longrightarrow> csma_reach b h t"

inductive_cases csma_reach_NilE: "csma_reach b [] s"




lemma inactive_pass: "\<not> active s \<Longrightarrow> csma_pass b e s = Some (Ret (s\<lparr>millis := now e\<rparr>))"
  by (auto simp: csma_pass_def tx_queue_handler_def active_def)

lemma send_queue_resets: "send_queue b e m = Some (Ret t) \<Longrightarrow> difs_wait_start t = - 1 \<and> cw_wait_passed t = 0 \<and> csma_cw t = - 1"
  by (auto simp: send_queue_def elim: then_do.elims split: if_splits)


lemma pass_sends:
  assumes "csma_pass b e s = Some (Ret t)" "aired t \<noteq> aired s"
  shows "active s \<and> hears_free b e s \<and> difs_wait_start s \<noteq> - 1 \<and> cw_wait_start s \<noteq> - 1 \<and>
    difs_wait_start s + word_of_int (difs_ms s) \<le> now e \<and>
    cw_wait_target (draw_window (drawn e) s) \<le> cw_wait_passed s + (now e - cw_wait_start s)"
proof (cases "active s")
  case True
  obtain m where m: "sampled e s m" and p: "csma_pass b e s = pass_from b e (hears_free b e s) m"
    using pass_unfold [OF True] .
  then show ?thesis using assms True by (auto simp: pass_from_def sampled_def kept_def Let_def not_less split: if_splits)
qed (use assms in \<open>auto simp: inactive_pass\<close>)

section \<open>Runs on a free medium\<close>

fun csma_run :: "board \<Rightarrow> csma_env list \<Rightarrow> 'a csma_scheme \<Rightarrow> 'a csma_scheme outcome option" where
  "csma_run b [] s = Some (Ret s)"
| "csma_run b (e # es) s = (case csma_pass b e s of Some (Ret t) \<Rightarrow> csma_run b es t | r \<Rightarrow> r)"

text \<open>The medium is heard free in every pass of the run.\<close>

fun free_run :: "board \<Rightarrow> csma_env list \<Rightarrow> 'a csma_scheme \<Rightarrow> bool" where
  "free_run b [] s = True"
| "free_run b (e # es) s = (hears_free b e s \<and> (case csma_pass b e s of Some (Ret t) \<Rightarrow> free_run b es t | r \<Rightarrow> True))"

lemma csma_run_append:
  "csma_run b es s = Some (Ret t) \<Longrightarrow> csma_run b (es @ fs) s = csma_run b fs t \<and> free_run b (es @ fs) s = (free_run b es s \<and> free_run b fs t)"
  by (induction es arbitrary: s) (auto split: option.splits outcome.splits)

lemma free_run_prefix: "free_run b (es @ fs) s \<Longrightarrow> free_run b es s"
  by (induction es arbitrary: s) (auto split: option.splits outcome.splits)

lemma kept_params: "kept s t \<Longrightarrow> active t = active s" "kept s t \<Longrightarrow> difs_ms t = difs_ms s"
  by (simp_all add: active_def kept_def)

lemma kept_updates:
  "kept s m \<Longrightarrow> kept s (m\<lparr>difs_wait_start := x\<rparr>)" "kept s m \<Longrightarrow> kept s (m\<lparr>cw_wait_start := x\<rparr>)"
  "kept s m \<Longrightarrow> kept s (m\<lparr>cw_wait_passed := y, cw_wait_start := x\<rparr>)" "kept s s"
  by (simp_all add: kept_def)

lemma drawn_window_set: "csma_cw (draw_window n s) \<noteq> - 1"
proof -
  have "0 \<le> arduino_random (uint (cw_min s)) (uint (cw_max s)) n"
    by (simp add: arduino_random_def)
  then show ?thesis by (simp add: draw_window_def Let_def)
qed

lemma pass_starts:
  assumes "active s" "hears_free b e s" "difs_wait_start s = - 1"
  shows "\<exists>t. csma_pass b e s = Some (Ret t) \<and> kept s t \<and>
    waits (now e) (cw_wait_start s) (cw_wait_passed s) (cw_wait_target (draw_window (drawn e) s)) t"
proof -
  obtain m where m: "sampled e s m" "csma_pass b e s = pass_from b e (hears_free b e s) m" using pass_unfold [OF assms(1)] .
  have f: "kept s m" "millis m = now e" "difs_wait_start m = - 1"
    "waits (- 1) (cw_wait_start s) (cw_wait_passed s) (cw_wait_target (draw_window (drawn e) s)) m"
    using m(1) assms(3) drawn_window_set [of "drawn e" s] by (simp_all add: sampled_def waits_def)
  have "csma_pass b e s = Some (Ret (m\<lparr>difs_wait_start := now e\<rparr>))"
    using m(2) f(2,3) assms(2) by (simp add: pass_from_def)
  then show ?thesis using f kept_updates(1) by (fastforce simp: waits_def)
qed

lemma pass_waiting:
  assumes "active s" "hears_free b e s" "waits d w p t s" "d \<noteq> - 1"
  obtains m where "kept s m" "waits d w p t m" "csma_pass b e s =
    (if now e < d + word_of_int (difs_ms s) then Some (Ret m)
     else if w = - 1 then Some (Ret (m\<lparr>cw_wait_start := now e\<rparr>))
     else if p + (now e - w) < t then Some (Ret (m\<lparr>cw_wait_passed := p + (now e - w), cw_wait_start := now e\<rparr>))
     else send_queue b e (m\<lparr>cw_wait_passed := p + (now e - w), cw_wait_start := now e\<rparr>))"
proof -
  obtain m where m: "sampled e s m" "csma_pass b e s = pass_from b e (hears_free b e s) m" using pass_unfold [OF assms(1)] .
  have "draw_window (drawn e) s = s" using assms(3) by (simp add: waits_def)
  then have f: "kept s m" "millis m = now e" "waits d w p t m" "difs_ms m = difs_ms s"
    using m(1) assms(3) by (simp_all add: sampled_def waits_def kept_def)
  show ?thesis
    by (rule that [OF f(1,3)]) (use m(2) f(2,3,4) assms(2,4) in \<open>simp add: pass_from_def waits_def\<close>)
qed

lemma pass_in_difs:
  assumes "active s" "hears_free b e s" "waits d w p t s" "d \<noteq> - 1" "now e < d + word_of_int (difs_ms s)"
  shows "\<exists>u. csma_pass b e s = Some (Ret u) \<and> kept s u \<and> waits d w p t u"
  using pass_waiting [OF assms(1-4)] assms(5) by metis

lemma pass_starts_window:
  assumes "active s" "hears_free b e s" "waits d (- 1) p t s" "d \<noteq> - 1" "\<not> now e < d + word_of_int (difs_ms s)"
  shows "\<exists>u. csma_pass b e s = Some (Ret u) \<and> kept s u \<and> waits d (now e) p t u"
proof -
  obtain m where m: "kept s m" "waits d (- 1) p t m" "csma_pass b e s = Some (Ret (m\<lparr>cw_wait_start := now e\<rparr>))"
    using pass_waiting [OF assms(1-4)] assms(5) by metis
  then show ?thesis using kept_updates(2) [OF m(1)] by (simp add: waits_def)
qed

lemma pass_in_window:
  assumes "active s" "hears_free b e s" "waits d w p t s" "d \<noteq> - 1" "\<not> now e < d + word_of_int (difs_ms s)" "w \<noteq> - 1"
    and "p + (now e - w) < t"
  shows "\<exists>u. csma_pass b e s = Some (Ret u) \<and> kept s u \<and> waits d (now e) (p + (now e - w)) t u"
proof -
  obtain m where m: "kept s m" "waits d w p t m"
    "csma_pass b e s = Some (Ret (m\<lparr>cw_wait_passed := p + (now e - w), cw_wait_start := now e\<rparr>))"
    using pass_waiting [OF assms(1-4)] assms(5-7) by metis
  then show ?thesis using kept_updates(3) [OF m(1)] by (simp add: waits_def)
qed

lemma pass_after_window:
  assumes "active s" "hears_free b e s" "waits d w p t s" "d \<noteq> - 1" "\<not> now e < d + word_of_int (difs_ms s)" "w \<noteq> - 1"
    and "\<not> p + (now e - w) < t"
  shows "\<exists>m. csma_pass b e s = send_queue b e m \<and> kept s m"
  using pass_waiting [OF assms(1-4)] assms(5-7) kept_updates(3) by metis

lemma difs_phase:
  "active s \<Longrightarrow> waits d w p t s \<Longrightarrow> d \<noteq> - 1 \<Longrightarrow> free_run b es s \<Longrightarrow> \<forall>e \<in> set es. now e < d + word_of_int (difs_ms s) \<Longrightarrow>
    \<exists>u. csma_run b es s = Some (Ret u) \<and> kept s u \<and> waits d w p t u"
proof (induction es arbitrary: s)
  case Nil
  then show ?case using kept_updates(4) by auto
next
  case (Cons e es)
  obtain u where u: "csma_pass b e s = Some (Ret u)" "kept s u" "waits d w p t u"
    using pass_in_difs [of s b e d w p t] Cons.prems by auto
  have k: "active u" "difs_ms u = difs_ms s" using kept_params [OF u(2)] Cons.prems(1) by simp_all
  have "\<exists>v. csma_run b es u = Some (Ret v) \<and> kept u v \<and> waits d w p t v"
    by (rule Cons.IH) (use k u(1,3) Cons.prems in simp_all)
  then obtain v where v: "csma_run b es u = Some (Ret v)" "kept u v" "waits d w p t v" by blast
  show ?case using u(1) v(1,3) kept_trans [OF u(2) v(2)] by simp
qed

lemma window_phase:
  "active s \<Longrightarrow> waits d w (p + (w - w0)) t s \<Longrightarrow> d \<noteq> - 1 \<Longrightarrow> w \<noteq> - 1 \<Longrightarrow> free_run b es s \<Longrightarrow>
    \<forall>e \<in> set es. \<not> now e < d + word_of_int (difs_ms s) \<and> p + (now e - w0) < t \<and> now e \<noteq> - 1 \<Longrightarrow>
    \<exists>u w'. csma_run b es s = Some (Ret u) \<and> kept s u \<and> waits d w' (p + (w' - w0)) t u \<and> w' \<noteq> - 1"
proof (induction es arbitrary: s w)
  case Nil
  then show ?case using kept_updates(4) by auto
next
  case (Cons e es)
  have eq: "p + (w - w0) + (now e - w) = p + (now e - w0)" by simp
  obtain u where u: "csma_pass b e s = Some (Ret u)" "kept s u" "waits d (now e) (p + (now e - w0)) t u"
    using pass_in_window [of s b e d w "p + (w - w0)" t] Cons.prems by (auto simp: eq)
  have k: "active u" "difs_ms u = difs_ms s" using kept_params [OF u(2)] Cons.prems(1) by simp_all
  have "\<exists>v w'. csma_run b es u = Some (Ret v) \<and> kept u v \<and> waits d w' (p + (w' - w0)) t v \<and> w' \<noteq> - 1"
    by (rule Cons.IH [where w = "now e"]) (use k u(1,3) Cons.prems in simp_all)
  then obtain v w' where v: "csma_run b es u = Some (Ret v)" "kept u v" "waits d w' (p + (w' - w0)) t v" "w' \<noteq> - 1" by blast
  show ?case using u(1) v(1) v(3,4) kept_trans [OF u(2) v(2)] by auto
qed

section \<open>Sending\<close>

lemma air_frames_csma: "air_frames b ok fs s = Ret t \<Longrightarrow> cw_wait_start t = cw_wait_start s"
proof (induction fs arbitrary: s)
  case (Cons f fs)
  have "cw_wait_start (add_airtime b k s) = cw_wait_start s" for k and s :: "'a csma_scheme"
    by (simp add: add_airtime_def Let_def)
  then show ?case using Cons.IH Cons.prems by (force split: option.splits bool.splits)
qed simp

lemma csma_serial_write [simp]: "cw_wait_start (serial_write b x s) = cw_wait_start s"
  using serial_write_eq [of b x s] by auto

lemma csma_reply [simp]: "cw_wait_start (reply b c raw esc s) = cw_wait_start s"
  using reply_update [of b c raw esc s] by (auto simp: host_update_def)

lemma csma_update_airtime [simp]: "cw_wait_start (update_airtime b s) = cw_wait_start s"
  by (simp add: update_airtime_def update_csma_parameters_def kiss_indicate_csma_stats_def
      kiss_indicate_channel_stats_def Let_def)

lemma csma_lora_receive [simp]: "cw_wait_start (lora_receive s) = cw_wait_start s"
  by (simp add: lora_receive_def modem_do_def)

lemma send_next_csma: "snd (send_next b rnd ok s) = Ret t \<Longrightarrow> cw_wait_start t = cw_wait_start s"
  by (auto simp: send_next_def transmit_def Let_def case_prod_unfold add_airtime_def kiss_indicate_error_def
      dest!: air_frames_csma split: if_splits option.splits)

lemma drain_queue_csma_all:
  "drain_queue b rnd ok s = Some r \<Longrightarrow> \<forall>t. r = Ret t \<longrightarrow> cw_wait_start t = cw_wait_start s"
proof (rule drain_queue.raw_induct [where P = "\<lambda>b rnd ok s r. \<forall>t. r = Ret t \<longrightarrow> cw_wait_start t = cw_wait_start s"])
  fix drain b rnd ok and s :: "'a csma_scheme" and r
  assume ih: "\<And>b rnd ok s r. drain b rnd ok s = Some r \<Longrightarrow> \<forall>t. r = Ret t \<longrightarrow> cw_wait_start t = cw_wait_start s"
    and eq: "(if fifo16_isempty (packet_starts s) then Some (Ret s)
      else case snd (send_next b rnd ok s) of Ret x \<Rightarrow> drain b rnd ok x
           | Rebooted s \<Rightarrow> Some (Rebooted s) | Hung s \<Rightarrow> Some (Hung s)) = Some r"
  show "\<forall>t. r = Ret t \<longrightarrow> cw_wait_start t = cw_wait_start s"
    using eq ih send_next_csma by (fastforce split: if_splits outcome.splits)
qed

lemma drain_queue_csma: "drain_queue b rnd ok s = Some (Ret t) \<Longrightarrow> cw_wait_start t = cw_wait_start s"
  using drain_queue_csma_all by blast

lemma send_queue_csma: "send_queue b e m = Some (Ret t) \<Longrightarrow> cw_wait_start t = cw_wait_start m"
proof -
  assume a: "send_queue b e m = Some (Ret t)"
  show ?thesis
  proof (cases "\<not> lora_limit_rate m \<and> \<not> lora_guard_rate m")
    case True
    then obtain u where u: "flush_queue b (headers e) (end_ok e) m = Some (Ret u)" "cw_wait_start t = cw_wait_start u"
      using a by (auto simp: send_queue_def elim!: then_do.elims)
    show ?thesis
    proof (cases "queue_flushing m")
      case False
      then obtain v where "drain_queue b (headers e) (end_ok e) (m\<lparr>queue_flushing := True\<rparr>) = Some (Ret v)"
        "cw_wait_start u = cw_wait_start v"
        using u(1) by (auto simp: flush_queue_def elim!: then_do.elims)
      then show ?thesis using drain_queue_csma u(2) by fastforce
    qed (use u in \<open>auto simp: flush_queue_def\<close>)
  next
    case False
    then obtain u where u: "pop_queue b (headers e) (end_ok e) m = Ret u" "cw_wait_start t = cw_wait_start u"
      using a by (auto simp: send_queue_def elim!: then_do.elims)
    then show ?thesis
      by (auto simp: pop_queue_def Let_def case_prod_unfold elim!: then_do.elims split: if_splits dest!: send_next_csma)
  qed
qed

lemma send_queue_flushes:
  assumes "queue_rep b o' ps [] m" "queue_geometry b" "sendable ps" "ready_to_send m" "\<And>n. end_ok e n = Some True" "\<not> queue_flushing m"
    and "\<not> lora_limit_rate m" "\<not> lora_guard_rate m"
  shows "\<exists>t. send_queue b e m = Some (Ret t) \<and> aired t = aired m @ frames_of (headers e) (length (aired m)) ps \<and>
    queue_rep b (o' + total_len ps) [] [] t"
proof -
  obtain t where "flush_queue b (headers e) (end_ok e) m = Some (Ret t)" "queue_rep b (o' + total_len ps) [] [] t"
    "aired t = aired m @ frames_of (headers e) (length (aired m)) ps"
    using flush_queue_rep [where b = b and o' = o' and ps = ps and s = m and end_ok = "end_ok e" and rnd = "headers e"] assms by auto
  then show ?thesis using assms(7,8) by (simp add: send_queue_def queue_rep_def ring_rep_def counters_def)
qed

lemma queue_rep_kept: "kept s m \<Longrightarrow> queue_rep b o' ps cur m = queue_rep b o' ps cur s"
  by (simp add: kept_def queue_rep_def ring_rep_def counters_def)

text \<open>The fields after a transmission: the start of the window keeps the time of the transmission.\<close>

lemma pass_sends_resets:
  assumes "csma_pass b e s = Some (Ret t)" "aired t \<noteq> aired s"
  shows "difs_wait_start t = - 1 \<and> cw_wait_passed t = 0 \<and> csma_cw t = - 1 \<and> cw_wait_start t = now e"
proof -
  note c = pass_sends [OF assms]
  obtain m where m: "sampled e s m" "csma_pass b e s = pass_from b e (hears_free b e s) m"
    using pass_unfold [of s] c by blast
  let ?m = "m\<lparr>cw_wait_passed := cw_wait_passed m + (millis m - cw_wait_start m), cw_wait_start := millis m\<rparr>"
  have "csma_pass b e s = send_queue b e ?m"
    using m c [unfolded not_less [symmetric]] by (simp add: pass_from_def sampled_def kept_def Let_def)
  then show ?thesis using send_queue_resets [of b e ?m t] send_queue_csma [of b e ?m t] assms(1) m(1) by (simp add: sampled_def)
qed

text \<open>
  From the first pass after the interframe space to the pass that sends. When no window has been started, its first
  pass \<open>e1\<close> only starts it; otherwise the window has been running since \<open>w\<close>.
\<close>

lemma window_run:
  assumes "active s" "waits d w p t s" "d \<noteq> - 1"
    and "mid = (if w = - 1 then [e1] else [])" "start = (if w = - 1 then now e1 else w)" "start \<noteq> - 1"
    and "free_run b (mid @ bs @ [e2]) s"
    and "list_all (\<lambda>e. d + word_of_int (difs_ms s) \<le> now e) (mid @ bs @ [e2])"
    and "list_all (\<lambda>e. p + (now e - start) < t \<and> now e \<noteq> - 1) bs" "t \<le> p + (now e2 - start)"
  shows "\<exists>v m. csma_run b (mid @ bs) s = Some (Ret v) \<and> kept s v \<and> hears_free b e2 v \<and>
    csma_pass b e2 v = send_queue b e2 m \<and> kept s m"
proof -
  have "\<exists>u. csma_run b mid s = Some (Ret u) \<and> kept s u \<and> waits d start (p + (start - start)) t u"
  proof (cases "w = - 1")
    case True
    then have m: "mid = [e1]" "start = now e1" "waits d (- 1) p t s" using assms(2,4,5) by simp_all
    then have h: "hears_free b e1 s" "\<not> now e1 < d + word_of_int (difs_ms s)" using assms(7,8) by (simp_all add: not_less)
    obtain u where "csma_pass b e1 s = Some (Ret u)" "kept s u" "waits d (now e1) p t u"
      using pass_starts_window [OF assms(1) h(1) m(3) assms(3) h(2)] by blast
    then show ?thesis by (simp add: m)
  next
    case False
    then show ?thesis using assms(2,4,5) by (simp add: kept_updates(4))
  qed
  then obtain u where u: "csma_run b mid s = Some (Ret u)" "kept s u" "waits d start (p + (start - start)) t u" by blast
  have f: "free_run b (bs @ [e2]) u" using assms(7) csma_run_append [OF u(1), of "bs @ [e2]"] by simp
  have k: "active u" "difs_ms u = difs_ms s" using kept_params [OF u(2)] assms(1) by simp_all
  have "\<forall>e \<in> set bs. \<not> now e < d + word_of_int (difs_ms u) \<and> p + (now e - start) < t \<and> now e \<noteq> - 1"
    using assms(8,9) k(2) by (simp add: list_all_iff not_less)
  then obtain v w' where v: "csma_run b bs u = Some (Ret v)" "kept u v" "waits d w' (p + (w' - start)) t v" "w' \<noteq> - 1"
    using window_phase [OF k(1) u(3) assms(3,6) free_run_prefix [OF f]] by blast
  have h: "hears_free b e2 v" using f csma_run_append [OF v(1), of "[e2]"] by simp
  have k': "active v" "difs_ms v = difs_ms s" using kept_params [OF v(2)] k by simp_all
  have eq: "p + (w' - start) + (now e2 - w') = p + (now e2 - start)" by simp
  have g: "\<not> now e2 < d + word_of_int (difs_ms v)" "\<not> p + (w' - start) + (now e2 - w') < t"
    using assms(8,10) k'(2) unfolding eq by (simp_all add: not_less)
  obtain m where m: "csma_pass b e2 v = send_queue b e2 m" "kept v m"
    using pass_after_window [OF k'(1) h v(3) assms(3) g(1) v(4) g(2)] by blast
  have kv: "kept s v" using kept_trans [OF u(2) v(2)] .
  show ?thesis using csma_run_append [OF u(1), of bs] v(1) h m(1) kv kept_trans [OF kv m(2)] by auto
qed

text \<open>A run on a free medium from the first pass to the last one before the queue is sent, and that pass.\<close>

lemma free_medium_run:
  fixes s :: "'a csma_scheme" and e0 :: csma_env
  defines "t \<equiv> cw_wait_target (draw_window (drawn e0) s)"
  assumes "active s" "difs_wait_start s = - 1" "now e0 \<noteq> - 1"
    and "mid = (if cw_wait_start s = - 1 then [e1] else [])" "start = (if cw_wait_start s = - 1 then now e1 else cw_wait_start s)" "start \<noteq> - 1"
    and "free_run b (e0 # as @ mid @ bs @ [e2]) s"
    and "list_all (\<lambda>e. now e < now e0 + word_of_int (difs_ms s)) as"
    and "list_all (\<lambda>e. now e0 + word_of_int (difs_ms s) \<le> now e) (mid @ bs @ [e2])"
    and "list_all (\<lambda>e. cw_wait_passed s + (now e - start) < t \<and> now e \<noteq> - 1) bs"
    and "t \<le> cw_wait_passed s + (now e2 - start)"
  shows "\<exists>v m. csma_run b (e0 # as @ mid @ bs) s = Some (Ret v) \<and> kept s v \<and> hears_free b e2 v \<and>
    csma_pass b e2 v = send_queue b e2 m \<and> kept s m"
proof -
  obtain s0 where s0: "csma_pass b e0 s = Some (Ret s0)" "kept s s0" "waits (now e0) (cw_wait_start s) (cw_wait_passed s) t s0"
    using pass_starts [of s b e0] assms(1-3,8) by auto
  have f0: "free_run b (as @ mid @ bs @ [e2]) s0" using assms(8) s0(1) by simp
  have k0: "active s0" "difs_ms s0 = difs_ms s" using kept_params [OF s0(2)] assms(2) by simp_all
  obtain s1 where s1: "csma_run b as s0 = Some (Ret s1)" "kept s0 s1" "waits (now e0) (cw_wait_start s) (cw_wait_passed s) t s1"
    using difs_phase [OF k0(1) s0(3) assms(4) free_run_prefix [OF f0]] assms(9) k0(2) by (auto simp: list_all_iff)
  have k1: "active s1" "difs_ms s1 = difs_ms s" using kept_params [OF s1(2)] k0 by simp_all
  have f1: "free_run b (mid @ bs @ [e2]) s1" using f0 csma_run_append [OF s1(1), of "mid @ bs @ [e2]"] by simp
  obtain v m where v: "csma_run b (mid @ bs) s1 = Some (Ret v)" "kept s1 v" "hears_free b e2 v"
    "csma_pass b e2 v = send_queue b e2 m" "kept s1 m"
    using window_run [OF k1(1) s1(3) assms(4-7) f1] assms(10-12) k1(2) by auto
  have "csma_run b (e0 # as @ mid @ bs) s = Some (Ret v)"
    using s0(1) csma_run_append [OF s1(1), of "mid @ bs"] v(1) by simp
  moreover have "kept s v" "kept s m" using kept_trans [OF kept_trans [OF s0(2) s1(2)]] v(2,5) by blast+
  ultimately show ?thesis using v(3,4) by blast
qed

section \<open>A concrete run\<close>

definition csma_blank :: "board \<Rightarrow> (nat \<Rightarrow> u8) \<Rightarrow> csma" where
  "csma_blank b m = pqueue.extend (pqueue_blank b m)
     \<lparr>csma_cw = - 1, difs_wait_start = - 1, cw_wait_start = - 1, cw_wait_target = - 1, cw_wait_passed = 0\<rparr>"

text \<open>A node with one packet queued on a medium without carrier, interference avoidance switched off.\<close>

definition demo_node :: csma where
  "demo_node = queue_frame board_rak4631 [7] ((csma_blank board_rak4631 (\<lambda>a. 0))\<lparr>radio_online := True, avoid_interference := False\<rparr>)"

definition quiet :: "u32 \<Rightarrow> csma_env" where
  "quiet t = \<lparr>now = t, carrier = False, rssi = 0, drawn = 2, headers = (\<lambda>n. 0x37), end_ok = (\<lambda>n. Some True)\<rparr>"

lemma quiet_fields [simp]: "now (quiet t) = t" "\<not> carrier (quiet t)" "end_ok (quiet t) n = Some True" "headers (quiet t) n = 0x37" "drawn (quiet t) = 2"
  by (simp_all add: quiet_def)

lemmas csma_blank_defs = csma_blank_def pqueue.defs pqueue_blank_def packets.defs packets_blank_def channel.defs
  channel_blank_defs radio_blank_defs

lemma rak4631_geometry: "queue_geometry board_rak4631" "queue_size board_rak4631 = 6144" "queue_max_length board_rak4631 = 200"
  by (simp_all add: queue_geometry_def board_values)

lemma queue_frame_csma [simp]:
  "csma_cw (queue_frame b p s) = csma_cw s" "difs_wait_start (queue_frame b p s) = difs_wait_start s"
  "cw_wait_start (queue_frame b p s) = cw_wait_start s" "cw_wait_passed (queue_frame b p s) = cw_wait_passed s"
  "avoid_interference (queue_frame b p s) = avoid_interference s" "airtime_lock (queue_frame b p s) = airtime_lock s"
  "difs_ms (queue_frame b p s) = difs_ms s" "cw_min (queue_frame b p s) = cw_min s" "cw_max (queue_frame b p s) = cw_max s"
  "csma_slot_ms (queue_frame b p s) = csma_slot_ms s" "lora_limit_rate (queue_frame b p s) = lora_limit_rate s"
  "lora_guard_rate (queue_frame b p s) = lora_guard_rate s"
proof -
  have "\<exists>qb q c. queue_byte b x s = s\<lparr>queued_bytes := qb, packet_queue := q, queue_cursor := c\<rparr>" for x and s :: "'a csma_scheme"
  proof -
    have "s = s\<lparr>queued_bytes := queued_bytes s, packet_queue := packet_queue s, queue_cursor := queue_cursor s\<rparr>" by simp
    then show ?thesis unfolding queue_byte_def by metis
  qed
  then have bytes: "\<exists>qb q c. fold (queue_byte b) p s = s\<lparr>queued_bytes := qb, packet_queue := q, queue_cursor := c\<rparr>" for s :: "'a csma_scheme"
  proof (induction p arbitrary: s)
    case Nil
    have "s = s\<lparr>queued_bytes := queued_bytes s, packet_queue := packet_queue s, queue_cursor := queue_cursor s\<rparr>" by simp
    then show ?case by (metis fold_simps(1))
  next
    case (Cons x p)
    obtain qb q c where x: "queue_byte b x s = s\<lparr>queued_bytes := qb, packet_queue := q, queue_cursor := c\<rparr>" using Cons.prems by blast
    show ?case using Cons.IH [OF Cons.prems, of "queue_byte b x s"] unfolding x by (auto simp: x)
  qed
  then obtain qb q c where "fold (queue_byte b) p s = s\<lparr>queued_bytes := qb, packet_queue := q, queue_cursor := c\<rparr>" by blast
  then show
    "csma_cw (queue_frame b p s) = csma_cw s" "difs_wait_start (queue_frame b p s) = difs_wait_start s"
    "cw_wait_start (queue_frame b p s) = cw_wait_start s" "cw_wait_passed (queue_frame b p s) = cw_wait_passed s"
    "avoid_interference (queue_frame b p s) = avoid_interference s" "airtime_lock (queue_frame b p s) = airtime_lock s"
    "difs_ms (queue_frame b p s) = difs_ms s" "cw_min (queue_frame b p s) = cw_min s" "cw_max (queue_frame b p s) = cw_max s"
    "csma_slot_ms (queue_frame b p s) = csma_slot_ms s" "lora_limit_rate (queue_frame b p s) = lora_limit_rate s"
    "lora_guard_rate (queue_frame b p s) = lora_guard_rate s"
    by (simp_all add: queue_frame_def queue_close_def Let_def)
qed

lemma demo_node_rep: "queue_rep board_rak4631 0 [[7]] [] demo_node"
proof -
  have "queue_rep board_rak4631 0 [] [] ((csma_blank board_rak4631 (\<lambda>a. 0))\<lparr>radio_online := True, avoid_interference := False\<rparr>)"
    using rak4631_geometry
    by (simp add: queue_rep_def ring_rep_def counters_def csma_blank_def pqueue.defs pqueue_blank_def packets.defs
        fifo16_init_empty unat_of_nat)
  then show ?thesis
    using queue_frame_rep [of board_rak4631 0 "[]" _ "[7]"] rak4631_geometry by (simp add: demo_node_def)
qed

lemma demo_node_params: "csma_slot_ms demo_node = 24" "cw_min demo_node = 0" "cw_max demo_node = 15"
  unfolding demo_node_def queue_frame_csma by (simp_all add: csma_blank_defs)

lemma demo_node_fields:
  "csma_cw demo_node = - 1" "difs_wait_start demo_node = - 1" "cw_wait_start demo_node = - 1" "cw_wait_passed demo_node = 0"
  "\<not> avoid_interference demo_node" "difs_ms demo_node = 48" "\<not> lora_limit_rate demo_node" "\<not> lora_guard_rate demo_node"
  "cw_wait_target (draw_window 2 demo_node) = 48" "ready_to_send demo_node" "\<not> queue_flushing demo_node" "aired demo_node = []"
  "active demo_node"
proof -
  let ?s = "(csma_blank board_rak4631 (\<lambda>a. 0))\<lparr>radio_online := True, avoid_interference := False\<rparr>"
  have f: "csma_cw ?s = - 1" "difs_wait_start ?s = - 1" "cw_wait_start ?s = - 1" "cw_wait_passed ?s = 0" "\<not> avoid_interference ?s"
    "difs_ms ?s = 48" "\<not> lora_limit_rate ?s" "\<not> lora_guard_rate ?s" "cw_min ?s = 0" "cw_max ?s = 15" "csma_slot_ms ?s = 24"
    "\<not> airtime_lock ?s" "aired ?s = []" "tbuf ?s = replicate MTU 0" "radio_online ?s" "\<not> promisc ?s" "\<not> queue_flushing ?s"
    by (simp_all add: csma_blank_defs)
  show "csma_cw demo_node = - 1" "difs_wait_start demo_node = - 1" "cw_wait_start demo_node = - 1" "cw_wait_passed demo_node = 0"
    "\<not> avoid_interference demo_node" "difs_ms demo_node = 48" "\<not> lora_limit_rate demo_node" "\<not> lora_guard_rate demo_node"
    unfolding demo_node_def queue_frame_csma by (fact f)+
  show "cw_wait_target (draw_window 2 demo_node) = 48"
    unfolding demo_node_def draw_window_def Let_def queue_frame_csma f by (simp add: arduino_random_def)
  show "ready_to_send demo_node" "\<not> queue_flushing demo_node" "aired demo_node = []"
    using queue_frame_fields [of board_rak4631 "[[7]]" ?s] f(13-17) by (simp_all add: ready_to_send_def demo_node_def)
  have "\<not> airtime_lock demo_node" unfolding demo_node_def queue_frame_csma by (fact f)
  moreover have "unat (queue_height demo_node) = 1" using demo_node_rep by (simp add: queue_rep_def counters_def)
  ultimately show "active demo_node" by (simp add: active_def word_gt_0 unat_eq_zero [symmetric])
qed

lemma hears_free_window: "hears_free b e (s\<lparr>cw_wait_start := x\<rparr>) = hears_free b e s"
  by (simp add: hears_free_def medium_free_iff hears_interference_def cong: if_cong split del: if_split)

lemma hears_free_quiet: "\<not> avoid_interference s \<Longrightarrow> hears_free b (quiet t) s"
  by (simp add: hears_free_def medium_free_iff)

lemma demo_run:
  obtains u v where "csma_pass board_rak4631 (quiet 1000) demo_node = Some (Ret u)" "csma_pass board_rak4631 (quiet 1050) u = Some (Ret v)"
    "free_run board_rak4631 [quiet 1000, quiet 1050, quiet 1100] demo_node"
proof -
  note d = demo_node_fields
  obtain u where u: "csma_pass board_rak4631 (quiet 1000) demo_node = Some (Ret u)" "kept demo_node u" "waits 1000 (- 1) 0 48 u"
    using pass_starts [OF d(13) hears_free_quiet [OF d(5), of board_rak4631 1000] d(2)] d(3,4,9) by auto
  have ku: "active u" "difs_ms u = 48" "\<not> avoid_interference u"
    using kept_params [OF u(2)] d(5,6,13) u(2) by (simp_all add: kept_def)
  obtain v where v: "csma_pass board_rak4631 (quiet 1050) u = Some (Ret v)" "kept u v"
    using pass_starts_window [OF ku(1) hears_free_quiet [OF ku(3), of board_rak4631 1050] u(3)] ku(2) by auto
  have "\<not> avoid_interference v" using ku(3) v(2) by (simp add: kept_def)
  then have "hears_free board_rak4631 (quiet 1100) v" by (rule hears_free_quiet)
  then have "free_run board_rak4631 [quiet 1000, quiet 1050, quiet 1100] demo_node"
    using u(1) v(1) hears_free_quiet [OF d(5)] hears_free_quiet [OF ku(3)] by (simp split: option.splits outcome.splits)
  then show ?thesis using u(1) v(1) that by blast
qed

lemma demo_sends:
  assumes "csma_pass board_rak4631 (quiet 1000) demo_node = Some (Ret u)" "csma_pass board_rak4631 (quiet 1050) u = Some (Ret v)"
  shows "\<exists>t. csma_pass board_rak4631 (quiet 1100) v = Some (Ret t) \<and> aired t \<noteq> aired v \<and> difs_ms v = 48 \<and> active v \<and> kept demo_node v"
proof -
  note d = demo_node_fields
  have f: "free_run board_rak4631 (quiet 1000 # [] @ [quiet 1050] @ [] @ [quiet 1100]) demo_node"
    using demo_run unfolding append.simps by blast
  have "\<exists>v m. csma_run board_rak4631 (quiet 1000 # [] @ [quiet 1050] @ []) demo_node = Some (Ret v) \<and> kept demo_node v \<and>
      hears_free board_rak4631 (quiet 1100) v \<and> csma_pass board_rak4631 (quiet 1100) v = send_queue board_rak4631 (quiet 1100) m \<and> kept demo_node m"
    by (rule free_medium_run [OF d(13,2) _ _ _ _ f, where start = 1050 and ?e1.0 = "quiet 1050"]) (simp_all add: d)
  then obtain v' m where v: "csma_run board_rak4631 [quiet 1000, quiet 1050] demo_node = Some (Ret v')" "kept demo_node v'"
    "csma_pass board_rak4631 (quiet 1100) v' = send_queue board_rak4631 (quiet 1100) m" "kept demo_node m"
    unfolding append.simps by blast
  have "v' = v" using v(1) assms by simp
  have m: "queue_rep board_rak4631 0 [[7]] [] m" "ready_to_send m" "\<not> queue_flushing m" "\<not> lora_limit_rate m" "\<not> lora_guard_rate m"
    "aired m = []" "aired v = []" "difs_ms v = 48" "active v"
    using demo_node_rep queue_rep_kept [OF v(4)] v(2,4) d kept_params [OF v(2)] unfolding \<open>v' = v\<close>
    by (simp_all add: ready_to_send_def) (simp_all add: kept_def)
  have "\<exists>t. send_queue board_rak4631 (quiet 1100) m = Some (Ret t) \<and> aired t = aired m @ frames_of (headers (quiet 1100)) (length (aired m)) [[7]] \<and>
      queue_rep board_rak4631 (0 + total_len [[7]]) [] [] t"
    by (rule send_queue_flushes) (use m rak4631_geometry in simp_all)
  then show ?thesis using v(2,3) m unfolding \<open>v' = v\<close> by (auto simp: tx_frames_single)
qed

section \<open>Properties\<close>





text \<open>
  C36: after a transmission the random wait is skipped. The start of the contention window is not reset when the
  queue has been sent, so for the next packet the whole time since the last transmission counts as
  waited: on a free medium the packet is sent in the first pass after the interframe space, without
  any random slots, unlike the first packet, for which that pass only starts the window.
\<close>

theorem random_wait_is_skipped_after_transmission:
  assumes "csma_pass b e s = Some (Ret t)" "aired t \<noteq> aired s" "now e \<noteq> - 1"
    and "difs_wait_start u = difs_wait_start t" "cw_wait_start u = cw_wait_start t" "cw_wait_passed u = cw_wait_passed t" "csma_cw u = csma_cw t"
    and "active u" "hears_free b e1 u" "now e1 \<noteq> - 1" "csma_pass b e1 u = Some (Ret v)"
    and "hears_free b e2 v" "now e1 + word_of_int (difs_ms u) \<le> now e2"
    and "cw_wait_target (draw_window (drawn e1) u) \<le> now e2 - now e"
  shows "(\<exists>m. csma_pass b e2 v = send_queue b e2 m \<and> kept v m) \<and>
         (csma_pass b e1 (u\<lparr>cw_wait_start := - 1\<rparr>) = Some (Ret v') \<and> hears_free b e2 v' \<longrightarrow>
            (\<exists>m. csma_pass b e2 v' = Some (Ret m) \<and> aired m = aired u))"
proof -
  have u: "difs_wait_start u = - 1" "cw_wait_start u = now e" "cw_wait_passed u = 0" "csma_cw u = - 1"
    using pass_sends_resets [OF assms(1,2)] assms(4-7) by simp_all
  let ?t = "cw_wait_target (draw_window (drawn e1) u)"
  have v: "kept u v" "waits (now e1) (now e) 0 ?t v"
    using pass_starts [OF assms(8,9) u(1)] u assms(11) by simp_all
  have k: "active v" "difs_ms v = difs_ms u" using kept_params [OF v(1)] assms(8) by simp_all
  have 1: "\<exists>m. csma_pass b e2 v = send_queue b e2 m \<and> kept v m"
    using pass_after_window [OF k(1) assms(12) v(2) assms(10)] assms(3,13,14) k(2) by (auto simp: not_less)
  let ?u = "u\<lparr>cw_wait_start := - 1\<rparr>"
  have 2: "\<exists>m. csma_pass b e2 v' = Some (Ret m) \<and> aired m = aired u"
    if "csma_pass b e1 ?u = Some (Ret v')" "hears_free b e2 v'"
  proof -
    have "active ?u" "hears_free b e1 ?u" "difs_wait_start ?u = - 1"
      using assms(8,9) u by (simp_all add: active_def hears_free_window)
    from pass_starts [OF this] that(1)
    have v': "kept ?u v'" "waits (now e1) (- 1) 0 (cw_wait_target (draw_window (drawn e1) ?u)) v'" using u by simp_all
    have k': "active v'" "difs_ms v' = difs_ms u" using kept_params [OF v'(1)] assms(8) by (simp_all add: active_def)
    show ?thesis
      using pass_starts_window [OF k'(1) that(2) v'(2) assms(10)] assms(13) k'(2) v'(1) by (auto simp: kept_def not_less)
  qed
  show ?thesis using 1 2 by blast
qed

theorem random_wait_is_skipped_after_transmission_witness:
  "\<exists>s t u v m. csma_pass board_rak4631 (quiet 1100) s = Some (Ret (t :: csma)) \<and> aired t \<noteq> aired s \<and>
     csma_pass board_rak4631 (quiet 2000) u = Some (Ret (v :: csma)) \<and>
     csma_pass board_rak4631 (quiet 2048) v = send_queue board_rak4631 (quiet 2048) m"
proof -
  obtain x s where r: "csma_pass board_rak4631 (quiet 1000) demo_node = Some (Ret x)" "csma_pass board_rak4631 (quiet 1050) x = Some (Ret s)"
    using demo_run by blast
  obtain t where t: "csma_pass board_rak4631 (quiet 1100) s = Some (Ret t)" "aired t \<noteq> aired s" "difs_ms s = 48" "active s" "kept demo_node s"
    using demo_sends [OF r] by blast
  define u where "u = s\<lparr>difs_wait_start := difs_wait_start t, cw_wait_start := cw_wait_start t,
      cw_wait_passed := cw_wait_passed t, csma_cw := csma_cw t\<rparr>"
  have f: "difs_wait_start u = difs_wait_start t" "cw_wait_start u = cw_wait_start t" "cw_wait_passed u = cw_wait_passed t" "csma_cw u = csma_cw t"
    "active u" "difs_ms u = 48" "kept demo_node u"
    using t(3,4,5) by (simp_all add: u_def active_def) (simp_all add: kept_def)
  have p: "\<not> avoid_interference u" "csma_slot_ms u = 24" "cw_min u = 0" "cw_max u = 15"
    using f(7) demo_node_fields(5) demo_node_params by (simp_all add: kept_def)
  have q: "difs_wait_start u = - 1" "csma_cw u = - 1" using pass_sends_resets [OF t(1,2)] f by simp_all
  have h: "hears_free board_rak4631 (quiet 2000) u" by (rule hears_free_quiet [OF p(1)])
  obtain v where v: "csma_pass board_rak4631 (quiet 2000) u = Some (Ret v)" "kept u v"
    using pass_starts [OF f(5) h q(1)] by blast
  have hv: "hears_free board_rak4631 (quiet 2048) v" using v(2) p(1) by (intro hears_free_quiet) (simp add: kept_def)
  have tg: "cw_wait_target (draw_window 2 u) = 48"
    using q(2) p by (simp add: draw_window_def Let_def arduino_random_def)
  have "\<exists>m. csma_pass board_rak4631 (quiet 2048) v = send_queue board_rak4631 (quiet 2048) m \<and> kept v m"
    by (rule random_wait_is_skipped_after_transmission [THEN conjunct1, OF t(1,2) _ f(1-5) h _ v(1) hv])
      (simp_all add: f(6) tg)
  then show ?thesis using t(1,2) v(1) by blast
qed

end
