(* ===== verification/Espnow.thy ===== *)
theory Espnow
  imports Csma
begin

text \<open>
  The ESP-NOW transport (\<^verbatim>\<open>ESPNOW.h\<close>): a second interface towards the host (virtual port 1) whose
  packets travel in Wi-Fi frames of at most 250 bytes. \<open>espnow_send\<close> cuts a packet into chunks and
  queues them, \<open>update_espnow_tx\<close> hands one chunk at a time to the Wi-Fi driver and waits for its
  callback, \<open>espnow_recv_cb\<close> puts chunks together again, and \<open>update_espnow\<close> writes received packets
  to the host. The FreeRTOS queues are lists of bounded length, \<open>None\<close> before they are created; what
  the Wi-Fi driver, the heap and the random generator answer are arguments.
\<close>

section \<open>State\<close>

abbreviation (input) ESPNOW_QUEUE_SIZE :: nat where "ESPNOW_QUEUE_SIZE \<equiv> 8"
abbreviation (input) ESPNOW_RAW_MTU :: nat where "ESPNOW_RAW_MTU \<equiv> 250"
abbreviation (input) ESPNOW_CHUNK_SIZE :: nat where "ESPNOW_CHUNK_SIZE \<equiv> 249"
abbreviation (input) ESPNOW_FRAG_MORE :: u8 where "ESPNOW_FRAG_MORE \<equiv> 0x01"
abbreviation (input) ESPNOW_TX_QUEUE_SIZE :: nat where "ESPNOW_TX_QUEUE_SIZE \<equiv> 12"
abbreviation (input) ESPNOW_TX_BUF_SIZE :: nat where "ESPNOW_TX_BUF_SIZE \<equiv> MTU"
abbreviation (input) ESPNOW_BITRATE_NORMAL_BPS :: nat where "ESPNOW_BITRATE_NORMAL_BPS \<equiv> 1000000"
abbreviation (input) ESPNOW_BITRATE_LR_BPS :: nat where "ESPNOW_BITRATE_LR_BPS \<equiv> 250000"
abbreviation (input) WR_CHANNEL_DEFAULT :: u8 where "WR_CHANNEL_DEFAULT \<equiv> 1"
abbreviation (input) WR_WIFI_STA :: u8 where "WR_WIFI_STA \<equiv> 0x01"
abbreviation (input) WR_WIFI_AP :: u8 where "WR_WIFI_AP \<equiv> 0x02"
abbreviation (input) ESPNOW_FLASH_MS :: u32 where "ESPNOW_FLASH_MS \<equiv> 300"

datatype wifi_call =
    WifiModeSta | SetProtocolLr | SetPsNone | SetChannel u8 | NowInit | RegisterCallbacks | AddPeer u8 | WifiRemoteInit

record espnow_packet =
  ep_rssi :: int
  ep_snr_raw :: int
  ep_mac :: "u8 list"
  ep_data :: "u8 list"

record espnow_vport_cfg =
  frequency :: u32
  bandwidth :: u32
  txpower :: u8
  sf :: u8
  cr :: u8
  st_alock :: u16
  lt_alock :: u16
  radio_state :: u8

record espnow = csma +
  espnow_packet_queue :: "espnow_packet list option"
  espnow_ready :: bool
  selected_vport :: u8
  espnow_vport_cfg :: espnow_vport_cfg
  espnow_enabled :: bool
  espnow_mode :: u8
  espnow_lr_enabled :: bool
  urns_interface_mode :: u8
  espnow_display_rx :: bool
  espnow_display_tx :: bool
  espnow_flash_until :: u32
  np_pixel :: "u8 \<times> u8 \<times> u8"
  espnow_tx_queue :: "u8 list list option"
  espnow_tx_busy :: bool
  espnow_rx_buf :: "u8 list"
  espnow_rx_len :: nat
  espnow_rx_seq :: u8
  espnow_tx_buf :: "u8 list"
  espnow_tx_len :: nat
  urns_rx_staging_buf_espnow :: "u8 list"
  urns_rx_staging_len_espnow :: nat
  urns_rx_pending_espnow :: bool
  urns_espnow_bitrate :: nat
  wr_channel :: u8
  wifi_calls :: "wifi_call list"
  espnow_aired :: "u8 list list"

text \<open>What the Wi-Fi driver reports with a frame, and whether \<open>malloc\<close> succeeds.\<close>

record espnow_recv_info =
  rx_ctrl :: "(int \<times> int) option"
  src_addr :: "u8 list"
  heap_ok :: bool

section \<open>Mode tests\<close>

definition urns_wants_lora :: "board \<Rightarrow> 'a espnow_scheme \<Rightarrow> bool" where
  "urns_wants_lora b s \<longleftrightarrow> \<not> has_espnow b \<or> urns_interface_mode s \<noteq> URNS_INTERFACE_ESPNOW_ONLY"

definition urns_wants_espnow :: "board \<Rightarrow> 'a espnow_scheme \<Rightarrow> bool" where
  "urns_wants_espnow b s \<longleftrightarrow> has_espnow b \<and>
     (urns_interface_mode s = URNS_INTERFACE_ESPNOW_ONLY \<or> urns_interface_mode s = URNS_INTERFACE_BOTH)"

definition espnow_ui_active :: "board \<Rightarrow> 'a espnow_scheme \<Rightarrow> bool" where
  "espnow_ui_active b s \<longleftrightarrow>
     (if has_urns b \<and> urns_wants_espnow b s then espnow_ready s
      else espnow_enabled s \<and> espnow_ready s \<and> radio_state (espnow_vport_cfg s) = RADIO_STATE_ON)"

definition espnow_wifi_disabled :: "'a espnow_scheme \<Rightarrow> bool" where
  "espnow_wifi_disabled s \<longleftrightarrow> espnow_enabled s \<and> espnow_lr_enabled s"

section \<open>The light\<close>

definition npset :: "u8 \<Rightarrow> u8 \<Rightarrow> u8 \<Rightarrow> 'a espnow_scheme \<Rightarrow> 'a espnow_scheme" where
  "npset r g bl s = s\<lparr>np_pixel := (r, g, bl)\<rparr>"

definition espnow_flash_rx :: "'a espnow_scheme \<Rightarrow> 'a espnow_scheme" where
  "espnow_flash_rx s = (npset 0xFF 0xFF 0x00 s)\<lparr>espnow_flash_until := millis s + ESPNOW_FLASH_MS\<rparr>"

definition espnow_flash_tx :: "'a espnow_scheme \<Rightarrow> 'a espnow_scheme" where
  "espnow_flash_tx s = (npset 0xFF 0x50 0x00 s)\<lparr>espnow_flash_until := millis s + ESPNOW_FLASH_MS\<rparr>"

definition espnow_led_update :: "'a espnow_scheme \<Rightarrow> 'a espnow_scheme" where
  "espnow_led_update s =
     (if espnow_flash_until s \<noteq> 0 \<and> 0 \<le> sint (millis s - espnow_flash_until s)
      then (npset 0 0 0 s)\<lparr>espnow_flash_until := 0\<rparr>
      else if espnow_flash_until s = 0 then npset 0 0 0 s else s)"

section \<open>Receiving\<close>

definition urns_stage_incoming_espnow :: "u8 list \<Rightarrow> 'a espnow_scheme \<Rightarrow> 'a espnow_scheme" where
  "urns_stage_incoming_espnow data s =
     (if urns_rx_pending_espnow s then s
      else (let data = take MTU data
            in s\<lparr>urns_rx_staging_buf_espnow := copy_into data (urns_rx_staging_buf_espnow s),
                 urns_rx_staging_len_espnow := length data, urns_rx_pending_espnow := True\<rparr>))"

text \<open>RSSI minus noise floor in quarters of a decibel, kept in the range of a signed byte.\<close>

definition espnow_snr_raw :: "espnow_recv_info \<Rightarrow> int" where
  "espnow_snr_raw info =
     (let snr_db = (case rx_ctrl info of None \<Rightarrow> 0 | Some (sig, nf) \<Rightarrow> sig - nf);
          q = snr_db * 4;
          q = (if q > 127 then 127 else q)
      in if q < - 128 then - 128 else q)"

definition espnow_rx_deliver :: "board \<Rightarrow> espnow_recv_info \<Rightarrow> u8 list \<Rightarrow> 'a espnow_scheme \<Rightarrow> 'a espnow_scheme" where
  "espnow_rx_deliver b info payload s =
     (let s = (if has_urns b \<and> urns_wants_espnow b s then urns_stage_incoming_espnow payload s else s);
          s = s\<lparr>espnow_display_rx := True\<rparr>;
          s = (if has_np b \<and> espnow_ui_active b s then espnow_flash_rx s else s)
      in if \<not> heap_ok info then s\<lparr>memory_low := True\<rparr>
         else
           (let p = \<lparr>ep_rssi = (case rx_ctrl info of None \<Rightarrow> 0 | Some (sig, nf) \<Rightarrow> sig),
                     ep_snr_raw = espnow_snr_raw info, ep_mac = src_addr info, ep_data = payload\<rparr>
            in case espnow_packet_queue s of
                 None \<Rightarrow> s
               | Some q \<Rightarrow> if length q < ESPNOW_QUEUE_SIZE then s\<lparr>espnow_packet_queue := Some (q @ [p])\<rparr> else s))"

definition espnow_recv_cb :: "board \<Rightarrow> espnow_recv_info \<Rightarrow> u8 list \<Rightarrow> 'a espnow_scheme \<Rightarrow> 'a espnow_scheme" where
  "espnow_recv_cb b info data s =
     (if length data = 0 then s
      else if espnow_mode s = ESPNOW_MODE_V2 then
        (if length data > length (espnow_rx_buf s) then s else espnow_rx_deliver b info data s)
      else if length data \<le> 1 then s
      else
        (let header = hd data; sq = header AND NIBBLE_SEQ; more = (header AND ESPNOW_FRAG_MORE \<noteq> 0);
             chunk = tl data;
             s = (if sq \<noteq> espnow_rx_seq s then s\<lparr>espnow_rx_len := 0, espnow_rx_seq := sq\<rparr> else s)
         in if espnow_rx_len s + length chunk > length (espnow_rx_buf s) then
              s\<lparr>espnow_rx_len := 0, espnow_rx_seq := SEQ_UNSET\<rparr>
            else
              (let s = s\<lparr>espnow_rx_buf := copy_at (espnow_rx_len s) chunk (espnow_rx_buf s),
                         espnow_rx_len := espnow_rx_len s + length chunk\<rparr>
               in if more then s
                  else
                    (let s = s\<lparr>espnow_rx_seq := SEQ_UNSET\<rparr>;
                         s = espnow_rx_deliver b info (take (espnow_rx_len s) (espnow_rx_buf s)) s
                     in s\<lparr>espnow_rx_len := 0\<rparr>))))"

section \<open>Sending\<close>

definition espnow_send_cb :: "'a espnow_scheme \<Rightarrow> 'a espnow_scheme" where
  "espnow_send_cb s = s\<lparr>espnow_tx_busy := False\<rparr>"

definition espnow_send_chunk :: "u8 list \<Rightarrow> 'a espnow_scheme \<Rightarrow> bool \<times> 'a espnow_scheme" where
  "espnow_send_chunk data s =
     (case espnow_tx_queue s of
        None \<Rightarrow> (False, s)
      | Some q \<Rightarrow>
          if \<not> espnow_ready s then (False, s)
          else if length q < ESPNOW_TX_QUEUE_SIZE then (True, s\<lparr>espnow_tx_queue := Some (q @ [data])\<rparr>)
          else (False, s))"

text \<open>\<open>sent\<close> is the result of \<open>esp_now_send\<close>; a frame the driver takes is put on the air.\<close>

definition update_espnow_tx :: "bool \<Rightarrow> 'a espnow_scheme \<Rightarrow> 'a espnow_scheme" where
  "update_espnow_tx sent s =
     (if espnow_tx_busy s then s
      else case espnow_tx_queue s of
             None \<Rightarrow> s
           | Some [] \<Rightarrow> s
           | Some (chunk # q) \<Rightarrow>
               (let s = s\<lparr>espnow_tx_queue := Some q, espnow_tx_busy := True\<rparr>
                in if sent then s\<lparr>espnow_aired := espnow_aired s @ [chunk]\<rparr> else s\<lparr>espnow_tx_busy := False\<rparr>))"

text \<open>The do-while loop over the chunks of a packet.\<close>

function espnow_send_loop ::
  "u8 \<Rightarrow> u8 list \<Rightarrow> nat \<Rightarrow> bool \<Rightarrow> 'a espnow_scheme \<Rightarrow> bool \<times> 'a espnow_scheme" where
  "espnow_send_loop header data offset all_ok s =
     (let remaining = length data - offset;
          chunk_len = (if remaining > ESPNOW_CHUNK_SIZE then ESPNOW_CHUNK_SIZE else remaining);
          more = (offset + chunk_len < length data);
          (ok, s) = espnow_send_chunk
            ((header OR (if more then ESPNOW_FRAG_MORE else 0)) # take chunk_len (drop offset data)) s;
          all_ok = (ok \<and> all_ok)
      in if offset + chunk_len < length data
         then espnow_send_loop header data (offset + chunk_len) all_ok s else (all_ok, s))"
  by pat_completeness auto
termination
  by (relation "measure (\<lambda>(header, data, offset, all_ok, s). length data - offset)") auto

definition espnow_send :: "board \<Rightarrow> u8 \<Rightarrow> u8 list \<Rightarrow> 'a espnow_scheme \<Rightarrow> bool \<times> 'a espnow_scheme" where
  "espnow_send b rnd data s =
     (let (all_ok, s) =
            (if espnow_mode s = ESPNOW_MODE_V2 then espnow_send_chunk data s
             else espnow_send_loop (rnd AND NIBBLE_SEQ) data 0 True s);
          s = s\<lparr>espnow_display_tx := True\<rparr>
      in (all_ok, if has_np b \<and> espnow_ui_active b s then espnow_flash_tx s else s))"

section \<open>The host's view\<close>

definition kiss_indicate_interfaces :: "board \<Rightarrow> 'a espnow_scheme \<Rightarrow> 'a espnow_scheme" where
  "kiss_indicate_interfaces b s =
     (let s = reply b CMD_INTERFACES [0x00, KISS_SX1262] [] s
      in if espnow_ready s then reply b CMD_INTERFACES [0x01, KISS_SX1262] [] s else s)"

definition v1_reply :: "board \<Rightarrow> u8 \<Rightarrow> u8 list \<Rightarrow> u8 list \<Rightarrow> 'a host_scheme \<Rightarrow> 'a host_scheme" where
  "v1_reply b c raw esc s = reply b c raw esc (kiss_select_interface b 1 s)"

definition kiss_indicate_v1_frequency :: "board \<Rightarrow> 'a espnow_scheme \<Rightarrow> 'a espnow_scheme" where
  "kiss_indicate_v1_frequency b s = v1_reply b CMD_FREQUENCY [] (be32 (frequency (espnow_vport_cfg s))) s"

definition kiss_indicate_v1_bandwidth :: "board \<Rightarrow> 'a espnow_scheme \<Rightarrow> 'a espnow_scheme" where
  "kiss_indicate_v1_bandwidth b s = v1_reply b CMD_BANDWIDTH [] (be32 (bandwidth (espnow_vport_cfg s))) s"

definition kiss_indicate_v1_txpower :: "board \<Rightarrow> 'a espnow_scheme \<Rightarrow> 'a espnow_scheme" where
  "kiss_indicate_v1_txpower b s = v1_reply b CMD_TXPOWER [txpower (espnow_vport_cfg s)] [] s"

definition kiss_indicate_v1_sf :: "board \<Rightarrow> 'a espnow_scheme \<Rightarrow> 'a espnow_scheme" where
  "kiss_indicate_v1_sf b s = v1_reply b CMD_SF [sf (espnow_vport_cfg s)] [] s"

definition kiss_indicate_v1_cr :: "board \<Rightarrow> 'a espnow_scheme \<Rightarrow> 'a espnow_scheme" where
  "kiss_indicate_v1_cr b s = v1_reply b CMD_CR [cr (espnow_vport_cfg s)] [] s"

definition kiss_indicate_v1_radiostate :: "board \<Rightarrow> 'a espnow_scheme \<Rightarrow> 'a espnow_scheme" where
  "kiss_indicate_v1_radiostate b s = v1_reply b CMD_RADIO_STATE [radio_state (espnow_vport_cfg s)] [] s"

definition kiss_indicate_v1_st_alock :: "board \<Rightarrow> 'a espnow_scheme \<Rightarrow> 'a espnow_scheme" where
  "kiss_indicate_v1_st_alock b s = v1_reply b CMD_ST_ALOCK [] (be16 (st_alock (espnow_vport_cfg s))) s"

definition kiss_indicate_v1_lt_alock :: "board \<Rightarrow> 'a espnow_scheme \<Rightarrow> 'a espnow_scheme" where
  "kiss_indicate_v1_lt_alock b s = v1_reply b CMD_LT_ALOCK [] (be16 (lt_alock (espnow_vport_cfg s))) s"

definition kiss_indicate_v1_stat_rssi :: "board \<Rightarrow> int \<Rightarrow> 'a host_scheme \<Rightarrow> 'a host_scheme" where
  "kiss_indicate_v1_stat_rssi b sig s = v1_reply b CMD_STAT_RSSI [] [word_of_int (sig + rssi_offset)] s"

definition kiss_indicate_v1_stat_snr :: "board \<Rightarrow> int \<Rightarrow> 'a host_scheme \<Rightarrow> 'a host_scheme" where
  "kiss_indicate_v1_stat_snr b snr_raw s = v1_reply b CMD_STAT_SNR [] [word_of_int snr_raw] s"

text \<open>
  The frame is assembled in a buffer of \<open>2*MTU+8\<close> bytes and written in one call, to the Wi-Fi
  connection or the USB port; \<open>room\<close> is the number of bytes that call takes.
\<close>

abbreviation (input) FRAME_BUF :: nat where "FRAME_BUF \<equiv> 1024"

fun espnow_frame_bytes :: "u8 list \<Rightarrow> nat \<Rightarrow> u8 list" where
  "espnow_frame_bytes [] n = []"
| "espnow_frame_bytes (x # xs) n =
     (if n < FRAME_BUF - 2 then
        (let (x, pre) = (if x = FEND then (TFEND, [FESC]) else (x, []));
             (x, pre) = (if x = FESC then (TFESC, pre @ [FESC]) else (x, pre))
         in pre @ [x] @ espnow_frame_bytes xs (n + length pre + 1))
      else [])"

definition bulk_write :: "board \<Rightarrow> nat \<Rightarrow> u8 list \<Rightarrow> 'a host_scheme \<Rightarrow> 'a host_scheme" where
  "bulk_write b room xs s =
     foldl (\<lambda>s x. put (if has_wifi b \<and> wifi_host_is_connected s then Wifi else Usb) x s) s (take room xs)"

definition kiss_write_espnow_packet :: "board \<Rightarrow> nat \<Rightarrow> u8 list \<Rightarrow> 'a host_scheme \<Rightarrow> 'a host_scheme" where
  "kiss_write_espnow_packet b room data s =
     bulk_write b room ([FEND, CMD_DATA] @ espnow_frame_bytes data 2 @ [FEND]) (kiss_select_interface b 1 s)"

definition update_espnow :: "board \<Rightarrow> nat \<Rightarrow> 'a espnow_scheme \<Rightarrow> 'a espnow_scheme" where
  "update_espnow b room s =
     (case espnow_packet_queue s of
        Some (p # q) \<Rightarrow>
          kiss_write_espnow_packet b room (ep_data p)
            (kiss_indicate_v1_stat_snr b (ep_snr_raw p) (kiss_indicate_v1_stat_rssi b (ep_rssi p)
              (s\<lparr>espnow_packet_queue := Some q\<rparr>)))
      | _ \<Rightarrow> s)"

section \<open>Start-up and main loop\<close>

text \<open>
  \<open>mode_null\<close>: \<open>WiFi.getMode() == WIFI_MODE_NULL\<close>; \<open>associated\<close>: \<open>WiFi.status() == WL_CONNECTED\<close>;
  \<open>init_ok\<close> and \<open>peer_ok\<close>: \<open>esp_now_init\<close> and \<open>esp_now_add_peer\<close> succeed.
\<close>

record wifi_env =
  mode_null :: bool
  associated :: bool
  init_ok :: bool
  peer_ok :: bool

definition wifi_do :: "wifi_call \<Rightarrow> 'a espnow_scheme \<Rightarrow> 'a espnow_scheme" where
  "wifi_do c s = s\<lparr>wifi_calls := wifi_calls s @ [c]\<rparr>"

definition espnow_init :: "wifi_env \<Rightarrow> 'a espnow_scheme \<Rightarrow> 'a espnow_scheme" where
  "espnow_init w s =
     (let s = s\<lparr>espnow_packet_queue := Some [], espnow_tx_queue := Some []\<rparr>;
          s = (if mode_null w then wifi_do WifiModeSta s else s);
          s = (if espnow_lr_enabled s then wifi_do SetProtocolLr s else s);
          s = wifi_do SetPsNone s;
          s = (if \<not> associated w then wifi_do (SetChannel (wr_channel s)) s else s);
          s = wifi_do NowInit s
      in if \<not> init_ok w then s
         else
           (let s = wifi_do (AddPeer (wr_channel s)) (wifi_do RegisterCallbacks s)
            in if \<not> peer_ok w then s else s\<lparr>espnow_ready := True\<rparr>))"

text \<open>
  The part of \<open>setup\<close> that reads the stored ESP-NOW and channel settings and starts Wi-Fi and ESP-NOW.
\<close>

definition espnow_setup :: "board \<Rightarrow> wifi_env \<Rightarrow> 'a espnow_scheme \<Rightarrow> 'a espnow_scheme" where
  "espnow_setup b w s =
     (let urns_espnow = has_urns b \<and> urns_wants_espnow b s;
          en = eeprom_read s (eeprom_addr b ADDR_CONF_ESPNOW);
          s = (if en = ESPNOW_ENABLE_BYTE then s\<lparr>espnow_enabled := True\<rparr>
               else if en = ESPNOW_DISABLE_BYTE then s\<lparr>espnow_enabled := False\<rparr> else s);
          s = s\<lparr>espnow_mode := (if eeprom_read s ADDR_CONF_ESPNOW_MODE = ESPNOW_MODE_V2 then ESPNOW_MODE_V2
                                 else ESPNOW_MODE_V1)\<rparr>;
          s = (if urns_espnow then s\<lparr>espnow_mode := ESPNOW_MODE_V2\<rparr> else s);
          s = s\<lparr>espnow_lr_enabled := (eeprom_read s ADDR_CONF_ESPNOW_LR = ESPNOW_LR_ENABLE_BYTE)\<rparr>;
          s = (if urns_espnow
               then s\<lparr>urns_espnow_bitrate := (if espnow_lr_enabled s then ESPNOW_BITRATE_LR_BPS else ESPNOW_BITRATE_NORMAL_BPS)\<rparr>
               else s);
          wifi_mode = eeprom_read s (eeprom_addr b ADDR_CONF_WIFI);
          ch = eeprom_read s (eeprom_addr b ADDR_CONF_WCHN);
          s = s\<lparr>wr_channel := (if ch < 1 \<or> ch > 14 then WR_CHANNEL_DEFAULT else ch)\<rparr>;
          s = (if \<not> espnow_wifi_disabled s \<and> (wifi_mode = WR_WIFI_STA \<or> wifi_mode = WR_WIFI_AP)
               then wifi_do WifiRemoteInit s else s)
      in if espnow_enabled s \<or> urns_espnow then espnow_init w s else s)"

text \<open>The part of \<open>loop\<close> that serves ESP-NOW.\<close>

definition espnow_loop :: "board \<Rightarrow> bool \<Rightarrow> nat \<Rightarrow> 'a espnow_scheme \<Rightarrow> 'a espnow_scheme" where
  "espnow_loop b sent room s =
     (if has_espnow b then
        if has_urns b then
          (let s = (if espnow_ready s then update_espnow_tx sent s else s)
           in if espnow_enabled s then update_espnow b room s else s)
        else if espnow_enabled s then update_espnow_tx sent (update_espnow b room s) else s
      else s)"

section \<open>Lemmas on chunks\<close>

function espnow_chunks :: "u8 \<Rightarrow> u8 list \<Rightarrow> u8 list list" where
  "espnow_chunks h p =
     (if length p \<le> ESPNOW_CHUNK_SIZE then [h # p]
      else ((h OR ESPNOW_FRAG_MORE) # take ESPNOW_CHUNK_SIZE p) # espnow_chunks h (drop ESPNOW_CHUNK_SIZE p))"
  by pat_completeness auto
termination
  by (relation "measure (\<lambda>(h, p). length p)") auto

declare espnow_chunks.simps [simp del] espnow_send_loop.simps [simp del]

lemma espnow_chunks_bound: "f \<in> set (espnow_chunks h p) \<Longrightarrow> length f \<le> ESPNOW_RAW_MTU"
proof (induction h p rule: espnow_chunks.induct)
  case (1 h p)
  then show ?case by (subst (asm) espnow_chunks.simps) (auto split: if_splits)
qed

lemma length_espnow_chunks: "length p \<le> MTU \<Longrightarrow> length (espnow_chunks h p) \<le> 3"
  by (subst espnow_chunks.simps, simp, subst espnow_chunks.simps, simp, subst espnow_chunks.simps, simp)

lemma espnow_send_chunk_queue:
  "espnow_ready s \<Longrightarrow> espnow_tx_queue s = Some q \<Longrightarrow> length q \<le> ESPNOW_TX_QUEUE_SIZE \<Longrightarrow>
    espnow_send_chunk c s =
      (length q < ESPNOW_TX_QUEUE_SIZE, s\<lparr>espnow_tx_queue := Some (take ESPNOW_TX_QUEUE_SIZE (q @ [c]))\<rparr>)"
  by (auto simp: espnow_send_chunk_def)

text \<open>All chunks are offered to the queue, which takes them until it is full.\<close>

lemma espnow_send_loop_queue:
  "espnow_ready s \<Longrightarrow> espnow_tx_queue s = Some q \<Longrightarrow> length q \<le> ESPNOW_TX_QUEUE_SIZE \<Longrightarrow> offset \<le> length data \<Longrightarrow>
    espnow_send_loop h data offset ok s =
      (ok \<and> length q + length (espnow_chunks h (drop offset data)) \<le> ESPNOW_TX_QUEUE_SIZE,
       s\<lparr>espnow_tx_queue := Some (take ESPNOW_TX_QUEUE_SIZE (q @ espnow_chunks h (drop offset data)))\<rparr>)"
proof (induction "length data - offset" arbitrary: offset ok s q rule: less_induct)
  case (less offset ok s q)
  show ?case
  proof (cases "length data - offset \<le> ESPNOW_CHUNK_SIZE")
    case True
    then have "espnow_chunks h (drop offset data) = [h # drop offset data]" by (subst espnow_chunks.simps) simp
    then show ?thesis using less.prems True
      by (subst espnow_send_loop.simps) (auto simp: espnow_send_chunk_queue Let_def)
  next
    case False
    let ?c = "(h OR ESPNOW_FRAG_MORE) # take ESPNOW_CHUNK_SIZE (drop offset data)"
    let ?t = "s\<lparr>espnow_tx_queue := Some (take ESPNOW_TX_QUEUE_SIZE (q @ [?c]))\<rparr>"
    have c: "espnow_chunks h (drop offset data) = ?c # espnow_chunks h (drop (offset + ESPNOW_CHUNK_SIZE) data)"
      using False by (subst espnow_chunks.simps) (simp add: add.commute)
    have lt: "offset + ESPNOW_CHUNK_SIZE < length data" using False by simp
    have gt: "ESPNOW_CHUNK_SIZE < length data - offset" using False by simp
    have step: "espnow_send_loop h data offset ok s =
        espnow_send_loop h data (offset + ESPNOW_CHUNK_SIZE) (length q < ESPNOW_TX_QUEUE_SIZE \<and> ok) ?t"
      using less.prems lt gt by (subst espnow_send_loop.simps) (simp add: espnow_send_chunk_queue Let_def)
    have IH: "espnow_send_loop h data (offset + ESPNOW_CHUNK_SIZE) (length q < ESPNOW_TX_QUEUE_SIZE \<and> ok) ?t =
        ((length q < ESPNOW_TX_QUEUE_SIZE \<and> ok) \<and> length (take ESPNOW_TX_QUEUE_SIZE (q @ [?c])) +
            length (espnow_chunks h (drop (offset + ESPNOW_CHUNK_SIZE) data)) \<le> ESPNOW_TX_QUEUE_SIZE,
         ?t\<lparr>espnow_tx_queue := Some (take ESPNOW_TX_QUEUE_SIZE
            (take ESPNOW_TX_QUEUE_SIZE (q @ [?c]) @ espnow_chunks h (drop (offset + ESPNOW_CHUNK_SIZE) data)))\<rparr>)"
      using less.prems lt gt by (intro less.hyps) simp_all
    show ?thesis unfolding step IH c using less.prems(3)
      by (cases "length q < ESPNOW_TX_QUEUE_SIZE") (auto simp: min_def)
  qed
qed

section \<open>Lemmas on reception\<close>

definition espnow_rx_inv :: "'a espnow_scheme \<Rightarrow> bool" where
  "espnow_rx_inv s \<longleftrightarrow> length (espnow_rx_buf s) = MTU \<and> espnow_rx_len s \<le> MTU \<and>
     (espnow_rx_seq s = SEQ_UNSET \<longrightarrow> espnow_rx_len s = 0) \<and>
     (case espnow_packet_queue s of None \<Rightarrow> True
      | Some q \<Rightarrow> length q \<le> ESPNOW_QUEUE_SIZE \<and> list_all (\<lambda>p. length (ep_data p) \<le> MTU) q)"

definition espnow_received :: "'a espnow_scheme \<Rightarrow> u8 list list" where
  "espnow_received s = (case espnow_packet_queue s of None \<Rightarrow> [] | Some q \<Rightarrow> map ep_data q)"

definition push_packet :: "u8 list \<Rightarrow> u8 list list \<Rightarrow> u8 list list" where
  "push_packet p ps = (if length ps < ESPNOW_QUEUE_SIZE then ps @ [p] else ps)"

lemma nibble_flags [simp]:
  "(rnd AND 0xF0) AND 0xF0 = (rnd AND 0xF0 :: u8)" "((rnd AND 0xF0) OR 1) AND 0xF0 = (rnd AND 0xF0 :: u8)"
  "(rnd AND 0xF0) AND 1 = (0 :: u8)" "((rnd AND 0xF0) OR 1) AND 1 = (1 :: u8)"
  by (rule bit_word_eqI, auto simp: bit_simps bit_1_iff bit_F0)+

lemma nibble_not_unset [simp]: "rnd AND 0xF0 \<noteq> (255 :: u8)" "(255 :: u8) \<noteq> rnd AND 0xF0"
proof -
  have "rnd AND 0xF0 = (255 :: u8) \<Longrightarrow> False"
    by (drule arg_cong [where f = "\<lambda>w. bit w 0"]) (simp add: bit_simps bit_F0)
  then show "rnd AND 0xF0 \<noteq> (255 :: u8)" "(255 :: u8) \<noteq> rnd AND 0xF0" by auto
qed

lemma espnow_rx_deliver_fields [simp]:
  "espnow_rx_buf (espnow_rx_deliver b info p s) = espnow_rx_buf s"
  "espnow_rx_len (espnow_rx_deliver b info p s) = espnow_rx_len s"
  "espnow_rx_seq (espnow_rx_deliver b info p s) = espnow_rx_seq s"
  "espnow_mode (espnow_rx_deliver b info p s) = espnow_mode s"
  by (simp_all add: espnow_rx_deliver_def Let_def urns_stage_incoming_espnow_def espnow_flash_rx_def npset_def
      split: option.split)

definition signal_of :: "espnow_recv_info \<Rightarrow> int" where
  "signal_of info = (case rx_ctrl info of None \<Rightarrow> 0 | Some (sig, nf) \<Rightarrow> sig)"

lemma espnow_rx_deliver_queue:
  "espnow_packet_queue (espnow_rx_deliver b info p s) =
     (if heap_ok info then
        map_option (\<lambda>q. if length q < ESPNOW_QUEUE_SIZE
                        then q @ [\<lparr>ep_rssi = signal_of info, ep_snr_raw = espnow_snr_raw info,
                                   ep_mac = src_addr info, ep_data = p\<rparr>] else q) (espnow_packet_queue s)
      else espnow_packet_queue s)"
  by (simp add: espnow_rx_deliver_def Let_def urns_stage_incoming_espnow_def espnow_flash_rx_def npset_def signal_of_def
      split: option.split)

lemma espnow_received_deliver:
  "heap_ok info \<Longrightarrow> espnow_packet_queue s \<noteq> None \<Longrightarrow>
    espnow_received (espnow_rx_deliver b info p s) = push_packet p (espnow_received s)"
  by (auto simp: espnow_received_def espnow_rx_deliver_queue push_packet_def)

text \<open>The state after the sequence number of a chunk has been looked at.\<close>

definition rx_track :: "u8 \<Rightarrow> 'a espnow_scheme \<Rightarrow> 'a espnow_scheme" where
  "rx_track sq s = (if sq \<noteq> espnow_rx_seq s then s\<lparr>espnow_rx_len := 0, espnow_rx_seq := sq\<rparr> else s)"

definition rx_append :: "u8 list \<Rightarrow> 'a espnow_scheme \<Rightarrow> 'a espnow_scheme" where
  "rx_append c s = s\<lparr>espnow_rx_buf := copy_at (espnow_rx_len s) c (espnow_rx_buf s),
                     espnow_rx_len := espnow_rx_len s + length c\<rparr>"

lemma espnow_recv_v1:
  assumes "espnow_mode s \<noteq> ESPNOW_MODE_V2" "c \<noteq> []"
  shows "espnow_recv_cb b info (h # c) s =
    (let t = rx_track (h AND NIBBLE_SEQ) s
     in if espnow_rx_len t + length c > length (espnow_rx_buf t) then t\<lparr>espnow_rx_len := 0, espnow_rx_seq := SEQ_UNSET\<rparr>
        else if h AND ESPNOW_FRAG_MORE \<noteq> 0 then rx_append c t
        else (espnow_rx_deliver b info (take (espnow_rx_len t) (espnow_rx_buf t) @ c)
               ((rx_append c t)\<lparr>espnow_rx_seq := SEQ_UNSET\<rparr>))\<lparr>espnow_rx_len := 0\<rparr>)"
  using assms
  by (simp add: espnow_recv_cb_def Let_def rx_track_def [symmetric] rx_append_def take_copy_at Suc_le_eq)

lemma rx_track_fields [simp]:
  "espnow_mode (rx_track q s) = espnow_mode s" "espnow_packet_queue (rx_track q s) = espnow_packet_queue s"
  "espnow_rx_buf (rx_track q s) = espnow_rx_buf s" "espnow_rx_seq (rx_track q s) = q"
  by (simp_all add: rx_track_def)

lemma rx_append_fields [simp]:
  "espnow_mode (rx_append c s) = espnow_mode s" "espnow_packet_queue (rx_append c s) = espnow_packet_queue s"
  "espnow_rx_seq (rx_append c s) = espnow_rx_seq s" "espnow_rx_len (rx_append c s) = espnow_rx_len s + length c"
  by (simp_all add: rx_append_def)

lemma espnow_received_simps [simp]:
  "espnow_received (s\<lparr>espnow_rx_len := n\<rparr>) = espnow_received s"
  "espnow_received (s\<lparr>espnow_rx_seq := q\<rparr>) = espnow_received s"
  "espnow_received (rx_append c s) = espnow_received s"
  "espnow_received (rx_track q s) = espnow_received s"
  by (simp_all add: espnow_received_def)

lemma rx_track_same [simp]: "espnow_rx_seq s = q \<Longrightarrow> rx_track q s = s"
  by (simp add: rx_track_def)

lemma espnow_rx_inv_queue:
  "length (espnow_rx_buf t) = MTU \<Longrightarrow> espnow_packet_queue t = espnow_packet_queue s \<Longrightarrow> espnow_rx_inv s \<Longrightarrow>
    espnow_rx_len t \<le> MTU \<Longrightarrow> (espnow_rx_seq t = SEQ_UNSET \<longrightarrow> espnow_rx_len t = 0) \<Longrightarrow> espnow_rx_inv t"
  by (simp add: espnow_rx_inv_def)

lemma espnow_rx_inv_deliver:
  assumes "espnow_rx_inv s" "length p \<le> MTU" "espnow_packet_queue t = espnow_packet_queue s"
    "length (espnow_rx_buf t) = MTU"
  shows "espnow_rx_inv ((espnow_rx_deliver b info p t)\<lparr>espnow_rx_len := 0\<rparr>)"
  using assms by (auto simp: espnow_rx_inv_def espnow_rx_deliver_queue split: option.splits)

text \<open>Reassembly of the chunks of one packet, from the second chunk on.\<close>

lemma espnow_recv_rest:
  assumes "h = rnd AND NIBBLE_SEQ"
  shows "espnow_rx_inv s \<Longrightarrow> espnow_mode s \<noteq> ESPNOW_MODE_V2 \<Longrightarrow> espnow_packet_queue s \<noteq> None \<Longrightarrow> heap_ok info \<Longrightarrow>
    espnow_rx_len (rx_track h s) + length p \<le> MTU \<Longrightarrow> p \<noteq> [] \<Longrightarrow>
    (let t = fold (espnow_recv_cb b info) (espnow_chunks h p) s
     in espnow_received t =
          push_packet (take (espnow_rx_len (rx_track h s)) (espnow_rx_buf s) @ p) (espnow_received s) \<and>
        espnow_rx_seq t = SEQ_UNSET \<and> espnow_rx_inv t \<and> espnow_mode t = espnow_mode s \<and> espnow_packet_queue t \<noteq> None)"
proof (induction "length p" arbitrary: p s rule: less_induct)
  case (less p s)
  have l: "length (espnow_rx_buf s) = MTU" using less.prems(1) by (simp add: espnow_rx_inv_def)
  let ?t = "rx_track h s"
  show ?case
  proof (cases "length p \<le> ESPNOW_CHUNK_SIZE")
    case True
    have c: "espnow_chunks h p = [h # p]" using True by (subst espnow_chunks.simps) simp
    let ?d = "espnow_rx_deliver b info (take (espnow_rx_len ?t) (espnow_rx_buf s) @ p)
               ((rx_append p ?t)\<lparr>espnow_rx_seq := SEQ_UNSET\<rparr>)"
    have r: "espnow_recv_cb b info (h # p) s = ?d\<lparr>espnow_rx_len := 0\<rparr>"
      using less.prems(2,5,6) l assms by (simp add: espnow_recv_v1 Let_def)
    have "espnow_rx_inv (?d\<lparr>espnow_rx_len := 0\<rparr>)"
      by (rule espnow_rx_inv_deliver [OF less.prems(1)]) (use less.prems(5) l in \<open>simp_all add: rx_append_def length_copy_at\<close>)
    then show ?thesis
      using less.prems(3,4) unfolding c by (simp add: r Let_def espnow_received_deliver espnow_rx_deliver_queue)
  next
    case False
    let ?c = "take ESPNOW_CHUNK_SIZE p"
    let ?u = "rx_append ?c ?t"
    have c: "espnow_chunks h p = ((h OR ESPNOW_FRAG_MORE) # ?c) # espnow_chunks h (drop ESPNOW_CHUNK_SIZE p)"
      using False by (subst espnow_chunks.simps) simp
    have n: "length ?c = ESPNOW_CHUNK_SIZE" using False by simp
    have r: "espnow_recv_cb b info ((h OR ESPNOW_FRAG_MORE) # ?c) s = ?u"
      using less.prems(2,5,6) l assms False by (simp add: espnow_recv_v1 Let_def)
    have u: "espnow_rx_inv ?u" "rx_track h ?u = ?u" "length (espnow_rx_buf ?u) = MTU"
    proof -
      show b: "length (espnow_rx_buf ?u) = MTU" using less.prems(5) n l by (simp add: rx_append_def length_copy_at)
      show "espnow_rx_inv ?u"
        by (rule espnow_rx_inv_queue [OF b _ less.prems(1)]) (use less.prems(5) assms n in simp_all)
    qed simp
    have take: "take (espnow_rx_len ?u) (espnow_rx_buf ?u) = take (espnow_rx_len ?t) (espnow_rx_buf s) @ ?c"
      using less.prems(5) n l take_copy_at [of "espnow_rx_len ?t" ?c "espnow_rx_buf s"] by (simp add: rx_append_def)
    have IH: "let t = fold (espnow_recv_cb b info) (espnow_chunks h (drop ESPNOW_CHUNK_SIZE p)) ?u
     in espnow_received t =
          push_packet (take (espnow_rx_len (rx_track h ?u)) (espnow_rx_buf ?u) @ drop ESPNOW_CHUNK_SIZE p) (espnow_received ?u) \<and>
        espnow_rx_seq t = SEQ_UNSET \<and> espnow_rx_inv t \<and> espnow_mode t = espnow_mode ?u \<and> espnow_packet_queue t \<noteq> None"
      by (rule less.hyps) (use False less.prems n u in simp_all)
    show ?thesis using IH unfolding c u(2) take by (simp add: r Let_def)
  qed
qed

section \<open>ESP-NOW as a packet link\<close>

text \<open>The frames of a packet in either wire format.\<close>

definition espnow_frames :: "u8 \<Rightarrow> u8 \<Rightarrow> u8 list \<Rightarrow> u8 list list" where
  "espnow_frames m rnd p = (if m = ESPNOW_MODE_V2 then [p] else espnow_chunks (rnd AND NIBBLE_SEQ) p)"

definition espnow_idle :: "espnow_recv_info \<Rightarrow> u8 \<Rightarrow> 'a espnow_scheme \<Rightarrow> bool" where
  "espnow_idle info m s \<longleftrightarrow> heap_ok info \<and> espnow_mode s = m \<and> espnow_packet_queue s \<noteq> None \<and>
     espnow_rx_inv s \<and> espnow_rx_seq s = SEQ_UNSET"

definition espnow_carried :: "u8 list \<Rightarrow> bool" where
  "espnow_carried p \<longleftrightarrow> p \<noteq> [] \<and> length p \<le> MTU"

lemma espnow_receive_packet:
  assumes "espnow_idle info m s" "espnow_carried p"
  shows "let t = fold (espnow_recv_cb b info) (espnow_frames m rnd p) s
    in espnow_received t = push_packet p (espnow_received s) \<and> espnow_idle info m t"
proof (cases "m = ESPNOW_MODE_V2")
  case True
  have l: "length (espnow_rx_buf s) = MTU" using assms(1) by (simp add: espnow_idle_def espnow_rx_inv_def)
  have r: "espnow_recv_cb b info p s = espnow_rx_deliver b info p s"
    using assms True l by (auto simp: espnow_recv_cb_def espnow_idle_def espnow_carried_def)
  have "espnow_rx_len s = 0" using assms(1) by (simp add: espnow_idle_def espnow_rx_inv_def)
  then have "(espnow_rx_deliver b info p s)\<lparr>espnow_rx_len := 0\<rparr> = espnow_rx_deliver b info p s"
    using espnow_rx_deliver_fields(2) [of b info p s] by simp
  then have "espnow_rx_inv (espnow_rx_deliver b info p s)"
    using espnow_rx_inv_deliver [of s p s b info] assms l by (simp add: espnow_idle_def espnow_carried_def)
  then show ?thesis using assms True r
    by (auto simp: espnow_frames_def Let_def espnow_received_deliver espnow_idle_def espnow_rx_deliver_queue)
next
  case False
  have "espnow_rx_len (rx_track (rnd AND NIBBLE_SEQ) s) = 0" using assms(1) by (simp add: rx_track_def espnow_idle_def)
  then show ?thesis
    using espnow_recv_rest [where h = "rnd AND NIBBLE_SEQ" and s = s and p = p and info = info and b = b, OF refl] assms False
    by (auto simp: espnow_idle_def espnow_carried_def espnow_frames_def Let_def)
qed

interpretation esp: packet_link "espnow_frames m" "espnow_recv_cb b info" espnow_received
  "espnow_idle info m" espnow_carried ESPNOW_QUEUE_SIZE for b info m
  by unfold_locales (use espnow_receive_packet [unfolded Let_def push_packet_def] in blast)+

section \<open>Properties\<close>

lemma espnow_send_queue:
  assumes "espnow_ready s" "espnow_tx_queue s = Some q" "length q \<le> ESPNOW_TX_QUEUE_SIZE" "length p \<le> MTU"
  shows "fst (espnow_send b rnd p s) \<longleftrightarrow> length q + length (espnow_frames (espnow_mode s) rnd p) \<le> ESPNOW_TX_QUEUE_SIZE"
    "espnow_tx_queue (snd (espnow_send b rnd p s)) =
       Some (take ESPNOW_TX_QUEUE_SIZE (q @ espnow_frames (espnow_mode s) rnd p))"
    "espnow_aired (snd (espnow_send b rnd p s)) = espnow_aired s"
    "espnow_tx_busy (snd (espnow_send b rnd p s)) = espnow_tx_busy s"
  using assms espnow_send_loop_queue [OF assms(1-3), of 0 p "rnd AND NIBBLE_SEQ" True]
  by (auto simp: espnow_send_def Let_def espnow_send_chunk_queue espnow_frames_def espnow_flash_tx_def npset_def)

text \<open>The driver's side: passes of the main loop and send callbacks, in any order.\<close>

datatype espnow_event = Tick bool | Sent

fun espnow_event_step :: "espnow_event \<Rightarrow> 'a espnow_scheme \<Rightarrow> 'a espnow_scheme" where
  "espnow_event_step (Tick ok) s = update_espnow_tx ok s"
| "espnow_event_step Sent s = espnow_send_cb s"

definition tx_pending :: "'a espnow_scheme \<Rightarrow> u8 list list" where
  "tx_pending s = (case espnow_tx_queue s of None \<Rightarrow> [] | Some q \<Rightarrow> q)"

lemma update_espnow_tx_pending:
  "espnow_aired (update_espnow_tx True s) @ tx_pending (update_espnow_tx True s) = espnow_aired s @ tx_pending s"
  by (auto simp: update_espnow_tx_def tx_pending_def Let_def split: option.splits list.splits)

definition tx_slots :: "'a espnow_scheme \<Rightarrow> nat" where
  "tx_slots s = length (espnow_aired s) + (if espnow_tx_busy s then 0 else 1)"

lemma tx_slots_step:
  "tx_slots (espnow_event_step e s) \<le> tx_slots s + (if e = Sent then 1 else 0)"
  by (cases e) (auto simp: tx_slots_def update_espnow_tx_def espnow_send_cb_def Let_def split: option.splits list.splits)

lemma tx_slots_run: "tx_slots (fold espnow_event_step es s) \<le> tx_slots s + length (filter (\<lambda>e. e = Sent) es)"
proof (induction es arbitrary: s)
  case (Cons e es)
  then have "tx_slots (fold espnow_event_step es (espnow_event_step e s)) \<le>
      tx_slots (espnow_event_step e s) + length (filter (\<lambda>e. e = Sent) es)" by blast
  moreover have "tx_slots (espnow_event_step e s) \<le> tx_slots s + (if e = Sent then 1 else 0)" by (rule tx_slots_step)
  ultimately show ?case by (cases e) simp_all
qed simp

text \<open>Enough rounds of a loop pass and its callback empty the queue onto the air.\<close>

definition tx_round :: "'a espnow_scheme \<Rightarrow> 'a espnow_scheme" where
  "tx_round s = espnow_send_cb (update_espnow_tx True s)"

lemma tx_rounds:
  "\<not> espnow_tx_busy s \<Longrightarrow> espnow_tx_queue s = Some q \<Longrightarrow> length q \<le> n \<Longrightarrow>
    espnow_aired ((tx_round ^^ n) s) = espnow_aired s @ q \<and> espnow_tx_queue ((tx_round ^^ n) s) = Some [] \<and>
    \<not> espnow_tx_busy ((tx_round ^^ n) s)"
proof (induction n arbitrary: s q)
  case (Suc n)
  let ?t = "tx_round s"
  have t: "\<not> espnow_tx_busy ?t" "espnow_tx_queue ?t = Some (tl q)" "espnow_aired ?t = espnow_aired s @ take 1 q"
    using Suc.prems by (auto simp: tx_round_def update_espnow_tx_def espnow_send_cb_def Let_def split: list.splits)
  have "take 1 q @ tl q = q" by (cases q) simp_all
  then show ?case using Suc.IH [OF t(1,2)] Suc.prems(3) t(3) by (simp add: funpow_swap1) 
qed simp

definition espnow_start :: "board \<Rightarrow> (nat \<Rightarrow> u8) \<Rightarrow> espnow" where
  "espnow_start b m = csma.extend (csma_blank b m)
     \<lparr>espnow_packet_queue = Some [], espnow_ready = True, selected_vport = 0,
      espnow_vport_cfg = \<lparr>frequency = 0, bandwidth = 0, txpower = 0, sf = 0, cr = 0, st_alock = 0, lt_alock = 0, radio_state = 0\<rparr>,
      espnow_enabled = False, espnow_mode = ESPNOW_MODE_V1, espnow_lr_enabled = False,
      urns_interface_mode = URNS_INTERFACE_LORA_ONLY, espnow_display_rx = False, espnow_display_tx = False,
      espnow_flash_until = 0, np_pixel = (0, 0, 0), espnow_tx_queue = Some [], espnow_tx_busy = False,
      espnow_rx_buf = replicate MTU 0, espnow_rx_len = 0, espnow_rx_seq = SEQ_UNSET,
      espnow_tx_buf = replicate MTU 0, espnow_tx_len = 0, urns_rx_staging_buf_espnow = replicate MTU 0,
      urns_rx_staging_len_espnow = 0, urns_rx_pending_espnow = False, urns_espnow_bitrate = 0, wr_channel = 1,
      wifi_calls = [], espnow_aired = []\<rparr>"

definition espnow_blank :: "board \<Rightarrow> espnow" where
  "espnow_blank b = espnow_start b (\<lambda>a. 0)"

definition board_meshpoe_s3 :: board where
  "board_meshpoe_s3 = board_esp32
     \<lparr>board_model := BOARD_MESHPOE_S3, modem := SX1262, is_esp32s3 := True, has_display := True, has_np := True,
      has_ble := True, has_wifi := True, has_espnow := True, has_ethernet := True, has_eeprom := True, has_lora_lna := True,
      has_rtc := True, has_urns := True\<rparr>"

definition strong_signal :: espnow_recv_info where
  "strong_signal = \<lparr>rx_ctrl = Some (- 40, - 95), src_addr = [0x24, 0x6F, 0x28, 1, 2, 3], heap_ok = True\<rparr>"

lemma espnow_blank_fields [simp]:
  "espnow_packet_queue (espnow_blank b) = Some []" "espnow_ready (espnow_blank b)" "espnow_mode (espnow_blank b) = ESPNOW_MODE_V1"
  "espnow_tx_queue (espnow_blank b) = Some []" "\<not> espnow_tx_busy (espnow_blank b)" "espnow_rx_buf (espnow_blank b) = replicate MTU 0"
  "espnow_rx_len (espnow_blank b) = 0" "espnow_rx_seq (espnow_blank b) = SEQ_UNSET" "espnow_aired (espnow_blank b) = []"
  by (simp_all add: espnow_blank_def espnow_start_def csma.defs)

lemma espnow_idle_blank: "espnow_idle strong_signal ESPNOW_MODE_V1 (espnow_blank b)"
  by (simp add: espnow_idle_def espnow_rx_inv_def strong_signal_def)

lemma espnow_received_blank [simp]: "espnow_received (espnow_blank b) = []"
  by (simp add: espnow_received_def)

text \<open>
  C28: a packet crosses the ESP-NOW link intact, in both wire formats. When a node with an empty transmit
  queue sends a packet of 1 to 508 bytes, \<open>espnow_send\<close> reports success, three passes of the main
  loop and their callbacks put all its frames on the air, and a node in the same mode that receives
  them between packets queues exactly that packet for its host and is between packets again.
\<close>

theorem espnow_packet_crosses_air:
  assumes "espnow_ready u" "espnow_tx_queue u = Some []" "\<not> espnow_tx_busy u" "p \<noteq> []" "length p \<le> MTU"
    and "heap_ok info" "espnow_mode s = espnow_mode u" "espnow_packet_queue s \<noteq> None" "espnow_rx_inv s" "espnow_rx_seq s = SEQ_UNSET"
  shows "fst (espnow_send b' rnd p u) \<and>
    (let v = (tx_round ^^ 3) (snd (espnow_send b' rnd p u));
         t = fold (espnow_recv_cb b info) (drop (length (espnow_aired u)) (espnow_aired v)) s
     in espnow_tx_queue v = Some [] \<and> espnow_received t = push_packet p (espnow_received s) \<and>
        espnow_rx_seq t = SEQ_UNSET \<and> espnow_rx_inv t)"
proof -
  let ?fs = "espnow_frames (espnow_mode u) rnd p"
  have n: "length ?fs \<le> 3" using length_espnow_chunks [OF assms(5)] by (simp add: espnow_frames_def)
  have q: "espnow_tx_queue (snd (espnow_send b' rnd p u)) = Some ?fs" "fst (espnow_send b' rnd p u)"
    "espnow_aired (snd (espnow_send b' rnd p u)) = espnow_aired u" "\<not> espnow_tx_busy (snd (espnow_send b' rnd p u))"
    using espnow_send_queue [OF assms(1,2) _ assms(5), of b' rnd] n assms(3) by simp_all
  have "espnow_idle info (espnow_mode u) s" using assms by (simp add: espnow_idle_def)
  then have "let t = fold (espnow_recv_cb b info) ?fs s
      in espnow_received t = push_packet p (espnow_received s) \<and> espnow_idle info (espnow_mode u) t"
    using espnow_receive_packet [of info "espnow_mode u" s p b rnd] assms(4,5) by (simp add: espnow_carried_def)
  then show ?thesis using tx_rounds [OF q(4,1) n] q(2,3) by (simp add: Let_def espnow_idle_def)
qed

theorem espnow_packet_crosses_air_witness:
  "espnow_received (fold (espnow_recv_cb board_meshpoe_s3 strong_signal)
     (espnow_aired ((tx_round ^^ 3) (snd (espnow_send board_meshpoe_s3 0x5A (replicate 508 7) (espnow_blank board_meshpoe_s3)))))
     (espnow_blank board_meshpoe_s3)) = [replicate 508 7]"
  using espnow_packet_crosses_air [of "espnow_blank board_meshpoe_s3" "replicate 508 7" strong_signal
      "espnow_blank board_meshpoe_s3" board_meshpoe_s3 "0x5A" board_meshpoe_s3] espnow_idle_blank [of board_meshpoe_s3]
  by (simp add: espnow_idle_def Let_def push_packet_def)

text \<open>
  A stream of packets crosses the ESP-NOW link. A node between packets that receives the frames of
  any sequence of packets of 1 to 508 bytes, in its wire format, queues these packets whole and in
  order, as many as its queue has room for.
\<close>

theorem espnow_packet_stream:
  assumes "heap_ok info" "espnow_packet_queue s \<noteq> None" "espnow_rx_inv s" "espnow_rx_seq s = SEQ_UNSET"
    and "list_all (\<lambda>(r, p). p \<noteq> [] \<and> length p \<le> MTU) ps"
  shows "espnow_received (fold (espnow_recv_cb b info) (concat (map (\<lambda>(r, p). espnow_frames (espnow_mode s) r p) ps)) s) =
         espnow_received s @ take (ESPNOW_QUEUE_SIZE - length (espnow_received s)) (map snd ps)"
proof -
  have i: "espnow_idle info (espnow_mode s) s" using assms(1-4) by (simp add: espnow_idle_def)
  have "list_all (\<lambda>(r, p). espnow_carried p) ps" using assms(5) by (simp add: espnow_carried_def)
  then show ?thesis using esp.stream_received [OF i] by blast
qed

theorem espnow_packet_stream_witness:
  "espnow_received (fold (espnow_recv_cb board_meshpoe_s3 strong_signal)
     (espnow_frames ESPNOW_MODE_V1 0x30 (replicate 300 1) @ espnow_frames ESPNOW_MODE_V1 0x30 [7]) (espnow_blank board_meshpoe_s3)) =
   [replicate 300 1, [7]]"
  using espnow_packet_stream [of strong_signal "espnow_blank board_meshpoe_s3" "[(0x30, replicate 300 1), (0x30, [7])]" board_meshpoe_s3]
    espnow_idle_blank [of board_meshpoe_s3]
  by (simp add: espnow_idle_def)

lemma espnow_rx_inv_recv:
  assumes i: "espnow_rx_inv s"
  shows "espnow_rx_inv (espnow_recv_cb b info f s)"
proof (cases "length f \<le> 1 \<or> espnow_mode s = ESPNOW_MODE_V2")
  case True
  have l: "length (espnow_rx_buf s) = MTU" using i by (simp add: espnow_rx_inv_def)
  have "espnow_rx_inv (espnow_rx_deliver b info f s)" if "length f \<le> MTU"
    using i that by (auto simp: espnow_rx_inv_def espnow_rx_deliver_queue split: option.splits)
  then show ?thesis using True i l by (auto simp: espnow_recv_cb_def)
next
  case False
  then obtain h c where f: "f = h # c" "c \<noteq> []" by (cases f) auto
  let ?t = "rx_track (h AND NIBBLE_SEQ) s"
  have l: "length (espnow_rx_buf ?t) = MTU" using i by (simp add: espnow_rx_inv_def)
  have over: "espnow_rx_inv (?t\<lparr>espnow_rx_len := 0, espnow_rx_seq := SEQ_UNSET\<rparr>)"
    by (rule espnow_rx_inv_queue [OF _ _ i]) (use l in simp_all)
  have app: "espnow_rx_inv (rx_append c ?t)" if "espnow_rx_len ?t + length c \<le> MTU"
    by (rule espnow_rx_inv_queue [OF _ _ i]) (use l that in \<open>simp_all add: rx_append_def length_copy_at\<close>)
  have del: "espnow_rx_inv ((espnow_rx_deliver b info (take (espnow_rx_len ?t) (espnow_rx_buf ?t) @ c)
      ((rx_append c ?t)\<lparr>espnow_rx_seq := SEQ_UNSET\<rparr>))\<lparr>espnow_rx_len := 0\<rparr>)" if "espnow_rx_len ?t + length c \<le> MTU"
    by (rule espnow_rx_inv_deliver [OF i]) (use l that in \<open>simp_all add: rx_append_def length_copy_at\<close>)
  show ?thesis unfolding f(1) using False l over app del
    by (subst espnow_recv_v1) (simp_all add: f(2) Let_def)
qed

text \<open>
  C29: ESP-NOW reception never writes past its buffer. Whatever bytes arrive, in either wire format and
  whether or not memory can be allocated, the reassembly buffer keeps its 508 bytes, the write
  position stays within it, the queue holds at most eight packets of at most 508 bytes each, and
  outside a sequence nothing is left in the buffer.
\<close>

theorem espnow_reception_is_safe:
  assumes "espnow_rx_inv s"
  shows "espnow_rx_inv (fold (espnow_recv_cb b info) frames s)"
  using assms by (induction frames arbitrary: s) (simp_all add: espnow_rx_inv_recv)

theorem espnow_reception_is_safe_witness:
  "espnow_rx_inv (fold (espnow_recv_cb board_meshpoe_s3 strong_signal) [replicate 250 1, replicate 250 1, replicate 250 1] (espnow_blank board_meshpoe_s3))"
  using espnow_reception_is_safe [of "espnow_blank board_meshpoe_s3"] espnow_idle_blank [of board_meshpoe_s3]
  unfolding espnow_idle_def by blast

text \<open>
  A lost frame makes the receiver queue a damaged packet. When the first frame of a packet of two
  frames is lost, its second frame is queued as a packet of its own; when the last frame is lost
  and the next packet has the same sequence tag, the two are queued as one packet.
\<close>

theorem espnow_lost_frame_damages_packet:
  assumes "heap_ok info" "espnow_packet_queue s \<noteq> None" "espnow_rx_inv s" "espnow_rx_seq s = SEQ_UNSET"
    and "espnow_mode s \<noteq> ESPNOW_MODE_V2" "ESPNOW_CHUNK_SIZE < length p" "length p \<le> 2 * ESPNOW_CHUNK_SIZE"
    and "q \<noteq> []" "length q \<le> ESPNOW_CHUNK_SIZE"
  shows "espnow_received (fold (espnow_recv_cb b info) (tl (espnow_frames (espnow_mode s) rnd p)) s) =
           push_packet (drop ESPNOW_CHUNK_SIZE p) (espnow_received s) \<and>
         espnow_received (fold (espnow_recv_cb b info)
             (butlast (espnow_frames (espnow_mode s) rnd p) @ espnow_frames (espnow_mode s) rnd q) s) =
           push_packet (take ESPNOW_CHUNK_SIZE p @ q) (espnow_received s)"
proof -
  let ?h = "rnd AND NIBBLE_SEQ"
  have c: "espnow_frames (espnow_mode s) rnd p = [(?h OR ESPNOW_FRAG_MORE) # take ESPNOW_CHUNK_SIZE p, ?h # drop ESPNOW_CHUNK_SIZE p]"
  proof -
    have "length (drop ESPNOW_CHUNK_SIZE p) \<le> ESPNOW_CHUNK_SIZE" using assms(7) by simp
    then have "espnow_chunks ?h (drop ESPNOW_CHUNK_SIZE p) = [?h # drop ESPNOW_CHUNK_SIZE p]"
      by (subst espnow_chunks.simps) simp
    then show ?thesis using assms(5,6) by (simp add: espnow_frames_def, subst espnow_chunks.simps) simp
  qed
  have d: "espnow_frames (espnow_mode s) rnd r = [?h # r]" if "length r \<le> ESPNOW_CHUNK_SIZE" for r
    using assms(5) that by (simp add: espnow_frames_def, subst espnow_chunks.simps, simp)
  have l: "length (espnow_rx_buf s) = MTU" using assms(3) by (simp add: espnow_rx_inv_def)
  have i: "espnow_idle info (espnow_mode s) s" using assms(1-4) by (simp add: espnow_idle_def)
  have 1: "espnow_received (espnow_recv_cb b info (?h # drop ESPNOW_CHUNK_SIZE p) s) =
      push_packet (drop ESPNOW_CHUNK_SIZE p) (espnow_received s)"
    using espnow_receive_packet [OF i, of "drop ESPNOW_CHUNK_SIZE p" b rnd] assms(6,7) d [of "drop ESPNOW_CHUNK_SIZE p"]
    by (simp add: espnow_carried_def Let_def)
  let ?u = "rx_append (take ESPNOW_CHUNK_SIZE p) (rx_track ?h s)"
  have t: "espnow_rx_len (rx_track ?h s) = 0" using assms(4) by (simp add: rx_track_def)
  have p: "p \<noteq> []" using assms(6) by auto
  have r: "espnow_recv_cb b info ((?h OR ESPNOW_FRAG_MORE) # take ESPNOW_CHUNK_SIZE p) s = ?u"
    using assms(5,6) l t p by (simp add: espnow_recv_v1 Let_def)
  have u: "espnow_rx_inv ?u" "rx_track ?h ?u = ?u" "espnow_mode ?u = espnow_mode s"
    using espnow_rx_inv_recv [OF assms(3), of b info "(?h OR ESPNOW_FRAG_MORE) # take ESPNOW_CHUNK_SIZE p"] r by simp_all
  have "take (espnow_rx_len ?u) (espnow_rx_buf ?u) = take ESPNOW_CHUNK_SIZE p"
    using t l assms(6) take_copy_at [of 0 "take ESPNOW_CHUNK_SIZE p" "espnow_rx_buf s"] by (simp add: rx_append_def)
  moreover have "espnow_chunks ?h q = [?h # q]" using d [OF assms(9)] assms(5) by (simp add: espnow_frames_def)
  ultimately have 2: "espnow_received (espnow_recv_cb b info (?h # q) ?u) = push_packet (take ESPNOW_CHUNK_SIZE p @ q) (espnow_received s)"
    using espnow_recv_rest [of ?h rnd ?u info q b] u assms t by (simp add: Let_def)
  show ?thesis using 1 2 r d [OF assms(9)] by (simp add: c)
qed

theorem espnow_lost_frame_damages_packet_witness:
  "espnow_received (fold (espnow_recv_cb board_meshpoe_s3 strong_signal)
     (butlast (espnow_frames ESPNOW_MODE_V1 0x30 (replicate 300 1)) @ espnow_frames ESPNOW_MODE_V1 0x30 [7]) (espnow_blank board_meshpoe_s3)) =
   [replicate 249 1 @ [7]]"
  using espnow_lost_frame_damages_packet [of strong_signal "espnow_blank board_meshpoe_s3" "replicate 300 1" "[7]" board_meshpoe_s3 "0x30"]
    espnow_idle_blank [of board_meshpoe_s3]
  by (simp add: espnow_idle_def push_packet_def)

text \<open>
  ESP-NOW frames are sent in order and one at a time. Whatever passes of the main loop and driver
  callbacks follow each other, at most one frame more than there were callbacks is handed to the
  driver; and while the driver takes every frame, the frames sent followed by the frames waiting
  are always the same sequence, so none is lost, repeated or overtaken.
\<close>

theorem espnow_frames_paced:
  "length (espnow_aired (fold espnow_event_step es s)) \<le> length (espnow_aired s) + length (filter (\<lambda>e. e = Sent) es) + 1 \<and>
   (Tick False \<notin> set es \<longrightarrow>
      espnow_aired (fold espnow_event_step es s) @ tx_pending (fold espnow_event_step es s) = espnow_aired s @ tx_pending s)"
proof -
  have "espnow_aired (espnow_event_step e s) @ tx_pending (espnow_event_step e s) = espnow_aired s @ tx_pending s"
    if "e \<noteq> Tick False" for e and s :: "'a espnow_scheme"
  proof (cases e)
    case (Tick ok)
    then show ?thesis using that update_espnow_tx_pending by (cases ok) simp_all
  qed (simp add: espnow_send_cb_def tx_pending_def)
  then have "Tick False \<notin> set es \<longrightarrow>
      espnow_aired (fold espnow_event_step es s) @ tx_pending (fold espnow_event_step es s) = espnow_aired s @ tx_pending s"
    by (induction es arbitrary: s) auto
  then show ?thesis using tx_slots_run [of es s] by (simp add: tx_slots_def split: if_splits)
qed

theorem espnow_frames_paced_witness:
  "espnow_aired (fold espnow_event_step [Tick True, Tick True, Sent, Tick True] ((espnow_blank board_meshpoe_s3)\<lparr>espnow_tx_queue := Some [[1], [2], [3]]\<rparr>)) @
   tx_pending (fold espnow_event_step [Tick True, Tick True, Sent, Tick True] ((espnow_blank board_meshpoe_s3)\<lparr>espnow_tx_queue := Some [[1], [2], [3]]\<rparr>)) =
   [[1], [2], [3]]"
  using espnow_frames_paced [of "[Tick True, Tick True, Sent, Tick True]" "(espnow_blank board_meshpoe_s3)\<lparr>espnow_tx_queue := Some [[1], [2], [3]]\<rparr>"]
  by (simp add: tx_pending_def del: fold_simps)

section \<open>Which transport the host hears\<close>

fun byte_on :: "transport \<Rightarrow> host_event \<Rightarrow> u8 list" where
  "byte_on t (Put u x) = (if u = t then [x] else [])"
| "byte_on t BtFlush = []"

definition sent_on :: "transport \<Rightarrow> 'a host_scheme \<Rightarrow> u8 list" where
  "sent_on t s = concat (map (byte_on t) (host_log s))"

text \<open>The transport \<open>serial_write\<close> uses, and the one the bulk write uses.\<close>

definition host_transport :: "board \<Rightarrow> 'a host_scheme \<Rightarrow> transport" where
  "host_transport b s =
     (if has_bluetooth b \<or> has_ble b then
        if bt_state s = BT_STATE_CONNECTED then Bt
        else if has_ethernet b \<and> eth_is_connected s \<and> wifi_host_is_connected s then Eth
        else if has_wifi b \<and> wifi_host_is_connected s then Wifi
        else if has_wifi b \<and> ws_host_is_connected s then WebSocket else Usb
      else Usb)"

definition bulk_transport :: "board \<Rightarrow> 'a host_scheme \<Rightarrow> transport" where
  "bulk_transport b s = (if has_wifi b \<and> wifi_host_is_connected s then Wifi else Usb)"

lemma sent_on_serial_write:
  "link_ok b s \<Longrightarrow> sent_on t (serial_write b x s) = sent_on t s @ (if t = host_transport b s then [x] else [])"
  by (auto simp: link_ok_def sent_on_def serial_write_defs host_transport_def)

lemma host_transport_serial_write [simp]:
  "host_transport b (serial_write b x s) = host_transport b s" "bulk_transport b (serial_write b x s) = bulk_transport b s"
  by (simp_all add: host_transport_def bulk_transport_def)

lemma host_transport_escaped [simp]:
  "host_transport b (escaped_serial_write b x s) = host_transport b s"
  "bulk_transport b (escaped_serial_write b x s) = bulk_transport b s"
  by (simp_all add: host_transport_def bulk_transport_def)

lemma sent_on_escaped:
  "link_ok b s \<Longrightarrow> sent_on t (escaped_serial_write b x s) = sent_on t s @ (if t = host_transport b s then stuff x else [])"
  by (simp add: escaped_serial_write_def stuff_def sent_on_serial_write)

lemma host_transport_writes [simp]:
  "host_transport b (raw_writes b xs s) = host_transport b s" "bulk_transport b (raw_writes b xs s) = bulk_transport b s"
  "host_transport b (escaped_writes b xs s) = host_transport b s" "bulk_transport b (escaped_writes b xs s) = bulk_transport b s"
  by (induction xs arbitrary: s) simp_all

lemma host_transport_reply [simp]:
  "host_transport b (reply b c raw esc s) = host_transport b s" "bulk_transport b (reply b c raw esc s) = bulk_transport b s"
  by (simp_all add: reply_def)

lemma sent_on_raw_writes:
  "link_ok b s \<Longrightarrow> sent_on t (raw_writes b xs s) = sent_on t s @ (if t = host_transport b s then xs else [])"
  by (induction xs arbitrary: s) (simp_all add: sent_on_serial_write)

lemma sent_on_escaped_writes:
  "link_ok b s \<Longrightarrow> sent_on t (escaped_writes b xs s) = sent_on t s @ (if t = host_transport b s then stuff_all xs else [])"
  by (induction xs arbitrary: s) (simp_all add: sent_on_escaped stuff_all_def)

lemma sent_on_reply:
  assumes "link_ok b s" "FEND \<notin> set raw" "FESC \<notin> set raw"
  shows "sent_on t (reply b c raw esc s) = sent_on t s @ (if t = host_transport b s then kiss_frame c (raw @ esc) else [])"
proof -
  have "stuff_all (raw @ esc) = raw @ stuff_all esc"
    using stuff_all_plain [OF assms(2,3)] by (simp add: stuff_all_def)
  then show ?thesis using assms(1)
    by (simp add: reply_def kiss_frame_def sent_on_serial_write sent_on_raw_writes sent_on_escaped_writes)
qed

lemma sent_on_v1_reply:
  "link_ok b s \<Longrightarrow> sent_on t (v1_reply b c [] esc s) =
    sent_on t s @ (if t = host_transport b s then kiss_frame CMD_SEL_INT [1] @ kiss_frame c esc else [])"
  by (simp add: v1_reply_def kiss_select_interface_def sent_on_reply)

lemma v1_reply_fields [simp]:
  "link_ok b (v1_reply b c raw esc s) = link_ok b s" "host_transport b (v1_reply b c raw esc s) = host_transport b s"
  "bulk_transport b (v1_reply b c raw esc s) = bulk_transport b s"
  by (simp_all add: v1_reply_def kiss_select_interface_def)

lemma sent_on_bulk_write:
  "sent_on t (bulk_write b room xs s) = sent_on t s @ (if t = bulk_transport b s then take room xs else [])"
proof -
  have w: "wifi_host_is_connected (put u x s) = wifi_host_is_connected s" for u x and s :: "'a host_scheme"
    by (simp add: put_def)
  have "sent_on t (foldl (\<lambda>s x. put (if has_wifi b \<and> wifi_host_is_connected s then Wifi else Usb) x s) s ys) =
      sent_on t s @ (if t = bulk_transport b s then ys else [])" for ys
    by (induction ys arbitrary: s) (simp_all add: w bulk_transport_def, simp_all add: put_def sent_on_def)
  then show ?thesis by (simp add: bulk_write_def)
qed

lemma espnow_frame_bytes_stuff: "n + 2 * length xs < FRAME_BUF \<Longrightarrow> espnow_frame_bytes xs n = stuff_all xs"
  by (induction xs arbitrary: n) (simp_all add: stuff_def)

text \<open>What \<open>update_espnow\<close> writes, and where.\<close>

lemma sent_on_update_espnow:
  assumes "link_ok b s" "espnow_packet_queue s = Some (p # q)" "length (ep_data p) \<le> MTU" "FRAME_BUF \<le> room"
  shows "sent_on t (update_espnow b room s) = sent_on t s @
    (if t = host_transport b s
     then kiss_frame CMD_SEL_INT [1] @ kiss_frame CMD_STAT_RSSI [word_of_int (ep_rssi p + rssi_offset)] @
          kiss_frame CMD_SEL_INT [1] @ kiss_frame CMD_STAT_SNR [word_of_int (ep_snr_raw p)] @ kiss_frame CMD_SEL_INT [1] else []) @
    (if t = bulk_transport b s then kiss_frame CMD_DATA (ep_data p) else [])"
proof -
  let ?s = "s\<lparr>espnow_packet_queue := Some q\<rparr>"
  have s: "link_ok b ?s" "sent_on t ?s = sent_on t s" "host_transport b ?s = host_transport b s" "bulk_transport b ?s = bulk_transport b s"
    using assms(1) by (simp_all add: link_ok_def sent_on_def host_transport_def bulk_transport_def)
  have f: "[FEND, CMD_DATA] @ espnow_frame_bytes (ep_data p) 2 @ [FEND] = kiss_frame CMD_DATA (ep_data p)"
    using assms(3) by (simp add: espnow_frame_bytes_stuff kiss_frame_def)
  have "length (kiss_frame CMD_DATA (ep_data p)) \<le> room"
    using assms(3,4) length_stuff(2) [of "ep_data p"] by (simp add: kiss_frame_def)
  then have take: "take room (kiss_frame CMD_DATA (ep_data p)) = kiss_frame CMD_DATA (ep_data p)" by simp
  show ?thesis
    unfolding update_espnow_def kiss_write_espnow_packet_def kiss_indicate_v1_stat_rssi_def kiss_indicate_v1_stat_snr_def
    by (simp add: assms(2) s f [simplified] sent_on_bulk_write sent_on_v1_reply take kiss_select_interface_def sent_on_reply)
qed

lemma v1_reply_update: "\<exists>l f st. v1_reply b c raw esc s = host_update l f st s"
  unfolding v1_reply_def kiss_select_interface_def by (metis reply_update host_update_twice)

lemma bulk_write_update: "\<exists>l f st. bulk_write b room xs s = host_update l f st s"
proof -
  have "\<exists>l f st. foldl (\<lambda>s x. put (if has_wifi b \<and> wifi_host_is_connected s then Wifi else Usb) x s) s ys = host_update l f st s" for ys
  proof (induction ys arbitrary: s)
    case Nil
    have "s = host_update (host_log s) (serial_in_frame s) (kiss_host_tx_stalled s) s" by (simp add: host_update_def)
    then show ?case by auto
  next
    case (Cons y ys)
    have "\<exists>l f st. put t y s = host_update l f st s" for t
    proof -
      have "put t y s = host_update (host_log s @ [Put t y]) (serial_in_frame s) (kiss_host_tx_stalled s) s"
        by (simp add: put_def host_update_def)
      then show ?thesis by blast
    qed
    then show ?case using Cons.IH by (metis (no_types, lifting) foldl_Cons host_update_twice)
  qed
  then show ?thesis by (simp add: bulk_write_def)
qed

lemma update_espnow_eq:
  assumes "espnow_packet_queue s = Some (p # q)"
  shows "\<exists>l f st. update_espnow b room s = host_update l f st (s\<lparr>espnow_packet_queue := Some q\<rparr>)"
  unfolding update_espnow_def assms kiss_write_espnow_packet_def kiss_indicate_v1_stat_rssi_def kiss_indicate_v1_stat_snr_def
  by simp (metis bulk_write_update v1_reply_update reply_update kiss_select_interface_def host_update_twice)

text \<open>
  Packets received over ESP-NOW reach a host on Wi-Fi or USB. When the host is connected there, and the
  transport takes the bytes, the host receives, each announced for interface 1, the RSSI, the SNR
  and one data frame that decodes to the packet.
\<close>

theorem espnow_packet_reaches_host:
  assumes "link_ok b s" "espnow_packet_queue s = Some (p # q)" "length (ep_data p) \<le> MTU" "FRAME_BUF \<le> room"
    and "host_transport b s = bulk_transport b s"
  shows "\<exists>bs. sent_on (host_transport b s) (update_espnow b room s) = sent_on (host_transport b s) s @ bs \<and>
    kiss_decode bs =
      [(CMD_SEL_INT, [1]), (CMD_STAT_RSSI, [word_of_int (ep_rssi p + rssi_offset)]),
       (CMD_SEL_INT, [1]), (CMD_STAT_SNR, [word_of_int (ep_snr_raw p)]),
       (CMD_SEL_INT, [1]), (CMD_DATA, ep_data p)]"
proof -
  let ?bs = "kiss_frame CMD_SEL_INT [1] @ kiss_frame CMD_STAT_RSSI [word_of_int (ep_rssi p + rssi_offset)] @
      kiss_frame CMD_SEL_INT [1] @ kiss_frame CMD_STAT_SNR [word_of_int (ep_snr_raw p)] @ kiss_frame CMD_SEL_INT [1] @
      kiss_frame CMD_DATA (ep_data p)"
  have "sent_on (host_transport b s) (update_espnow b room s) = sent_on (host_transport b s) s @ ?bs"
    using sent_on_update_espnow [OF assms(1-4), of "host_transport b s"] assms(5) by simp
  moreover have "kiss_decode ?bs = [(CMD_SEL_INT, [1]), (CMD_STAT_RSSI, [word_of_int (ep_rssi p + rssi_offset)]),
       (CMD_SEL_INT, [1]), (CMD_STAT_SNR, [word_of_int (ep_snr_raw p)]), (CMD_SEL_INT, [1]), (CMD_DATA, ep_data p)]"
    by simp
  ultimately show ?thesis by blast
qed

definition one_packet :: "board \<Rightarrow> espnow" where
  "one_packet b = (espnow_blank b)\<lparr>espnow_packet_queue :=
     Some [\<lparr>ep_rssi = - 40, ep_snr_raw = 127, ep_mac = [], ep_data = [0xC0, 1]\<rparr>]\<rparr>"

lemma one_packet_fields [simp]:
  "espnow_packet_queue (one_packet b) = Some [\<lparr>ep_rssi = - 40, ep_snr_raw = 127, ep_mac = [], ep_data = [0xC0, 1]\<rparr>]"
  "bt_state (one_packet b) = BT_STATE_NA" "\<not> eth_is_connected (one_packet b)" "\<not> wifi_host_is_connected (one_packet b)"
  "\<not> ws_host_is_connected (one_packet b)" "usb_avail (one_packet b)" "host_log (one_packet b) = []"
  by (simp_all add: one_packet_def espnow_blank_def espnow_start_def csma.defs csma_blank_defs)

theorem espnow_packet_reaches_host_witness:
  "\<exists>bs. sent_on Usb (update_espnow board_meshpoe_s3 1024 (one_packet board_meshpoe_s3)) = bs \<and>
     kiss_decode bs = [(CMD_SEL_INT, [1]), (CMD_STAT_RSSI, [117]), (CMD_SEL_INT, [1]), (CMD_STAT_SNR, [127]),
                       (CMD_SEL_INT, [1]), (CMD_DATA, [0xC0, 1])]"
proof -
  have t: "host_transport board_meshpoe_s3 (one_packet board_meshpoe_s3) = Usb" "bulk_transport board_meshpoe_s3 (one_packet board_meshpoe_s3) = Usb"
    "sent_on Usb (one_packet board_meshpoe_s3) = []" "link_ok board_meshpoe_s3 (one_packet board_meshpoe_s3)"
    by (simp_all add: host_transport_def bulk_transport_def sent_on_def link_ok_def)
  show ?thesis
    using espnow_packet_reaches_host [of board_meshpoe_s3 "one_packet board_meshpoe_s3" _ "[]" 1024] t by simp
qed

text \<open>
  Packets received over ESP-NOW do not reach a host on Bluetooth or WebSocket. The data frame is written to
  the Wi-Fi connection or the USB port, so a host connected over Bluetooth or WebSocket receives
  the interface, RSSI and SNR announcements but no data frame, although the packet is gone from
  the queue.
\<close>

theorem espnow_packet_misses_bluetooth_host:
  assumes "link_ok b s" "espnow_packet_queue s = Some (p # q)" "length (ep_data p) \<le> MTU" "FRAME_BUF \<le> room"
    and "host_transport b s = Bt \<or> host_transport b s = WebSocket"
  shows "\<exists>bs. sent_on (host_transport b s) (update_espnow b room s) = sent_on (host_transport b s) s @ bs \<and>
    kiss_decode bs =
      [(CMD_SEL_INT, [1]), (CMD_STAT_RSSI, [word_of_int (ep_rssi p + rssi_offset)]),
       (CMD_SEL_INT, [1]), (CMD_STAT_SNR, [word_of_int (ep_snr_raw p)]), (CMD_SEL_INT, [1])] \<and>
    espnow_packet_queue (update_espnow b room s) = Some q"
proof -
  let ?bs = "kiss_frame CMD_SEL_INT [1] @ kiss_frame CMD_STAT_RSSI [word_of_int (ep_rssi p + rssi_offset)] @
      kiss_frame CMD_SEL_INT [1] @ kiss_frame CMD_STAT_SNR [word_of_int (ep_snr_raw p)] @ kiss_frame CMD_SEL_INT [1]"
  have "host_transport b s \<noteq> bulk_transport b s" using assms(5) by (auto simp: bulk_transport_def)
  then have "sent_on (host_transport b s) (update_espnow b room s) = sent_on (host_transport b s) s @ ?bs"
    using sent_on_update_espnow [OF assms(1-4), of "host_transport b s"] by simp
  moreover have "kiss_decode ?bs = [(CMD_SEL_INT, [1]), (CMD_STAT_RSSI, [word_of_int (ep_rssi p + rssi_offset)]),
       (CMD_SEL_INT, [1]), (CMD_STAT_SNR, [word_of_int (ep_snr_raw p)]), (CMD_SEL_INT, [1])]"
    by simp
  ultimately show ?thesis using update_espnow_eq [OF assms(2), of b room] by (auto simp: host_update_def)
qed

theorem espnow_packet_misses_bluetooth_host_witness:
  "\<exists>bs. sent_on Bt (update_espnow board_meshpoe_s3 1024 ((one_packet board_meshpoe_s3)\<lparr>bt_state := BT_STATE_CONNECTED\<rparr>)) = bs \<and>
     kiss_decode bs = [(CMD_SEL_INT, [1]), (CMD_STAT_RSSI, [117]), (CMD_SEL_INT, [1]), (CMD_STAT_SNR, [127]), (CMD_SEL_INT, [1])]"
proof -
  let ?s = "(one_packet board_meshpoe_s3)\<lparr>bt_state := BT_STATE_CONNECTED\<rparr>"
  have t: "host_transport board_meshpoe_s3 ?s = Bt" "sent_on Bt ?s = []" "link_ok board_meshpoe_s3 ?s"
    by (simp_all add: host_transport_def sent_on_def link_ok_def board_meshpoe_s3_def)
  show ?thesis
    using espnow_packet_misses_bluetooth_host [of board_meshpoe_s3 ?s _ "[]" 1024] t by auto
qed

lemma wifi_do_fields [simp]:
  "wifi_calls (wifi_do c s) = wifi_calls s @ [c]" "espnow_lr_enabled (wifi_do c s) = espnow_lr_enabled s"
  by (simp_all add: wifi_do_def)

lemma espnow_init_calls:
  "set (wifi_calls s) \<subseteq> set (wifi_calls (espnow_init w s))"
  "espnow_lr_enabled s \<Longrightarrow> SetProtocolLr \<in> set (wifi_calls (espnow_init w s))"
  by (auto simp: espnow_init_def Let_def if_distrib [of wifi_calls] if_distrib [of espnow_lr_enabled])

text \<open>
  Long-range mode does not keep Wi-Fi off for the node on the board. When the node uses ESP-NOW and the
  host's ESP-NOW switch is off, a stored long-range setting still switches the shared radio to the
  long-range protocol, but the veto does not apply, and a stored station or access point mode
  starts Wi-Fi as well.
\<close>

theorem lr_mode_starts_wifi:
  assumes "has_urns b" "urns_wants_espnow b s"
    and "eeprom_read s (eeprom_addr b ADDR_CONF_ESPNOW) = ESPNOW_DISABLE_BYTE"
    and "eeprom_read s ADDR_CONF_ESPNOW_LR = ESPNOW_LR_ENABLE_BYTE"
    and "eeprom_read s (eeprom_addr b ADDR_CONF_WIFI) = WR_WIFI_STA"
  shows "{WifiRemoteInit, SetProtocolLr} \<subseteq> set (wifi_calls (espnow_setup b w s))"
proof -
  define t where "t = s\<lparr>espnow_enabled := False, espnow_mode := ESPNOW_MODE_V2, espnow_lr_enabled := True,
      urns_espnow_bitrate := ESPNOW_BITRATE_LR_BPS,
      wr_channel := (let ch = eeprom_read s (eeprom_addr b ADDR_CONF_WCHN) in if ch < 1 \<or> ch > 14 then WR_CHANNEL_DEFAULT else ch)\<rparr>"
  have "espnow_setup b w s = espnow_init w (wifi_do WifiRemoteInit t)"
    using assms unfolding t_def by (simp add: espnow_setup_def espnow_wifi_disabled_def Let_def eeprom_read_def)
  moreover have "espnow_lr_enabled (wifi_do WifiRemoteInit t)" by (simp add: t_def)
  moreover have "WifiRemoteInit \<in> set (wifi_calls (wifi_do WifiRemoteInit t))" by (simp add: wifi_do_def)
  ultimately show ?thesis using espnow_init_calls [of "wifi_do WifiRemoteInit t" w] by auto
qed

definition lr_memory :: "nat \<Rightarrow> u8" where
  "lr_memory a = (if a = eeprom_addr board_meshpoe_s3 ADDR_CONF_ESPNOW then ESPNOW_DISABLE_BYTE
                  else if a = ADDR_CONF_ESPNOW_LR then ESPNOW_LR_ENABLE_BYTE
                  else if a = eeprom_addr board_meshpoe_s3 ADDR_CONF_WIFI then WR_WIFI_STA else 0xFF)"

theorem lr_mode_starts_wifi_witness:
  "WifiRemoteInit \<in> set (wifi_calls (espnow_setup board_meshpoe_s3
     \<lparr>mode_null = False, associated = False, init_ok = True, peer_ok = True\<rparr>
     ((espnow_start board_meshpoe_s3 lr_memory)\<lparr>urns_interface_mode := URNS_INTERFACE_BOTH\<rparr>)))"
proof -
  have "eeprom_read ((espnow_start board_meshpoe_s3 lr_memory)\<lparr>urns_interface_mode := URNS_INTERFACE_BOTH\<rparr>) a = lr_memory a" for a
    by (simp add: espnow_start_def csma.defs csma_blank_defs eeprom_read_def)
  moreover have "has_urns board_meshpoe_s3" "has_espnow board_meshpoe_s3" "eeprom_offset board_meshpoe_s3 = 824"
    by (simp_all add: board_meshpoe_s3_def board_values eeprom_offset_def)
  ultimately show ?thesis
    using lr_mode_starts_wifi [of board_meshpoe_s3 "(espnow_start board_meshpoe_s3 lr_memory)\<lparr>urns_interface_mode := URNS_INTERFACE_BOTH\<rparr>"
      "\<lparr>mode_null = False, associated = False, init_ok = True, peer_ok = True\<rparr>"]
    by (simp add: urns_wants_espnow_def lr_memory_def eeprom_addr_def)
qed

end
