(* ===== verification/Radio_Control.thy ===== *)
theory Radio_Control
  imports Espnow
begin

text \<open>
  Starting and stopping the LoRa radio (\<^verbatim>\<open>RNode_Firmware.ino\<close>): \<open>update_radio_lock\<close>, \<open>startRadio\<close>,
  \<open>stopRadio\<close> and the start the node on the board makes by itself. Whether the modem answers
  \<open>begin\<close> is the field \<open>modem_responds\<close> of the state. A routine that indicates an error forever
  (\<open>led_indicate_error(0)\<close>) is the outcome \<open>Hung\<close>.
\<close>

section \<open>Operations\<close>

definition update_radio_lock :: "'a radio_scheme \<Rightarrow> 'a radio_scheme" where
  "update_radio_lock s =
     (if lora_freq s \<noteq> 0 \<and> lora_bw s \<noteq> 0 \<and> lora_txp s \<noteq> 0xFF \<and> lora_sf s \<noteq> 0
      then s\<lparr>radio_locked := False\<rparr> else s\<lparr>radio_locked := True\<rparr>)"

text \<open>\<open>LoRa->begin(frequency)\<close> programs the frequency when the modem answers.\<close>

definition modem_begin :: "board \<Rightarrow> 'a radio_scheme \<Rightarrow> 'a radio_scheme" where
  "modem_begin b s =
     (let s = modem_do (Begin (lora_freq s)) s
      in if modem_responds s then s\<lparr>modem_freq := modem_frequency (modem b) (lora_freq s)\<rparr> else s)"

definition start_online :: "board \<Rightarrow> 'a channel_scheme \<Rightarrow> 'a channel_scheme" where
  "start_online b s =
     (let s = init_channel_stats b (s\<lparr>radio_online := True\<rparr>);
          s = setTXPower b s;
          s = setBandwidth b s;
          s = setSpreadingFactor b s;
          s = setCodingRate b s;
          s = setSyncWord s;
          s = getFrequency s;
          s = modem_do EnableCrc s;
          s = modem_do OnReceive s;
          s = lora_receive s
      in kiss_indicate_radiostate b s)"

definition startRadio :: "board \<Rightarrow> 'a channel_scheme \<Rightarrow> (bool \<times> 'a channel_scheme) outcome" where
  "startRadio b s =
     (let s = update_radio_lock s
      in if \<not> radio_online s \<and> \<not> console_active s then
           if \<not> radio_locked s \<and> hw_ready s then
             (let s = modem_begin b s
              in if \<not> modem_responds s
                 then Hung (False, kiss_indicate_error b ERROR_INITRADIO (s\<lparr>radio_error := True\<rparr>))
                 else Ret (True, start_online b s))
           else Ret (False, kiss_indicate_radiostate b (s\<lparr>radio_online := False\<rparr>))
         else Ret (True, kiss_indicate_radiostate b s))"

definition stopRadio :: "'a radio_scheme \<Rightarrow> 'a radio_scheme" where
  "stopRadio s = (modem_do End s)\<lparr>radio_online := False\<rparr>"

definition urns_radio_bringup :: "board \<Rightarrow> 'a espnow_scheme \<Rightarrow> 'a espnow_scheme outcome" where
  "urns_radio_bringup b s =
     (if \<not> urns_ready s \<or> radio_online s then Ret s
      else if has_espnow b \<and> \<not> urns_wants_lora b s then Ret s
      else
        then_do (map_outcome snd (startRadio b
            (s\<lparr>lora_freq := 868825000, lora_bw := 125000, lora_sf := 10, lora_cr := 7, lora_txp := 17\<rparr>)))
          (\<lambda>s. Ret (if radio_online s \<and> \<not> eeprom_have_conf b s then eeprom_conf_save b s else s)))"

section \<open>Lemmas\<close>

definition started :: "(bool \<times> 's) outcome \<Rightarrow> 's" where
  "started r = snd (state_of r)"

text \<open>What configuring the modem leaves alone.\<close>

definition radio_same :: "'a radio_scheme \<Rightarrow> 'a radio_scheme \<Rightarrow> bool" where
  "radio_same s t \<longleftrightarrow> radio_online t = radio_online s \<and> lora_freq t = lora_freq s \<and> lora_sf t = lora_sf s \<and>
     lora_cr t = lora_cr s \<and> modem_freq t = modem_freq s \<and> hw_ready t = hw_ready s \<and> eeprom t = eeprom s"

lemma radio_same_trans: "radio_same s t \<Longrightarrow> radio_same t u \<Longrightarrow> radio_same s u"
  by (simp add: radio_same_def)

lemma radio_same_refl [simp]: "radio_same s s"
  by (simp add: radio_same_def)

lemma eeprom_reply [simp]: "eeprom (reply b c raw esc s) = eeprom s"
  using reply_update [of b c raw esc s] by (auto simp: host_update_def)

lemma radio_same_modem_do [simp]: "radio_same s (modem_do c s)"
  by (simp add: radio_same_def modem_do_def)

lemma radio_same_phy_stats [simp]: "radio_same s (kiss_indicate_phy_stats b s)"
  by (simp add: radio_same_def kiss_indicate_phy_stats_def)

lemma radio_same_preamble [simp]: "radio_same s (setPreamble b s)"
  by (simp add: setPreamble_def radio_same_trans [OF radio_same_modem_do radio_same_phy_stats])

lemma radio_same_bitrate:
  "radio_same s (updateBitrate b s)" "lora_bw (updateBitrate b s) = lora_bw s"
proof -
  have p: "radio_online (setPreamble b u) = radio_online u" "lora_freq (setPreamble b u) = lora_freq u"
    "lora_sf (setPreamble b u) = lora_sf u" "lora_cr (setPreamble b u) = lora_cr u" "modem_freq (setPreamble b u) = modem_freq u"
    "hw_ready (setPreamble b u) = hw_ready u" "eeprom (setPreamble b u) = eeprom u" for u :: "'a radio_scheme"
    using radio_same_preamble [of u b] by (simp_all add: radio_same_def)
  have "lora_bw (setPreamble b u) = lora_bw u" for u :: "'a radio_scheme"
    by (simp add: setPreamble_def kiss_indicate_phy_stats_def)
  then show "radio_same s (updateBitrate b s)" "lora_bw (updateBitrate b s) = lora_bw s"
    by (simp_all add: updateBitrate_def radio_same_def Let_def p)
qed

lemma radio_same_setters:
  "radio_same s (setSpreadingFactor b s)" "lora_bw (setSpreadingFactor b s) = lora_bw s"
  "radio_same s (setCodingRate b s)" "lora_bw (setCodingRate b s) = lora_bw s"
  "radio_same s (setSyncWord s)" "lora_bw (setSyncWord s) = lora_bw s"
  "radio_same s (lora_receive s)" "lora_bw (lora_receive s) = lora_bw s"
  by (simp_all add: setSpreadingFactor_def setCodingRate_def setSyncWord_def lora_receive_def radio_same_bitrate
      radio_same_trans [OF radio_same_modem_do radio_same_bitrate(1)])

lemma radio_same_bandwidth:
  assumes "radio_online s"
  shows "radio_same s (setBandwidth b s)" "lora_bw (setBandwidth b s) = modem_bandwidth (modem b) (lora_bw s)"
proof -
  let ?t = "modem_set_bandwidth b (lora_bw s) s"
  have "radio_same s (?t\<lparr>lora_bw := modem_bw ?t\<rparr>)"
    by (simp add: modem_set_bandwidth_def modem_do_def radio_same_def)
  then have "radio_same s (updateBitrate b (?t\<lparr>lora_bw := modem_bw ?t\<rparr>))"
    using radio_same_trans radio_same_bitrate(1) by blast
  moreover have "setBandwidth b s = updateBitrate b (?t\<lparr>lora_bw := modem_bw ?t\<rparr>)"
    using assms by (simp add: setBandwidth_def getBandwidth_def modem_set_bandwidth_def modem_do_def)
  ultimately show "radio_same s (setBandwidth b s)" "lora_bw (setBandwidth b s) = modem_bandwidth (modem b) (lora_bw s)"
    by (simp_all add: radio_same_bitrate(2) modem_set_bandwidth_def)
qed

lemma radio_same_txpower: "radio_same s (setTXPower b s)" "lora_bw (setTXPower b s) = lora_bw s"
proof -
  have f: "radio_same u (foldl (\<lambda>s (m, pin). if model s = m then modem_do (SetTxPower p pin) s else s) u tab) \<and>
      lora_bw (foldl (\<lambda>s (m, pin). if model s = m then modem_do (SetTxPower p pin) s else s) u tab) = lora_bw u"
    for p tab and u :: "'a radio_scheme"
  proof (induction tab arbitrary: u)
    case (Cons e tab)
    obtain m pin where e: "e = (m, pin)" by fastforce
    show ?case using Cons.IH [of u] Cons.IH [of "modem_do (SetTxPower p pin) u"]
        radio_same_trans [OF radio_same_modem_do [of u "SetTxPower p pin"]] by (simp add: e)
  qed simp
  have m: "radio_same s (snd (map_target_power_to_modem_output b t s)) \<and>
      lora_bw (snd (map_target_power_to_modem_output b t s)) = lora_bw s" for t
    by (simp add: map_target_power_to_modem_output_def determine_pa_values_def usb_print_eq radio_same_def Let_def)
  let ?p = "map_target_power_to_modem_output b (lora_txp s) s"
  let ?u = "if has_lora_pa b then (snd ?p)\<lparr>lora_txp := map_modem_output_to_target_power b (fst ?p) (snd ?p)\<rparr> else snd ?p"
  have u: "radio_same s ?u \<and> lora_bw ?u = lora_bw s" using m [of "lora_txp s"] by (simp add: radio_same_def)
  obtain p where "setTXPower b s = (if radio_online s then
      foldl (\<lambda>s (m, pin). if model s = m then modem_do (SetTxPower p pin) s else s) ?u txp_table else s)"
    unfolding setTXPower_def Let_def split_beta by blast
  then show "radio_same s (setTXPower b s)" "lora_bw (setTXPower b s) = lora_bw s"
    using f [of ?u p txp_table] u radio_same_trans by auto
qed


lemma kiss_indicate_error_reply: "kiss_indicate_error b e s = reply b CMD_ERROR [e] [] s"
  by (simp add: kiss_indicate_error_def reply_def)

lemma radio_same_radiostate: "radio_same s (kiss_indicate_radiostate b s)" "lora_bw (kiss_indicate_radiostate b s) = lora_bw s"
  by (simp_all add: kiss_indicate_radiostate_def radio_same_def select0_def kiss_select_interface_def)

lemma start_online_result:
  assumes "modem_freq s = modem_frequency (modem b) f"
  shows "radio_online (start_online b s)" "lora_freq (start_online b s) = modem_frequency (modem b) f"
    "lora_bw (start_online b s) = modem_bandwidth (modem b) (lora_bw s)" "hw_ready (start_online b s) = hw_ready s"
    "eeprom (start_online b s) = eeprom s"
proof -
  let ?s0 = "init_channel_stats b (s\<lparr>radio_online := True\<rparr>)"
  let ?s1 = "setTXPower b ?s0"
  let ?s2 = "setBandwidth b ?s1"
  let ?s5 = "setSyncWord (setCodingRate b (setSpreadingFactor b ?s2))"
  have s0: "radio_online ?s0" "modem_freq ?s0 = modem_freq s" "lora_bw ?s0 = lora_bw s" "hw_ready ?s0 = hw_ready s" "eeprom ?s0 = eeprom s"
    by (simp_all add: init_channel_stats_def)
  have on: "radio_online ?s1" using radio_same_txpower(1) [of ?s0 b] s0(1) by (simp add: radio_same_def)
  have "radio_same ?s0 ?s5"
    using radio_same_txpower(1) radio_same_bandwidth(1) [OF on] radio_same_setters(1,3,5) radio_same_trans by metis
  moreover have "lora_bw ?s5 = modem_bandwidth (modem b) (lora_bw s)"
    using radio_same_bandwidth(2) [OF on, of b] radio_same_txpower(2) [of b ?s0] s0(3) by (simp add: radio_same_setters)
  ultimately have s5: "radio_online ?s5" "modem_freq ?s5 = modem_frequency (modem b) f" "hw_ready ?s5 = hw_ready s" "eeprom ?s5 = eeprom s"
    "lora_bw ?s5 = modem_bandwidth (modem b) (lora_bw s)"
    using s0 assms by (simp_all add: radio_same_def)
  let ?s6 = "getFrequency ?s5"
  have s6: "radio_online ?s6" "lora_freq ?s6 = modem_frequency (modem b) f" "hw_ready ?s6 = hw_ready s" "eeprom ?s6 = eeprom s"
    "lora_bw ?s6 = modem_bandwidth (modem b) (lora_bw s)"
    using s5 by (simp_all add: getFrequency_def)
  let ?s9 = "kiss_indicate_radiostate b (lora_receive (modem_do OnReceive (modem_do EnableCrc ?s6)))"
  have e: "start_online b s = ?s9" by (simp add: start_online_def Let_def)
  have "radio_same ?s6 ?s9"
    using radio_same_modem_do radio_same_setters(7) radio_same_radiostate(1) radio_same_trans by metis
  moreover have "lora_bw ?s9 = lora_bw ?s6" by (simp add: radio_same_radiostate radio_same_setters)
  ultimately show "radio_online (start_online b s)" "lora_freq (start_online b s) = modem_frequency (modem b) f"
    "lora_bw (start_online b s) = modem_bandwidth (modem b) (lora_bw s)" "hw_ready (start_online b s) = hw_ready s"
    "eeprom (start_online b s) = eeprom s"
    using s6 unfolding e by (simp_all add: radio_same_def)
qed

definition radio_configured :: "'a radio_scheme \<Rightarrow> bool" where
  "radio_configured s \<longleftrightarrow> lora_freq s \<noteq> 0 \<and> lora_bw s \<noteq> 0 \<and> lora_txp s \<noteq> 0xFF \<and> lora_sf s \<noteq> 0"

lemma update_radio_lock_fields:
  "radio_locked (update_radio_lock s) = (\<not> radio_configured s)" "radio_online (update_radio_lock s) = radio_online s"
  "console_active (update_radio_lock s) = console_active s" "hw_ready (update_radio_lock s) = hw_ready s"
  "modem_responds (update_radio_lock s) = modem_responds s" "lora_freq (update_radio_lock s) = lora_freq s"
  "lora_bw (update_radio_lock s) = lora_bw s" "modem_log (update_radio_lock s) = modem_log s"
  "eeprom (update_radio_lock s) = eeprom s"
  by (simp_all add: update_radio_lock_def radio_configured_def)

lemma modem_begin_fields:
  "modem_responds (modem_begin b s) = modem_responds s" "lora_bw (modem_begin b s) = lora_bw s"
  "hw_ready (modem_begin b s) = hw_ready s" "radio_online (modem_begin b s) = radio_online s"
  "eeprom (modem_begin b s) = eeprom s"
  "modem_responds s \<Longrightarrow> modem_freq (modem_begin b s) = modem_frequency (modem b) (lora_freq s)"
  by (simp_all add: modem_begin_def Let_def modem_do_def)

lemma startRadio_starts:
  assumes "\<not> radio_online s" "\<not> console_active s" "radio_configured s" "hw_ready s" "modem_responds s"
  shows "\<exists>t. startRadio b s = Ret (True, t) \<and> radio_online t \<and> hw_ready t \<and> eeprom t = eeprom s \<and>
    lora_freq t = modem_frequency (modem b) (lora_freq s) \<and> lora_bw t = modem_bandwidth (modem b) (lora_bw s)"
  using assms start_online_result [of "modem_begin b (update_radio_lock s)" b "lora_freq s"]
  by (simp add: startRadio_def Let_def update_radio_lock_fields modem_begin_fields)

lemma radio_online_conf_save: "radio_online (eeprom_conf_save b s) = radio_online s"
proof -
  have f: "radio_online (eeprom_update b c x t) = radio_online t" for c x and t :: "'a radio_scheme"
    by (simp add: eeprom_update_def store_byte_def eeprom_flush_def Let_def)
  have w: "radio_online (write_from (eeprom_update b) c xs t) = radio_online t" for c xs and t :: "'a radio_scheme"
    by (induction xs arbitrary: c t) (simp_all add: f)
  show ?thesis by (simp add: eeprom_conf_save_def Let_def f w)
qed

section \<open>Properties\<close>

text \<open>
  C18: the radio starts exactly when it is configured and the device is valid. Asked to start while off and not
  in the console, \<open>startRadio\<close> returns with the radio on exactly when frequency, bandwidth,
  spreading factor and power are set and the hardware check has passed, and then frequency and
  bandwidth are the values the modem works with; otherwise it returns with the radio off and the
  modem untouched. When the modem does not answer it never returns, after reporting the error.
\<close>

theorem radio_starts_iff_configured:
  assumes "\<not> radio_online s" "\<not> console_active s"
  shows "(radio_configured s \<and> hw_ready s \<and> modem_responds s \<longrightarrow>
           (\<exists>t. startRadio b s = Ret (True, t) \<and> radio_online t \<and> hw_ready t \<and> eeprom t = eeprom s \<and>
              lora_freq t = modem_frequency (modem b) (lora_freq s) \<and>
              lora_bw t = modem_bandwidth (modem b) (lora_bw s))) \<and>
         (\<not> radio_configured s \<or> \<not> hw_ready s \<longrightarrow>
           (\<exists>t. startRadio b s = Ret (False, t) \<and> \<not> radio_online t \<and> modem_log t = modem_log s)) \<and>
         (radio_configured s \<and> hw_ready s \<and> \<not> modem_responds s \<longrightarrow>
           (\<exists>t. startRadio b s = Hung (False, t) \<and> \<not> radio_online t \<and> radio_error t))"
proof -
  have "\<exists>t. startRadio b s = Ret (False, t) \<and> \<not> radio_online t \<and> modem_log t = modem_log s"
    if "\<not> radio_configured s \<or> \<not> hw_ready s"
    using assms that
    by (auto simp: startRadio_def Let_def update_radio_lock_fields kiss_indicate_radiostate_def select0_def kiss_select_interface_def)
  moreover have "\<exists>t. startRadio b s = Hung (False, t) \<and> \<not> radio_online t \<and> radio_error t"
    if "radio_configured s" "hw_ready s" "\<not> modem_responds s"
    using assms that
    by (simp add: startRadio_def Let_def update_radio_lock_fields modem_begin_fields kiss_indicate_error_reply)
  ultimately show ?thesis using startRadio_starts [OF assms] by blast
qed

definition channel_ready :: "board \<Rightarrow> channel" where
  "channel_ready b = (channel_blank (\<lambda>a. 0))\<lparr>lora_freq := 868000000, lora_bw := 100000, lora_txp := 17, lora_sf := 8, hw_ready := True\<rparr>"

theorem radio_starts_iff_configured_witness:
  "\<exists>t. startRadio board_heltec32_v4 (channel_ready board_heltec32_v4) = Ret (True, t) \<and> radio_online t \<and>
     lora_freq t = 868000000 \<and> lora_bw t = 125000"
  using radio_starts_iff_configured [of "channel_ready board_heltec32_v4" board_heltec32_v4]
  by (auto simp: channel_ready_def channel_blank_defs radio_blank_defs radio_configured_def board_values
      modem_frequency_def modem_bandwidth_def subghz_bandwidth_def)

text \<open>
  A node that starts its radio by itself ignores a saved configuration. When the radio is off although a
  radio configuration is stored (automatic start switched off), \<open>urns_radio_bringup\<close> runs the radio
  at 868.825 MHz and 125 kHz whatever frequency and bandwidth the user has saved; the store is left
  alone. Only without a stored configuration are these values the intended first ones, and then
  they are saved.
\<close>

theorem bringup_ignores_saved_configuration:
  assumes "urns_ready s" "urns_wants_lora b s" "\<not> radio_online s" "\<not> console_active s" "hw_ready s" "modem_responds s"
  shows "\<exists>t. urns_radio_bringup b s = Ret t \<and> radio_online t \<and>
    (eeprom_have_conf b s \<longrightarrow> eeprom t = eeprom s \<and>
       lora_freq t = modem_frequency (modem b) 868825000 \<and> lora_bw t = modem_bandwidth (modem b) 125000) \<and>
    (\<not> eeprom_have_conf b s \<longrightarrow> eeprom_have_conf b t \<and>
       read_be32 t (eeprom_addr b ADDR_CONF_FREQ) = modem_frequency (modem b) 868825000 \<and>
       read_be32 t (eeprom_addr b ADDR_CONF_BW) = modem_bandwidth (modem b) 125000)"
proof -
  let ?s = "s\<lparr>lora_freq := 868825000, lora_bw := 125000, lora_sf := 10, lora_cr := 7, lora_txp := 17\<rparr>"
  have "radio_configured ?s" by (simp add: radio_configured_def)
  then obtain t where t: "startRadio b ?s = Ret (True, t)" "radio_online t" "hw_ready t" "eeprom t = eeprom s"
    "lora_freq t = modem_frequency (modem b) 868825000" "lora_bw t = modem_bandwidth (modem b) 125000"
    using startRadio_starts [of ?s b] assms(3-6) by auto
  have c: "eeprom_have_conf b t = eeprom_have_conf b s" using t(4) by (simp add: eeprom_have_conf_def eeprom_read_def)
  have u: "urns_radio_bringup b s = Ret (if eeprom_have_conf b s then t else eeprom_conf_save b t)"
    using assms t(1,2) c by (auto simp: urns_radio_bringup_def)
  note r = eeprom_read_conf_save [OF t(3,2), of b]
  have be: "i < 4 \<Longrightarrow> i = 0 \<or> i = 1 \<or> i = 2 \<or> i = 3" for i :: nat by auto
  have "read_be32 (eeprom_conf_save b t) (eeprom_addr b ADDR_CONF_FREQ) = lora_freq t"
    by (rule read_be32_be32) (use be in \<open>auto simp: r eeprom_addr_def Let_def\<close>)
  moreover have "read_be32 (eeprom_conf_save b t) (eeprom_addr b ADDR_CONF_BW) = lora_bw t"
    by (rule read_be32_be32) (use be in \<open>auto simp: r eeprom_addr_def Let_def\<close>)
  moreover have "eeprom_have_conf b (eeprom_conf_save b t)" by (simp add: eeprom_have_conf_def r eeprom_addr_def Let_def)
  moreover have "radio_online (eeprom_conf_save b t)" using t(2) by (simp add: radio_online_conf_save)
  ultimately show ?thesis using u t c by simp
qed

definition autonomous_node :: "u8 \<Rightarrow> espnow" where
  "autonomous_node x = (espnow_start board_meshpoe_s3 (\<lambda>a. x))\<lparr>urns_ready := True, hw_ready := True\<rparr>"

theorem bringup_ignores_saved_configuration_witness:
  "\<exists>t. urns_radio_bringup board_meshpoe_s3 (autonomous_node CONF_OK_BYTE) = Ret t \<and>
     read_be32 t (eeprom_addr board_meshpoe_s3 ADDR_CONF_FREQ) = 0x73737373 \<and> lora_freq t = 868825000"
proof -
  let ?s = "autonomous_node CONF_OK_BYTE"
  have s: "urns_ready ?s" "urns_wants_lora board_meshpoe_s3 ?s" "\<not> radio_online ?s" "\<not> console_active ?s" "hw_ready ?s"
    "modem_responds ?s" "eeprom ?s = (\<lambda>a. CONF_OK_BYTE)"
    by (simp_all add: autonomous_node_def espnow_start_def csma.defs csma_blank_defs urns_wants_lora_def)
  then have "eeprom_have_conf board_meshpoe_s3 ?s" by (simp add: eeprom_have_conf_def eeprom_read_def)
  moreover have "read_be32 t a = 0x73737373" if "eeprom t = (\<lambda>a. CONF_OK_BYTE)" for a and t :: espnow
    using that by (simp add: read_be32_def eeprom_read_def of_be32_def)
  moreover have "modem_frequency (modem board_meshpoe_s3) f = f" for f
    by (simp add: modem_frequency_def board_meshpoe_s3_def board_values)
  ultimately show ?thesis using bringup_ignores_saved_configuration [OF s(1-6)] s(7) by auto
qed

end
