(* ===== verification/Device.thy ===== *)
theory Device
  imports Radio_Control
begin

text \<open>
  The identity and integrity of the device (\<^verbatim>\<open>Device.h\<close>) and the hardware check at start-up
  (\<open>validate_status\<close> of \<^verbatim>\<open>RNode_Firmware.ino\<close>): the signature of the device hash, the hash of the
  running firmware against the stored one, and the checks of the provisioned information that
  together decide whether the node becomes operational. The cryptographic primitives are
  third-party code and appear as functions in the record \<open>crypto\<close>; an incremental SHA-256 context is
  the list of bytes it has absorbed.
\<close>

section \<open>State\<close>

abbreviation (input) DEV_KEY_LEN :: nat where "DEV_KEY_LEN \<equiv> 32"
abbreviation (input) CHUNK_SIZE :: nat where "CHUNK_SIZE \<equiv> 128"
abbreviation (input) APPLICATION_START :: nat where "APPLICATION_START \<equiv> 0x26000"
abbreviation (input) IMG_SIZE_START :: nat where "IMG_SIZE_START \<equiv> 0xFF008"
abbreviation (input) MODE_TNC :: u8 where "MODE_TNC \<equiv> 0x12"
abbreviation (input) START_FROM_BOOTLOADER :: u8 where "START_FROM_BOOTLOADER \<equiv> 0x01"
abbreviation (input) START_FROM_POWERON :: u8 where "START_FROM_POWERON \<equiv> 0x02"
abbreviation (input) START_FROM_BROWNOUT :: u8 where "START_FROM_BROWNOUT \<equiv> 0x03"

definition dev_keys :: "u8 list" where
  "dev_keys =
    [0x0f, 0x15, 0x86, 0x74, 0xa0, 0x7d, 0xf2, 0xde, 0x32, 0x11, 0x29, 0xc1, 0x0d, 0xda, 0xcc, 0xc3,
     0xe1, 0x9b, 0xac, 0xf2, 0x27, 0x06, 0xee, 0x89, 0x1f, 0x7a, 0xfc, 0xc3, 0x6a, 0xf5, 0x38, 0x08]"

datatype flash_partition = PartitionTable | Bootloader | RunningApp

record crypto =
  ed25519_verify :: "u8 list \<Rightarrow> u8 list \<Rightarrow> u8 list \<Rightarrow> bool"
  sha256 :: "u8 list \<Rightarrow> u8 list"
  partition_sha256 :: "flash_partition \<Rightarrow> u8 list"
  md5 :: "u8 list \<Rightarrow> u8 list"

record device = espnow +
  dev_sig :: "u8 list"
  dev_k_pub :: "u8 list"
  dev_hash :: "u8 list"
  dev_partition_table_hash :: "u8 list"
  dev_bootloader_hash :: "u8 list"
  dev_firmware_hash :: "u8 list"
  dev_firmware_hash_target :: "u8 list"
  dev_eeprom_signature :: "u8 list"
  dev_signature_validated :: bool
  fw_signature_validated :: bool
  bt_ready :: bool
  dev_bt_mac :: "u8 list"
  device_init_done :: bool
  flash :: "nat \<Rightarrow> u8"
  modem_installed :: bool
  eeprom_ok :: bool
  op_mode :: u8
  boot_vector :: u8
  disp_ready :: bool

section \<open>Signatures and hashes\<close>

definition device_signatures_ok :: "'a device_scheme \<Rightarrow> bool" where
  "device_signatures_ok s \<longleftrightarrow> dev_signature_validated s \<and> fw_signature_validated s"

text \<open>The loop over the known keys: \<open>found\<close> is \<open>valid_signature_found\<close>.\<close>

fun try_keys :: "crypto \<Rightarrow> nat list \<Rightarrow> bool \<Rightarrow> 'a device_scheme \<Rightarrow> bool \<times> 'a device_scheme" where
  "try_keys c [] found s = (found, s)"
| "try_keys c (i # is) found s =
     (let s = s\<lparr>dev_k_pub := take DEV_KEY_LEN (drop (DEV_KEY_LEN * i) dev_keys)\<rparr>
      in try_keys c is (if ed25519_verify c (dev_sig s) (dev_k_pub s) (dev_hash s) then True else found) s)"

definition device_validate_signature :: "crypto \<Rightarrow> 'a device_scheme \<Rightarrow> 'a device_scheme" where
  "device_validate_signature c s =
     (let n_keys = length dev_keys div DEV_KEY_LEN;
          (found, s) = try_keys c [0..<n_keys] False s
      in s\<lparr>dev_signature_validated := found\<rparr>)"

definition device_save_signature :: "crypto \<Rightarrow> board \<Rightarrow> 'a device_scheme \<Rightarrow> 'a device_scheme" where
  "device_save_signature c b s =
     (let s = device_validate_signature c s
      in if dev_signature_validated s then write_from (eeprom_update b) (dev_sig_addr b 0) (dev_sig s) s else s)"

definition device_load_signature :: "board \<Rightarrow> 'a device_scheme \<Rightarrow> 'a device_scheme" where
  "device_load_signature b s = s\<lparr>dev_sig := read_from eeprom_read (dev_sig_addr b 0) DEV_SIG_LEN s\<rparr>"

definition device_load_firmware_hash :: "board \<Rightarrow> 'a device_scheme \<Rightarrow> 'a device_scheme" where
  "device_load_firmware_hash b s =
     s\<lparr>dev_firmware_hash_target := read_from eeprom_read (dev_fwhash_addr b 0) DEV_HASH_LEN s\<rparr>"

definition device_save_firmware_hash :: "board \<Rightarrow> 'a device_scheme \<Rightarrow> 'a device_scheme outcome" where
  "device_save_firmware_hash b s =
     (let s = write_from (eeprom_update b) (dev_fwhash_addr b 0) (dev_firmware_hash_target s) s;
          s = flush_if_nrf b s
      in if \<not> fw_signature_validated s then Rebooted s else Ret s)"

definition retrieve_application_size :: "'a device_scheme \<Rightarrow> nat" where
  "retrieve_application_size s =
     unat (of_be32 (flash s (IMG_SIZE_START + 3)) (flash s (IMG_SIZE_START + 2))
                   (flash s (IMG_SIZE_START + 1)) (flash s IMG_SIZE_START))"

text \<open>The loop of \<open>calculate_region_hash\<close>: the context absorbs the region chunk by chunk; \<open>size\<close> is a byte.\<close>

function region_loop :: "(nat \<Rightarrow> u8) \<Rightarrow> nat \<Rightarrow> nat \<Rightarrow> u8 list \<Rightarrow> u8 list" where
  "region_loop mem start stop ctx =
     (if start < stop then
        (let size = (if start + CHUNK_SIZE \<ge> stop then (stop - start) mod 256 else CHUNK_SIZE);
             chunk = map (\<lambda>i. mem (start + i)) [0..<CHUNK_SIZE]
         in region_loop mem (start + CHUNK_SIZE) stop (ctx @ take size chunk))
      else ctx)"
  by pat_completeness auto
termination
  by (relation "measure (\<lambda>(mem, start, stop, ctx). stop - start)") auto

definition calculate_region_hash :: "crypto \<Rightarrow> nat \<Rightarrow> nat \<Rightarrow> 'a device_scheme \<Rightarrow> u8 list" where
  "calculate_region_hash c start stop s = sha256 c (region_loop (flash s) start stop [])"

definition device_validate_partitions :: "crypto \<Rightarrow> board \<Rightarrow> 'a device_scheme \<Rightarrow> 'a device_scheme" where
  "device_validate_partitions c b s =
     (let s = device_load_firmware_hash b s;
          s = (if mcu b = McuEsp32 then
                 s\<lparr>dev_partition_table_hash := partition_sha256 c PartitionTable,
                   dev_bootloader_hash := partition_sha256 c Bootloader,
                   dev_firmware_hash := partition_sha256 c RunningApp\<rparr>
               else if mcu b = McuNrf52 then
                 s\<lparr>dev_firmware_hash :=
                     calculate_region_hash c APPLICATION_START (APPLICATION_START + retrieve_application_size s) s\<rparr>
               else s)
      in if validate_firmware b then
           if list_all (\<lambda>i. dev_firmware_hash_target s ! i = dev_firmware_hash s ! i) [0..<DEV_HASH_LEN]
           then s else s\<lparr>fw_signature_validated := False\<rparr>
         else s)"

definition device_firmware_ok :: "'a device_scheme \<Rightarrow> bool" where
  "device_firmware_ok s \<longleftrightarrow> fw_signature_validated s"

definition device_init :: "crypto \<Rightarrow> board \<Rightarrow> 'a device_scheme \<Rightarrow> bool \<times> 'a device_scheme" where
  "device_init c b s =
     (if bt_ready s then
        (let s = s\<lparr>dev_eeprom_signature := read_from eeprom_read (eeprom_addr b ADDR_SIGNATURE) EEPROM_SIG_LEN s\<rparr>;
             mac = (if has_bluetooth b \<or> has_ble b then dev_bt_mac s else []);
             s = s\<lparr>dev_hash := sha256 c (mac @ dev_eeprom_signature s)\<rparr>;
             s = device_validate_signature c (device_load_signature b s);
             s = device_validate_partitions c b s;
             s = s\<lparr>device_init_done := True\<rparr>
         in (device_init_done s \<and> fw_signature_validated s, s))
      else (False, s))"

text \<open>Reports to the host.\<close>

definition kiss_indicate_device_hash :: "board \<Rightarrow> 'a device_scheme \<Rightarrow> 'a device_scheme" where
  "kiss_indicate_device_hash b s = reply b CMD_DEV_HASH [] (take DEV_HASH_LEN (dev_hash s)) s"

definition kiss_indicate_target_fw_hash :: "board \<Rightarrow> 'a device_scheme \<Rightarrow> 'a device_scheme" where
  "kiss_indicate_target_fw_hash b s = reply b CMD_HASHES [0x01] (take DEV_HASH_LEN (dev_firmware_hash_target s)) s"

definition kiss_indicate_fw_hash :: "board \<Rightarrow> 'a device_scheme \<Rightarrow> 'a device_scheme" where
  "kiss_indicate_fw_hash b s = reply b CMD_HASHES [0x02] (take DEV_HASH_LEN (dev_firmware_hash s)) s"

definition kiss_indicate_bootloader_hash :: "board \<Rightarrow> 'a device_scheme \<Rightarrow> 'a device_scheme" where
  "kiss_indicate_bootloader_hash b s = reply b CMD_HASHES [0x03] (take DEV_HASH_LEN (dev_bootloader_hash s)) s"

definition kiss_indicate_partition_table_hash :: "board \<Rightarrow> 'a device_scheme \<Rightarrow> 'a device_scheme" where
  "kiss_indicate_partition_table_hash b s = reply b CMD_HASHES [0x04] (take DEV_HASH_LEN (dev_partition_table_hash s)) s"

section \<open>The hardware check\<close>

text \<open>\<open>mcusr\<close> is the reset cause register of the AVR boards.\<close>

definition boot_flags :: "board \<Rightarrow> u8 \<Rightarrow> u8" where
  "boot_flags b mcusr =
     (case mcu b of Mcu1284P \<Rightarrow> mcusr | Mcu2560 \<Rightarrow> (if mcusr = 0x00 then 0x03 else mcusr) | _ \<Rightarrow> 0x02)"

definition boot_bits :: "board \<Rightarrow> nat \<times> nat \<times> nat" where
  "boot_bits b = (case mcu b of Mcu1284P \<Rightarrow> (0, 2, 3) | Mcu2560 \<Rightarrow> (0, 2, 3) | _ \<Rightarrow> (0, 0, 1))"

definition show_failure :: "board \<Rightarrow> 'a device_scheme \<Rightarrow> 'a device_scheme" where
  "show_failure b s = (if has_display b \<and> disp_ready s then s\<lparr>device_init_done := True\<rparr> else s)"

definition fail_check :: "board \<Rightarrow> u8 list \<Rightarrow> 'a device_scheme \<Rightarrow> 'a device_scheme" where
  "fail_check b msg s = show_failure b (usb_print msg (s\<lparr>hw_ready := False\<rparr>))"

definition ascii :: "string \<Rightarrow> u8 list" where
  "ascii cs = map (\<lambda>ch. of_nat (of_char ch)) cs @ [0x0D, 0x0A]"

definition load_tnc_mode :: "board \<Rightarrow> 'a device_scheme \<Rightarrow> 'a device_scheme outcome" where
  "load_tnc_mode b s =
     (if hw_ready s \<and> eeprom_have_conf b s then
        (let s = (eeprom_conf_load b s)\<lparr>op_mode := MODE_TNC\<rparr>;
             raw = eeprom_read s ADDR_CONF_RADIO_AUTO_START;
             s = (if raw = RADIO_AUTO_START_ENABLE_BYTE then s\<lparr>radio_auto_start_enabled := True\<rparr>
                  else if raw = RADIO_AUTO_START_DISABLE_BYTE then s\<lparr>radio_auto_start_enabled := False\<rparr> else s)
         in if radio_auto_start_enabled s then map_outcome snd (startRadio b s) else Ret s)
      else Ret s)"

definition check_provisioned :: "crypto \<Rightarrow> board \<Rightarrow> 'a device_scheme \<Rightarrow> 'a device_scheme outcome" where
  "check_provisioned c b s =
     (if eeprom_lock_set b s then
        (let (model_ok, s1) = eeprom_model_valid b s;
             (hwrev_ok, s2) = eeprom_hwrev_valid b s1
         in if \<not> eeprom_product_valid b s then Ret (fail_check b (ascii ''Invalid EEPROM configuration'') s)
            else if \<not> model_ok then Ret (fail_check b (ascii ''Invalid EEPROM configuration'') s1)
            else if \<not> hwrev_ok then Ret (fail_check b (ascii ''Invalid EEPROM configuration'') s2)
            else if eeprom_checksum_valid (md5 c) b s2 then
              (let s = s2\<lparr>eeprom_ok := True\<rparr>
               in if modem_installed s then
                    (let s = (if esp_or_nrf b then (let (ok, s) = device_init c b s in s\<lparr>hw_ready := ok\<rparr>)
                              else s\<lparr>hw_ready := True\<rparr>)
                     in load_tnc_mode b s)
                  else Rebooted (fail_check b (ascii ''No radio module found'') s))
            else Ret (fail_check b (ascii ''Invalid EEPROM checksum'') s2))
      else Ret (fail_check b (ascii ''Device unprovisioned, no device configuration found in EEPROM'') s))"

definition validate_status :: "crypto \<Rightarrow> board \<Rightarrow> u8 \<Rightarrow> 'a device_scheme \<Rightarrow> 'a device_scheme outcome" where
  "validate_status c b mcusr s =
     (if hw_ready s \<or> device_init_done s then Hung (fail_check b (ascii ''Error, invalid hardware check state'') s)
      else
        (let flags = boot_flags b mcusr; (por, bor, wdr) = boot_bits b
         in if bit flags por then check_provisioned c b (s\<lparr>boot_vector := START_FROM_POWERON\<rparr>)
            else if bit flags bor then
              Hung (fail_check b (ascii ''Error, incorrect boot vector'') (s\<lparr>boot_vector := START_FROM_BROWNOUT\<rparr>))
            else if bit flags wdr then check_provisioned c b (s\<lparr>boot_vector := START_FROM_BOOTLOADER\<rparr>)
            else Hung (show_failure b (usb_print (ascii ''Error, indeterminate boot vector'') s))))"


section \<open>Lemmas\<close>

declare region_loop.simps [simp del]

lemma region_loop_all: "region_loop mem start stop ctx = ctx @ map mem [start..<stop]"
proof (induction "stop - start" arbitrary: start ctx rule: less_induct)
  case less
  show ?case
  proof (cases "start < stop")
    case False
    then show ?thesis by (subst region_loop.simps) simp
  next
    case lt: True
    have chunk: "map (\<lambda>i. mem (start + i)) [0..<n] = map mem [start..<start + n]" for n
      by (rule nth_equalityI) simp_all
    show ?thesis
    proof (cases "start + CHUNK_SIZE \<ge> stop")
      case True
      have size: "(stop - start) mod 256 = stop - start" using True by simp
      have "region_loop mem start stop ctx =
          region_loop mem (start + CHUNK_SIZE) stop (ctx @ take (stop - start) (map (\<lambda>i. mem (start + i)) [0..<CHUNK_SIZE]))"
        using lt True size by (subst region_loop.simps) (simp add: Let_def)
      also have "\<dots> = ctx @ take (stop - start) (map (\<lambda>i. mem (start + i)) [0..<CHUNK_SIZE])"
        using True by (subst region_loop.simps) simp
      also have "take (stop - start) (map (\<lambda>i. mem (start + i)) [0..<CHUNK_SIZE]) = map mem [start..<stop]"
        using True lt by (simp add: take_map take_upt chunk)
      finally show ?thesis .
    next
      case False
      have "region_loop mem start stop ctx =
          region_loop mem (start + CHUNK_SIZE) stop (ctx @ map (\<lambda>i. mem (start + i)) [0..<CHUNK_SIZE])"
        using lt False by (subst region_loop.simps) (simp add: Let_def)
      also have "\<dots> = ctx @ map mem [start..<start + CHUNK_SIZE] @ map mem [start + CHUNK_SIZE..<stop]"
        using lt False less [of "start + CHUNK_SIZE"] by (simp add: chunk)
      also have "map mem [start..<start + CHUNK_SIZE] @ map mem [start + CHUNK_SIZE..<stop] = map mem [start..<stop]"
        using False upt_add_eq_append [of start "start + CHUNK_SIZE" "stop - (start + CHUNK_SIZE)"] by simp
      finally show ?thesis .
    qed
  qed
qed

lemma startRadio_gate:
  "hw_ready (snd (state_of (startRadio b s))) = hw_ready s"
  "radio_online (snd (state_of (startRadio b s))) \<Longrightarrow> \<not> radio_online s \<Longrightarrow> hw_ready s"
proof -
  have "hw_ready (snd (state_of (startRadio b s))) = hw_ready s \<and>
    (radio_online (snd (state_of (startRadio b s))) \<and> \<not> radio_online s \<longrightarrow> hw_ready s)"
    using start_online_result(4) [of "modem_begin b (update_radio_lock s)" b "lora_freq s"]
    by (simp add: startRadio_def Let_def update_radio_lock_fields modem_begin_fields kiss_indicate_error_reply
        kiss_indicate_radiostate_def select0_def kiss_select_interface_def)
  then show "hw_ready (snd (state_of (startRadio b s))) = hw_ready s"
    "radio_online (snd (state_of (startRadio b s))) \<Longrightarrow> \<not> radio_online s \<Longrightarrow> hw_ready s" by blast+
qed

lemma state_of_map [simp]: "state_of (map_outcome f r) = f (state_of r)" "returned (map_outcome f r) = returned r"
  by (cases r; simp)+

lemma usb_print_fields [simp]:
  "hw_ready (usb_print xs s) = hw_ready s" "radio_online (usb_print xs s) = radio_online s" "eeprom (usb_print xs s) = eeprom s"
  by (simp_all add: usb_print_eq)

lemma fail_check_fields [simp]: "\<not> hw_ready (fail_check b msg s)" "radio_online (fail_check b msg s) = radio_online s"
  by (simp_all add: fail_check_def show_failure_def)

lemma load_tnc_mode_gate:
  "hw_ready (state_of (load_tnc_mode b s)) = hw_ready s"
  "radio_online (state_of (load_tnc_mode b s)) \<Longrightarrow> \<not> radio_online s \<Longrightarrow> hw_ready s"
  by (auto simp: load_tnc_mode_def Let_def eeprom_conf_load_def startRadio_gate(1) dest: startRadio_gate(2) split: if_splits)

text \<open>What the firmware check compares.\<close>

definition running_hash :: "crypto \<Rightarrow> board \<Rightarrow> 'a device_scheme \<Rightarrow> u8 list" where
  "running_hash c b s =
     (if mcu b = McuEsp32 then partition_sha256 c RunningApp
      else sha256 c (map (flash s) [APPLICATION_START..<APPLICATION_START + retrieve_application_size s]))"

definition stored_hash :: "board \<Rightarrow> 'a device_scheme \<Rightarrow> u8 list" where
  "stored_hash b s = read_from eeprom_read (dev_fwhash_addr b 0) DEV_HASH_LEN s"

lemma list_all_nth_eq:
  "length xs = n \<Longrightarrow> length ys = n \<Longrightarrow> list_all (\<lambda>i. xs ! i = ys ! i) [0..<n] \<longleftrightarrow> xs = ys"
  unfolding list_eq_iff_nth_eq list_all_iff Ball_def by simp

lemma length_read_from [simp]: "length (read_from rd a n s) = n"
  by (simp add: read_from_def)

lemma validate_signature_eq:
  "device_validate_signature c s =
     s\<lparr>dev_k_pub := dev_keys, dev_signature_validated := ed25519_verify c (dev_sig s) dev_keys (dev_hash s)\<rparr>"
  by (simp add: device_validate_signature_def dev_keys_def Let_def)

text \<open>The state after the hashes have been filled in.\<close>

definition hashed :: "crypto \<Rightarrow> board \<Rightarrow> 'a device_scheme \<Rightarrow> 'a device_scheme" where
  "hashed c b s =
     (let s = s\<lparr>dev_firmware_hash_target := stored_hash b s, dev_firmware_hash := running_hash c b s\<rparr>
      in if mcu b = McuEsp32 then s\<lparr>dev_partition_table_hash := partition_sha256 c PartitionTable,
                                    dev_bootloader_hash := partition_sha256 c Bootloader\<rparr> else s)"

lemma validate_partitions_eq:
  assumes "esp_or_nrf b" "length (running_hash c b s) = DEV_HASH_LEN"
  shows "device_validate_partitions c b s =
    (hashed c b s)\<lparr>fw_signature_validated :=
       fw_signature_validated s \<and> (validate_firmware b \<longrightarrow> stored_hash b s = running_hash c b s)\<rparr>"
proof -
  have l: "device_load_firmware_hash b s = s\<lparr>dev_firmware_hash_target := stored_hash b s\<rparr>"
    by (simp add: device_load_firmware_hash_def stored_hash_def)
  have e: "list_all (\<lambda>i. stored_hash b s ! i = running_hash c b s ! i) [0..<DEV_HASH_LEN] \<longleftrightarrow> stored_hash b s = running_hash c b s"
    using assms(2) by (intro list_all_nth_eq) (simp_all add: stored_hash_def)
  have n: "calculate_region_hash c APPLICATION_START (APPLICATION_START + retrieve_application_size t) t = running_hash c b t"
    if "mcu b = McuNrf52" for t :: "'a device_scheme"
    using that by (simp add: calculate_region_hash_def running_hash_def region_loop_all)
  have h: "running_hash c b (s\<lparr>dev_firmware_hash_target := x\<rparr>) = running_hash c b s" for x
    by (simp add: running_hash_def retrieve_application_size_def)
  show ?thesis
  proof (cases "mcu b = McuEsp32")
    case True
    then have "running_hash c b s = partition_sha256 c RunningApp" by (simp add: running_hash_def)
    then show ?thesis using True e by (simp add: device_validate_partitions_def l hashed_def Let_def)
  next
    case False
    then have "mcu b = McuNrf52" using assms(1) by (simp add: esp_or_nrf_def)
    then show ?thesis using False e n h by (simp add: device_validate_partitions_def l hashed_def Let_def)
  qed
qed


lemma read_from_eeprom: "eeprom x = eeprom y \<Longrightarrow> read_from eeprom_read a n x = read_from eeprom_read a n y"
  by (simp add: read_from_def eeprom_read_def)

lemma hashes_cong:
  "eeprom t = eeprom s \<Longrightarrow> flash t = flash s \<Longrightarrow> running_hash c b t = running_hash c b s \<and> stored_hash b t = stored_hash b s"
  by (simp add: running_hash_def stored_hash_def retrieve_application_size_def read_from_def eeprom_read_def)

lemma device_init_result:
  assumes "esp_or_nrf b" "length (running_hash c b s) = DEV_HASH_LEN"
  shows "fst (device_init c b s) \<longleftrightarrow> bt_ready s \<and> fw_signature_validated s \<and>
      (validate_firmware b \<longrightarrow> stored_hash b s = running_hash c b s)"
    "radio_online (snd (device_init c b s)) = radio_online s" "eeprom (snd (device_init c b s)) = eeprom s"
proof -
  define t where "t = (let s = s\<lparr>dev_eeprom_signature := read_from eeprom_read (eeprom_addr b ADDR_SIGNATURE) EEPROM_SIG_LEN s\<rparr>;
             mac = (if has_bluetooth b \<or> has_ble b then dev_bt_mac s else []);
             s = s\<lparr>dev_hash := sha256 c (mac @ dev_eeprom_signature s)\<rparr>
          in device_validate_signature c (device_load_signature b s))"
  have t: "eeprom t = eeprom s" "flash t = flash s" "fw_signature_validated t = fw_signature_validated s" "radio_online t = radio_online s"
    by (simp_all add: t_def Let_def validate_signature_eq device_load_signature_def)
  have h: "running_hash c b t = running_hash c b s" "stored_hash b t = stored_hash b s" using hashes_cong [OF t(1,2)] by blast+
  let ?u = "(device_validate_partitions c b t)\<lparr>device_init_done := True\<rparr>"
  have d: "device_init c b s = (if bt_ready s then (fw_signature_validated ?u, ?u) else (False, s))"
    by (simp add: device_init_def t_def Let_def)
  have u: "device_validate_partitions c b t = (hashed c b t)\<lparr>fw_signature_validated :=
       fw_signature_validated s \<and> (validate_firmware b \<longrightarrow> stored_hash b s = running_hash c b s)\<rparr>"
    using validate_partitions_eq [OF assms(1), of c t] assms(2) h t(3) by simp
  show "fst (device_init c b s) \<longleftrightarrow> bt_ready s \<and> fw_signature_validated s \<and>
      (validate_firmware b \<longrightarrow> stored_hash b s = running_hash c b s)"
    "radio_online (snd (device_init c b s)) = radio_online s" "eeprom (snd (device_init c b s)) = eeprom s"
    unfolding d u using t by (simp_all add: hashed_def Let_def)
qed

section \<open>Properties\<close>

text \<open>
  C14: the firmware hash covers the whole application. The loop that feeds the application region to SHA-256 in
  chunks of 128 bytes, with the length of the last chunk kept in a byte, absorbs exactly the bytes
  of the region, in order, for every region.
\<close>

theorem region_hash_is_whole:
  "calculate_region_hash c start stop s = sha256 c (map (flash s) [start..<stop])"
  by (simp add: calculate_region_hash_def region_loop_all)

definition provisioned :: "crypto \<Rightarrow> board \<Rightarrow> 'a device_scheme \<Rightarrow> bool" where
  "provisioned c b s \<longleftrightarrow> eeprom_lock_set b s \<and> eeprom_product_valid b s \<and> fst (eeprom_model_valid b s) \<and>
     fst (eeprom_hwrev_valid b s) \<and> eeprom_checksum_valid (md5 c) b s"

text \<open>
  C16: the node becomes operational exactly when everything checks out. After the hardware check on an ESP32
  or nRF52 node that has just started, the hardware is marked ready if and only if the information
  block is locked, its product, model, revision and checksum are valid, the modem was found,
  Bluetooth is up, and, in a build that validates the firmware, the hash of the running firmware is
  the stored one. The radio is never on without this.
\<close>

theorem node_ready_iff_valid:
  assumes "esp_or_nrf b" "\<not> hw_ready s" "\<not> device_init_done s" "\<not> radio_online s" "fw_signature_validated s"
    and "length (running_hash c b s) = DEV_HASH_LEN"
  shows "(hw_ready (state_of (validate_status c b mcusr s)) \<longleftrightarrow>
           provisioned c b s \<and> modem_installed s \<and> bt_ready s \<and>
           (validate_firmware b \<longrightarrow> stored_hash b s = running_hash c b s)) \<and>
         (radio_online (state_of (validate_status c b mcusr s)) \<longrightarrow> hw_ready (state_of (validate_status c b mcusr s)))"
proof -
  define v where "v = s\<lparr>boot_vector := START_FROM_BOOTLOADER\<rparr>"
  have "bit (2 :: u8) 1" "\<not> bit (2 :: u8) 0" by (simp_all add: bit_iff_odd)
  then have v: "validate_status c b mcusr s = check_provisioned c b v"
    using assms(1-3) by (auto simp: validate_status_def boot_flags_def boot_bits_def v_def esp_or_nrf_def)
  define w where "w = (snd (eeprom_hwrev_valid b (snd (eeprom_model_valid b v))))\<lparr>eeprom_ok := True\<rparr>"
  have w: "eeprom w = eeprom s" "flash w = flash s" "bt_ready w = bt_ready s" "fw_signature_validated w = fw_signature_validated s"
    "radio_online w = radio_online s" "modem_installed w = modem_installed s"
    by (simp_all add: w_def v_def eeprom_hwrev_valid_def eeprom_model_valid_def Let_def)
  have r: "eeprom_read t = eeprom_read s" if "eeprom t = eeprom s" for t :: "'a device_scheme"
    using that by (simp add: eeprom_read_def fun_eq_iff)
  have p: "provisioned c b s \<longleftrightarrow> eeprom_lock_set b v \<and> eeprom_product_valid b v \<and> fst (eeprom_model_valid b v) \<and>
      fst (eeprom_hwrev_valid b (snd (eeprom_model_valid b v))) \<and>
      eeprom_checksum_valid (md5 c) b (snd (eeprom_hwrev_valid b (snd (eeprom_model_valid b v))))"
    by (simp add: provisioned_def v_def eeprom_lock_set_def eeprom_product_valid_def eeprom_model_valid_def
        eeprom_hwrev_valid_def eeprom_checksum_valid_def Let_def read_from_def eeprom_read_def)
  let ?d = "device_init c b w"
  have d: "fst ?d \<longleftrightarrow> bt_ready s \<and> (validate_firmware b \<longrightarrow> stored_hash b s = running_hash c b s)" "\<not> radio_online (snd ?d)"
    using device_init_result [OF assms(1), of c w] hashes_cong [OF w(1,2)] w assms(4,5,6) by simp_all
  have ok: "check_provisioned c b v = load_tnc_mode b ((snd ?d)\<lparr>hw_ready := fst ?d\<rparr>)"
    if "provisioned c b s" "modem_installed s"
    using that p w(6) assms(1) by (simp add: check_provisioned_def w_def split_beta Let_def)
  have bad: "\<not> hw_ready (state_of (check_provisioned c b v)) \<and> \<not> radio_online (state_of (check_provisioned c b v))"
    if "\<not> (provisioned c b s \<and> modem_installed s)"
  proof -
    have "radio_online v = radio_online s" "radio_online (snd (eeprom_model_valid b v)) = radio_online s"
      "radio_online (snd (eeprom_hwrev_valid b (snd (eeprom_model_valid b v)))) = radio_online s"
      by (simp_all add: v_def eeprom_hwrev_valid_def eeprom_model_valid_def Let_def)
    then show ?thesis using that p w(6) assms(4) by (auto simp: check_provisioned_def w_def split_beta Let_def)
  qed
  show ?thesis unfolding v
    using ok bad load_tnc_mode_gate [of b "(snd ?d)\<lparr>hw_ready := fst ?d\<rparr>"] d by (cases "provisioned c b s \<and> modem_installed s") auto
qed


text \<open>
  A concrete node for the witnesses: a store that the checks accept and primitives that return fixed
  values.
\<close>

definition toy_crypto :: crypto where
  "toy_crypto = \<lparr>ed25519_verify = (\<lambda>sig key msg. take 32 sig = msg), sha256 = (\<lambda>xs. replicate 32 (of_nat (length xs))),
    partition_sha256 = (\<lambda>p. replicate 32 7), md5 = (\<lambda>xs. replicate 16 7)\<rparr>"

definition good_memory :: "nat \<Rightarrow> u8" where
  "good_memory a = (if a = eeprom_addr board_meshpoe_s3 ADDR_PRODUCT then PRODUCT_HMBRW
                    else if a = eeprom_addr board_meshpoe_s3 ADDR_MODEL then MODEL_FE
                    else if a = eeprom_addr board_meshpoe_s3 ADDR_INFO_LOCK then INFO_LOCK_BYTE else 7)"

definition device_start :: "board \<Rightarrow> (nat \<Rightarrow> u8) \<Rightarrow> device" where
  "device_start b m = espnow.extend (espnow_start b m)
     \<lparr>dev_sig = replicate 64 0, dev_k_pub = replicate 32 0, dev_hash = replicate 32 0, dev_partition_table_hash = replicate 32 0,
      dev_bootloader_hash = replicate 32 0, dev_firmware_hash = replicate 32 0, dev_firmware_hash_target = replicate 32 0,
      dev_eeprom_signature = replicate 128 0, dev_signature_validated = False, fw_signature_validated = True,
      bt_ready = True, dev_bt_mac = [1, 2, 3, 4, 5, 6], device_init_done = False, flash = (\<lambda>a. 0), modem_installed = True,
      eeprom_ok = False, op_mode = 0x11, boot_vector = 0, disp_ready = False\<rparr>"

lemmas device_start_defs = device_start_def espnow.defs espnow_start_def csma.defs csma_blank_defs

lemma device_start_fields [simp]:
  "eeprom (device_start b m) = m" "\<not> hw_ready (device_start b m)" "\<not> device_init_done (device_start b m)"
  "\<not> radio_online (device_start b m)" "fw_signature_validated (device_start b m)" "bt_ready (device_start b m)"
  "modem_installed (device_start b m)"
  by (simp_all add: device_start_defs)

lemma good_memory_provisioned: "provisioned toy_crypto board_meshpoe_s3 (device_start board_meshpoe_s3 good_memory)"
proof -
  have "eeprom_offset board_meshpoe_s3 = 824" "mcu board_meshpoe_s3 = McuEsp32" "board_model board_meshpoe_s3 = BOARD_MESHPOE_S3"
    by (simp_all add: board_meshpoe_s3_def board_values eeprom_offset_def)
  then show ?thesis
    by (simp add: provisioned_def eeprom_lock_set_def eeprom_product_valid_def eeprom_model_valid_def eeprom_hwrev_valid_def
        eeprom_checksum_valid_def eeprom_read_def good_memory_def eeprom_addr_def products_of_def models_of_def model_table_def
        toy_crypto_def Let_def list_all_iff)
qed

theorem node_ready_iff_valid_witness:
  "hw_ready (state_of (validate_status toy_crypto board_meshpoe_s3 0 (device_start board_meshpoe_s3 good_memory)))"
proof -
  let ?s = "device_start board_meshpoe_s3 good_memory"
  have b: "esp_or_nrf board_meshpoe_s3" "mcu board_meshpoe_s3 = McuEsp32" "eeprom_size board_meshpoe_s3 = 1024"
    by (simp_all add: esp_or_nrf_def board_meshpoe_s3_def board_values)
  have r: "running_hash toy_crypto board_meshpoe_s3 ?s = replicate 32 7" by (simp add: running_hash_def b toy_crypto_def)
  have "good_memory (dev_fwhash_addr board_meshpoe_s3 0 + i) = 7" if "i < 32" for i
    using that b(3) by (simp add: good_memory_def dev_fwhash_addr_def eeprom_addr_def eeprom_offset_def)
  then have "stored_hash board_meshpoe_s3 ?s = replicate 32 7"
    unfolding stored_hash_def read_from_def eeprom_read_def by (intro nth_equalityI) simp_all
  then show ?thesis
    using node_ready_iff_valid [OF b(1), of ?s toy_crypto 0] good_memory_provisioned r by simp
qed

text \<open>
  Only a valid device signature is stored, and it is found again. A signature sent by the host that does not
  verify against the device hash leaves the store as it is; one that does is read back by the next
  start exactly as sent and validates there, and neither touches the stored firmware hash.
\<close>

theorem device_signature_roundtrip:
  assumes "length (dev_sig s) = DEV_SIG_LEN" "EEPROM_RESERVED + DEV_SIG_LEN + DEV_HASH_LEN \<le> eeprom_size b"
  shows "(\<not> ed25519_verify c (dev_sig s) dev_keys (dev_hash s) \<longrightarrow>
            eeprom (device_save_signature c b s) = eeprom s \<and> \<not> dev_signature_validated (device_save_signature c b s)) \<and>
         (ed25519_verify c (dev_sig s) dev_keys (dev_hash s) \<and> eeprom t = eeprom (device_save_signature c b s) \<and>
          dev_hash t = dev_hash s \<longrightarrow>
            dev_sig (device_load_signature b t) = dev_sig s \<and>
            dev_signature_validated (device_validate_signature c (device_load_signature b t))) \<and>
         stored_hash b (device_save_signature c b s) = stored_hash b s"
proof -
  let ?v = "device_validate_signature c s"
  have v: "eeprom ?v = eeprom s" "dev_sig ?v = dev_sig s" "dev_signature_validated ?v = ed25519_verify c (dev_sig s) dev_keys (dev_hash s)"
    by (simp_all add: validate_signature_eq)
  let ?w = "write_from (eeprom_update b) (dev_sig_addr b 0) (dev_sig s) ?v"
  have sav: "device_save_signature c b s = (if ed25519_verify c (dev_sig s) dev_keys (dev_hash s) then ?w else ?v)"
    using v by (simp add: device_save_signature_def Let_def)
  have load: "dev_sig (device_load_signature b t) = dev_sig s" if "eeprom t = eeprom ?w"
    using read_from_eeprom [OF that, of "dev_sig_addr b 0" DEV_SIG_LEN] assms(1) by (simp add: device_load_signature_def rs.read_write_from)
  have "stored_hash b ?w = stored_hash b ?v"
    using assms(2) rs.read_write_from_other [of "dev_fwhash_addr b 0" DEV_HASH_LEN "dev_sig_addr b 0" "dev_sig s" b ?v]
    by (simp add: stored_hash_def dev_fwhash_addr_def dev_sig_addr_def)
  moreover have "stored_hash b ?v = stored_hash b s" unfolding stored_hash_def using v(1) by (rule read_from_eeprom)
  ultimately have h: "stored_hash b ?w = stored_hash b s" "stored_hash b ?v = stored_hash b s" by simp_all
  have val: "dev_signature_validated (device_validate_signature c (device_load_signature b t))"
    if "eeprom t = eeprom ?w" "dev_hash t = dev_hash s" "ed25519_verify c (dev_sig s) dev_keys (dev_hash s)"
    using load [OF that(1)] that(2,3) by (simp add: validate_signature_eq device_load_signature_def)
  show ?thesis
  proof (cases "ed25519_verify c (dev_sig s) dev_keys (dev_hash s)")
    case True
    then show ?thesis using load val h(1) by (simp add: sav)
  next
    case False
    then show ?thesis using v h(2) by (simp add: sav)
  qed
qed

theorem device_signature_roundtrip_witness:
  "dev_sig (device_load_signature board_meshpoe_s3 (device_start board_meshpoe_s3
     (eeprom (device_save_signature toy_crypto board_meshpoe_s3 (device_start board_meshpoe_s3 good_memory))))) = replicate 64 0"
proof -
  have "EEPROM_RESERVED + DEV_SIG_LEN + DEV_HASH_LEN \<le> eeprom_size board_meshpoe_s3"
    by (simp add: board_meshpoe_s3_def board_values)
  moreover have "dev_sig (device_start b m) = replicate 64 0" "dev_hash (device_start b m) = replicate 32 0" for b m
    by (simp_all add: device_start_defs)
  ultimately show ?thesis
    using device_signature_roundtrip [of "device_start board_meshpoe_s3 good_memory" board_meshpoe_s3 toy_crypto
      "device_start board_meshpoe_s3 (eeprom (device_save_signature toy_crypto board_meshpoe_s3 (device_start board_meshpoe_s3 good_memory)))"]
    by (simp add: toy_crypto_def)
qed

text \<open>
  A firmware update is accepted on the next start exactly when the announced hash is right. When the host
  announces a hash of 32 bytes, it is stored, the device restarts if its firmware was not valid,
  and a start with this store finds the firmware valid if and only if the running firmware has
  this hash.
\<close>

theorem firmware_hash_update:
  assumes "length (dev_firmware_hash_target s) = DEV_HASH_LEN" "esp_or_nrf b" "validate_firmware b"
    and "eeprom t = eeprom (state_of (device_save_firmware_hash b s))" "bt_ready t" "fw_signature_validated t"
    and "length (running_hash c b t) = DEV_HASH_LEN"
  shows "(returned (device_save_firmware_hash b s) \<longleftrightarrow> fw_signature_validated s) \<and>
         (fst (device_init c b t) \<longleftrightarrow> dev_firmware_hash_target s = running_hash c b t)"
proof -
  let ?w = "write_from (eeprom_update b) (dev_fwhash_addr b 0) (dev_firmware_hash_target s) s"
  have f: "fw_signature_validated (write_from (eeprom_update b) a xs u) = fw_signature_validated u" for a xs and u :: "'a device_scheme"
    by (induction xs arbitrary: a u) (simp_all add: eeprom_update_def store_byte_def eeprom_flush_def Let_def)
  have w: "eeprom (state_of (device_save_firmware_hash b s)) = eeprom ?w"
    "returned (device_save_firmware_hash b s) \<longleftrightarrow> fw_signature_validated s"
    by (simp_all add: device_save_firmware_hash_def Let_def flush_if_nrf_def eeprom_flush_def f)
  have "stored_hash b t = read_from eeprom_read (dev_fwhash_addr b 0) DEV_HASH_LEN ?w"
    using assms(4) w(1) by (simp add: stored_hash_def read_from_def eeprom_read_def)
  then have "stored_hash b t = dev_firmware_hash_target s" using assms(1) by (simp add: rs.read_write_from)
  then show ?thesis using device_init_result(1) [OF assms(2,7)] w(2) assms(3,5,6) by simp
qed

theorem firmware_hash_update_witness:
  "fst (device_init toy_crypto board_meshpoe_s3 (device_start board_meshpoe_s3
     (eeprom (state_of (device_save_firmware_hash board_meshpoe_s3
       ((device_start board_meshpoe_s3 good_memory)\<lparr>dev_firmware_hash_target := replicate 32 7\<rparr>))))))"
proof -
  let ?s = "(device_start board_meshpoe_s3 good_memory)\<lparr>dev_firmware_hash_target := replicate 32 7\<rparr>"
  let ?t = "device_start board_meshpoe_s3 (eeprom (state_of (device_save_firmware_hash board_meshpoe_s3 ?s)))"
  have b: "esp_or_nrf board_meshpoe_s3" "mcu board_meshpoe_s3 = McuEsp32" "validate_firmware board_meshpoe_s3"
    by (simp_all add: esp_or_nrf_def board_meshpoe_s3_def board_values)
  have r: "running_hash toy_crypto board_meshpoe_s3 ?t = replicate 32 7" by (simp add: running_hash_def b toy_crypto_def)
  show ?thesis using firmware_hash_update [of ?s board_meshpoe_s3 ?t toy_crypto] b r by simp
qed

end
