(* ===== verification/Clock.thy ===== *)
theory Clock
  imports Prelude
begin

text \<open>
  Time of day (\<^verbatim>\<open>RTC.h\<close>, \<^verbatim>\<open>GNSS.h\<close>, \<^verbatim>\<open>Utilities.h\<close>): the calendar algorithms, the registers of the DS3231
  clock chip, setting it from a host, a network or the GNSS receiver, and the clock kept from a GNSS
  fix and \<open>millis\<close>. Signed quantities are integers (no value comes near the 32-bit limits); unsigned
  ones wrap at 32 bits where the source subtracts. The chip keeps its registers between a write and a
  read; whether it answers on the bus and what the receiver and the network report are state.
\<close>

section \<open>Calendar\<close>

definition uint32 :: "int \<Rightarrow> int" where
  "uint32 x = x mod 2 ^ 32"

definition rtc_days_from_civil :: "int \<Rightarrow> int \<Rightarrow> int \<Rightarrow> int" where
  "rtc_days_from_civil y m d =
     (let y = (if m \<le> 2 then y - 1 else y);
          era = c_div (if y \<ge> 0 then y else y - 399) 400;
          yoe = uint32 (y - era * 400);
          doy = uint32 (uint32 (153 * uint32 (m + (if m > 2 then - 3 else 9)) + 2) div 5 + d - 1);
          doe = uint32 (yoe * 365 + yoe div 4 - yoe div 100 + doy)
      in era * 146097 + doe - 719468)"

definition rtc_civil_from_days :: "int \<Rightarrow> int \<times> int \<times> int" where
  "rtc_civil_from_days z =
     (let z = z + 719468;
          era = c_div (if z \<ge> 0 then z else z - 146096) 146097;
          doe = uint32 (z - era * 146097);
          yoe = uint32 (doe - doe div 1460 + doe div 36524 - doe div 146096) div 365;
          y = yoe + era * 400;
          doy = uint32 (doe - (365 * yoe + yoe div 4 - yoe div 100));
          mp = uint32 (5 * doy + 2) div 153;
          d = uint32 (doy - uint32 (153 * mp + 2) div 5 + 1);
          m = uint32 (mp + (if mp < 10 then 3 else - 9))
      in (if m \<le> 2 then y + 1 else y, m, d))"

text \<open>\<^verbatim>\<open>GNSS.h\<close> has its own copies.\<close>

definition gnss_days_from_civil :: "int \<Rightarrow> int \<Rightarrow> int \<Rightarrow> int" where
  "gnss_days_from_civil y m d =
     (let y = (if m \<le> 2 then y - 1 else y);
          era = c_div (if y \<ge> 0 then y else y - 399) 400;
          yoe = uint32 (y - era * 400);
          doy = uint32 (uint32 (153 * uint32 (m + (if m > 2 then - 3 else 9)) + 2) div 5 + d - 1);
          doe = uint32 (yoe * 365 + yoe div 4 - yoe div 100 + doy)
      in era * 146097 + doe - 719468)"

definition gnss_civil_from_days :: "int \<Rightarrow> int \<times> int \<times> int" where
  "gnss_civil_from_days z =
     (let z = z + 719468;
          era = c_div (if z \<ge> 0 then z else z - 146096) 146097;
          doe = uint32 (z - era * 146097);
          yoe = uint32 (doe - doe div 1460 + doe div 36524 - doe div 146096) div 365;
          y = yoe + era * 400;
          doy = uint32 (doe - (365 * yoe + yoe div 4 - yoe div 100));
          mp = uint32 (5 * doy + 2) div 153;
          d = uint32 (doy - uint32 (153 * mp + 2) div 5 + 1);
          m = uint32 (mp + (if mp < 10 then 3 else - 9))
      in (if m \<le> 2 then y + 1 else y, m, d))"

section \<open>The clock chip\<close>

definition rtc_bcd2bin :: "u8 \<Rightarrow> u8" where
  "rtc_bcd2bin val = val - 6 * drop_bit 4 val"

definition rtc_bin2bcd :: "u8 \<Rightarrow> u8" where
  "rtc_bin2bcd val = val + 6 * (val div 10)"

text \<open>
  The chip and the sources of time: \<open>bus_ok\<close> is whether the chip acknowledges, \<open>gps_date\<close> and \<open>gps_time\<close>
  what the NMEA parser last decoded, with its validity flags.
\<close>

record clock =
  rtc_present :: bool
  bus_ok :: bool
  rtc_regs :: "u8 list"
  clock_ms :: u32
  gnss_enabled :: bool
  gps_date_is_valid :: bool
  gps_date :: "int \<times> int \<times> int"
  gps_time_is_valid :: bool
  gps_time :: "int \<times> int \<times> int"
  gnss_system_time_synced :: bool
  gnss_system_time_epoch_at_sync :: u32
  gnss_system_time_millis_at_sync :: u32

definition rtc_init :: "'a clock_scheme \<Rightarrow> bool \<times> 'a clock_scheme" where
  "rtc_init s = (let s = s\<lparr>rtc_present := bus_ok s\<rparr> in (rtc_present s, s))"

definition epoch_of :: "int \<Rightarrow> int \<Rightarrow> int \<Rightarrow> int \<Rightarrow> u32" where
  "epoch_of days h m sec = word_of_int (days * 86400 + h * 3600 + m * 60 + sec)"

definition rtc_get_unixtime :: "'a clock_scheme \<Rightarrow> u32" where
  "rtc_get_unixtime s =
     (if \<not> rtc_present s then 0
      else if \<not> bus_ok s then 0
      else
        (let sec_r = rtc_regs s ! 0; min_r = rtc_regs s ! 1; hour_r = rtc_regs s ! 2;
             date_r = rtc_regs s ! 4; month_r = rtc_regs s ! 5; year_r = rtc_regs s ! 6;
             seconds = rtc_bcd2bin (sec_r AND 0x7F);
             minutes = rtc_bcd2bin (min_r AND 0x7F);
             hours = (if hour_r AND 0x40 \<noteq> 0 then
                        (let h = rtc_bcd2bin (hour_r AND 0x1F) mod 12 in if hour_r AND 0x20 \<noteq> 0 then h + 12 else h)
                      else rtc_bcd2bin (hour_r AND 0x3F));
             date = uint (rtc_bcd2bin (date_r AND 0x3F));
             month = uint (rtc_bcd2bin (month_r AND 0x1F));
             year = 2000 + uint (rtc_bcd2bin year_r) + (if month_r AND 0x80 \<noteq> 0 then 100 else 0)
         in epoch_of (rtc_days_from_civil year month date) (uint hours) (uint minutes) (uint seconds)))"

definition rtc_time_valid :: "'a clock_scheme \<Rightarrow> bool" where
  "rtc_time_valid s =
     (if \<not> rtc_present s then False
      else (case rtc_civil_from_days (uint (rtc_get_unixtime s) div 86400) of (y, m, d) \<Rightarrow> y \<noteq> 2000))"

definition rtc_set_regs :: "u32 \<Rightarrow> u8 list" where
  "rtc_set_regs epoch =
     (let days = uint epoch div 86400; rem' = uint epoch mod 86400;
          hours = word_of_int (rem' div 3600) :: u8; rem' = rem' mod 3600;
          minutes = word_of_int (rem' div 60); seconds = word_of_int (rem' mod 60);
          (year, month, date) = rtc_civil_from_days days;
          yy = year - 2000;
          (century, yy) = (if yy \<ge> 100 then (0x80, yy - 100) else (0, yy));
          dow = word_of_int ((days mod 7 + 7 + 3) mod 7) + 1
      in [rtc_bin2bcd seconds, rtc_bin2bcd minutes, rtc_bin2bcd hours, dow, rtc_bin2bcd (word_of_int date),
          rtc_bin2bcd (word_of_int month) OR century, rtc_bin2bcd (word_of_int yy)])"

definition rtc_set_unixtime :: "u32 \<Rightarrow> 'a clock_scheme \<Rightarrow> bool \<times> 'a clock_scheme" where
  "rtc_set_unixtime epoch s =
     (if \<not> rtc_present s then (False, s)
      else if bus_ok s then (True, s\<lparr>rtc_regs := rtc_set_regs epoch\<rparr>) else (False, s))"

section \<open>Sources of time\<close>

definition gnss_date_valid :: "'a clock_scheme \<Rightarrow> bool" where
  "gnss_date_valid s \<longleftrightarrow> gps_date_is_valid s \<and> snd (snd (gps_date s)) \<noteq> 0"

definition gnss_time_valid :: "'a clock_scheme \<Rightarrow> bool" where
  "gnss_time_valid s \<longleftrightarrow> gps_time_is_valid s \<and> gps_time s \<noteq> (0, 0, 0)"

datatype sync_result = SyncOk | SyncNoRtc | SyncNoNet | SyncTimeout | SyncDisabled | SyncNoFix | SyncRtcWrite

definition sync_code :: "sync_result \<Rightarrow> u8" where
  "sync_code r = (case r of SyncOk \<Rightarrow> 0 | SyncNoRtc \<Rightarrow> 1 | SyncNoNet \<Rightarrow> 2 | SyncTimeout \<Rightarrow> 3
     | SyncDisabled \<Rightarrow> 2 | SyncNoFix \<Rightarrow> 3 | SyncRtcWrite \<Rightarrow> 4)"

text \<open>\<open>net_time\<close>: the answer of the network time client, \<open>None\<close> when it times out.\<close>

definition rtc_sync_ntp :: "bool \<Rightarrow> u32 option \<Rightarrow> 'a clock_scheme \<Rightarrow> sync_result \<times> 'a clock_scheme" where
  "rtc_sync_ntp net_up net_time s =
     (if \<not> rtc_present s then (SyncNoRtc, s)
      else if \<not> net_up then (SyncNoNet, s)
      else (case net_time of None \<Rightarrow> (SyncTimeout, s)
            | Some now \<Rightarrow> (let (ok, s) = rtc_set_unixtime now s in (if ok then SyncOk else SyncRtcWrite, s))))"

definition rtc_sync_gps :: "'a clock_scheme \<Rightarrow> sync_result \<times> 'a clock_scheme" where
  "rtc_sync_gps s =
     (if \<not> rtc_present s then (SyncNoRtc, s)
      else if \<not> gnss_enabled s then (SyncDisabled, s)
      else if \<not> gnss_date_valid s \<or> \<not> gnss_time_valid s then (SyncNoFix, s)
      else
        (let (y, mo, d) = gps_date s; (h, mi, sec) = gps_time s;
             (ok, s) = rtc_set_unixtime (epoch_of (rtc_days_from_civil y mo d) h mi sec) s
         in (if ok then SyncOk else SyncRtcWrite, s)))"

definition gnss_sync_system_time :: "'a clock_scheme \<Rightarrow> 'a clock_scheme" where
  "gnss_sync_system_time s =
     (if gnss_system_time_synced s then s
      else if \<not> gnss_date_valid s \<or> \<not> gnss_time_valid s then s
      else
        (let (y, mo, d) = gps_date s; (h, mi, sec) = gps_time s
         in s\<lparr>gnss_system_time_epoch_at_sync := epoch_of (gnss_days_from_civil y mo d) h mi sec,
              gnss_system_time_millis_at_sync := clock_ms s, gnss_system_time_synced := True\<rparr>))"

definition gnss_system_time_valid :: "'a clock_scheme \<Rightarrow> bool" where
  "gnss_system_time_valid s = gnss_system_time_synced s"

definition gnss_system_time_now :: "'a clock_scheme \<Rightarrow> u32" where
  "gnss_system_time_now s =
     (if \<not> gnss_system_time_synced s then 0
      else gnss_system_time_epoch_at_sync s + (clock_ms s - gnss_system_time_millis_at_sync s) div 1000)"

definition system_time_valid :: "bool \<Rightarrow> bool \<Rightarrow> 'a clock_scheme \<Rightarrow> bool" where
  "system_time_valid has_rtc has_gps s =
     (if has_rtc \<and> rtc_time_valid s then True else if has_gps \<and> gnss_system_time_valid s then True else False)"

definition system_time_utc :: "bool \<Rightarrow> bool \<Rightarrow> 'a clock_scheme \<Rightarrow> u32" where
  "system_time_utc has_rtc has_gps s =
     (if has_rtc \<and> rtc_time_valid s then rtc_get_unixtime s
      else if has_gps \<and> gnss_system_time_valid s then gnss_system_time_now s else 0)"

section \<open>Lemmas on the calendar\<close>

lemma uint32_id [simp]: "0 \<le> x \<Longrightarrow> x < 2 ^ 32 \<Longrightarrow> uint32 x = x"
  by (simp add: uint32_def)

lemma era_eq: "0 \<le> k \<Longrightarrow> n = k + 1 \<Longrightarrow> c_div (if z \<ge> 0 then z else z - k) n = z div n"
proof -
  assume k: "0 \<le> k" "n = k + 1"
  then have n: "0 < n" by simp
  show ?thesis
  proof (cases "z \<ge> 0")
    case False
    have "n - 1 - z = n * (- (z div n)) + (n - 1 - z mod n)"
      using minus_mod_eq_mult_div [of z n] by (simp add: algebra_simps)
    then have "(n - 1 - z) div n = - (z div n)"
      using pos_mod_bound [OF n, of z] pos_mod_sign [OF n, of z] by (intro int_div_pos_eq [where r = "n - 1 - z mod n"]) linarith+
    then show ?thesis using False k by (simp add: c_div_def)
  qed (simp add: c_div_def)
qed

text \<open>The first day of a year of the era, counted from March, and the year of a day.\<close>

definition year_start :: "int \<Rightarrow> int" where
  "year_start y = 365 * y + y div 4 - y div 100"

definition day_scale :: "int \<Rightarrow> int" where
  "day_scale doe = doe - doe div 1460 + doe div 36524 - doe div 146096"

definition year_ok :: "int \<Rightarrow> bool" where
  "year_ok y \<longleftrightarrow> day_scale (year_start y) div 365 = y \<and> day_scale (if y = 399 then 146096 else year_start (y + 1) - 1) div 365 = y \<and>
     (if y = 399 then 146096 else year_start (y + 1) - 1) - year_start y \<le> 365"

lemma years_ok: "list_all year_ok (upto 0 399)"
  by code_simp

lemma day_scale_mono: "0 \<le> a \<Longrightarrow> a \<le> b \<Longrightarrow> b \<le> 146096 \<Longrightarrow> day_scale a \<le> day_scale b"
proof -
  have step: "day_scale x \<le> day_scale (x + 1)" if "0 \<le> x" "x < 146096" for x
  proof -
    have 1: "(x + 1) div 1460 \<le> x div 1460 + 1"
      using zdiv_mono1 [of "x + 1" "x + 1460" 1460] by simp
    have 2: "x div 36524 \<le> (x + 1) div 36524" by (intro zdiv_mono1) auto
    have 3: "x div 146096 = 0" using that by (intro div_pos_pos_trivial)
    show ?thesis
    proof (cases "x = 146095")
      case False
      then have "(x + 1) div 146096 = 0" using that by (intro div_pos_pos_trivial) auto
      then show ?thesis using 1 2 3 unfolding day_scale_def by linarith
    qed (simp add: day_scale_def)
  qed
  assume "0 \<le> a" "a \<le> b" "b \<le> 146096"
  then show ?thesis
  proof (induction "nat (b - a)" arbitrary: b)
    case (Suc n)
    then have "day_scale a \<le> day_scale (b - 1)" by (intro Suc(1)) auto
    moreover have "day_scale (b - 1) \<le> day_scale (b - 1 + 1)" using Suc by (intro step) auto
    ultimately show ?case by simp
  qed simp
qed

lemma year_exists:
  assumes "0 \<le> doe" "doe \<le> 146096"
  shows "\<exists>y. 0 \<le> y \<and> y \<le> 399 \<and> year_start y \<le> doe \<and> doe \<le> (if y = 399 then 146096 else year_start (y + 1) - 1)"
proof -
  have "\<exists>y. 0 \<le> y \<and> y \<le> 399 \<and> year_start y \<le> doe \<and> (y = n \<or> doe \<le> year_start (y + 1) - 1)" if "0 \<le> n" "n \<le> 399" for n
    using that
  proof (induction "nat n" arbitrary: n)
    case 0
    then show ?case using assms by (intro exI [of _ 0]) (auto simp: year_start_def)
  next
    case (Suc k)
    then have "k = nat (n - 1)" "0 \<le> n - 1" "n - 1 \<le> 399" by linarith+
    then obtain y where y: "0 \<le> y" "y \<le> 399" "year_start y \<le> doe" "y = n - 1 \<or> doe \<le> year_start (y + 1) - 1"
      using Suc(1) by blast
    show ?case
    proof (cases "doe \<le> year_start (y + 1) - 1")
      case False
      then show ?thesis using y Suc by (intro exI [of _ n]) auto
    qed (use y in auto)
  qed
  then obtain y where "0 \<le> y" "y \<le> 399" "year_start y \<le> doe" "y = 399 \<or> doe \<le> year_start (y + 1) - 1"
    by (metis zero_le_numeral order_refl)
  then show ?thesis using assms by (intro exI [of _ y]) auto
qed

definition year_end :: "int \<Rightarrow> int" where
  "year_end y = (if y = 399 then 146096 else year_start (y + 1) - 1)"

lemma year_end_le: "0 \<le> k \<Longrightarrow> k \<le> 399 \<Longrightarrow> year_end k \<le> 146096"
proof (cases "k = 399")
  case False
  assume "0 \<le> k" "k \<le> 399"
  then have "(k + 1) div 4 \<le> 399 div 4" "0 \<le> (k + 1) div 100" using False by (auto intro!: zdiv_mono1 simp: pos_imp_zdiv_nonneg_iff)
  then show ?thesis using False \<open>k \<le> 399\<close> by (simp add: year_start_def year_end_def)
qed (simp add: year_end_def)

lemma year_unique:
  assumes "0 \<le> k" "k \<le> 399" "year_start k \<le> doe" "doe \<le> year_end k"
  shows "day_scale doe div 365 = k"
proof -
  have ok: "year_ok k" using years_ok assms by (simp add: list_all_iff)
  have s: "0 \<le> year_start k" using assms(1) by (simp add: year_start_def)
  have "day_scale (year_start k) div 365 \<le> day_scale doe div 365" "day_scale doe div 365 \<le> day_scale (year_end k) div 365"
    using day_scale_mono [OF s assms(3)] day_scale_mono [OF _ assms(4)] s assms(3,4) year_end_le [OF assms(1,2)] by (auto intro!: zdiv_mono1)
  then show ?thesis using ok unfolding year_ok_def year_end_def by linarith
qed

lemma year_of_day:
  assumes "0 \<le> doe" "doe \<le> 146096"
  defines "y \<equiv> day_scale doe div 365"
  shows "0 \<le> y" "y \<le> 399" "0 \<le> doe - year_start y" "doe - year_start y \<le> 365" "doe \<le> year_end y"
proof -
  obtain k where k: "0 \<le> k" "k \<le> 399" "year_start k \<le> doe" "doe \<le> year_end k"
    using year_exists [OF assms(1,2)] unfolding year_end_def by blast
  have ok: "year_ok k" using years_ok k by (simp add: list_all_iff)
  have "y = k" unfolding y_def by (rule year_unique [OF k])
  then show "0 \<le> y" "y \<le> 399" "0 \<le> doe - year_start y" "doe - year_start y \<le> 365" "doe \<le> year_end y"
    using k ok unfolding year_ok_def year_end_def by (auto split: if_splits)
qed

text \<open>Months of the year counted from March.\<close>

definition month_ok :: "int \<Rightarrow> bool" where
  "month_ok doy \<longleftrightarrow> (let mp = (5 * doy + 2) div 153
     in 0 \<le> mp \<and> mp \<le> 11 \<and> 0 \<le> doy - (153 * mp + 2) div 5 \<and> doy - (153 * mp + 2) div 5 \<le> 30)"

lemma months_ok: "list_all month_ok (upto 0 365)"
  by code_simp

lemma month_of_day:
  fixes doy :: int
  assumes "0 \<le> doy" "doy \<le> 365"
  defines "mp \<equiv> (5 * doy + 2) div 153"
  shows "0 \<le> mp" "mp \<le> 11" "0 \<le> doy - (153 * mp + 2) div 5" "doy - (153 * mp + 2) div 5 \<le> 30"
proof -
  have "month_ok doy" using months_ok assms(1,2) by (simp add: list_all_iff)
  then show "0 \<le> mp" "mp \<le> 11" "0 \<le> doy - (153 * mp + 2) div 5" "doy - (153 * mp + 2) div 5 \<le> 30"
    by (simp_all add: month_ok_def Let_def mp_def)
qed

text \<open>The date of a day, without the wraps of the unsigned arithmetic.\<close>

lemma civil_from_days_eq:
  fixes z :: int
  defines "doe \<equiv> (z + 719468) mod 146097"
  defines "yoe \<equiv> day_scale doe div 365"
  defines "doy \<equiv> doe - year_start yoe"
  defines "mp \<equiv> (5 * doy + 2) div 153"
  shows "rtc_civil_from_days z =
    (let y = yoe + (z + 719468) div 146097 * 400; m = (if mp < 10 then mp + 3 else mp - 9)
     in (if m \<le> 2 then y + 1 else y, m, doy - (153 * mp + 2) div 5 + 1))"
proof -
  have d: "0 \<le> doe" "doe \<le> 146096" using pos_mod_bound [of 146097 "z + 719468"] by (simp_all add: doe_def)
  note y = year_of_day [OF d, folded yoe_def, folded doy_def]
  note m = month_of_day [OF y(3,4), folded mp_def]
  have e: "z + 719468 - (z + 719468) div 146097 * 146097 = doe" by (simp add: doe_def minus_div_mult_eq_mod)
  have s: "0 \<le> day_scale doe" "day_scale doe < 2 ^ 32"
  proof -
    have "day_scale 0 \<le> day_scale doe" "day_scale doe \<le> day_scale 146096" using d by (auto intro!: day_scale_mono)
    then show "0 \<le> day_scale doe" "day_scale doe < 2 ^ 32" by (auto simp: day_scale_def)
  qed
  have era: "c_div (if z + 719468 \<ge> 0 then z + 719468 else z + 719468 - 146096) 146097 = (z + 719468) div 146097"
    by (rule era_eq) simp_all
  have u: "uint32 doe = doe" "uint32 (doe - doe div 1460 + doe div 36524 - doe div 146096) = day_scale doe"
    "uint32 (doe - (365 * yoe + yoe div 4 - yoe div 100)) = doy" "uint32 (5 * doy + 2) = 5 * doy + 2"
    using d s y by (simp_all add: day_scale_def [symmetric] doy_def year_start_def [symmetric])
  have v: "uint32 (153 * mp + 2) = 153 * mp + 2" "uint32 (doy - (153 * mp + 2) div 5 + 1) = doy - (153 * mp + 2) div 5 + 1"
    "uint32 (mp + (if mp < 10 then 3 else - 9)) = (if mp < 10 then mp + 3 else mp - 9)"
    using m by simp_all
  show ?thesis
    unfolding rtc_civil_from_days_def Let_def era e u yoe_def [symmetric] mp_def [symmetric] v ..
qed

text \<open>A date that the calendar functions produce.\<close>

lemma civil_in_range:
  "rtc_civil_from_days z = (y, m, d) \<Longrightarrow> 1 \<le> m \<and> m \<le> 12 \<and> 1 \<le> d \<and> d \<le> 31"
proof -
  assume a: "rtc_civil_from_days z = (y, m, d)"
  define doe where "doe = (z + 719468) mod 146097"
  define doy where "doy = doe - year_start (day_scale doe div 365)"
  have "0 \<le> doe" "doe \<le> 146096" using pos_mod_bound [of 146097 "z + 719468"] by (simp_all add: doe_def)
  note mr = month_of_day [OF year_of_day(3,4) [OF this, folded doy_def]]
  show ?thesis
    using a civil_from_days_eq [of z, folded doe_def, folded doy_def] mr by (auto simp: Let_def split: if_splits)
qed

lemma days_from_civil_from_days:
  assumes "rtc_civil_from_days z = (y, m, d)"
  shows "rtc_days_from_civil y m d = z"
proof -
  define doe where "doe = (z + 719468) mod 146097"
  define yoe where "yoe = day_scale doe div 365"
  define doy where "doy = doe - year_start yoe"
  define mp where "mp = (5 * doy + 2) div 153"
  define era where "era = (z + 719468) div 146097"
  have dr: "0 \<le> doe" "doe \<le> 146096" using pos_mod_bound [of 146097 "z + 719468"] by (simp_all add: doe_def)
  note yr = year_of_day [OF dr, folded yoe_def, folded doy_def]
  note mr = month_of_day [OF yr(3,4), folded mp_def]
  have eq: "y = (if m \<le> 2 then yoe + era * 400 + 1 else yoe + era * 400)" "m = (if mp < 10 then mp + 3 else mp - 9)"
    "d = doy - (153 * mp + 2) div 5 + 1"
    using assms civil_from_days_eq [of z, folded doe_def, folded yoe_def, folded doy_def, folded mp_def, folded era_def]
    by (auto simp: Let_def)
  have y': "(if m \<le> 2 then y - 1 else y) = yoe + era * 400" using eq(1) by simp
  have mm: "m + (if m > 2 then - 3 else 9) = mp" using eq(2) mr by (auto split: if_splits)
  have e: "c_div (if yoe + era * 400 \<ge> 0 then yoe + era * 400 else yoe + era * 400 - 399) 400 = era"
  proof -
    have "c_div (if yoe + era * 400 \<ge> 0 then yoe + era * 400 else yoe + era * 400 - 399) 400 = (yoe + era * 400) div 400"
      by (rule era_eq) simp_all
    then show ?thesis using yr by simp
  qed
  have "uint32 (uint32 (153 * uint32 mp + 2) div 5 + d - 1) = doy"
    using mr yr eq(3) by simp
  moreover have "yoe * 365 + yoe div 4 - yoe div 100 + doy = doe" by (simp add: doy_def year_start_def)
  moreover have "uint32 (yoe + era * 400 - era * 400) = yoe" using yr by simp
  moreover have "uint32 doe = doe" using dr by simp
  ultimately have "rtc_days_from_civil y m d = era * 146097 + doe - 719468"
    unfolding rtc_days_from_civil_def Let_def y' mm e by simp
  then show ?thesis by (simp add: era_def doe_def)
qed

section \<open>The calendar, day by day\<close>

text \<open>The Gregorian calendar as a reference: month lengths, leap years and the day after a date.\<close>

definition is_leap :: "int \<Rightarrow> bool" where
  "is_leap y \<longleftrightarrow> y mod 4 = 0 \<and> (y mod 100 \<noteq> 0 \<or> y mod 400 = 0)"

definition month_days :: "int \<Rightarrow> int \<Rightarrow> int" where
  "month_days y m = (if m = 2 then (if is_leap y then 29 else 28) else if m = 4 \<or> m = 6 \<or> m = 9 \<or> m = 11 then 30 else 31)"

fun next_day :: "int \<times> int \<times> int \<Rightarrow> int \<times> int \<times> int" where
  "next_day (y, m, d) = (if d < month_days y m then (y, m, d + 1) else if m < 12 then (y, m + 1, 1) else (y + 1, 1, 1))"

text \<open>Month and day of a day of the year counted from March, and the date.\<close>

definition month_day :: "int \<Rightarrow> int \<times> int" where
  "month_day doy = (let mp = (5 * doy + 2) div 153 in (if mp < 10 then mp + 3 else mp - 9, doy - (153 * mp + 2) div 5 + 1))"

definition civ :: "int \<Rightarrow> int \<Rightarrow> int \<Rightarrow> int \<times> int \<times> int" where
  "civ era yoe doy = (case month_day doy of (m, d) \<Rightarrow> (if m \<le> 2 then yoe + era * 400 + 1 else yoe + era * 400, m, d))"

lemma civil_civ:
  "rtc_civil_from_days z =
     (let doe = (z + 719468) mod 146097; yoe = day_scale doe div 365 in civ ((z + 719468) div 146097) yoe (doe - year_start yoe))"
  by (simp add: civil_from_days_eq Let_def civ_def month_day_def)

definition month_step_ok :: "int \<Rightarrow> bool" where
  "month_step_ok doy \<longleftrightarrow>
     (case (month_day doy, month_day (doy + 1)) of ((m, d), (m', d')) \<Rightarrow>
        if m = 2 then m' = 2 \<and> d' = d + 1 \<and> d < 28
        else if d < month_days 0 m then m' = m \<and> d' = d + 1 else d' = 1 \<and> m' = (if m < 12 then m + 1 else 1))"

lemma month_steps_ok: "list_all month_step_ok (upto 0 363)"
  by code_simp

definition leap_ok :: "int \<Rightarrow> bool" where
  "leap_ok y \<longleftrightarrow> (if is_leap (y + 1) then year_end y - year_start y = 365 else year_end y - year_start y = 364)"

lemma leaps_ok: "list_all leap_ok (upto 0 399)"
  by code_simp

lemma is_leap_era: "is_leap (y + era * 400) = is_leap y"
proof -
  have "(y + era * 400) mod 4 = y mod 4" "(y + era * 400) mod 100 = y mod 100" "(y + era * 400) mod 400 = y mod 400"
    using mod_mult_self1 [of y "era * 100" 4] mod_mult_self1 [of y "era * 4" 100] by (simp_all add: algebra_simps)
  then show ?thesis by (simp add: is_leap_def)
qed

lemma next_day_civ:
  assumes "0 \<le> doy" "doy \<le> 363"
  shows "next_day (civ era yoe doy) = civ era yoe (doy + 1)"
proof -
  have ok: "month_step_ok doy" using month_steps_ok assms by (simp add: list_all_iff)
  obtain m d where md: "month_day doy = (m, d)" by (cases "month_day doy")
  obtain m' d' where md': "month_day (doy + 1) = (m', d')" by (cases "month_day (doy + 1)")
  have "1 \<le> m" "m \<le> 12"
    using md month_of_day [of doy] assms by (auto simp: month_day_def Let_def split: if_splits)
  then show ?thesis using ok unfolding month_step_ok_def civ_def md md' by (auto simp: month_days_def split: if_splits)
qed

lemma civil_step: "rtc_civil_from_days (z + 1) = next_day (rtc_civil_from_days z)"
proof -
  define e where "e = (z + 719468) div 146097"
  define doe where "doe = (z + 719468) mod 146097"
  define yoe where "yoe = day_scale doe div 365"
  have dr: "0 \<le> doe" "doe \<le> 146096" using pos_mod_bound [of 146097 "z + 719468"] by (simp_all add: doe_def)
  note yr = year_of_day [OF dr, folded yoe_def]
  have z: "z + 719468 = e * 146097 + doe" by (simp add: e_def doe_def)
  have civ: "rtc_civil_from_days z = civ e yoe (doe - year_start yoe)"
    by (simp add: civil_civ Let_def e_def doe_def yoe_def)
  have leap: "leap_ok yoe" using leaps_ok yr(1,2) by (simp add: list_all_iff)
  have dm: "(z + 1 + 719468) div 146097 = (if doe = 146096 then e + 1 else e)"
    "(z + 1 + 719468) mod 146097 = (if doe = 146096 then 0 else doe + 1)"
  proof -
    have "z + 1 + 719468 = (if doe = 146096 then (e + 1) * 146097 + 0 else e * 146097 + (doe + 1))" using z by simp
    then show "(z + 1 + 719468) div 146097 = (if doe = 146096 then e + 1 else e)"
      "(z + 1 + 719468) mod 146097 = (if doe = 146096 then 0 else doe + 1)"
      using dr by (auto split: if_splits)
  qed
  have ends: "month_day 364 = (2, 28)" "month_day 365 = (2, 29)" "month_day 0 = (3, 1)" by (simp_all add: month_day_def)
  show ?thesis
  proof (cases "doe = year_end yoe")
    case False
    then have d: "doe + 1 \<le> year_end yoe" "doe \<noteq> 146096" using yr(5) year_end_le [OF yr(1,2)] by auto
    then have y1: "day_scale (doe + 1) div 365 = yoe" using yr by (intro year_unique) auto
    have c1: "rtc_civil_from_days (z + 1) = civ e yoe (doe - year_start yoe + 1)"
      using d dm y1 by (simp add: civil_civ Let_def algebra_simps)
    show ?thesis
    proof (cases "doe - year_start yoe \<le> 363")
      case True
      then show ?thesis using next_day_civ [of "doe - year_start yoe" e yoe] yr civ c1 by simp
    next
      case False
      then have "doe - year_start yoe = 364" "is_leap (yoe + 1)" using d(1) leap by (auto simp: leap_ok_def split: if_splits)
      then show ?thesis using civ c1 is_leap_era [of "yoe + 1" e] by (simp add: civ_def ends month_days_def algebra_simps)
    qed
  next
    case True
    have c0: "rtc_civil_from_days (z + 1) = (yoe + e * 400 + 1, 3, 1)"
    proof (cases "yoe = 399")
      case True
      then have "doe = 146096" using \<open>doe = year_end yoe\<close> by (simp add: year_end_def)
      moreover have "day_scale 0 div 365 = 0" "year_start 0 = 0" by (simp_all add: day_scale_def year_start_def)
      ultimately show ?thesis using dm True by (simp add: civil_civ Let_def civ_def ends)
    next
      case False
      then have d: "doe + 1 = year_start (yoe + 1)" using \<open>doe = year_end yoe\<close> by (simp add: year_end_def)
      have ok: "leap_ok (yoe + 1)" using leaps_ok yr(1,2) False by (simp add: list_all_iff)
      then have "year_start (yoe + 1) \<le> year_end (yoe + 1)" by (auto simp: leap_ok_def split: if_splits)
      then have "day_scale (doe + 1) div 365 = yoe + 1" unfolding d using yr False by (intro year_unique) auto
      moreover have "doe \<noteq> 146096" using d \<open>year_start (yoe + 1) \<le> year_end (yoe + 1)\<close> year_end_le [of "yoe + 1"] yr False by auto
      ultimately show ?thesis using dm d by (simp add: civil_civ Let_def civ_def ends)
    qed
    have "doe - year_start yoe = (if is_leap (yoe + 1) then 365 else 364)" using True leap by (auto simp: leap_ok_def)
    then show ?thesis using civ c0 is_leap_era [of "yoe + 1" e] by (auto simp: civ_def ends month_days_def algebra_simps)
  qed
qed

section \<open>Lemmas on the registers\<close>

definition bcd_ok :: "int \<Rightarrow> bool" where
  "bcd_ok v \<longleftrightarrow> (let w = rtc_bin2bcd (word_of_int v)
     in rtc_bcd2bin w = word_of_int v \<and> (v < 60 \<longrightarrow> w AND 0x7F = w) \<and> (v < 40 \<longrightarrow> w AND 0x3F = w \<and> w AND 0x40 = 0) \<and>
        (v < 20 \<longrightarrow> w AND 0x1F = w \<and> (w OR 0x80) AND 0x1F = w \<and> w AND 0x80 = 0 \<and> (w OR 0x80) AND 0x80 \<noteq> 0))"

lemma bcds_ok: "list_all bcd_ok (upto 0 99)"
  by code_simp

lemma bcd_facts:
  fixes v :: int
  assumes "0 \<le> v" "v \<le> 99"
  defines "w \<equiv> rtc_bin2bcd (word_of_int v)"
  shows "rtc_bcd2bin w = word_of_int v" "v < 60 \<Longrightarrow> w AND 0x7F = w" "v < 40 \<Longrightarrow> w AND 0x3F = w" "v < 40 \<Longrightarrow> w AND 0x40 = 0"
    "v < 20 \<Longrightarrow> w AND 0x1F = w" "v < 20 \<Longrightarrow> (w OR 0x80) AND 0x1F = w" "v < 20 \<Longrightarrow> w AND 0x80 = 0" "v < 20 \<Longrightarrow> (w OR 0x80) AND 0x80 \<noteq> 0"
proof -
  have "bcd_ok v" using bcds_ok assms(1,2) by (simp add: list_all_iff)
  note b = this [unfolded bcd_ok_def Let_def, folded w_def]
  show "rtc_bcd2bin w = word_of_int v" "v < 60 \<Longrightarrow> w AND 0x7F = w" "v < 40 \<Longrightarrow> w AND 0x3F = w" "v < 40 \<Longrightarrow> w AND 0x40 = 0"
    "v < 20 \<Longrightarrow> w AND 0x1F = w" "v < 20 \<Longrightarrow> (w OR 0x80) AND 0x1F = w" "v < 20 \<Longrightarrow> w AND 0x80 = 0" "v < 20 \<Longrightarrow> (w OR 0x80) AND 0x80 \<noteq> 0"
    using b by blast+
qed

lemma uint_byte: "0 \<le> v \<Longrightarrow> v < 256 \<Longrightarrow> uint (word_of_int v :: u8) = v"
  by (simp add: uint_word_of_int)

lemma civil_year_range:
  assumes "10957 \<le> z" "z \<le> 49710" "rtc_civil_from_days z = (y, m, d)"
  shows "2000 \<le> y \<and> y \<le> 2106"
proof -
  define doe where "doe = (z + 719468) mod 146097"
  define yoe where "yoe = day_scale doe div 365"
  define doy where "doy = doe - year_start yoe"
  define mp where "mp = (5 * doy + 2) div 153"
  define era where "era = (z + 719468) div 146097"
  have dr: "0 \<le> doe" "doe \<le> 146096" using pos_mod_bound [of 146097 "z + 719468"] by (simp_all add: doe_def)
  note yr = year_of_day [OF dr, folded yoe_def, folded doy_def]
  note mr = month_of_day [OF yr(3,4), folded mp_def]
  have eq: "y = (if m \<le> 2 then yoe + era * 400 + 1 else yoe + era * 400)" "m = (if mp < 10 then mp + 3 else mp - 9)"
    using assms(3) civil_from_days_eq [of z, folded doe_def, folded yoe_def, folded doy_def, folded mp_def, folded era_def]
    by (auto simp: Let_def)
  have z: "z + 719468 = era * 146097 + doe" by (simp add: era_def doe_def)
  have q: "0 \<le> yoe div 100" "yoe div 4 \<le> 99" "yoe div 100 \<le> yoe div 4"
    using yr zdiv_mono1 [of yoe 399 4] zdiv_mono2 [of yoe 4 100] by (simp_all add: pos_imp_zdiv_nonneg_iff)
  have s: "doe = 365 * yoe + yoe div 4 - yoe div 100 + doy" by (simp add: doy_def year_start_def)
  consider "era = 4" | "era = 5" using z dr assms(1,2) by linarith
  then show ?thesis
  proof cases
    case 1
    then have "yoe = 399" using z s q yr assms(1) by linarith
    moreover have "doy \<ge> 306" using 1 z s calculation assms(1) by simp
    then have "mp \<ge> 10" unfolding mp_def using zdiv_mono1 [of "5 * 306 + 2" "5 * doy + 2" 153] by simp
    then have "m \<le> 2" using eq(2) mr by simp
    ultimately show ?thesis using eq(1) 1 by simp
  next
    case 2
    have "yoe \<noteq> 106" using 2 z s yr(3) assms(2) by auto
    moreover have "yoe \<le> 106" using 2 z s q yr(3) assms(2) by linarith
    ultimately show ?thesis using eq(1) 2 yr(1) by auto
  qed
qed

section \<open>Properties\<close>

text \<open>
  C15: the date arithmetic is the Gregorian calendar. The date of day \<open>n\<close> is what counting \<open>n\<close> days forward from
  1970-01-01 gives, with the lengths of the months and leap years, for every \<open>n\<close>; the functions of the
  clock chip and of the GNSS receiver agree, and the day of a date computed back is the day it came from.
\<close>

theorem calendar_is_gregorian:
  "rtc_civil_from_days (int n) = (next_day ^^ n) (1970, 1, 1) \<and>
   gnss_civil_from_days z = rtc_civil_from_days z \<and>
   (case rtc_civil_from_days z of (y, m, d) \<Rightarrow> rtc_days_from_civil y m d = z \<and> gnss_days_from_civil y m d = z)"
proof -
  have "rtc_civil_from_days (int n) = (next_day ^^ n) (1970, 1, 1)"
  proof (induction n)
    case 0
    show ?case by code_simp
  next
    case (Suc n)
    then show ?case using civil_step [of "int n"] by (simp add: add.commute)
  qed
  moreover have "gnss_days_from_civil y m d = rtc_days_from_civil y m d" for y m d
    by (simp only: gnss_days_from_civil_def rtc_days_from_civil_def)
  moreover have "gnss_civil_from_days z = rtc_civil_from_days z"
    by (simp only: gnss_civil_from_days_def rtc_civil_from_days_def)
  ultimately show ?thesis using days_from_civil_from_days by (auto split: prod.splits)
qed

text \<open>
  The clock chip gives back the time it was set to. For every time from 2000 until the 32-bit epoch ends in 2106,
  \<open>rtc_get_unixtime\<close> returns exactly what \<open>rtc_set_unixtime\<close> wrote, through the calendar, the century
  bit and the BCD registers.
\<close>

theorem rtc_roundtrip:
  assumes "rtc_present s" "bus_ok s" "946684800 \<le> uint epoch"
  shows "fst (rtc_set_unixtime epoch s) \<and> rtc_get_unixtime (snd (rtc_set_unixtime epoch s)) = epoch"
proof -
  define days where "days = uint epoch div 86400"
  define h where "h = uint epoch mod 86400 div 3600"
  define mi where "mi = uint epoch mod 86400 mod 3600 div 60"
  define sec where "sec = uint epoch mod 86400 mod 3600 mod 60"
  obtain y m d where ymd: "rtc_civil_from_days days = (y, m, d)" by (metis prod_cases3)
  have "uint epoch < 2 ^ 32" using uint_lt2p [of epoch] by simp
  then have "10957 \<le> days" "days \<le> 49710"
    using assms(3) zdiv_mono1 [of 946684800 "uint epoch" 86400] zdiv_mono1 [of "uint epoch" 4294967295 86400] by (simp_all add: days_def)
  note yr = civil_year_range [OF this ymd] and md = civil_in_range [OF ymd]
  have r: "0 \<le> h" "h < 24" "0 \<le> mi" "mi < 60" "0 \<le> sec" "sec < 60"
    using zdiv_mono1 [of "uint epoch mod 86400" 86399 3600] zdiv_mono1 [of "uint epoch mod 86400 mod 3600" 3599 60]
    by (simp_all add: h_def mi_def sec_def pos_imp_zdiv_nonneg_iff)
  define c :: u8 where "c = (if y - 2000 \<ge> 100 then 0x80 else 0)"
  define yy where "yy = (if y - 2000 \<ge> 100 then y - 2000 - 100 else y - 2000)"
  have yy: "0 \<le> yy" "yy \<le> 99" "2000 + yy + (if c \<noteq> 0 then 100 else 0) = y" using yr by (auto simp: yy_def c_def)
  have regs: "rtc_set_regs epoch = [rtc_bin2bcd (word_of_int sec), rtc_bin2bcd (word_of_int mi), rtc_bin2bcd (word_of_int h),
      word_of_int ((days mod 7 + 7 + 3) mod 7) + 1, rtc_bin2bcd (word_of_int d), rtc_bin2bcd (word_of_int m) OR c, rtc_bin2bcd (word_of_int yy)]"
    unfolding rtc_set_regs_def Let_def days_def [symmetric] ymd h_def [symmetric] mi_def [symmetric] sec_def [symmetric]
    by (simp add: c_def yy_def)
  let ?s = "snd (rtc_set_unixtime epoch s)"
  have set: "rtc_set_unixtime epoch s = (True, s\<lparr>rtc_regs := rtc_set_regs epoch\<rparr>)"
    using assms by (simp add: rtc_set_unixtime_def)
  have mo: "(rtc_bin2bcd (word_of_int m) OR c) AND 0x1F = rtc_bin2bcd (word_of_int m)"
    "((rtc_bin2bcd (word_of_int m) OR c) AND 0x80 \<noteq> 0) = (c \<noteq> 0)"
    using bcd_facts [of m] md by (auto simp: c_def)
  have "rtc_get_unixtime ?s = epoch_of (rtc_days_from_civil y m d) h mi sec"
    unfolding set rtc_get_unixtime_def snd_conv
    using assms(1,2) bcd_facts [of sec] bcd_facts [of mi] bcd_facts [of h] bcd_facts [of d] bcd_facts [of m] bcd_facts [of yy] r md yy mo
    by (simp add: regs Let_def uint_byte)
  also have "\<dots> = epoch"
    unfolding days_from_civil_from_days [OF ymd] epoch_of_def
  proof -
    have "days * 86400 + h * 3600 + mi * 60 + sec = uint epoch"
      unfolding days_def h_def mi_def sec_def by simp
    then show "word_of_int (days * 86400 + h * 3600 + mi * 60 + sec) = epoch" by simp
  qed
  finally show ?thesis by (simp add: set)
qed

definition clock_blank :: clock where
  "clock_blank = \<lparr>rtc_present = False, bus_ok = True, rtc_regs = replicate 7 0, clock_ms = 0, gnss_enabled = True,
     gps_date_is_valid = False, gps_date = (2000, 0, 0), gps_time_is_valid = False, gps_time = (0, 0, 0),
     gnss_system_time_synced = False, gnss_system_time_epoch_at_sync = 0, gnss_system_time_millis_at_sync = 0\<rparr>"

theorem rtc_roundtrip_witness:
  "rtc_get_unixtime (snd (rtc_set_unixtime 4102444800 (clock_blank\<lparr>rtc_present := True\<rparr>))) = 4102444800"
  using rtc_roundtrip [of "clock_blank\<lparr>rtc_present := True\<rparr>" 4102444800] by (simp add: clock_blank_def)

text \<open>
  The clock kept from a GNSS fix counts seconds of \<open>millis\<close> since the fix, which wraps: it is right for the first
  2^32 milliseconds and then reads the time of the fix again.
\<close>

theorem gnss_clock_wraps:
  assumes "gnss_system_time_synced s" "k < 2 ^ 32"
  shows "gnss_system_time_now (s\<lparr>clock_ms := gnss_system_time_millis_at_sync s + of_nat k\<rparr>) =
           gnss_system_time_epoch_at_sync s + of_nat (k div 1000) \<and>
         gnss_system_time_now (s\<lparr>clock_ms := gnss_system_time_millis_at_sync s + of_nat (2 ^ 32)\<rparr>) =
           gnss_system_time_epoch_at_sync s"
proof -
  have "(of_nat k :: u32) div 1000 = of_nat (k div 1000)"
    using assms(2) by (simp add: word_unat_eq_iff unat_div unat_of_nat)
  moreover have "(of_nat (2 ^ 32) :: u32) = 0" by simp
  ultimately show ?thesis using assms(1) by (simp add: gnss_system_time_now_def del: of_nat_power)
qed

end
