(* ===== verification/Machines.thy ===== *)
theory Machines
  imports Prelude
begin

text \<open>
  The contract of a part of the firmware that reacts to events one at a time: an invariant that
  every reaction keeps. Receivers, queues and power state machines fulfil it; what follows for runs
  of any length is proved here once.
\<close>

locale step_invariant =
  fixes step :: "'e \<Rightarrow> 's \<Rightarrow> 's"
    and inv :: "'s \<Rightarrow> bool"
  assumes inv_step: "inv s \<Longrightarrow> inv (step e s)"
begin

lemma inv_run: "inv s \<Longrightarrow> inv (fold step es s)"
  by (induction es arbitrary: s) (simp_all add: inv_step)

text \<open>The invariant holds at every point of a run, not only at its end.\<close>

lemma inv_throughout: "inv s \<Longrightarrow> list_all (\<lambda>n. inv (fold step (take n es) s)) [0..<Suc (length es)]"
  unfolding list_all_iff using inv_run by blast

text \<open>A quantity no reaction raises by more than its event allows stays below their sum.\<close>

lemma bounded_growth:
  assumes "\<And>e s. inv s \<Longrightarrow> m (step e s) \<le> m s + (c e :: nat)"
  shows "inv s \<Longrightarrow> m (fold step es s) \<le> m s + sum_list (map c es)"
proof (induction es arbitrary: s)
  case (Cons e es)
  have "m (fold step es (step e s)) \<le> m (step e s) + sum_list (map c es)" using Cons inv_step by blast
  also have "\<dots> \<le> m s + c e + sum_list (map c es)" using assms Cons.prems by simp
  finally show ?case by simp
qed simp

end

end
