(* ===== verification/Gnss.thy ===== *)
theory Gnss
  imports Clock Floats Machines
begin

text \<open>
  The satellite receiver (\<^verbatim>\<open>GNSS.h\<close>): switching it on and off, detecting whether one is fitted, and
  the duty cycle that powers it down between fixes. The NMEA parser (TinyGPSPlus) is third-party
  code; what the firmware reads from it (a position has been seen, the count of valid sentences) is
  part of the state. \<open>gps_location_valid\<close> stays true once it is, as \<^verbatim>\<open>GNSS.h\<close> documents of the
  library. Times are 32-bit \<open>millis\<close> values.
\<close>

section \<open>State\<close>

abbreviation (input) GNSS_DETECT_PROBING :: u8 where "GNSS_DETECT_PROBING \<equiv> 0"
abbreviation (input) GNSS_DETECT_PRESENT :: u8 where "GNSS_DETECT_PRESENT \<equiv> 1"
abbreviation (input) GNSS_DETECT_ABSENT :: u8 where "GNSS_DETECT_ABSENT \<equiv> 2"
abbreviation (input) GNSS_DETECT_ATTEMPT_MS :: u32 where "GNSS_DETECT_ATTEMPT_MS \<equiv> 1000"
abbreviation (input) GNSS_DETECT_MAX_ATTEMPTS :: u8 where "GNSS_DETECT_MAX_ATTEMPTS \<equiv> 5"
abbreviation (input) GNSS_PSTATE_ACTIVE :: u8 where "GNSS_PSTATE_ACTIVE \<equiv> 0"
abbreviation (input) GNSS_PSTATE_HOLD :: u8 where "GNSS_PSTATE_HOLD \<equiv> 1"
abbreviation (input) GNSS_PSTATE_SLEEP :: u8 where "GNSS_PSTATE_SLEEP \<equiv> 2"
abbreviation (input) GNSS_UPDATE_INTERVAL_CONTINUOUS :: u32 where "GNSS_UPDATE_INTERVAL_CONTINUOUS \<equiv> 0"
abbreviation (input) GNSS_FIX_HOLD_MS :: u32 where "GNSS_FIX_HOLD_MS \<equiv> 10000"
abbreviation (input) GNSS_SEARCH_TIMEOUT_MS :: u32 where "GNSS_SEARCH_TIMEOUT_MS \<equiv> 90000"
abbreviation (input) GNSS_SEARCH_TIMEOUT_BACKOFF_MS :: u32 where "GNSS_SEARCH_TIMEOUT_BACKOFF_MS \<equiv> 45000"
abbreviation (input) GNSS_INITIAL_FIX_TIMEOUT_MS :: u32 where "GNSS_INITIAL_FIX_TIMEOUT_MS \<equiv> 180000"
abbreviation (input) GNSS_FAILED_SEARCH_RETRY_MS :: u32 where "GNSS_FAILED_SEARCH_RETRY_MS \<equiv> 300000"
abbreviation (input) GNSS_SOFTSLEEP_HARDSLEEP_CUTOVER_S :: u32 where "GNSS_SOFTSLEEP_HARDSLEEP_CUTOVER_S \<equiv> 900"

text \<open>Which gating pins a board has (\<open>PIN_GPS_EN\<close>, \<open>PIN_GPS_STANDBY\<close>) and whether it may duty-cycle.\<close>

record gps_pins =
  en_pin :: bool
  standby_pin :: bool
  duty_cycle_capable :: bool

definition gps_tbeam_1w :: gps_pins where
  "gps_tbeam_1w = \<lparr>en_pin = False, standby_pin = True, duty_cycle_capable = True\<rparr>"

definition gps_heltec32_v4 :: gps_pins where
  "gps_heltec32_v4 = \<lparr>en_pin = True, standby_pin = True, duty_cycle_capable = True\<rparr>"

definition gps_heltec32_v4_r8 :: gps_pins where
  "gps_heltec32_v4_r8 = \<lparr>en_pin = True, standby_pin = False, duty_cycle_capable = True\<rparr>"

definition gps_heltec_t114 :: gps_pins where
  "gps_heltec_t114 = \<lparr>en_pin = False, standby_pin = True, duty_cycle_capable = True\<rparr>"

definition gps_heltec_t096 :: gps_pins where
  "gps_heltec_t096 = \<lparr>en_pin = True, standby_pin = False, duty_cycle_capable = True\<rparr>"

definition gps_heltec_t1 :: gps_pins where
  "gps_heltec_t1 = \<lparr>en_pin = True, standby_pin = False, duty_cycle_capable = True\<rparr>"

text \<open>The boards whose receiver has no gating pin keep it running.\<close>

definition gps_ungated :: gps_pins where
  "gps_ungated = \<lparr>en_pin = False, standby_pin = False, duty_cycle_capable = False\<rparr>"

definition gps_boards :: "gps_pins list" where
  "gps_boards = [gps_tbeam_1w, gps_heltec32_v4, gps_heltec32_v4_r8, gps_heltec_t114, gps_heltec_t096, gps_heltec_t1,
                 gps_ungated]"

record gnss = clock +
  gps_location_valid :: bool
  gps_passed_checksum :: u32
  gps_serial_open :: bool
  level_en :: bool
  level_standby :: bool
  gnss_detect_state :: u8
  gnss_detect_baseline_sentences :: u32
  gnss_detect_attempts :: u8
  gnss_detect_last_attempt_ms :: u32
  gnss_update_interval_s :: u32
  gnss_pstate :: u8
  gnss_pstate_entered_ms :: u32
  gnss_duty_wake_at_ms :: u32
  gnss_duty_predicted_lock_ms :: u32
  gnss_duty_lock_count :: u8
  gnss_duty_consecutive_failures :: u8

section \<open>Operations\<close>

definition gnss_has_fix :: "'a gnss_scheme \<Rightarrow> bool" where
  "gnss_has_fix s \<longleftrightarrow> gps_location_valid s"

definition gnss_detect_reset :: "'a gnss_scheme \<Rightarrow> 'a gnss_scheme" where
  "gnss_detect_reset s =
     s\<lparr>gnss_detect_state := GNSS_DETECT_PROBING, gnss_detect_baseline_sentences := gps_passed_checksum s,
       gnss_detect_attempts := 0, gnss_detect_last_attempt_ms := clock_ms s\<rparr>"

definition gnss_duty_sleep_should_be_hard :: "gps_pins \<Rightarrow> 'a gnss_scheme \<Rightarrow> bool" where
  "gnss_duty_sleep_should_be_hard p s \<longleftrightarrow>
     (if en_pin p \<and> standby_pin p then gnss_update_interval_s s \<ge> GNSS_SOFTSLEEP_HARDSLEEP_CUTOVER_S else en_pin p)"

definition gnss_duty_pins_wake :: "gps_pins \<Rightarrow> 'a gnss_scheme \<Rightarrow> 'a gnss_scheme" where
  "gnss_duty_pins_wake p s =
     (let s = (if en_pin p then s\<lparr>level_en := False\<rparr> else s)
      in if standby_pin p then s\<lparr>level_standby := True\<rparr> else s)"

definition gnss_duty_pins_sleep :: "gps_pins \<Rightarrow> 'a gnss_scheme \<Rightarrow> 'a gnss_scheme" where
  "gnss_duty_pins_sleep p s =
     (let hard = gnss_duty_sleep_should_be_hard p s;
          s = (if en_pin p \<and> hard then s\<lparr>level_en := True\<rparr> else s)
      in if standby_pin p \<and> \<not> hard then s\<lparr>level_standby := False\<rparr> else s)"

definition gnss_duty_reset :: "'a gnss_scheme \<Rightarrow> 'a gnss_scheme" where
  "gnss_duty_reset s =
     s\<lparr>gnss_pstate := GNSS_PSTATE_ACTIVE, gnss_pstate_entered_ms := clock_ms s, gnss_duty_predicted_lock_ms := 0,
       gnss_duty_lock_count := 0, gnss_duty_consecutive_failures := 0\<rparr>"

definition gnss_set_enabled :: "gps_pins \<Rightarrow> bool \<Rightarrow> 'a gnss_scheme \<Rightarrow> 'a gnss_scheme" where
  "gnss_set_enabled p en s =
     (let s = s\<lparr>gnss_enabled := en\<rparr>;
          s = (if en_pin p then s\<lparr>level_en := \<not> en\<rparr> else s);
          s = (if standby_pin p then s\<lparr>level_standby := en\<rparr> else s)
      in if en then gnss_duty_reset (gnss_detect_reset (s\<lparr>gps_serial_open := True\<rparr>))
         else s\<lparr>gps_serial_open := False\<rparr>)"

text \<open>The start-up of the receiver; the pin modes it sets have no counterpart in the state.\<close>

definition gnss_init :: "gps_pins \<Rightarrow> 'a gnss_scheme \<Rightarrow> 'a gnss_scheme" where
  "gnss_init p s = gnss_set_enabled p (gnss_enabled s) s"

definition gnss_duty_schedule_sleep :: "gps_pins \<Rightarrow> u32 \<Rightarrow> bool \<Rightarrow> 'a gnss_scheme \<Rightarrow> 'a gnss_scheme" where
  "gnss_duty_schedule_sleep p now failed s =
     (let s = (gnss_duty_pins_sleep p s)\<lparr>gnss_pstate := GNSS_PSTATE_SLEEP, gnss_pstate_entered_ms := now\<rparr>;
          interval_ms = gnss_update_interval_s s * 1000;
          sleep_ms = (if failed then min interval_ms GNSS_FAILED_SEARCH_RETRY_MS
                      else if interval_ms > gnss_duty_predicted_lock_ms s
                           then interval_ms - gnss_duty_predicted_lock_ms s else 0)
      in s\<lparr>gnss_duty_wake_at_ms := now + sleep_ms\<rparr>)"

text \<open>The smoothed lock time, in \<open>float\<close> arithmetic with weight 0.2.\<close>

definition lock_ewma :: "u32 \<Rightarrow> u32 \<Rightarrow> u32" where
  "lock_ewma predicted lock_ms =
     word_of_int \<lfloor>f32 (f32 (f32 (1 - f32 (1 / 5)) * f32 (of_int (uint predicted))) +
                        f32 (f32 (1 / 5) * f32 (of_int (uint lock_ms))))\<rfloor>"

definition gnss_duty_active :: "gps_pins \<Rightarrow> u32 \<Rightarrow> 'a gnss_scheme \<Rightarrow> 'a gnss_scheme" where
  "gnss_duty_active p now s =
     (if gnss_has_fix s then
        (let lock_ms = now - gnss_pstate_entered_ms s;
             s = s\<lparr>gnss_duty_lock_count := gnss_duty_lock_count s + 1\<rparr>;
             s = (if gnss_duty_lock_count s \<ge> 2
                  then s\<lparr>gnss_duty_predicted_lock_ms :=
                           (if gnss_duty_predicted_lock_ms s = 0 then lock_ms
                            else lock_ewma (gnss_duty_predicted_lock_ms s) lock_ms)\<rparr>
                  else s)
         in s\<lparr>gnss_duty_consecutive_failures := 0, gnss_pstate := GNSS_PSTATE_HOLD, gnss_pstate_entered_ms := now\<rparr>)
      else
        (let timeout = (if gnss_duty_lock_count s = 0 then GNSS_INITIAL_FIX_TIMEOUT_MS
                        else if gnss_duty_consecutive_failures s > 0 then GNSS_SEARCH_TIMEOUT_BACKOFF_MS
                        else GNSS_SEARCH_TIMEOUT_MS)
         in if now - gnss_pstate_entered_ms s \<ge> timeout
            then gnss_duty_schedule_sleep p now True
                   (s\<lparr>gnss_duty_consecutive_failures := gnss_duty_consecutive_failures s + 1\<rparr>)
            else s))"

definition gnss_duty_cycle_update :: "gps_pins \<Rightarrow> 'a gnss_scheme \<Rightarrow> 'a gnss_scheme" where
  "gnss_duty_cycle_update p s =
     (if gnss_update_interval_s s = GNSS_UPDATE_INTERVAL_CONTINUOUS \<or> \<not> duty_cycle_capable p then
        (let s = (if gnss_pstate s \<noteq> GNSS_PSTATE_ACTIVE then gnss_duty_pins_wake p s else s)
         in s\<lparr>gnss_pstate := GNSS_PSTATE_ACTIVE\<rparr>)
      else
        (let now = clock_ms s
         in if gnss_pstate s = GNSS_PSTATE_ACTIVE then gnss_duty_active p now s
            else if gnss_pstate s = GNSS_PSTATE_HOLD then
              (if now - gnss_pstate_entered_ms s \<ge> GNSS_FIX_HOLD_MS then gnss_duty_schedule_sleep p now False s else s)
            else if 0 \<le> sint (now - gnss_duty_wake_at_ms s) then
              (gnss_duty_pins_wake p s)\<lparr>gnss_pstate := GNSS_PSTATE_ACTIVE, gnss_pstate_entered_ms := now\<rparr>
            else s))"

definition gnss_detect_update :: "'a gnss_scheme \<Rightarrow> 'a gnss_scheme" where
  "gnss_detect_update s =
     (if gnss_enabled s \<and> gnss_detect_state s = GNSS_DETECT_PROBING then
        if gps_passed_checksum s > gnss_detect_baseline_sentences s then s\<lparr>gnss_detect_state := GNSS_DETECT_PRESENT\<rparr>
        else if clock_ms s - gnss_detect_last_attempt_ms s \<ge> GNSS_DETECT_ATTEMPT_MS then
          (let s = s\<lparr>gnss_detect_last_attempt_ms := clock_ms s, gnss_detect_attempts := gnss_detect_attempts s + 1\<rparr>
           in if gnss_detect_attempts s \<ge> GNSS_DETECT_MAX_ATTEMPTS then s\<lparr>gnss_detect_state := GNSS_DETECT_ABSENT\<rparr> else s)
        else s
      else s)"

text \<open>
  \<open>gnss_update\<close> after the pending bytes have been handed to the parser; \<open>sentence\<close>: one of them
  completed a sentence.
\<close>

definition gnss_update :: "gps_pins \<Rightarrow> bool \<Rightarrow> 'a gnss_scheme \<Rightarrow> 'a gnss_scheme" where
  "gnss_update p sentence s =
     (let s = (if gnss_enabled s \<and> sentence then gnss_sync_system_time s else s);
          s = gnss_detect_update s
      in if gnss_enabled s then gnss_duty_cycle_update p s else s)"

definition gnss_duty_wake_countdown_s :: "'a gnss_scheme \<Rightarrow> u32" where
  "gnss_duty_wake_countdown_s s =
     (if gnss_pstate s \<noteq> GNSS_PSTATE_SLEEP then 0
      else (let remain_ms = sint (gnss_duty_wake_at_ms s - clock_ms s)
            in if remain_ms > 0 then word_of_int (remain_ms div 1000) else 0))"

definition gnss_checksum_pass_rate_pct :: "u32 \<Rightarrow> u32 \<Rightarrow> u8" where
  "gnss_checksum_pass_rate_pct passed failed =
     (let total = passed + failed in if total = 0 then 0 else ucast ((passed * 100) div total))"

section \<open>Events\<close>

datatype gnss_event =
    Pass u32 bool u32 bool   \<comment> \<open>a pass of the main loop: clock, a position was decoded, sentences decoded, one now\<close>
  | Enable bool
  | SetInterval u32

fun gnss_step :: "gps_pins \<Rightarrow> gnss_event \<Rightarrow> 'a gnss_scheme \<Rightarrow> 'a gnss_scheme" where
  "gnss_step p (Pass t pos n sentence) s =
     gnss_update p sentence (s\<lparr>clock_ms := t, gps_location_valid := gps_location_valid s \<or> pos,
                               gps_passed_checksum := gps_passed_checksum s + n\<rparr>)"
| "gnss_step p (Enable en) s = gnss_set_enabled p en s"
| "gnss_step p (SetInterval n) s = s\<lparr>gnss_update_interval_s := n\<rparr>"

section \<open>Invariant\<close>

text \<open>\<open>gps_powered\<close>: every gating pin lets the receiver run; \<open>gps_cut\<close>: one of them stops it.\<close>

definition gps_powered :: "gps_pins \<Rightarrow> 'a gnss_scheme \<Rightarrow> bool" where
  "gps_powered p s \<longleftrightarrow> (en_pin p \<longrightarrow> \<not> level_en s) \<and> (standby_pin p \<longrightarrow> level_standby s)"

definition gated :: "gps_pins \<Rightarrow> bool" where
  "gated p \<longleftrightarrow> en_pin p \<or> standby_pin p"

definition gnss_inv :: "gps_pins \<Rightarrow> 'a gnss_scheme \<Rightarrow> bool" where
  "gnss_inv p s \<longleftrightarrow>
     gnss_pstate s \<in> {GNSS_PSTATE_ACTIVE, GNSS_PSTATE_HOLD, GNSS_PSTATE_SLEEP} \<and>
     gnss_detect_state s \<in> {GNSS_DETECT_PROBING, GNSS_DETECT_PRESENT, GNSS_DETECT_ABSENT} \<and>
     gps_serial_open s = gnss_enabled s \<and>
     (gnss_enabled s \<longrightarrow> (gps_powered p s \<longleftrightarrow> gnss_pstate s \<noteq> GNSS_PSTATE_SLEEP)) \<and>
     (\<not> gnss_enabled s \<and> gated p \<longrightarrow> \<not> gps_powered p s)"

lemma gps_boards_gated: "p \<in> set gps_boards \<Longrightarrow> duty_cycle_capable p \<Longrightarrow> gated p"
  by (auto simp: gps_boards_def gated_def gps_tbeam_1w_def gps_heltec32_v4_def gps_heltec32_v4_r8_def
      gps_heltec_t114_def gps_heltec_t096_def gps_heltec_t1_def gps_ungated_def)

lemma pins_wake_powered [simp]: "gps_powered p (gnss_duty_pins_wake p s)"
  by (simp add: gps_powered_def gnss_duty_pins_wake_def Let_def)

lemma pins_sleep_cuts: "gated p \<Longrightarrow> \<not> gps_powered p (gnss_duty_pins_sleep p s)"
  by (auto simp: gps_powered_def gated_def gnss_duty_pins_sleep_def gnss_duty_sleep_should_be_hard_def Let_def)

lemma gps_powered_cong:
  "level_en s = level_en t \<Longrightarrow> level_standby s = level_standby t \<Longrightarrow> gps_powered p s = gps_powered p t"
  by (simp add: gps_powered_def)

text \<open>What the pin operations leave alone.\<close>

lemma pins_keep [simp]:
  "gnss_enabled (gnss_duty_pins_wake p s) = gnss_enabled s" "gnss_enabled (gnss_duty_pins_sleep p s) = gnss_enabled s"
  "gps_serial_open (gnss_duty_pins_wake p s) = gps_serial_open s"
  "gps_serial_open (gnss_duty_pins_sleep p s) = gps_serial_open s"
  "gnss_detect_state (gnss_duty_pins_wake p s) = gnss_detect_state s"
  "gnss_detect_state (gnss_duty_pins_sleep p s) = gnss_detect_state s"
  "gnss_pstate (gnss_duty_pins_wake p s) = gnss_pstate s"
  "gnss_update_interval_s (gnss_duty_pins_sleep p s) = gnss_update_interval_s s"
  "gnss_update_interval_s (gnss_duty_pins_wake p s) = gnss_update_interval_s s"
  "gnss_duty_predicted_lock_ms (gnss_duty_pins_sleep p s) = gnss_duty_predicted_lock_ms s"
  "gps_location_valid (gnss_duty_pins_sleep p s) = gps_location_valid s"
  "gps_location_valid (gnss_duty_pins_wake p s) = gps_location_valid s"
  by (simp_all add: gnss_duty_pins_wake_def gnss_duty_pins_sleep_def Let_def)

lemma schedule_sleep_fields [simp]:
  "gnss_pstate (gnss_duty_schedule_sleep p now failed s) = GNSS_PSTATE_SLEEP"
  "gnss_enabled (gnss_duty_schedule_sleep p now failed s) = gnss_enabled s"
  "gps_serial_open (gnss_duty_schedule_sleep p now failed s) = gps_serial_open s"
  "gnss_detect_state (gnss_duty_schedule_sleep p now failed s) = gnss_detect_state s"
  "gnss_update_interval_s (gnss_duty_schedule_sleep p now failed s) = gnss_update_interval_s s"
  "gps_location_valid (gnss_duty_schedule_sleep p now failed s) = gps_location_valid s"
  "gnss_pstate_entered_ms (gnss_duty_schedule_sleep p now failed s) = now"
  by (simp_all add: gnss_duty_schedule_sleep_def Let_def)

lemma schedule_sleep_powered [simp]:
  "gated p \<Longrightarrow> \<not> gps_powered p (gnss_duty_schedule_sleep p now failed s)"
proof -
  have "gps_powered p (gnss_duty_schedule_sleep p now failed s) = gps_powered p (gnss_duty_pins_sleep p s)"
    by (rule gps_powered_cong) (simp_all add: gnss_duty_schedule_sleep_def Let_def)
  then show "gated p \<Longrightarrow> ?thesis" by (simp add: pins_sleep_cuts)
qed

lemma gnss_inv_schedule_sleep:
  "gated p \<Longrightarrow> gnss_inv p s \<Longrightarrow> gnss_enabled s \<Longrightarrow> gnss_inv p (gnss_duty_schedule_sleep p now failed s)"
  by (simp add: gnss_inv_def)

text \<open>A change of the bookkeeping only.\<close>

lemma gnss_inv_cong:
  assumes "gnss_inv p s" and "level_en t = level_en s" "level_standby t = level_standby s"
    and "gnss_enabled t = gnss_enabled s" "gps_serial_open t = gps_serial_open s"
    and "gnss_detect_state t \<in> {gnss_detect_state s, GNSS_DETECT_PRESENT, GNSS_DETECT_ABSENT}"
    and "gnss_pstate t \<in> {0, 1, 2}" "(gnss_pstate t = GNSS_PSTATE_SLEEP) = (gnss_pstate s = GNSS_PSTATE_SLEEP)"
  shows "gnss_inv p t"
proof -
  have "gps_powered p t = gps_powered p s" using assms(2,3) by (simp add: gps_powered_def)
  then show ?thesis using assms unfolding gnss_inv_def by (metis insertE insertI1 insertI2 singletonD)
qed

lemma gnss_inv_codes:
  "gnss_inv p s \<Longrightarrow> gnss_pstate s \<in> {0, 1, 2}"
  by (simp add: gnss_inv_def)

lemma gnss_inv_active:
  assumes "gated p" "gnss_inv p s" "gnss_enabled s" "gnss_pstate s = GNSS_PSTATE_ACTIVE"
  shows "gnss_inv p (gnss_duty_active p now s)"
proof (cases "gnss_has_fix s")
  case True
  show ?thesis by (rule gnss_inv_cong [OF assms(2)]) (use True assms(4) in \<open>simp_all add: gnss_duty_active_def Let_def\<close>)
next
  case False
  have "gnss_inv p (s\<lparr>gnss_duty_consecutive_failures := n\<rparr>)" for n
    by (rule gnss_inv_cong [OF assms(2)]) (use gnss_inv_codes [OF assms(2)] in simp_all)
  then show ?thesis using False assms by (simp add: gnss_duty_active_def Let_def gnss_inv_schedule_sleep)
qed

lemma gnss_inv_wake:
  assumes "gnss_inv p s" "gnss_enabled s"
  shows "gnss_inv p ((gnss_duty_pins_wake p s)\<lparr>gnss_pstate := GNSS_PSTATE_ACTIVE, gnss_pstate_entered_ms := t\<rparr>)"
    "gnss_inv p ((gnss_duty_pins_wake p s)\<lparr>gnss_pstate := GNSS_PSTATE_ACTIVE\<rparr>)"
  using assms pins_wake_powered [of p s] by (auto simp: gnss_inv_def gps_powered_def)

lemma gnss_inv_duty_cycle:
  assumes "duty_cycle_capable p \<longrightarrow> gated p" "gnss_inv p s" "gnss_enabled s"
  shows "gnss_inv p (gnss_duty_cycle_update p s)"
proof (cases "gnss_update_interval_s s = GNSS_UPDATE_INTERVAL_CONTINUOUS \<or> \<not> duty_cycle_capable p")
  case True
  have "gnss_inv p (s\<lparr>gnss_pstate := GNSS_PSTATE_ACTIVE\<rparr>)" if "gnss_pstate s = GNSS_PSTATE_ACTIVE"
    by (rule gnss_inv_cong [OF assms(2)]) (simp_all add: that)
  then show ?thesis using True assms by (simp add: gnss_duty_cycle_update_def Let_def gnss_inv_wake)
next
  case False
  then have "gated p" using assms(1) by simp
  then show ?thesis using False assms
    by (simp add: gnss_duty_cycle_update_def Let_def gnss_inv_active gnss_inv_schedule_sleep gnss_inv_wake)
qed

lemma sync_system_time_keeps [simp]:
  "gnss_enabled (gnss_sync_system_time s) = gnss_enabled s" "clock_ms (gnss_sync_system_time s) = clock_ms s"
  "clock.more (gnss_sync_system_time s) = clock.more s"
  by (simp_all add: gnss_sync_system_time_def Let_def split: prod.split)

lemma sync_system_time_keeps_gnss [simp]:
  fixes s :: "'a gnss_scheme"
  shows "gnss_pstate (gnss_sync_system_time s) = gnss_pstate s"
    "gnss_detect_state (gnss_sync_system_time s) = gnss_detect_state s"
    "gps_serial_open (gnss_sync_system_time s) = gps_serial_open s"
    "level_en (gnss_sync_system_time s) = level_en s" "level_standby (gnss_sync_system_time s) = level_standby s"
    "gnss_update_interval_s (gnss_sync_system_time s) = gnss_update_interval_s s"
    "gps_location_valid (gnss_sync_system_time s) = gps_location_valid s"
    "gnss_pstate_entered_ms (gnss_sync_system_time s) = gnss_pstate_entered_ms s"
    "gnss_duty_wake_at_ms (gnss_sync_system_time s) = gnss_duty_wake_at_ms s"
  by (simp_all add: gnss_sync_system_time_def Let_def split: prod.split)

lemma detect_update_keeps [simp]:
  "gnss_pstate (gnss_detect_update s) = gnss_pstate s" "gnss_enabled (gnss_detect_update s) = gnss_enabled s"
  "gps_serial_open (gnss_detect_update s) = gps_serial_open s"
  "level_en (gnss_detect_update s) = level_en s" "level_standby (gnss_detect_update s) = level_standby s"
  "gnss_update_interval_s (gnss_detect_update s) = gnss_update_interval_s s"
  "gps_location_valid (gnss_detect_update s) = gps_location_valid s" "clock_ms (gnss_detect_update s) = clock_ms s"
  "gnss_pstate_entered_ms (gnss_detect_update s) = gnss_pstate_entered_ms s"
  "gnss_duty_wake_at_ms (gnss_detect_update s) = gnss_duty_wake_at_ms s"
  by (simp_all add: gnss_detect_update_def Let_def)

lemma gnss_inv_detect: "gnss_inv p s \<Longrightarrow> gnss_inv p (gnss_detect_update s)"
  by (rule gnss_inv_cong [of p s]) (use gnss_inv_codes [of p s] in \<open>simp_all add: gnss_detect_update_def Let_def\<close>)

lemma gnss_inv_sync: "gnss_inv p s \<Longrightarrow> gnss_inv p (gnss_sync_system_time s)"
  by (rule gnss_inv_cong [of p s]) (use gnss_inv_codes [of p s] in simp_all)

lemma gnss_inv_set_enabled: "gnss_inv p s \<Longrightarrow> gnss_inv p (gnss_set_enabled p en s)"
  by (cases en; cases "en_pin p"; cases "standby_pin p")
    (simp_all add: gnss_inv_def gnss_set_enabled_def gnss_duty_reset_def gnss_detect_reset_def gps_powered_def gated_def Let_def)

lemma gnss_inv_step:
  assumes "duty_cycle_capable p \<longrightarrow> gated p" "gnss_inv p s"
  shows "gnss_inv p (gnss_step p e s)"
proof (cases e)
  case (Pass t pos n sentence)
  let ?s = "s\<lparr>clock_ms := t, gps_location_valid := gps_location_valid s \<or> pos,
              gps_passed_checksum := gps_passed_checksum s + n\<rparr>"
  have "gnss_inv p ?s" by (rule gnss_inv_cong [OF assms(2)]) (use gnss_inv_codes [OF assms(2)] in simp_all)
  then show ?thesis
    using Pass assms(1) by (simp add: gnss_update_def Let_def gnss_inv_sync gnss_inv_detect gnss_inv_duty_cycle)
next
  case (SetInterval n)
  have "gnss_inv p (s\<lparr>gnss_update_interval_s := n\<rparr>)"
    by (rule gnss_inv_cong [OF assms(2)]) (use gnss_inv_codes [OF assms(2)] in simp_all)
  then show ?thesis using SetInterval by simp
qed (simp add: assms gnss_inv_set_enabled)

interpretation receiver: step_invariant "gnss_step p" "\<lambda>s. p \<in> set gps_boards \<and> gnss_inv p s"
  for p :: gps_pins
  by unfold_locales (use gnss_inv_step gps_boards_gated in blast)

lemma gnss_init_inv:
  assumes "gnss_pstate s = GNSS_PSTATE_ACTIVE" "gnss_detect_state s = GNSS_DETECT_PROBING"
  shows "gnss_inv p (gnss_init p s)"
  by (cases "gnss_enabled s"; cases "en_pin p"; cases "standby_pin p")
    (simp_all add: assms gnss_inv_def gnss_init_def gnss_set_enabled_def gnss_duty_reset_def gnss_detect_reset_def
      gps_powered_def gated_def Let_def)

definition gnss_start :: "bool \<Rightarrow> u32 \<Rightarrow> gnss" where
  "gnss_start en interval =
     \<lparr>rtc_present = False, bus_ok = False, rtc_regs = replicate 7 0, clock_ms = 0, gnss_enabled = en,
      gps_date_is_valid = False, gps_date = (2000, 0, 0), gps_time_is_valid = False, gps_time = (0, 0, 0),
      gnss_system_time_synced = False, gnss_system_time_epoch_at_sync = 0, gnss_system_time_millis_at_sync = 0,
      gps_location_valid = False, gps_passed_checksum = 0, gps_serial_open = False, level_en = False,
      level_standby = False, gnss_detect_state = GNSS_DETECT_PROBING, gnss_detect_baseline_sentences = 0,
      gnss_detect_attempts = 0, gnss_detect_last_attempt_ms = 0, gnss_update_interval_s = interval,
      gnss_pstate = GNSS_PSTATE_ACTIVE, gnss_pstate_entered_ms = 0, gnss_duty_wake_at_ms = 0,
      gnss_duty_predicted_lock_ms = 0, gnss_duty_lock_count = 0, gnss_duty_consecutive_failures = 0\<rparr>"

section \<open>Sleeping and waking\<close>

lemma sint_word_of_int: "- (2 ^ 31) \<le> k \<Longrightarrow> k < 2 ^ 31 \<Longrightarrow> sint (word_of_int k :: u32) = k"
  using signed_take_bit_int_eq_self [of 31 k] by (simp add: signed_of_int)

lemma sint_diff_nonneg:
  assumes "unat d < 2 ^ 31" "unat e < 2 ^ 31"
  shows "0 \<le> sint (d - e :: u32) \<longleftrightarrow> e \<le> d"
proof -
  have eq: "d - e = word_of_int (uint d - uint e)" by simp
  have "uint d < 2 ^ 31" "uint e < 2 ^ 31" using assms by (simp_all flip: of_nat_less_iff [where 'a = int])
  then have "- (2 ^ 31) \<le> uint d - uint e" "uint d - uint e < 2 ^ 31"
    using uint_ge_0 [of d] uint_ge_0 [of e] by linarith+
  then have "sint (d - e) = uint d - uint e" unfolding eq by (rule sint_word_of_int)
  then show ?thesis by (simp add: word_le_def)
qed

definition sleep_time :: "bool \<Rightarrow> 'a gnss_scheme \<Rightarrow> u32" where
  "sleep_time failed s =
     (let interval_ms = gnss_update_interval_s s * 1000
      in if failed then min interval_ms GNSS_FAILED_SEARCH_RETRY_MS
         else if interval_ms > gnss_duty_predicted_lock_ms s then interval_ms - gnss_duty_predicted_lock_ms s else 0)"

lemma sleep_time_le_interval: "sleep_time failed s \<le> gnss_update_interval_s s * 1000"
  by (auto simp: sleep_time_def Let_def word_sub_le)

lemma wake_at_schedule_sleep [simp]:
  "gnss_duty_wake_at_ms (gnss_duty_schedule_sleep p now failed s) = now + sleep_time failed s"
  by (simp add: gnss_duty_schedule_sleep_def sleep_time_def Let_def)

text \<open>A receiver asleep since \<open>t\<close> for \<open>sl\<close>.\<close>

definition asleep :: "gps_pins \<Rightarrow> u32 \<Rightarrow> u32 \<Rightarrow> 'a gnss_scheme \<Rightarrow> bool" where
  "asleep p t sl s \<longleftrightarrow>
     gnss_enabled s \<and> duty_cycle_capable p \<and> gnss_update_interval_s s \<noteq> GNSS_UPDATE_INTERVAL_CONTINUOUS \<and>
     gnss_pstate s = GNSS_PSTATE_SLEEP \<and> gnss_duty_wake_at_ms s = t + sl"

text \<open>A pass of the main loop \<open>d\<close> milliseconds after \<open>t\<close>, whatever the receiver sent.\<close>

fun pass_at :: "u32 \<Rightarrow> u32 \<times> bool \<times> u32 \<times> bool \<Rightarrow> gnss_event" where
  "pass_at t (d, pos, n, sentence) = Pass (t + d) pos n sentence"

lemma pass_while_asleep:
  assumes "asleep p t sl s" "unat sl < 2 ^ 31" "unat (fst e) < 2 ^ 31"
  shows "fst e < sl \<Longrightarrow> asleep p t sl (gnss_step p (pass_at t e) s)"
    and "sl \<le> fst e \<Longrightarrow> gnss_pstate (gnss_step p (pass_at t e) s) = GNSS_PSTATE_ACTIVE \<and>
                       gps_powered p (gnss_step p (pass_at t e) s)"
proof -
  obtain d pos n sentence where e: "e = (d, pos, n, sentence)" by (cases e) auto
  let ?s = "s\<lparr>clock_ms := t + d, gps_location_valid := gps_location_valid s \<or> pos,
              gps_passed_checksum := gps_passed_checksum s + n\<rparr>"
  let ?u = "gnss_detect_update (if gnss_enabled ?s \<and> sentence then gnss_sync_system_time ?s else ?s)"
  have u: "gnss_pstate ?u = GNSS_PSTATE_SLEEP" "gnss_update_interval_s ?u \<noteq> 0" "gnss_duty_wake_at_ms ?u = t + sl"
    "clock_ms ?u = t + d" "gnss_enabled ?u"
    using assms(1) by (simp_all add: asleep_def)
  have step: "gnss_step p (pass_at t e) s = gnss_duty_cycle_update p ?u"
    using u(5) by (simp add: e gnss_update_def Let_def)
  have due: "0 \<le> sint (t + d - (t + sl)) \<longleftrightarrow> sl \<le> d"
    using sint_diff_nonneg [of d sl] assms(2,3) by (simp add: e)
  { assume "fst e < sl"
    then have "gnss_duty_cycle_update p ?u = ?u"
      using u due assms(1) by (simp add: gnss_duty_cycle_update_def Let_def asleep_def e)
    then show "asleep p t sl (gnss_step p (pass_at t e) s)"
      unfolding step using u assms(1) by (simp add: asleep_def)
  }
  { assume "sl \<le> fst e"
    then have "gnss_duty_cycle_update p ?u =
        (gnss_duty_pins_wake p ?u)\<lparr>gnss_pstate := GNSS_PSTATE_ACTIVE, gnss_pstate_entered_ms := t + d\<rparr>"
      using u due assms(1) by (simp add: gnss_duty_cycle_update_def Let_def asleep_def e)
    then show "gnss_pstate (gnss_step p (pass_at t e) s) = GNSS_PSTATE_ACTIVE \<and>
               gps_powered p (gnss_step p (pass_at t e) s)"
      unfolding step using pins_wake_powered [of p ?u] by (simp add: gps_powered_def)
  }
qed

lemma passes_while_asleep:
  assumes "unat sl < 2 ^ 31"
  shows "asleep p t sl s \<Longrightarrow> list_all (\<lambda>e. fst e < sl) es \<Longrightarrow> asleep p t sl (fold (gnss_step p) (map (pass_at t) es) s)"
proof (induction es arbitrary: s)
  case (Cons e es)
  have "unat (fst e) < unat sl" using Cons.prems by (simp add: word_less_nat_alt)
  with assms have "unat (fst e) < 2 ^ 31" by linarith
  then have "asleep p t sl (gnss_step p (pass_at t e) s)"
    using pass_while_asleep(1) [OF Cons.prems(1) assms] Cons.prems(2) by simp
  then show ?case using Cons by simp
qed simp

section \<open>Properties\<close>

text \<open>
  From start-up on, whatever the receiver sends, however the clock runs and however the setting
  and the interval are changed, the power state is one of its three codes, the detection state one of
  its three, the port is open exactly while the receiver is enabled, an enabled receiver is powered
  exactly when it is not in \<open>SLEEP\<close>, and a disabled one is not powered on any board that can cut it.
\<close>

theorem gnss_power_follows_state:
  assumes "p \<in> set gps_boards" "gnss_pstate s = GNSS_PSTATE_ACTIVE" "gnss_detect_state s = GNSS_DETECT_PROBING"
    and s': "s' = fold (gnss_step p) es (gnss_init p s)"
  shows "gnss_pstate s' \<in> {GNSS_PSTATE_ACTIVE, GNSS_PSTATE_HOLD, GNSS_PSTATE_SLEEP} \<and>
    gnss_detect_state s' \<in> {GNSS_DETECT_PROBING, GNSS_DETECT_PRESENT, GNSS_DETECT_ABSENT} \<and>
    gps_serial_open s' = gnss_enabled s' \<and>
    (gnss_enabled s' \<longrightarrow> (gps_powered p s' \<longleftrightarrow> gnss_pstate s' \<noteq> GNSS_PSTATE_SLEEP)) \<and>
    (\<not> gnss_enabled s' \<and> (en_pin p \<or> standby_pin p) \<longrightarrow> \<not> gps_powered p s')"
  using receiver.inv_run [of p "gnss_init p s" es] gnss_init_inv [OF assms(2,3), of p] assms(1)
  unfolding s' gnss_inv_def gated_def by blast

theorem gnss_power_follows_state_witness:
  "gps_powered gps_heltec_t1 (fold (gnss_step gps_heltec_t1) [SetInterval 300, Pass 1000 True 1 True]
     (gnss_init gps_heltec_t1 (gnss_start True 0)))"
proof -
  let ?s = "fold (gnss_step gps_heltec_t1) [SetInterval 300, Pass 1000 True 1 True]
     (gnss_init gps_heltec_t1 (gnss_start True 0))"
  have "gnss_enabled ?s" "gnss_pstate ?s = GNSS_PSTATE_HOLD"
    by (simp_all add: gnss_init_def gnss_set_enabled_def gnss_start_def gnss_duty_reset_def gnss_detect_reset_def
        gnss_update_def gnss_sync_system_time_def gnss_date_valid_def gnss_detect_update_def gnss_duty_cycle_update_def
        gnss_duty_active_def gnss_has_fix_def gps_heltec_t1_def Let_def)
  then show ?thesis
    using gnss_power_follows_state [of gps_heltec_t1 "gnss_start True 0" ?s, OF _ _ _ refl]
    by (simp add: gps_boards_def gnss_start_def)
qed

text \<open>
  A receiver put to sleep stays asleep on every pass of the main loop before its wake-up time and is
  running again on the first pass at or after it; the sleep is never longer than the update interval, nor
  than five minutes after a search that failed. This holds across the wrap-around of the clock.
\<close>

theorem gnss_wakes_on_time:
  assumes "duty_cycle_capable p" "gnss_enabled s" "0 < unat (gnss_update_interval_s s)"
    and "unat (gnss_update_interval_s s) \<le> 3600"
    and "sl = gnss_duty_wake_at_ms (gnss_duty_schedule_sleep p t failed s) - t"
    and "list_all (\<lambda>e. fst e < sl) early" "sl \<le> fst e" "unat (fst e) < 2 ^ 31"
    and "s' = fold (gnss_step p) (map (pass_at t) early) (gnss_duty_schedule_sleep p t failed s)"
  shows "gnss_pstate s' = GNSS_PSTATE_SLEEP \<and>
    gnss_pstate (gnss_step p (pass_at t e) s') = GNSS_PSTATE_ACTIVE \<and> gps_powered p (gnss_step p (pass_at t e) s') \<and>
    unat sl \<le> unat (gnss_update_interval_s s) * 1000 \<and> (failed \<longrightarrow> unat sl \<le> 300000)"
proof -
  let ?i = "gnss_update_interval_s s"
  have sl: "sl = sleep_time failed s" using assms(5) by simp
  have i: "unat (?i * 1000) = unat ?i * 1000" by (rule unat_mult_lem [THEN iffD1, THEN trans]) (use assms(4) in simp_all)
  have "unat sl \<le> unat (?i * 1000)" using sleep_time_le_interval [of failed s] sl by (simp add: word_le_nat_alt)
  then have le: "unat sl \<le> unat ?i * 1000" "unat sl < 2 ^ 31" using i assms(4) by simp_all
  have "asleep p t sl (gnss_duty_schedule_sleep p t failed s)" using assms(1-3) sl by (auto simp: asleep_def)
  then have a: "asleep p t sl s'" unfolding assms(9) by (rule passes_while_asleep [OF le(2) _ assms(6)])
  have "failed \<longrightarrow> unat sl \<le> 300000"
    by (auto simp: sl sleep_time_def Let_def min_def word_le_nat_alt)
  then show ?thesis using pass_while_asleep(2) [OF a le(2) assms(8,7)] a le(1) by (simp add: asleep_def)
qed

theorem gnss_wakes_on_time_witness:
  "let s = gnss_start True 300; p = gps_heltec_t1; t = - 1000; a = gnss_duty_schedule_sleep p t False s;
       s' = fold (gnss_step p) (map (pass_at t) [(5, False, 0, False), (299999, False, 0, False)]) a
   in gnss_pstate s' = GNSS_PSTATE_SLEEP \<and>
      gnss_pstate (gnss_step p (pass_at t (300000, False, 0, False)) s') = GNSS_PSTATE_ACTIVE"
proof -
  let ?a = "gnss_duty_schedule_sleep gps_heltec_t1 (- 1000) False (gnss_start True 300)"
  let ?early = "[(5, False, 0, False), (299999, False, 0, False)] :: (u32 \<times> bool \<times> u32 \<times> bool) list"
  have "duty_cycle_capable gps_heltec_t1" "gnss_enabled (gnss_start True 300)"
    "0 < unat (gnss_update_interval_s (gnss_start True 300))" "unat (gnss_update_interval_s (gnss_start True 300)) \<le> 3600"
    "(300000 :: u32) = gnss_duty_wake_at_ms ?a - (- 1000)" "list_all (\<lambda>e. fst e < (300000 :: u32)) ?early"
    by (simp_all add: gps_heltec_t1_def gnss_start_def sleep_time_def Let_def)
  note w = gnss_wakes_on_time [OF this, of "(300000, False, 0, False)", OF _ _ refl]
  show ?thesis unfolding Let_def using w by simp
qed

text \<open>
  Once a position has been seen since power-up, a receiver woken by the duty cycle is taken to have a new
  fix on the first pass of the main loop and is put back to sleep ten seconds later, with the failure count
  cleared, although it sent nothing at all in between: the search timeout never applies.
\<close>

theorem gnss_sleeps_without_new_fix:
  assumes "duty_cycle_capable p" "gnss_enabled s" "gnss_update_interval_s s \<noteq> GNSS_UPDATE_INTERVAL_CONTINUOUS"
    and "gps_location_valid s" "gnss_pstate s = GNSS_PSTATE_ACTIVE"
    and "s1 = gnss_step p (Pass t False 0 False) s" "s2 = gnss_step p (Pass (t + 10000) False 0 False) s1"
  shows "gnss_pstate s1 = GNSS_PSTATE_HOLD \<and> gnss_pstate s2 = GNSS_PSTATE_SLEEP \<and>
    gnss_duty_consecutive_failures s2 = 0"
proof -
  have s1: "gnss_pstate s1 = GNSS_PSTATE_HOLD" "gnss_pstate_entered_ms s1 = t" "gnss_duty_consecutive_failures s1 = 0"
    "gnss_enabled s1" "gnss_update_interval_s s1 \<noteq> GNSS_UPDATE_INTERVAL_CONTINUOUS"
    using assms(1-5) unfolding assms(6)
    by (simp_all add: gnss_update_def gnss_duty_cycle_update_def gnss_duty_active_def gnss_has_fix_def Let_def)
  have f: "gnss_duty_consecutive_failures (gnss_duty_schedule_sleep p now failed u) = gnss_duty_consecutive_failures u"
    "gnss_duty_consecutive_failures (gnss_detect_update u) = gnss_duty_consecutive_failures u"
    for now failed and u :: "'a gnss_scheme"
    by (simp_all add: gnss_duty_schedule_sleep_def gnss_duty_pins_sleep_def gnss_detect_update_def Let_def)
  show ?thesis
    using assms(1) s1 unfolding assms(7) by (simp add: gnss_update_def gnss_duty_cycle_update_def Let_def f)
qed

theorem gnss_sleeps_without_new_fix_witness:
  "gnss_pstate (gnss_step gps_heltec_t1 (Pass (70000 + 10000) False 0 False)
     (gnss_step gps_heltec_t1 (Pass 70000 False 0 False) ((gnss_start True 60)\<lparr>gps_location_valid := True\<rparr>))) = GNSS_PSTATE_SLEEP"
proof -
  let ?s = "(gnss_start True 60)\<lparr>gps_location_valid := True\<rparr>"
  have "duty_cycle_capable gps_heltec_t1" "gnss_enabled ?s" "gnss_update_interval_s ?s \<noteq> GNSS_UPDATE_INTERVAL_CONTINUOUS"
    "gps_location_valid ?s" "gnss_pstate ?s = GNSS_PSTATE_ACTIVE"
    by (simp_all add: gps_heltec_t1_def gnss_start_def)
  from gnss_sleeps_without_new_fix [OF this refl refl, of 70000] show ?thesis by blast
qed

end
