(* ===== verification/Kiss_Parser.thy ===== *)
theory Kiss_Parser
  imports Device Gnss
begin

text \<open>
  The host's commands: \<open>serial_callback\<close> of \<^verbatim>\<open>RNode_Firmware.ino\<close>, which takes one byte of the KISS
  stream at a time, and the replies of \<^verbatim>\<open>Utilities.h\<close> that only it sends. The globals it owns (frame
  position, escape flag, command buffers and what the display and peripheral commands set) are the
  record \<open>console\<close>; everything else is the node of the other theories. The Bluetooth stacks, the LEDs,
  the buzzer, the display contents, the sensors and the node's provisioning are inputs or logged calls.
\<close>

section \<open>State\<close>

abbreviation (input) CMD_L :: nat where "CMD_L \<equiv> 64"
abbreviation (input) MODE_HOST :: u8 where "MODE_HOST \<equiv> 0x11"
abbreviation (input) RNS_LINK_STATE_DISCONNECTED :: u8 where "RNS_LINK_STATE_DISCONNECTED \<equiv> 0x00"
abbreviation (input) RNS_LINK_STATE_CONNECTED :: u8 where "RNS_LINK_STATE_CONNECTED \<equiv> 0x01"
abbreviation (input) WR_WIFI_OFF :: u8 where "WR_WIFI_OFF \<equiv> 0x00"
abbreviation (input) ETH_SPEED_OFF :: u8 where "ETH_SPEED_OFF \<equiv> 0x05"

datatype bt_op = BtStart | BtStop | BtEnablePairing | BtDebondAll | BtSecuritySetup

datatype peripheral_call =
    RnsConnectMelody | RnsDisconnectMelody | LedInfo u8 | BtCall bt_op | WsRemoteInit
  | OnProvisionRequest "u8 list" | OnIdentityExport | OnIdentityImport "u8 list"

record console =
  ESCAPE :: bool
  frame_len :: nat
  cmdbuf :: "u8 list"
  prov_req_buf :: "u8 list"
  identity_import_buf :: "u8 list"
  rns_link_state :: u8
  last_unblank_event :: u32
  last_rssi_raw :: u8
  disp_ext_fb :: bool
  fb :: "u8 list"
  display_intensity :: u8
  display_addr :: u8
  recondition_display :: bool
  np_intensity :: u8
  firmware_update_mode :: bool
  wifi_mode :: u8
  ws_enabled :: bool
  vsense_divider_ratio :: rat
  bt_legacy_pairing_enabled :: bool
  bt_just_works_enabled :: bool
  rtc :: clock
  calls :: "peripheral_call list"

text \<open>
  What one call of \<open>serial_callback\<close> reads from outside: \<open>bt_effect\<close> is what a Bluetooth call makes of
  \<open>bt_state\<close> and \<open>last_unblank_event\<close>; \<open>screen\<close> the format byte and the bytes of the display.
\<close>

record callback_env =
  primitives :: crypto
  random_byte :: u8
  network_up :: bool
  network_time :: "u32 option"
  display_blanked :: bool
  screen :: "u8 list"
  sensor_present :: bool
  sensor_model :: u8
  sensor_is_bme280 :: bool
  temperature :: rat
  humidity :: rat
  pressure :: rat
  bt_effect :: "bt_op \<Rightarrow> u8 \<times> u32 \<Rightarrow> u8 \<times> u32"
  vsense_default :: rat

type_synonym 'a console_state = "console \<times> 'a device_scheme"

definition on_console :: "(console \<Rightarrow> console) \<Rightarrow> console \<times> 's \<Rightarrow> (console \<times> 's) outcome" where
  "on_console f ps = Ret (f (fst ps), snd ps)"

definition on_node :: "('s \<Rightarrow> 's) \<Rightarrow> console \<times> 's \<Rightarrow> (console \<times> 's) outcome" where
  "on_node f ps = Ret (fst ps, f (snd ps))"

definition on_node_out :: "('s \<Rightarrow> 's outcome) \<Rightarrow> console \<times> 's \<Rightarrow> (console \<times> 's) outcome" where
  "on_node_out f ps = map_outcome (Pair (fst ps)) (f (snd ps))"

section \<open>Replies and small operations\<close>

definition call_peripheral :: "peripheral_call \<Rightarrow> console \<Rightarrow> console" where
  "call_peripheral c p = p\<lparr>calls := calls p @ [c]\<rparr>"

definition set_rns_link_state :: "board \<Rightarrow> u8 \<Rightarrow> console \<Rightarrow> console" where
  "set_rns_link_state b new_state p =
     (let p = (if has_buzzer b \<and> new_state \<noteq> rns_link_state p then
                 if new_state = RNS_LINK_STATE_CONNECTED then call_peripheral RnsConnectMelody p
                 else if new_state = RNS_LINK_STATE_DISCONNECTED then call_peripheral RnsDisconnectMelody p
                 else p
               else p)
      in p\<lparr>rns_link_state := new_state\<rparr>)"

text \<open>The backlight the colour displays switch on as well is not part of the state.\<close>

definition display_unblank :: "board \<Rightarrow> u32 \<Rightarrow> console \<Rightarrow> console" where
  "display_unblank b t p = (if has_display b then p\<lparr>last_unblank_event := t\<rparr> else p)"

definition bt_call :: "callback_env \<Rightarrow> bt_op \<Rightarrow> 'a console_state \<Rightarrow> 'a console_state" where
  "bt_call e op ps =
     (let (p, s) = ps; (st, ub) = bt_effect e op (bt_state s, last_unblank_event p)
      in (call_peripheral (BtCall op) (p\<lparr>last_unblank_event := ub\<rparr>), s\<lparr>bt_state := st\<rparr>))"

definition kiss_indicate_vsense_div :: "board \<Rightarrow> rat \<Rightarrow> 'a host_scheme \<Rightarrow> 'a host_scheme" where
  "kiss_indicate_vsense_div b ratio s = reply b CMD_VSENSE_DIV [] [word_of_int \<lfloor>f64 (ratio * 10)\<rfloor>] s"

definition kiss_indicate_time :: "board \<Rightarrow> clock \<Rightarrow> 'a host_scheme \<Rightarrow> 'a host_scheme" where
  "kiss_indicate_time b c s = reply b CMD_TIME [] (be32 (rtc_get_unixtime c)) s"

definition kiss_indicate_ntp_sync :: "board \<Rightarrow> u8 \<Rightarrow> clock \<Rightarrow> 'a host_scheme \<Rightarrow> 'a host_scheme" where
  "kiss_indicate_ntp_sync b status c s = reply b CMD_NTP_SYNC [] (status # be32 (rtc_get_unixtime c)) s"

text \<open>The cast of a \<open>float\<close> to a signed 16-bit integer truncates towards zero.\<close>

definition i16_of_rat :: "rat \<Rightarrow> u16" where
  "i16_of_rat x = word_of_int (if x \<ge> 0 then \<lfloor>x\<rfloor> else - \<lfloor>- x\<rfloor>)"

definition kiss_indicate_sensor :: "callback_env \<Rightarrow> board \<Rightarrow> 'a host_scheme \<Rightarrow> 'a host_scheme" where
  "kiss_indicate_sensor e b s =
     (let temp_cc = (if sensor_present e then i16_of_rat (f32 (temperature e * 100)) else 0);
          humid_cc = (if sensor_present e \<and> sensor_is_bme280 e then u16_of_rat (f32 (humidity e * 100)) else 0xFFFF);
          press_pa = (if sensor_present e then word_of_int \<lfloor>pressure e\<rfloor> else 0)
      in reply b CMD_SENSOR []
           ([byte_of_bool (sensor_present e), sensor_model e] @ be16 temp_cc @ be16 humid_cc @ be32 press_pa)
           (select0 b s))"

definition kiss_indicate_fbstate :: "board \<Rightarrow> console \<Rightarrow> 'a host_scheme \<Rightarrow> 'a host_scheme" where
  "kiss_indicate_fbstate b p s =
     reply b CMD_FB_EXT [if has_display b then byte_of_bool (disp_ext_fb p) else 0xFF] [] s"

definition kiss_indicate_fb :: "board \<Rightarrow> console \<Rightarrow> 'a host_scheme \<Rightarrow> 'a host_scheme" where
  "kiss_indicate_fb b p s =
     (if has_display b then reply b CMD_FB_READ [] (fb p) s else reply b CMD_FB_READ [0xFF] [] s)"

definition kiss_indicate_disp :: "callback_env \<Rightarrow> board \<Rightarrow> 'a host_scheme \<Rightarrow> 'a host_scheme" where
  "kiss_indicate_disp e b s =
     (if has_display b then reply b CMD_DISP_READ [] (screen e) s else reply b CMD_DISP_READ [0xFF] [] s)"

definition vsr_ratio :: "callback_env \<Rightarrow> u8 \<Rightarrow> rat" where
  "vsr_ratio e val =
     (if val \<noteq> 0x00 \<and> val \<noteq> 0xFF then f32 (f64 (of_int (uint val) / 10)) else f32 (vsense_default e))"

definition vsr_conf_save :: "callback_env \<Rightarrow> board \<Rightarrow> u8 \<Rightarrow> 'a console_state \<Rightarrow> 'a console_state" where
  "vsr_conf_save e b val ps =
     (let (p, s) = ps
      in (p\<lparr>vsense_divider_ratio := vsr_ratio e val\<rparr>,
          flush_if_nrf b (eeprom_update b (eeprom_addr b ADDR_CONF_VSR) val s)))"

definition ws_conf_save :: "board \<Rightarrow> u8 \<Rightarrow> 'a console_state \<Rightarrow> 'a console_state" where
  "ws_conf_save b val ps =
     (let (p, s) = ps
      in (call_peripheral WsRemoteInit (p\<lparr>ws_enabled := (val = WS_ENABLE_BYTE)\<rparr>),
          flush_if_nrf b (eeprom_update b (eeprom_addr b ADDR_CONF_WS) val s)))"

definition bt_legacy_pairing_conf_save :: "callback_env \<Rightarrow> board \<Rightarrow> bool \<Rightarrow> 'a console_state \<Rightarrow> 'a console_state" where
  "bt_legacy_pairing_conf_save e b is_enabled ps =
     (let (p, s) = ps;
          s = eeprom_update b ADDR_CONF_BT_LEGACY_PAIRING
                (if is_enabled then BT_LEGACY_PAIRING_ENABLE_BYTE else BT_LEGACY_PAIRING_DISABLE_BYTE) s;
          ps = (p\<lparr>bt_legacy_pairing_enabled := is_enabled\<rparr>, s)
      in if bt_ready s then bt_call e BtSecuritySetup ps else ps)"

definition bt_just_works_conf_save :: "callback_env \<Rightarrow> board \<Rightarrow> bool \<Rightarrow> 'a console_state \<Rightarrow> 'a console_state" where
  "bt_just_works_conf_save e b is_enabled ps =
     (let (p, s) = ps;
          s = eeprom_update b ADDR_CONF_BT_JUST_WORKS
                (if is_enabled then BT_JUST_WORKS_ENABLE_BYTE else BT_JUST_WORKS_DISABLE_BYTE) s;
          ps = (p\<lparr>bt_just_works_enabled := is_enabled\<rparr>, s)
      in if bt_ready s \<and> bt_state s \<noteq> BT_STATE_OFF then bt_call e BtStart (bt_call e BtStop ps) else ps)"

text \<open>\<open>led_indicate_info\<close> blinks for ever when asked for no cycles.\<close>

definition led_indicate_info :: "u8 \<Rightarrow> console \<times> 's \<Rightarrow> (console \<times> 's) outcome" where
  "led_indicate_info cycles ps =
     (let ps = (call_peripheral (LedInfo cycles) (fst ps), snd ps) in if cycles = 0 then Hung ps else Ret ps)"

section \<open>Collecting the bytes of a frame\<close>

text \<open>A byte written past the end of a buffer makes its list longer, so that a buffer of constant length was only written inside.\<close>

definition unescape :: "u8 \<Rightarrow> console \<Rightarrow> u8 \<times> console" where
  "unescape x p = (if ESCAPE p then (unstuff_byte x, p\<lparr>ESCAPE := False\<rparr>) else (x, p))"

definition collect :: "u8 \<Rightarrow> console \<Rightarrow> u8 \<times> console" where
  "collect x p =
     (if x = FESC then (x, p\<lparr>ESCAPE := True\<rparr>)
      else
        (let (x, p) = unescape x p
         in (x, if frame_len p < CMD_L
                then p\<lparr>cmdbuf := copy_at (frame_len p) [x] (cmdbuf p), frame_len := frame_len p + 1\<rparr> else p)))"

definition collect_provision :: "u8 \<Rightarrow> console \<Rightarrow> console" where
  "collect_provision x p =
     (if x = FESC then p\<lparr>ESCAPE := True\<rparr>
      else
        (let (x, p) = unescape x p
         in if frame_len p < MTU
            then p\<lparr>prov_req_buf := copy_at (frame_len p) [x] (prov_req_buf p), frame_len := frame_len p + 1\<rparr> else p))"

definition collect_identity :: "u8 \<Rightarrow> console \<Rightarrow> console" where
  "collect_identity x p =
     (if x = FESC then p\<lparr>ESCAPE := True\<rparr>
      else
        (let (x, p) = unescape x p
         in if frame_len p < MTU
            then p\<lparr>identity_import_buf := copy_at (frame_len p) [x] (identity_import_buf p), frame_len := frame_len p + 1\<rparr>
            else p))"

text \<open>Collect a byte, then act when \<open>n\<close> bytes are there; act on every unescaped byte.\<close>

definition when_collected ::
  "nat \<Rightarrow> (console \<times> 's \<Rightarrow> (console \<times> 's) outcome) \<Rightarrow> u8 \<Rightarrow> console \<times> 's \<Rightarrow> (console \<times> 's) outcome" where
  "when_collected n act x ps =
     (let p = snd (collect x (fst ps)) in if frame_len p = n then act (p, snd ps) else Ret (p, snd ps))"

definition on_unescaped ::
  "(u8 \<Rightarrow> console \<times> 's \<Rightarrow> (console \<times> 's) outcome) \<Rightarrow> u8 \<Rightarrow> console \<times> 's \<Rightarrow> (console \<times> 's) outcome" where
  "on_unescaped act x ps =
     (if x = FESC then Ret ((fst ps)\<lparr>ESCAPE := True\<rparr>, snd ps)
      else (let (x, p) = unescape x (fst ps) in act x (p, snd ps)))"

definition cmd_word :: "console \<Rightarrow> u32" where
  "cmd_word p = of_be32 (cmdbuf p ! 0) (cmdbuf p ! 1) (cmdbuf p ! 2) (cmdbuf p ! 3)"

definition cmd_half :: "console \<Rightarrow> u16" where
  "cmd_half p = of_be16 (cmdbuf p ! 0) (cmdbuf p ! 1)"

text \<open>Writing four collected bytes, or a zero-terminated string of at most 32, to the store.\<close>

definition save_addr4 :: "board \<Rightarrow> nat \<Rightarrow> 'a console_state \<Rightarrow> 'a console_state outcome" where
  "save_addr4 b a ps = on_node (write_from (eeprom_update b) (config_addr b a) (take 4 (cmdbuf (fst ps)))) ps"

definition save_string :: "board \<Rightarrow> nat \<Rightarrow> console \<Rightarrow> 'a rom_scheme \<Rightarrow> 'a rom_scheme" where
  "save_string b a p s =
     write_from (eeprom_update b) (config_addr b a)
       (map (\<lambda>i. if i < frame_len p \<and> i < 32 then cmdbuf p ! i else 0x00) [0..<33]) s"

definition collect_string :: "board \<Rightarrow> nat \<Rightarrow> u8 \<Rightarrow> 'a console_state \<Rightarrow> 'a console_state outcome" where
  "collect_string b a x ps =
     (let (x, p) = collect x (fst ps) in if x = 0x00 then on_node (save_string b a p) (p, snd ps) else Ret (p, snd ps))"

section \<open>Commands that carry data and radio parameters\<close>

text \<open>The interface the host has selected: \<open>#if HAS_ESPNOW == true\<close> and \<open>selected_vport == 1\<close>.\<close>

definition vport1 :: "board \<Rightarrow> 'a espnow_scheme \<Rightarrow> bool" where
  "vport1 b s \<longleftrightarrow> has_espnow b \<and> selected_vport s = 1"

definition set_cfg :: "(espnow_vport_cfg \<Rightarrow> espnow_vport_cfg) \<Rightarrow> 'a espnow_scheme \<Rightarrow> 'a espnow_scheme" where
  "set_cfg f s = s\<lparr>espnow_vport_cfg := f (espnow_vport_cfg s)\<rparr>"

definition espnow_tx_byte :: "u8 \<Rightarrow> 'a espnow_scheme \<Rightarrow> 'a espnow_scheme" where
  "espnow_tx_byte x s =
     (if espnow_tx_len s < ESPNOW_TX_BUF_SIZE
      then s\<lparr>espnow_tx_buf := (espnow_tx_buf s)[espnow_tx_len s := x], espnow_tx_len := espnow_tx_len s + 1\<rparr> else s)"

definition cmd_data :: "board \<Rightarrow> u8 \<Rightarrow> 'a console_state \<Rightarrow> 'a console_state outcome" where
  "cmd_data b x ps =
     (let (p, s) = ps;
          p = (if bt_state s \<noteq> BT_STATE_CONNECTED then set_rns_link_state b RNS_LINK_STATE_CONNECTED p else p)
      in on_unescaped (\<lambda>x. on_node (if vport1 b s then espnow_tx_byte x else queue_byte b x)) x (p, s))"

definition cmd_frequency :: "board \<Rightarrow> 'a console_state \<Rightarrow> 'a console_state outcome" where
  "cmd_frequency b ps =
     (let (p, s) = ps; freq = cmd_word p
      in Ret (p,
           if vport1 b s then
             kiss_indicate_v1_frequency b (if freq \<noteq> 0 then set_cfg (frequency_update (\<lambda>_. freq)) s else s)
           else if freq = 0 then kiss_indicate_frequency b s
           else (let s = s\<lparr>lora_freq := freq\<rparr>
                 in kiss_indicate_frequency b (if op_mode s = MODE_HOST then setFrequency b s else s))))"

definition cmd_bandwidth :: "board \<Rightarrow> 'a console_state \<Rightarrow> 'a console_state outcome" where
  "cmd_bandwidth b ps =
     (let (p, s) = ps; bw = cmd_word p
      in Ret (p,
           if vport1 b s then
             kiss_indicate_v1_bandwidth b (if bw \<noteq> 0 then set_cfg (bandwidth_update (\<lambda>_. bw)) s else s)
           else if bw = 0 then kiss_indicate_bandwidth b s
           else (let s = s\<lparr>lora_bw := bw\<rparr>
                 in kiss_indicate_bandwidth b (if op_mode s = MODE_HOST then setBandwidth b s else s))))"

definition cmd_time :: "board \<Rightarrow> 'a console_state \<Rightarrow> 'a console_state outcome" where
  "cmd_time b ps =
     (let (p, s) = ps; new_time = cmd_word p;
          p = (if new_time = 0 then p else p\<lparr>rtc := snd (rtc_set_unixtime new_time (rtc p))\<rparr>)
      in Ret (p, kiss_indicate_time b (rtc p) s))"

definition cmd_ntp_sync :: "callback_env \<Rightarrow> board \<Rightarrow> u8 \<Rightarrow> 'a console_state \<Rightarrow> 'a console_state outcome" where
  "cmd_ntp_sync e b x ps =
     (if x = 0x01 then
        (let (p, s) = ps;
             (status, c) = rtc_sync_ntp (network_up e) (network_time e) (rtc p)
         in Ret (p\<lparr>rtc := c\<rparr>, kiss_indicate_ntp_sync b (sync_code status) c s))
      else Ret ps)"

definition txp_limit :: "board \<Rightarrow> int" where
  "txp_limit b =
     (case modem b of
        SX1262 \<Rightarrow> if has_lora_pa b then pa_max_output b else 22
      | SX1280 \<Rightarrow> if has_pa b then 20 else 13
      | _ \<Rightarrow> 20)"

definition cmd_txpower :: "board \<Rightarrow> u8 \<Rightarrow> 'a espnow_scheme \<Rightarrow> u8 \<Rightarrow> 'a espnow_scheme" where
  "cmd_txpower b mode s x =
     (if vport1 b s then
        kiss_indicate_v1_txpower b (if x \<noteq> 0xFF then set_cfg (txpower_update (\<lambda>_. x)) s else s)
      else if x = 0xFF then kiss_indicate_txpower b s
      else (let s = s\<lparr>lora_txp := min (uint x) (txp_limit b)\<rparr>
            in kiss_indicate_txpower b (if mode = MODE_HOST then setTXPower b s else s)))"

definition cmd_sf :: "board \<Rightarrow> u8 \<Rightarrow> 'a espnow_scheme \<Rightarrow> u8 \<Rightarrow> 'a espnow_scheme" where
  "cmd_sf b mode s x =
     (if vport1 b s then
        kiss_indicate_v1_sf b (if x \<noteq> 0xFF then set_cfg (sf_update (\<lambda>_. x)) s else s)
      else if x = 0xFF then kiss_indicate_spreadingfactor b s
      else (let v = uint x; v = (if v < 5 then 5 else v); v = (if v > 12 then 12 else v);
                s = s\<lparr>lora_sf := v\<rparr>
            in kiss_indicate_spreadingfactor b (if mode = MODE_HOST then setSpreadingFactor b s else s)))"

definition cmd_cr :: "board \<Rightarrow> u8 \<Rightarrow> 'a espnow_scheme \<Rightarrow> u8 \<Rightarrow> 'a espnow_scheme" where
  "cmd_cr b mode s x =
     (if vport1 b s then
        kiss_indicate_v1_cr b (if x \<noteq> 0xFF then set_cfg (cr_update (\<lambda>_. x)) s else s)
      else if x = 0xFF then kiss_indicate_codingrate b s
      else (let v = uint x; v = (if v < 5 then 5 else v); v = (if v > 8 then 8 else v);
                s = s\<lparr>lora_cr := v\<rparr>
            in kiss_indicate_codingrate b (if mode = MODE_HOST then setCodingRate b s else s)))"

definition cmd_leave :: "board \<Rightarrow> u8 \<Rightarrow> 'a console_state \<Rightarrow> 'a console_state outcome" where
  "cmd_leave b x ps =
     (if x = 0xFF then
        (let (p, s) = ps
         in Ret ((set_rns_link_state b RNS_LINK_STATE_DISCONNECTED (display_unblank b (millis s) p))\<lparr>last_rssi_raw := 0x00\<rparr>,
                 s\<lparr>current_rssi := - 292, last_rssi := - 292, last_snr_raw := 0x80\<rparr>))
      else Ret ps)"

definition cmd_radio_state :: "board \<Rightarrow> u8 \<Rightarrow> 'a console_state \<Rightarrow> 'a console_state outcome" where
  "cmd_radio_state b x ps =
     (let (p, s) = ps;
          p = display_unblank b (millis s) (set_rns_link_state b RNS_LINK_STATE_CONNECTED p)
      in if vport1 b s then
           Ret (p, kiss_indicate_v1_radiostate b (if x \<noteq> 0xFF then set_cfg (radio_state_update (\<lambda>_. x)) s else s))
         else if x = 0xFF then Ret (p, kiss_indicate_radiostate b s)
         else if x = 0x00 then Ret (p, kiss_indicate_radiostate b (stopRadio s))
         else if x = 0x01 then
           on_node_out (\<lambda>s. then_do (map_outcome snd (startRadio b s)) (\<lambda>s. Ret (kiss_indicate_radiostate b s))) (p, s)
         else Ret (p, s))"

definition airtime_limit :: "u16 \<Rightarrow> rat" where
  "airtime_limit limit =
     (if limit = 0 then 0
      else (let l = f32 (f64 (of_int (uint limit) / 10000)) in if l \<ge> 1 then 0 else l))"

definition cmd_st_alock :: "board \<Rightarrow> 'a console_state \<Rightarrow> 'a console_state outcome" where
  "cmd_st_alock b ps =
     (let (p, s) = ps; limit = cmd_half p
      in Ret (p, if vport1 b s then kiss_indicate_v1_st_alock b (set_cfg (st_alock_update (\<lambda>_. limit)) s)
                 else kiss_indicate_st_alock b (s\<lparr>st_airtime_limit := airtime_limit limit\<rparr>)))"

definition cmd_lt_alock :: "board \<Rightarrow> 'a console_state \<Rightarrow> 'a console_state outcome" where
  "cmd_lt_alock b ps =
     (let (p, s) = ps; limit = cmd_half p
      in Ret (p, if vport1 b s then kiss_indicate_v1_lt_alock b (set_cfg (lt_alock_update (\<lambda>_. limit)) s)
                 else kiss_indicate_lt_alock b (s\<lparr>lt_airtime_limit := airtime_limit limit\<rparr>)))"

section \<open>Dispatching a byte of a frame\<close>

text \<open>
  The chain of comparisons of \<open>serial_callback\<close>, in the order of the source, in six parts: each part
  hands over to the next when the command is none of its own.
\<close>

definition dispatch_network2 :: "callback_env \<Rightarrow> board \<Rightarrow> u8 \<Rightarrow> u8 \<Rightarrow> 'a console_state \<Rightarrow> 'a console_state outcome" where
  "dispatch_network2 e b c x ps =
     (if c = CMD_BT_CTRL then
        if has_bluetooth b \<or> has_ble b then
          if x = 0x00 then on_node (bt_conf_save b False) (bt_call e BtStop ps)
          else if x = 0x01 then on_node (bt_conf_save b True) (bt_call e BtStart ps)
          else if x = 0x02 then
            (let ps = (if bt_state (snd ps) = BT_STATE_OFF
                       then (let (p, s) = bt_call e BtStart ps in (p, bt_conf_save b True s)) else ps)
             in if bt_state (snd ps) \<noteq> BT_STATE_CONNECTED then Ret (bt_call e BtEnablePairing ps) else Ret ps)
          else if mcu b = McuEsp32 \<and> has_ble b then
            if x = 0x03 then Ret (bt_legacy_pairing_conf_save e b False ps)
            else if x = 0x04 then Ret (bt_legacy_pairing_conf_save e b True ps)
            else if x = 0x05 then Ret (bt_just_works_conf_save e b False ps)
            else if x = 0x06 then Ret (bt_just_works_conf_save e b True ps)
            else Ret ps
          else Ret ps
        else Ret ps
      else if c = CMD_BT_UNPAIR then if has_ble b \<and> x = 0x01 then Ret (bt_call e BtDebondAll ps) else Ret ps
      else if c = CMD_DISP_INT then
        if has_display b then
          on_unescaped (\<lambda>x (p, s). Ret (display_unblank b (millis s) (p\<lparr>display_intensity := x\<rparr>), di_conf_save b x s)) x ps
        else Ret ps
      else if c = CMD_DISP_ADDR then
        if has_display b then on_unescaped (\<lambda>x (p, s). Ret (p\<lparr>display_addr := x\<rparr>, da_conf_save b x s)) x ps else Ret ps
      else if c = CMD_DISP_BLNK then
        if has_display b then on_unescaped (\<lambda>x (p, s). Ret (display_unblank b (millis s) p, db_conf_save b x s)) x ps
        else Ret ps
      else if c = CMD_DISP_ROT then
        if has_display b then
          on_unescaped (\<lambda>x ps. then_do (on_node_out (drot_conf_save b x) ps)
                                 (\<lambda>(p, s). Ret (display_unblank b (millis s) p, s))) x ps
        else Ret ps
      else if c = CMD_DIS_IA then on_unescaped (\<lambda>x. on_node_out (dia_conf_save b x)) x ps
      else if c = CMD_DISP_RCND then
        if has_display b then
          on_unescaped (\<lambda>x. on_console (\<lambda>p. if x > 0x00 then p\<lparr>recondition_display := True\<rparr> else p)) x ps
        else Ret ps
      else if c = CMD_NP_INT then
        if has_np b then on_unescaped (\<lambda>x (p, s). Ret (p\<lparr>np_intensity := x\<rparr>, np_int_conf_save b x s)) x ps else Ret ps
      else Ret ps)"

definition dispatch_network :: "callback_env \<Rightarrow> board \<Rightarrow> u8 \<Rightarrow> u8 \<Rightarrow> 'a console_state \<Rightarrow> 'a console_state outcome" where
  "dispatch_network e b c x ps =
     (if c = CMD_WIFI_SSID then if has_wifi b then collect_string b ADDR_CONF_SSID x ps else Ret ps
      else if c = CMD_WIFI_PSK then if has_wifi b then collect_string b ADDR_CONF_PSK x ps else Ret ps
      else if c = CMD_WIFI_IP then if has_wifi b then when_collected 4 (save_addr4 b ADDR_CONF_IP) x ps else Ret ps
      else if c = CMD_WIFI_NM then if has_wifi b then when_collected 4 (save_addr4 b ADDR_CONF_NM) x ps else Ret ps
      else if c = CMD_WIFI_GW then if has_wifi b then when_collected 4 (save_addr4 b ADDR_CONF_GW) x ps else Ret ps
      else if c = CMD_WIFI_DNS then if has_wifi b then when_collected 4 (save_addr4 b ADDR_CONF_DNS) x ps else Ret ps
      else if c = CMD_ETH_IP then if has_ethernet b then when_collected 4 (save_addr4 b ADDR_CONF_ETH_IP) x ps else Ret ps
      else if c = CMD_ETH_NM then if has_ethernet b then when_collected 4 (save_addr4 b ADDR_CONF_ETH_NM) x ps else Ret ps
      else if c = CMD_ETH_GW then if has_ethernet b then when_collected 4 (save_addr4 b ADDR_CONF_ETH_GW) x ps else Ret ps
      else if c = CMD_ETH_DNS then if has_ethernet b then when_collected 4 (save_addr4 b ADDR_CONF_ETH_DNS) x ps else Ret ps
      else if c = CMD_ETH_SPEED then
        if has_ethernet b \<and> x \<le> ETH_SPEED_OFF then on_node_out (ethspd_conf_save b x) ps else Ret ps
      else dispatch_network2 e b c x ps)"

definition dispatch_device :: "callback_env \<Rightarrow> board \<Rightarrow> u8 \<Rightarrow> u8 \<Rightarrow> 'a console_state \<Rightarrow> 'a console_state outcome" where
  "dispatch_device e b c x ps =
     (if c = CMD_DEV_HASH then
        if esp_or_nrf b \<and> x \<noteq> 0x00 then on_node (kiss_indicate_device_hash b) ps else Ret ps
      else if c = CMD_DEV_SIG then
        if esp_or_nrf b then
          when_collected DEV_SIG_LEN
            (\<lambda>(p, s). Ret (p, device_save_signature (primitives e) b (s\<lparr>dev_sig := take DEV_SIG_LEN (cmdbuf p)\<rparr>))) x ps
        else Ret ps
      else if c = CMD_FW_UPD then on_console (\<lambda>p. p\<lparr>firmware_update_mode := (x = 0x01)\<rparr>) ps
      else if c = CMD_HASHES then
        if esp_or_nrf b then
          if x = 0x01 then on_node (kiss_indicate_target_fw_hash b) ps
          else if x = 0x02 then on_node (kiss_indicate_fw_hash b) ps
          else if x = 0x03 then on_node (kiss_indicate_bootloader_hash b) ps
          else if x = 0x04 then on_node (kiss_indicate_partition_table_hash b) ps
          else Ret ps
        else Ret ps
      else if c = CMD_FW_HASH then
        if esp_or_nrf b then
          when_collected DEV_HASH_LEN
            (\<lambda>(p, s). on_node_out (device_save_firmware_hash b)
               (p, s\<lparr>dev_firmware_hash_target := take DEV_HASH_LEN (cmdbuf p)\<rparr>)) x ps
        else Ret ps
      else if c = CMD_WIFI_CHN then
        if has_wifi b \<and> x > 0 \<and> x < 14 then on_node (eeprom_update b (eeprom_addr b ADDR_CONF_WCHN) x) ps else Ret ps
      else if c = CMD_WIFI_MODE then
        if has_wifi b \<and> (x = WR_WIFI_OFF \<or> x = WR_WIFI_STA \<or> x = WR_WIFI_AP) then
          (let (p, s) = ps in Ret (p\<lparr>wifi_mode := x\<rparr>, wifi_do WifiRemoteInit (wr_conf_save b x s)))
        else Ret ps
      else if c = CMD_SND then
        if has_buzzer b \<and> (x = SND_ENABLE_BYTE \<or> x = SND_DISABLE_BYTE)
        then on_node (snd_conf_save b (x = SND_ENABLE_BYTE)) ps else Ret ps
      else if c = CMD_ESPNOW_ENABLE then
        if has_espnow b \<and> (x = ESPNOW_ENABLE_BYTE \<or> x = ESPNOW_DISABLE_BYTE) then on_node_out (espnow_conf_save b x) ps
        else Ret ps
      else if c = CMD_WS_ENABLE then
        if has_wifi b \<and> (x = WS_ENABLE_BYTE \<or> x = WS_DISABLE_BYTE) then Ret (ws_conf_save b x ps) else Ret ps
      else if c = CMD_VSENSE_DIV then
        if has_vsense b then
          (let (p, s) = (if x = 0xFF then ps else vsr_conf_save e b x ps)
           in Ret (p, kiss_indicate_vsense_div b (vsense_divider_ratio p) s))
        else Ret ps
      else dispatch_network e b c x ps)"

definition fb_write :: "console \<Rightarrow> console" where
  "fb_write p =
     (let line = (if cmdbuf p ! 0 > 63 then 63 else unat (cmdbuf p ! 0))
      in p\<lparr>fb := copy_at (line * 8) (take 8 (drop 1 (cmdbuf p))) (fb p)\<rparr>)"

definition dispatch_display :: "callback_env \<Rightarrow> board \<Rightarrow> u8 \<Rightarrow> u8 \<Rightarrow> 'a console_state \<Rightarrow> 'a console_state outcome" where
  "dispatch_display e b c x ps =
     (if c = CMD_FB_EXT then
        if has_display b then
          (let (p, s) = ps
           in if x = 0xFF then Ret (p, kiss_indicate_fbstate b p s)
              else if x = 0x00 then (let p = p\<lparr>disp_ext_fb := False\<rparr> in Ret (p, kiss_indicate_fbstate b p s))
              else if x = 0x01 then (let p = p\<lparr>disp_ext_fb := True\<rparr> in Ret (p, kiss_indicate_fbstate b p s))
              else Ret ps)
        else Ret ps
      else if c = CMD_FB_WRITE then
        when_collected 9
          (on_console (\<lambda>p. if has_display b then fb_write p else p)) x ps
      else if c = CMD_FB_READ then
        if x \<noteq> 0x00 then on_node (kiss_indicate_fb b (fst ps)) ps else Ret ps
      else if c = CMD_DISP_READ then
        if x \<noteq> 0x00 then (let (p, s) = ps in Ret (display_unblank b (millis s) p, kiss_indicate_disp e b s)) else Ret ps
      else dispatch_device e b c x ps)"

definition dispatch_host :: "callback_env \<Rightarrow> board \<Rightarrow> u8 \<Rightarrow> u8 \<Rightarrow> 'a console_state \<Rightarrow> 'a console_state outcome" where
  "dispatch_host e b c x ps =
     (if c = CMD_STAT_RX then on_node (kiss_indicate_stat_rx b) ps
      else if c = CMD_STAT_TX then on_node (kiss_indicate_stat_tx b) ps
      else if c = CMD_STAT_RSSI then on_node (kiss_indicate_stat_rssi b) ps
      else if c = CMD_RADIO_LOCK then on_node (\<lambda>s. kiss_indicate_radio_lock b (update_radio_lock s)) ps
      else if c = CMD_BLINK \<and>
              \<not> (display_blanked e \<and> board_model b \<noteq> BOARD_MESHPOE_S3 \<and> board_model b \<noteq> BOARD_MESHADVENTURER_S3)
        then led_indicate_info x ps
      else if c = CMD_RANDOM then on_node (kiss_indicate_random b (random_byte e)) ps
      else if c = CMD_DETECT then
        if x = DETECT_REQ then
          (let (p, s) = ps in Ret (set_rns_link_state b RNS_LINK_STATE_CONNECTED p, kiss_indicate_detect b s))
        else Ret ps
      else if has_espnow b \<and> c = CMD_SEL_INT then on_node (\<lambda>s. s\<lparr>selected_vport := (if x \<le> 1 then x else 0)\<rparr>) ps
      else if has_espnow b \<and> c = CMD_INTERFACES then on_node (kiss_indicate_interfaces b) ps
      else if c = CMD_PROMISC then
        on_node (\<lambda>s. kiss_indicate_promisc b
          (if x = 0x01 then promisc_enable s else if x = 0x00 then promisc_disable s else s)) ps
      else if c = CMD_READY then
        on_node (\<lambda>s. if \<not> queue_full b s then kiss_indicate_ready b s else kiss_indicate_not_ready b s) ps
      else if c = CMD_UNLOCK_ROM then if x = ROM_UNLOCK_BYTE then on_node_out (unlock_rom b) ps else Ret ps
      else if c = CMD_RESET then if x = CMD_RESET_BYTE then Rebooted ps else Ret ps
      else if c = CMD_ROM_READ then on_node (kiss_dump_eeprom b) ps
      else if c = CMD_CFG_READ then on_node (kiss_dump_config b) ps
      else if c = CMD_ROM_WRITE then
        when_collected 2 (\<lambda>(p, s). Ret (p, eeprom_write b (cmdbuf p ! 0) (cmdbuf p ! 1) s)) x ps
      else if c = CMD_FW_VERSION then on_node (kiss_indicate_version b) ps
      else if c = CMD_PLATFORM then on_node (kiss_indicate_platform b) ps
      else if c = CMD_MCU then on_node (kiss_indicate_mcu b) ps
      else if c = CMD_BOARD then on_node (kiss_indicate_board b) ps
      else if c = CMD_CONF_SAVE then on_node (eeprom_conf_save b) ps
      else if c = CMD_CONF_DELETE then on_node (eeprom_conf_delete b) ps
      else dispatch_display e b c x ps)"

definition dispatch :: "callback_env \<Rightarrow> board \<Rightarrow> u8 \<Rightarrow> u8 \<Rightarrow> 'a console_state \<Rightarrow> 'a console_state outcome" where
  "dispatch e b c x ps =
     (if c = CMD_DATA then cmd_data b x ps
      else if c = CMD_FREQUENCY then when_collected 4 (cmd_frequency b) x ps
      else if c = CMD_BANDWIDTH then when_collected 4 (cmd_bandwidth b) x ps
      else if c = CMD_TIME then if has_rtc b then when_collected 4 (cmd_time b) x ps else Ret ps
      else if c = CMD_NTP_SYNC then
        if mcu b = McuEsp32 \<and> has_rtc b \<and> (has_wifi b \<or> has_ethernet b) then cmd_ntp_sync e b x ps else Ret ps
      else if c = CMD_SENSOR then if has_sensors b then on_node (kiss_indicate_sensor e b) ps else Ret ps
      else if c = CMD_TXPOWER then on_node (\<lambda>s. cmd_txpower b (op_mode s) s x) ps
      else if c = CMD_SF then on_node (\<lambda>s. cmd_sf b (op_mode s) s x) ps
      else if c = CMD_CR then on_node (\<lambda>s. cmd_cr b (op_mode s) s x) ps
      else if c = CMD_SYNC_WORD then on_console (\<lambda>p. snd (collect x p)) ps
      else if has_urns b \<and> c = CMD_PROVISION_REQ then on_console (collect_provision x) ps
      else if has_urns b \<and> c = CMD_IDENTITY_EXPORT then on_console (\<lambda>p. snd (collect x p)) ps
      else if has_urns b \<and> c = CMD_IDENTITY_IMPORT then on_console (collect_identity x) ps
      else if c = CMD_IMPLICIT then on_node (\<lambda>s. kiss_indicate_implicit_length b (set_implicit_length x s)) ps
      else if c = CMD_LEAVE then cmd_leave b x ps
      else if c = CMD_RADIO_STATE then cmd_radio_state b x ps
      else if c = CMD_ST_ALOCK then when_collected 2 (cmd_st_alock b) x ps
      else if c = CMD_LT_ALOCK then when_collected 2 (cmd_lt_alock b) x ps
      else dispatch_host e b c x ps)"

section \<open>The end of a frame\<close>

definition end_data :: "callback_env \<Rightarrow> board \<Rightarrow> 'a espnow_scheme \<Rightarrow> 'a espnow_scheme" where
  "end_data e b s =
     (let s = s\<lparr>IN_FRAME := False\<rparr>
      in if vport1 b s then
           (if espnow_tx_len s > 0 then snd (espnow_send b (random_byte e) (take (espnow_tx_len s) (espnow_tx_buf s)) s)
            else s)\<lparr>espnow_tx_len := 0\<rparr>
         else queue_close b s)"

definition end_sync_word :: "board \<Rightarrow> 'a console_state \<Rightarrow> 'a console_state" where
  "end_sync_word b ps =
     (let (p, s) = ps;
          s = s\<lparr>IN_FRAME := False\<rparr>;
          two = (cmdbuf p ! 0 AND 0xF0) OR (drop_bit 4 (cmdbuf p ! 1) AND 0x0F)
      in (p, if frame_len p = 1 \<and> cmdbuf p ! 0 = 0xFF then kiss_indicate_syncword b s
             else (let s = s\<lparr>lora_sw := (if frame_len p = 1 then cmdbuf p ! 0 else two)\<rparr>
                   in kiss_indicate_syncword b (if op_mode s = MODE_HOST then setSyncWord s else s))))"

definition serial_callback :: "callback_env \<Rightarrow> board \<Rightarrow> u8 \<Rightarrow> 'a console_state \<Rightarrow> 'a console_state outcome" where
  "serial_callback e b x ps =
     (let (p, s) = ps; c = kiss_command s
      in if IN_FRAME s \<and> x = FEND \<and> c = CMD_DATA then Ret (p, end_data e b s)
         else if IN_FRAME s \<and> x = FEND \<and> c = CMD_SYNC_WORD \<and> frame_len p > 0 then Ret (end_sync_word b ps)
         else if has_urns b \<and> IN_FRAME s \<and> x = FEND \<and> c = CMD_PROVISION_REQ \<and> frame_len p > 0 then
           Ret (call_peripheral (OnProvisionRequest (take (frame_len p) (prov_req_buf p))) p, s\<lparr>IN_FRAME := False\<rparr>)
         else if has_urns b \<and> IN_FRAME s \<and> x = FEND \<and> c = CMD_IDENTITY_EXPORT \<and> frame_len p > 0 then
           Ret (call_peripheral OnIdentityExport p, s\<lparr>IN_FRAME := False\<rparr>)
         else if has_urns b \<and> IN_FRAME s \<and> x = FEND \<and> c = CMD_IDENTITY_IMPORT \<and> frame_len p > 0 then
           Ret (call_peripheral (OnIdentityImport (take (frame_len p) (identity_import_buf p))) p, s\<lparr>IN_FRAME := False\<rparr>)
         else if x = FEND then Ret (p\<lparr>frame_len := 0\<rparr>, s\<lparr>IN_FRAME := True, kiss_command := CMD_UNKNOWN\<rparr>)
         else if IN_FRAME s \<and> frame_len p < MTU then
           if frame_len p = 0 \<and> c = CMD_UNKNOWN then Ret (p, s\<lparr>kiss_command := x\<rparr>) else dispatch e b c x ps
         else Ret ps)"

text \<open>\<open>serial_poll\<close>: the bytes waiting, each with what the world answers during its call.\<close>

fun serial_poll :: "board \<Rightarrow> (callback_env \<times> u8) list \<Rightarrow> 'a console_state \<Rightarrow> 'a console_state outcome" where
  "serial_poll b [] ps = Ret ps"
| "serial_poll b ((e, x) # xs) ps = then_do (serial_callback e b x ps) (serial_poll b xs)"

section \<open>Data frames\<close>

lemma serial_poll_append: "serial_poll b (xs @ ys) ps = then_do (serial_poll b xs ps) (serial_poll b ys)"
proof (induction xs arbitrary: ps)
  case (Cons x xs)
  show ?case by (cases x; cases "serial_callback (fst x) b (snd x) ps") (simp_all add: Cons.IH)
qed simp

lemma serial_poll_one: "serial_poll b [(e, x)] ps = serial_callback e b x ps"
  by (cases "serial_callback e b x ps") simp_all

text \<open>The console after a byte of data: the host is known to be connected.\<close>

definition linked :: "board \<Rightarrow> 'a device_scheme \<Rightarrow> console \<Rightarrow> console" where
  "linked b s p = (if bt_state s \<noteq> BT_STATE_CONNECTED then set_rns_link_state b RNS_LINK_STATE_CONNECTED p else p)"

lemma linked_fields [simp]:
  "ESCAPE (linked b s p) = ESCAPE p" "frame_len (linked b s p) = frame_len p"
  by (simp_all add: linked_def set_rns_link_state_def call_peripheral_def Let_def)

lemma linked_escape: "linked b s (p\<lparr>ESCAPE := v\<rparr>) = (linked b s p)\<lparr>ESCAPE := v\<rparr>"
  by (simp add: linked_def set_rns_link_state_def call_peripheral_def Let_def)

lemma linked_twice [simp]: "bt_state t = bt_state s \<Longrightarrow> linked b t (linked b s p) = linked b s p"
  by (simp add: linked_def set_rns_link_state_def call_peripheral_def Let_def)

lemma queue_byte_node [simp]:
  "bt_state (queue_byte b x s) = bt_state s" "IN_FRAME (queue_byte b x s) = IN_FRAME s"
  "kiss_command (queue_byte b x s) = kiss_command s"
  by (simp_all add: queue_byte_def)

lemma vport1_queue_byte [simp]: "vport1 b (queue_byte b' x s) = vport1 b (s :: 'a espnow_scheme)"
  by (simp add: vport1_def queue_byte_def)

lemma vport1_frame [simp]:
  "vport1 b (s\<lparr>IN_FRAME := v\<rparr>) = vport1 b s" "vport1 b (s\<lparr>kiss_command := c\<rparr>) = vport1 b s" for s :: "'a espnow_scheme"
  by (simp_all add: vport1_def)

text \<open>In the middle of a data frame for the LoRa interface.\<close>

definition in_data :: "board \<Rightarrow> 'a console_state \<Rightarrow> bool" where
  "in_data b ps \<longleftrightarrow> IN_FRAME (snd ps) \<and> kiss_command (snd ps) = CMD_DATA \<and> frame_len (fst ps) < MTU \<and> \<not> vport1 b (snd ps)"

lemma data_byte:
  assumes "in_data b (p, s)" "x \<noteq> FEND"
  shows "serial_callback e b x (p, s) =
     Ret (if x = FESC then ((linked b s p)\<lparr>ESCAPE := True\<rparr>, s)
          else ((linked b s p)\<lparr>ESCAPE := False\<rparr>, queue_byte b (if ESCAPE p then unstuff_byte x else x) s))"
  using assms
  by (auto simp: serial_callback_def in_data_def Let_def dispatch_def cmd_data_def on_unescaped_def unescape_def on_node_def
      linked_def [symmetric])

lemma data_unit:
  assumes "in_data b (p, s)" "\<not> ESCAPE p" "map snd xs = stuff x"
  shows "serial_poll b xs (p, s) = Ret (linked b s p, queue_byte b x s)"
proof -
  have "p\<lparr>ESCAPE := False\<rparr> = p" using assms(2) by (cases p) simp
  then have n: "(linked b s p)\<lparr>ESCAPE := False\<rparr> = linked b s p" by (simp flip: linked_escape)
  show ?thesis
  proof (cases "x = FEND \<or> x = FESC")
    case True
    then obtain e1 e2 y where xs: "xs = [(e1, FESC), (e2, y)]" and y: "y \<noteq> FEND" "y \<noteq> FESC" "unstuff_byte y = x"
      using assms(3) by (auto simp: stuff_def unstuff_byte_def map_eq_Cons_conv split: if_splits)
    have i: "in_data b ((linked b s p)\<lparr>ESCAPE := True\<rparr>, s)" using assms(1) by (simp add: in_data_def)
    have l: "linked b s ((linked b s p)\<lparr>ESCAPE := True\<rparr>) = (linked b s p)\<lparr>ESCAPE := True\<rparr>" by (simp add: linked_escape)
    show ?thesis using data_byte [OF assms(1), of FESC e1] data_byte [OF i y(1), of e2] y n l by (simp add: xs)
  next
    case False
    then obtain e where "xs = [(e, x)]" using assms(3) by (auto simp: stuff_def)
    then show ?thesis using data_byte [OF assms(1), of x e] False assms(2) n by simp
  qed
qed

lemma data_bytes:
  "in_data b (p, s) \<Longrightarrow> \<not> ESCAPE p \<Longrightarrow> map snd xs = stuff_all d \<Longrightarrow>
    serial_poll b xs (p, s) = Ret (if d = [] then p else linked b s p, fold (queue_byte b) d s)"
proof (induction d arbitrary: xs p s)
  case (Cons x d)
  then obtain ys zs where xs: "xs = ys @ zs" "map snd ys = stuff x" "map snd zs = stuff_all d"
    by (auto simp: stuff_all_def map_eq_append_conv)
  have u: "serial_poll b ys (p, s) = Ret (linked b s p, queue_byte b x s)" by (rule data_unit) (use Cons.prems xs in simp_all)
  have i: "in_data b (linked b s p, queue_byte b x s)" using Cons.prems by (simp add: in_data_def)
  show ?case using Cons.IH [OF i _ xs(3)] Cons.prems(2) u by (simp add: xs(1) serial_poll_append)
qed (simp add: stuff_all_def)

lemma fold_queue_byte_frame:
  "fold (queue_byte b) d (s\<lparr>IN_FRAME := v\<rparr>) = (fold (queue_byte b) d s)\<lparr>IN_FRAME := v\<rparr>"
proof -
  have "queue_byte b x (s\<lparr>IN_FRAME := v\<rparr>) = (queue_byte b x s)\<lparr>IN_FRAME := v\<rparr>" for x and s :: "'a pqueue_scheme"
    by (simp add: queue_byte_def)
  then show ?thesis by (induction d arbitrary: s) simp_all
qed

lemma fold_queue_byte_node [simp]:
  fixes s :: "'a espnow_scheme"
  shows "bt_state (fold (queue_byte b) d s) = bt_state s" "IN_FRAME (fold (queue_byte b) d s) = IN_FRAME s"
    "kiss_command (fold (queue_byte b) d s) = kiss_command s" "vport1 b' (fold (queue_byte b) d s) = vport1 b' s"
  by (induction d arbitrary: s) simp_all

definition between_frames :: "'a pqueue_scheme \<Rightarrow> bool" where
  "between_frames s \<longleftrightarrow> \<not> IN_FRAME s \<or> kiss_command s = CMD_UNKNOWN"

definition data_frame :: "u8 list \<Rightarrow> u8 list" where
  "data_frame d = [FEND, CMD_DATA] @ stuff_all d @ [FEND]"

lemma frame_start:
  assumes "between_frames s"
  shows "serial_poll b [(e, FEND), (e', c)] (p, s) =
    Ret (p\<lparr>frame_len := 0\<rparr>, if c = FEND then s\<lparr>IN_FRAME := True, kiss_command := CMD_UNKNOWN\<rparr>
                           else s\<lparr>IN_FRAME := True, kiss_command := c\<rparr>)"
proof -
  have "serial_callback e b FEND (p, s) = Ret (p\<lparr>frame_len := 0\<rparr>, s\<lparr>IN_FRAME := True, kiss_command := CMD_UNKNOWN\<rparr>)"
    using assms by (cases "IN_FRAME s") (simp_all add: serial_callback_def between_frames_def Let_def)
  moreover have "serial_callback e' b c (p\<lparr>frame_len := 0\<rparr>, s\<lparr>IN_FRAME := True, kiss_command := CMD_UNKNOWN\<rparr>) =
    Ret (p\<lparr>frame_len := 0\<rparr>, if c = FEND then s\<lparr>IN_FRAME := True, kiss_command := CMD_UNKNOWN\<rparr>
                           else s\<lparr>IN_FRAME := True, kiss_command := c\<rparr>)"
    by (cases "c = FEND") (simp_all add: serial_callback_def Let_def)
  ultimately show ?thesis by simp
qed

lemma data_open:
  assumes "between_frames s" "\<not> vport1 b s"
  shows "serial_poll b [(e, FEND), (e', CMD_DATA)] (p, s) =
      Ret (p\<lparr>frame_len := 0\<rparr>, s\<lparr>IN_FRAME := True, kiss_command := CMD_DATA\<rparr>)"
    and "in_data b (p\<lparr>frame_len := 0\<rparr>, s\<lparr>IN_FRAME := True, kiss_command := CMD_DATA\<rparr>)"
  using frame_start [OF assms(1)] assms(2) by (simp_all add: in_data_def)

lemma data_close:
  "in_data b (p, s) \<Longrightarrow> serial_poll b [(e, FEND)] (p, s) = Ret (p, queue_close b (s\<lparr>IN_FRAME := False\<rparr>))"
  by (simp add: in_data_def serial_callback_def end_data_def Let_def)

lemma queue_frame_close:
  "queue_close b ((fold (queue_byte b) d (s\<lparr>IN_FRAME := True, kiss_command := CMD_DATA\<rparr>))\<lparr>IN_FRAME := False\<rparr>) =
   queue_frame b d (s\<lparr>IN_FRAME := False, kiss_command := CMD_DATA\<rparr>)"
proof -
  have "s\<lparr>IN_FRAME := True, kiss_command := CMD_DATA, IN_FRAME := False\<rparr> = s\<lparr>IN_FRAME := False, kiss_command := CMD_DATA\<rparr>" by simp
  then show ?thesis unfolding queue_frame_def fold_queue_byte_frame [symmetric] by (rule arg_cong)
qed

lemma in_data_bytes:
  "in_data b (p, s) \<Longrightarrow> in_data b (if d = [] then p else linked b s p, fold (queue_byte b) d s)"
  by (simp add: in_data_def)

text \<open>A data frame of the host, whatever it carries, is queued byte for byte.\<close>

lemma data_frame_queued:
  assumes "between_frames s" "\<not> ESCAPE p" "\<not> vport1 b s" "map snd xs = data_frame d"
  shows "\<exists>p'. serial_poll b xs (p, s) = Ret (p', queue_frame b d (s\<lparr>IN_FRAME := False, kiss_command := CMD_DATA\<rparr>)) \<and>
    \<not> ESCAPE p'"
proof -
  obtain e1 e2 ys e3 where xs: "xs = [(e1, FEND), (e2, CMD_DATA)] @ ys @ [(e3, FEND)]" and ys: "map snd ys = stuff_all d"
    using assms(4) by (auto simp: data_frame_def map_eq_Cons_conv map_eq_append_conv)
  let ?p = "p\<lparr>frame_len := 0\<rparr>" and ?s = "s\<lparr>IN_FRAME := True, kiss_command := CMD_DATA\<rparr>"
  let ?p' = "if d = [] then ?p else linked b ?s ?p"
  have o: "serial_poll b [(e1, FEND), (e2, CMD_DATA)] (p, s) = Ret (?p, ?s)" "in_data b (?p, ?s)"
    by (rule data_open [OF assms(1,3)])+
  have d: "serial_poll b ys (?p, ?s) = Ret (?p', fold (queue_byte b) d ?s)"
    by (rule data_bytes) (use assms(2) ys o in simp_all)
  have "serial_poll b xs (p, s) = Ret (?p', queue_frame b d (s\<lparr>IN_FRAME := False, kiss_command := CMD_DATA\<rparr>))"
    unfolding xs serial_poll_append o(1) d then_do.simps data_close [OF in_data_bytes [OF o(2)]] queue_frame_close ..
  moreover have "\<not> ESCAPE ?p'" using assms(2) by simp
  ultimately show ?thesis by blast
qed

lemma queue_frame_frame:
  fixes s :: "'a espnow_scheme"
  shows "IN_FRAME (queue_frame b d s) = IN_FRAME s" "kiss_command (queue_frame b d s) = kiss_command s"
    "vport1 b' (queue_frame b d s) = vport1 b' s"
proof -
  have "IN_FRAME (queue_close b u) = IN_FRAME u" "kiss_command (queue_close b u) = kiss_command u"
    "vport1 b' (queue_close b u) = vport1 b' u" for u :: "'a espnow_scheme"
    by (simp_all add: queue_close_def vport1_def Let_def)
  then show "IN_FRAME (queue_frame b d s) = IN_FRAME s" "kiss_command (queue_frame b d s) = kiss_command s"
    "vport1 b' (queue_frame b d s) = vport1 b' s"
    by (simp_all add: queue_frame_def)
qed

lemma queue_frame_idle:
  fixes s :: "'a espnow_scheme"
  assumes "\<not> vport1 b s" "u = queue_frame b d (s\<lparr>IN_FRAME := False, kiss_command := CMD_DATA\<rparr>)"
  shows "between_frames u" "\<not> vport1 b u" "u\<lparr>IN_FRAME := False, kiss_command := CMD_DATA\<rparr> = u"
proof -
  have f: "\<not> IN_FRAME u" "kiss_command u = CMD_DATA" by (simp_all add: assms(2) queue_frame_frame)
  show "between_frames u" using f by (simp add: between_frames_def)
  show "\<not> vport1 b u" using assms(1) by (simp add: assms(2) queue_frame_frame)
  have "u\<lparr>IN_FRAME := IN_FRAME u, kiss_command := kiss_command u\<rparr> = u" by simp
  then show "u\<lparr>IN_FRAME := False, kiss_command := CMD_DATA\<rparr> = u" using f by simp
qed

text \<open>A run of data frames is a run of queued packets.\<close>

lemma data_frames_queued:
  "between_frames s \<Longrightarrow> \<not> ESCAPE p \<Longrightarrow> \<not> vport1 b s \<Longrightarrow> map snd xs = concat (map data_frame ds) \<Longrightarrow> ds \<noteq> [] \<Longrightarrow>
    \<exists>p'. serial_poll b xs (p, s) = Ret (p', fold (queue_frame b) ds (s\<lparr>IN_FRAME := False, kiss_command := CMD_DATA\<rparr>)) \<and>
      \<not> ESCAPE p'"
proof (induction ds arbitrary: xs p s)
  case (Cons d ds)
  then obtain ys zs where xs: "xs = ys @ zs" "map snd ys = data_frame d" "map snd zs = concat (map data_frame ds)"
    by (auto simp: map_eq_append_conv)
  let ?s = "queue_frame b d (s\<lparr>IN_FRAME := False, kiss_command := CMD_DATA\<rparr>)"
  obtain p' where p': "serial_poll b ys (p, s) = Ret (p', ?s)" "\<not> ESCAPE p'"
    using data_frame_queued [OF Cons.prems(1,2,3) xs(2)] by blast
  note s = queue_frame_idle [OF Cons.prems(3) refl, of d]
  show ?case
  proof (cases "ds = []")
    case True
    then show ?thesis using p' xs by (simp add: serial_poll_append)
  next
    case False
    then show ?thesis using Cons.IH [OF s(1) p'(2) s(2) xs(3)] p'(1) s(3) by (simp add: xs(1) serial_poll_append)
  qed
qed simp

section \<open>Bounds\<close>

definition console_ok :: "console \<Rightarrow> bool" where
  "console_ok p \<longleftrightarrow> frame_len p \<le> MTU \<and> length (cmdbuf p) = CMD_L \<and> length (prov_req_buf p) = MTU \<and>
     length (identity_import_buf p) = MTU \<and> length (fb p) = 512"

text \<open>The part of the console the invariant speaks of.\<close>

definition buffers :: "console \<Rightarrow> nat \<times> nat \<times> nat \<times> nat \<times> nat" where
  "buffers p = (frame_len p, length (cmdbuf p), length (prov_req_buf p), length (identity_import_buf p), length (fb p))"

lemma console_ok_cong: "buffers p = buffers q \<Longrightarrow> console_ok p = console_ok q"
  by (simp add: buffers_def console_ok_def)

lemma buffers_small [simp]:
  "buffers (call_peripheral c p) = buffers p" "buffers (set_rns_link_state b st p) = buffers p"
  "buffers (display_unblank b t p) = buffers p" "buffers (fst (bt_call e op ps)) = buffers (fst ps)"
  "buffers (fst (vsr_conf_save e b v ps)) = buffers (fst ps)" "buffers (fst (ws_conf_save b v ps)) = buffers (fst ps)"
  "buffers (snd (unescape x p)) = buffers p"
  by (simp_all add: buffers_def call_peripheral_def set_rns_link_state_def display_unblank_def bt_call_def vsr_conf_save_def
      ws_conf_save_def unescape_def Let_def split: prod.split)

lemma buffers_update [simp]:
  "buffers (p\<lparr>ESCAPE := v1\<rparr>) = buffers p" "buffers (p\<lparr>rns_link_state := v2\<rparr>) = buffers p"
  "buffers (p\<lparr>last_rssi_raw := v3\<rparr>) = buffers p" "buffers (p\<lparr>disp_ext_fb := v4\<rparr>) = buffers p"
  "buffers (p\<lparr>display_intensity := v5\<rparr>) = buffers p" "buffers (p\<lparr>display_addr := v5\<rparr>) = buffers p"
  "buffers (p\<lparr>recondition_display := v4\<rparr>) = buffers p" "buffers (p\<lparr>np_intensity := v5\<rparr>) = buffers p"
  "buffers (p\<lparr>firmware_update_mode := v4\<rparr>) = buffers p" "buffers (p\<lparr>wifi_mode := v5\<rparr>) = buffers p"
  "buffers (p\<lparr>rtc := v6\<rparr>) = buffers p" "buffers (p\<lparr>bt_legacy_pairing_enabled := v4\<rparr>) = buffers p"
  "buffers (p\<lparr>bt_just_works_enabled := v4\<rparr>) = buffers p"
  by (simp_all add: buffers_def)

lemma console_ok_collect:
  "console_ok p \<Longrightarrow> console_ok (snd (collect x p))" "console_ok p \<Longrightarrow> console_ok (collect_provision x p)"
  "console_ok p \<Longrightarrow> console_ok (collect_identity x p)"
  by (auto simp: collect_def collect_provision_def collect_identity_def unescape_def console_ok_def copy_at_def)

text \<open>The console an outcome leaves.\<close>

abbreviation console_of :: "(console \<times> 's) outcome \<Rightarrow> console" where
  "console_of r \<equiv> fst (state_of r)"

lemma console_of_simps [simp]:
  "console_of (on_console f ps) = f (fst ps)" "console_of (on_node g ps) = fst ps"
  "console_of (on_node_out h ps) = fst ps"
  by (cases "h (snd ps)"; simp add: on_console_def on_node_def on_node_out_def)+

lemma when_collected_ok:
  assumes "\<And>p s. console_ok p \<Longrightarrow> console_ok (console_of (act (p, s)))" "console_ok (fst ps)"
  shows "console_ok (console_of (when_collected n act x ps))"
  using assms console_ok_collect(1) by (simp add: when_collected_def Let_def)

lemma on_unescaped_ok:
  assumes "\<And>x p s. buffers (console_of (act x (p, s))) = buffers p"
  shows "buffers (console_of (on_unescaped act x ps)) = buffers (fst ps)"
  using assms buffers_small(7) [of x "fst ps"] by (simp add: on_unescaped_def case_prod_beta)

lemma collect_string_ok: "console_ok (fst ps) \<Longrightarrow> console_ok (console_of (collect_string b a x ps))"
  using console_ok_collect(1) [of "fst ps" x] by (simp add: collect_string_def case_prod_beta)

lemma then_do_console:
  "(\<And>ps. buffers (console_of (f ps)) = buffers (fst ps)) \<Longrightarrow> buffers (console_of (then_do r f)) = buffers (console_of r)"
  by (cases r) simp_all

lemma buffers_commands [simp]:
  "buffers (console_of (cmd_data b x ps)) = buffers (fst ps)"
  "buffers (console_of (cmd_frequency b ps)) = buffers (fst ps)"
  "buffers (console_of (cmd_bandwidth b ps)) = buffers (fst ps)"
  "buffers (console_of (cmd_time b ps)) = buffers (fst ps)"
  "buffers (console_of (cmd_ntp_sync e b x ps)) = buffers (fst ps)"
  "buffers (console_of (cmd_leave b x ps)) = buffers (fst ps)"
  "buffers (console_of (cmd_radio_state b x ps)) = buffers (fst ps)"
  "buffers (console_of (cmd_st_alock b ps)) = buffers (fst ps)"
  "buffers (console_of (cmd_lt_alock b ps)) = buffers (fst ps)"
  "buffers (console_of (led_indicate_info x ps)) = buffers (fst ps)"
  "buffers (console_of (save_addr4 b a ps)) = buffers (fst ps)"
  by (simp_all add: cmd_data_def on_unescaped_ok cmd_frequency_def cmd_bandwidth_def cmd_time_def cmd_ntp_sync_def
      cmd_leave_def cmd_radio_state_def cmd_st_alock_def cmd_lt_alock_def led_indicate_info_def save_addr4_def Let_def
      split: prod.split)

text \<open>The parts of the dispatch chain, last to first.\<close>

lemma console_ok_of_buffers: "buffers (console_of r) = buffers (fst ps) \<Longrightarrow> console_ok (fst ps) \<Longrightarrow> console_ok (console_of r)"
  using console_ok_cong by blast

lemma buffers_bt_saves [simp]:
  "buffers (fst (bt_legacy_pairing_conf_save e b v ps)) = buffers (fst ps)"
  "buffers (fst (bt_just_works_conf_save e b v ps)) = buffers (fst ps)"
  by (simp_all add: bt_legacy_pairing_conf_save_def bt_just_works_conf_save_def case_prod_beta Let_def)

lemma console_ok_same [simp]:
  "console_ok (p\<lparr>firmware_update_mode := v4\<rparr>) = console_ok p" "console_ok (p\<lparr>wifi_mode := v5\<rparr>) = console_ok p"
  "console_ok (p\<lparr>disp_ext_fb := v4\<rparr>) = console_ok p" "console_ok (fst (vsr_conf_save e b v ps)) = console_ok (fst ps)"
  "console_ok (fst (ws_conf_save b v ps)) = console_ok (fst ps)" "console_ok (display_unblank b t p) = console_ok p"
  "console_ok (set_rns_link_state b st p) = console_ok p" "console_ok (call_peripheral pc p) = console_ok p"
  by (rule console_ok_cong, simp)+

lemma dispatch_network2_ok: "console_ok (fst ps) \<Longrightarrow> console_ok (console_of (dispatch_network2 e b c x ps))"
proof (rule console_ok_of_buffers)
  show "buffers (console_of (dispatch_network2 e b c x ps)) = buffers (fst ps)"
    by (simp add: dispatch_network2_def on_unescaped_ok then_do_console case_prod_beta Let_def)
qed

lemma dispatch_network_ok: "console_ok (fst ps) \<Longrightarrow> console_ok (console_of (dispatch_network e b c x ps))"
  by (simp add: dispatch_network_def dispatch_network2_ok collect_string_ok when_collected_ok save_addr4_def)

lemma dispatch_device_ok: "console_ok (fst ps) \<Longrightarrow> console_ok (console_of (dispatch_device e b c x ps))"
  by (simp add: dispatch_device_def dispatch_network_ok when_collected_ok case_prod_beta)

lemma fb_write_ok:
  assumes "console_ok p"
  shows "console_ok (fb_write p)"
proof -
  have "(if cmdbuf p ! 0 > 63 then 63 else unat (cmdbuf p ! 0)) \<le> 63"
    by (simp add: word_less_nat_alt linorder_not_less)
  then show ?thesis using assms by (simp add: fb_write_def console_ok_def copy_at_def Let_def)
qed

lemma dispatch_display_ok: "console_ok (fst ps) \<Longrightarrow> console_ok (console_of (dispatch_display e b c x ps))"
  by (simp add: dispatch_display_def dispatch_device_ok when_collected_ok fb_write_ok case_prod_beta Let_def)

lemma dispatch_host_ok: "console_ok (fst ps) \<Longrightarrow> console_ok (console_of (dispatch_host e b c x ps))"
  by (simp add: dispatch_host_def dispatch_display_ok when_collected_ok led_indicate_info_def case_prod_beta Let_def)

lemma dispatch_ok: "console_ok (fst ps) \<Longrightarrow> console_ok (console_of (dispatch e b c x ps))"
proof -
  have "console_ok p \<Longrightarrow> console_ok (console_of (cmd_frequency b (p, s)))" "console_ok p \<Longrightarrow> console_ok (console_of (cmd_bandwidth b (p, s)))"
    "console_ok p \<Longrightarrow> console_ok (console_of (cmd_time b (p, s)))" "console_ok p \<Longrightarrow> console_ok (console_of (cmd_st_alock b (p, s)))"
    "console_ok p \<Longrightarrow> console_ok (console_of (cmd_lt_alock b (p, s)))" for p and s :: "'a device_scheme"
    by (rule console_ok_of_buffers [where ps = "(p, s)"]; simp)+
  moreover assume "console_ok (fst ps)"
  moreover from this have "console_ok (console_of (cmd_data b x ps))" "console_ok (console_of (cmd_ntp_sync e b x ps))"
    "console_ok (console_of (cmd_leave b x ps))" "console_ok (console_of (cmd_radio_state b x ps))"
    by (rule console_ok_of_buffers [where ps = ps, rotated]; simp)+
  ultimately show ?thesis by (simp add: dispatch_def dispatch_host_ok when_collected_ok console_ok_collect)
qed

lemma serial_callback_ok: "console_ok (fst ps) \<Longrightarrow> console_ok (console_of (serial_callback e b x ps))"
proof -
  assume ok: "console_ok (fst ps)"
  have "console_ok ((fst ps)\<lparr>frame_len := 0\<rparr>)" using ok by (simp add: console_ok_def)
  then show ?thesis using ok by (simp add: serial_callback_def end_sync_word_def dispatch_ok case_prod_beta Let_def)
qed

lemma serial_poll_fold: "serial_poll b xs ps = fold (\<lambda>(e, x) r. then_do r (serial_callback e b x)) xs (Ret ps)"
proof -
  have n: "fold (\<lambda>(e, x) r. then_do r (serial_callback e b x)) ys (Rebooted t) = Rebooted t"
    "fold (\<lambda>(e, x) r. then_do r (serial_callback e b x)) ys (Hung t) = Hung t" for ys and t :: "'a console_state"
    by (induction ys) auto
  show ?thesis
  proof (induction xs arbitrary: ps)
    case (Cons x xs)
    show ?case by (cases x; cases "serial_callback (fst x) b (snd x) ps") (simp_all add: Cons.IH n)
  qed simp
qed

interpretation parser: step_invariant "\<lambda>(e, x) r. then_do r (serial_callback e b x)" "\<lambda>r. console_ok (console_of r)"
  for b
proof
  fix r :: "'a console_state outcome" and ex :: "callback_env \<times> u8"
  assume "console_ok (console_of r)"
  then show "console_ok (console_of ((case ex of (e, x) \<Rightarrow> \<lambda>r. then_do r (serial_callback e b x)) r))"
    by (cases r; cases ex) (simp_all add: serial_callback_ok)
qed

section \<open>Properties\<close>

definition console_start :: console where
  "console_start =
     \<lparr>ESCAPE = False, frame_len = 0, cmdbuf = replicate CMD_L 0, prov_req_buf = replicate MTU 0,
      identity_import_buf = replicate MTU 0, rns_link_state = RNS_LINK_STATE_DISCONNECTED, last_unblank_event = 0,
      last_rssi_raw = 0, disp_ext_fb = False, fb = replicate 512 0, display_intensity = 0xFF, display_addr = 0xFF,
      recondition_display = False, np_intensity = 0, firmware_update_mode = False, wifi_mode = WR_WIFI_OFF,
      ws_enabled = True, vsense_divider_ratio = 11, bt_legacy_pairing_enabled = False, bt_just_works_enabled = False,
      rtc = clock_blank, calls = []\<rparr>"

definition quiet_env :: callback_env where
  "quiet_env =
     \<lparr>primitives = toy_crypto, random_byte = 0, network_up = False, network_time = None, display_blanked = False,
      screen = [], sensor_present = False, sensor_model = 0, sensor_is_bme280 = False, temperature = 0, humidity = 0,
      pressure = 0, bt_effect = (\<lambda>op st. st), vsense_default = 11\<rparr>"

lemma device_start_host [simp]:
  "\<not> IN_FRAME (device_start b m)" "host_log (device_start b m) = []" "bt_state (device_start b m) = BT_STATE_NA"
  "selected_vport (device_start b m) = 0" "kiss_command (device_start b m) = CMD_UNKNOWN"
  by (simp_all add: device_start_defs)

lemma console_start_ok: "console_ok console_start" "\<not> ESCAPE console_start"
  by (simp_all add: console_ok_def console_start_def)

text \<open>
  C9: Whatever bytes the host sends and whatever the device answers meanwhile, the frame position never passes
  508 bytes and the command buffer, the two request buffers and the frame buffer keep their sizes, so that
  every write of the parser (at a position below its limit) stays inside its buffer.
\<close>

theorem command_parser_stays_in_bounds:
  assumes "console_ok p" "p' = console_of (serial_poll b xs (p, s))"
  shows "frame_len p' \<le> 508 \<and> length (cmdbuf p') = 64 \<and> length (prov_req_buf p') = 508 \<and>
    length (identity_import_buf p') = 508 \<and> length (fb p') = 512"
  using parser.inv_run [of "Ret (p, s)" b xs] assms by (simp add: serial_poll_fold console_ok_def)

theorem command_parser_stays_in_bounds_witness:
  "length (cmdbuf (console_of (serial_poll board_rak4631 (map (Pair quiet_env) (FEND # replicate 700 CMD_FB_WRITE))
     (console_start, device_start board_rak4631 (\<lambda>a. 0xFF))))) = 64"
  using command_parser_stays_in_bounds [OF _ refl, of console_start board_rak4631
      "map (Pair quiet_env) (FEND # replicate 700 CMD_FB_WRITE)" "device_start board_rak4631 (\<lambda>a. 0xFF)"]
  by (simp add: console_start_ok)

text \<open>
  A data frame that ends in the middle of an escape sequence corrupts the next one: the escape flag is not
  cleared at the end of a frame, so that a following packet that starts with 0xDC is queued with 0xC0 in
  its place, although it was sent as KISS asks.
\<close>

theorem unfinished_escape_corrupts_next_packet:
  assumes "between_frames s" "\<not> ESCAPE p" "\<not> vport1 b s"
    and "map snd xs = [FEND, CMD_DATA] @ stuff_all d @ [FESC, FEND]" "map snd ys = data_frame (TFEND # d')"
  shows "\<exists>p'. serial_poll b (xs @ ys) (p, s) =
    Ret (p', queue_frame b (FEND # d') (queue_frame b d (s\<lparr>IN_FRAME := False, kiss_command := CMD_DATA\<rparr>)))"
proof -
  let ?s0 = "s\<lparr>IN_FRAME := False, kiss_command := CMD_DATA\<rparr>" and ?s1 = "s\<lparr>IN_FRAME := True, kiss_command := CMD_DATA\<rparr>"
  let ?p1 = "p\<lparr>frame_len := 0\<rparr>" and ?t = "fold (queue_byte b) d (s\<lparr>IN_FRAME := True, kiss_command := CMD_DATA\<rparr>)"
  obtain e1 e2 zs e3 e4 where xs: "xs = [(e1, FEND), (e2, CMD_DATA)] @ zs @ [(e3, FESC)] @ [(e4, FEND)]" "map snd zs = stuff_all d"
    using assms(4) by (auto simp: map_eq_Cons_conv map_eq_append_conv)
  obtain f1 f2 f3 ws f4 where ys: "ys = [(f1, FEND), (f2, CMD_DATA)] @ [(f3, TFEND)] @ ws @ [(f4, FEND)]" "map snd ws = stuff_all d'"
    using assms(5) by (auto simp: data_frame_def stuff_def map_eq_Cons_conv map_eq_append_conv)
  have o: "serial_poll b [(e1, FEND), (e2, CMD_DATA)] (p, s) = Ret (?p1, ?s1)" "in_data b (?p1, ?s1)"
    by (rule data_open [OF assms(1,3)])+
  obtain p1 where p1: "serial_poll b zs (?p1, ?s1) = Ret (p1, ?t)" "in_data b (p1, ?t)"
    using data_bytes [OF o(2) _ xs(2)] in_data_bytes [OF o(2)] assms(2) by simp
  define p2 where "p2 = (linked b ?t p1)\<lparr>ESCAPE := True\<rparr>"
  have e: "serial_poll b [(e3, FESC)] (p1, ?t) = Ret (p2, ?t)" using data_byte [OF p1(2), of FESC e3] by (simp add: p2_def)
  have i2: "in_data b (p2, ?t)" using p1(2) by (simp add: in_data_def p2_def)
  define u where "u = queue_frame b d ?s0"
  have first: "serial_poll b xs (p, s) = Ret (p2, u)"
    unfolding xs(1) serial_poll_append o(1) p1(1) e then_do.simps data_close [OF i2] queue_frame_close u_def ..
  note u = queue_frame_idle [OF assms(3) u_def]
  let ?u1 = "u\<lparr>IN_FRAME := True, kiss_command := CMD_DATA\<rparr>" and ?p3 = "p2\<lparr>frame_len := 0\<rparr>"
  have o2: "serial_poll b [(f1, FEND), (f2, CMD_DATA)] (p2, u) = Ret (?p3, ?u1)" "in_data b (?p3, ?u1)"
    by (rule data_open [OF u(1,2)])+
  define p4 where "p4 = (linked b ?u1 ?p3)\<lparr>ESCAPE := False\<rparr>"
  have b2: "serial_poll b [(f3, TFEND)] (?p3, ?u1) = Ret (p4, queue_byte b FEND ?u1)"
    using data_byte [OF o2(2), of TFEND f3] by (simp add: p2_def p4_def unstuff_byte_def)
  have i4: "in_data b (p4, queue_byte b FEND ?u1)" using o2(2) by (simp add: in_data_def p4_def)
  obtain p5 where p5: "serial_poll b ws (p4, queue_byte b FEND ?u1) = Ret (p5, fold (queue_byte b) (FEND # d') ?u1)"
    "in_data b (p5, fold (queue_byte b) (FEND # d') ?u1)"
    using data_bytes [OF i4 _ ys(2)] in_data_bytes [OF i4, of d'] by (simp add: p4_def)
  have "serial_poll b ys (p2, u) = Ret (p5, queue_frame b (FEND # d') u)"
    unfolding ys(1) serial_poll_append o2(1) b2 p5(1) then_do.simps data_close [OF p5(2)] queue_frame_close u(3) ..
  then show ?thesis unfolding serial_poll_append first by (simp add: u_def)
qed

theorem unfinished_escape_corrupts_next_packet_witness:
  "\<exists>p'. serial_poll board_rak4631
      (map (Pair quiet_env) [FEND, CMD_DATA, 1, FESC, FEND] @ map (Pair quiet_env) (data_frame [TFEND, 2]))
      (console_start, device_start board_rak4631 (\<lambda>a. 0xFF)) =
    Ret (p', queue_frame board_rak4631 [FEND, 2] (queue_frame board_rak4631 [1]
      ((device_start board_rak4631 (\<lambda>a. 0xFF))\<lparr>IN_FRAME := False, kiss_command := CMD_DATA\<rparr>)))"
proof -
  have "between_frames (device_start board_rak4631 (\<lambda>a. 0xFF))" "\<not> ESCAPE console_start"
    "\<not> vport1 board_rak4631 (device_start board_rak4631 (\<lambda>a. 0xFF))"
    "map snd (map (Pair quiet_env) [FEND, CMD_DATA, 1, FESC, FEND]) = [FEND, CMD_DATA] @ stuff_all [1] @ [FESC, FEND]"
    "map snd (map (Pair quiet_env) (data_frame [TFEND, 2])) = data_frame (TFEND # [2])"
    by (simp_all add: between_frames_def console_start_ok vport1_def stuff_def comp_def)
  from unfinished_escape_corrupts_next_packet [OF this] show ?thesis .
qed

text \<open>
  One byte from the host stops the node: the blink command with a count of zero blinks for ever and
  \<open>serial_callback\<close> never returns, while every other count returns.
\<close>

theorem blink_zero_hangs_node:
  assumes "between_frames s" "\<not> display_blanked e3" "x \<noteq> FEND"
  shows "(\<exists>t. serial_poll b [(e1, FEND), (e2, CMD_BLINK), (e3, x)] (p, s) = Hung t) \<longleftrightarrow> x = 0"
proof -
  let ?t = "(p\<lparr>frame_len := 0\<rparr>, s\<lparr>IN_FRAME := True, kiss_command := CMD_BLINK\<rparr>)"
  have f: "serial_poll b [(e1, FEND), (e2, CMD_BLINK)] (p, s) = Ret ?t" using frame_start [OF assms(1)] by simp
  have "serial_callback e3 b x ?t = led_indicate_info x ?t"
    using assms(2,3) by (simp add: serial_callback_def dispatch_def dispatch_host_def Let_def)
  then have "serial_poll b ([(e1, FEND), (e2, CMD_BLINK)] @ [(e3, x)]) (p, s) = led_indicate_info x ?t"
    unfolding serial_poll_append f then_do.simps serial_poll_one .
  then show ?thesis by (simp add: led_indicate_info_def Let_def)
qed

theorem blink_zero_hangs_node_witness:
  "\<exists>t. serial_poll board_rak4631 [(quiet_env, FEND), (quiet_env, CMD_BLINK), (quiet_env, 0)]
     (console_start, device_start board_rak4631 (\<lambda>a. 0xFF)) = Hung t"
proof -
  have "between_frames (device_start board_rak4631 (\<lambda>a. 0xFF))" "\<not> display_blanked quiet_env" "(0 :: u8) \<noteq> FEND"
    by (simp_all add: quiet_env_def between_frames_def)
  from blink_zero_hangs_node [OF this, where b = board_rak4631 and p = console_start] show ?thesis by blast
qed

text \<open>
  The voltage divider ratio and the airtime limit are reported lower than they were set: the product with
  ten or with 10000 is cut off instead of rounded, so that for instance the ratios 11.4 and 12.9 (the
  default of one board) come back as 11.3 and 12.8, and a limit of 0.53 % as 0.52 %, although the store and
  the variables hold the values set.
\<close>

theorem limits_read_back_low:
  assumes "link_ok b s" "host_log s = []" "has_vsense b" "\<not> has_espnow b"
    and "v \<in> {114, 119, 124, 129}"
  shows "kiss_decode (host_bytes (snd (state_of (dispatch_device e b CMD_VSENSE_DIV v (p, s))))) = [(CMD_VSENSE_DIV, [v - 1])] \<and>
    eeprom_read (snd (state_of (dispatch_device e b CMD_VSENSE_DIV v (p, s)))) (eeprom_addr b ADDR_CONF_VSR) = v \<and>
    (cmd_half p = 53 \<longrightarrow>
      kiss_decode (host_bytes (snd (state_of (cmd_st_alock b (p, s))))) = [(CMD_ST_ALOCK, [0, 52])])"
proof -
  let ?s = "flush_if_nrf b (eeprom_update b (eeprom_addr b ADDR_CONF_VSR) v s)"
  have "\<lfloor>f64 (f32 (f64 (114 / 10)) * 10)\<rfloor> = 113" "\<lfloor>f64 (f32 (f64 (119 / 10)) * 10)\<rfloor> = 118"
    "\<lfloor>f64 (f32 (f64 (124 / 10)) * 10)\<rfloor> = 123" "\<lfloor>f64 (f32 (f64 (129 / 10)) * 10)\<rfloor> = 128"
    by code_simp+
  then have r: "word_of_int \<lfloor>f64 (vsr_ratio e v * 10)\<rfloor> = v - 1" using assms(5) by (auto simp: vsr_ratio_def)
  have h: "host_bytes ?s = []" "link_ok b ?s" "eeprom_read ?s (eeprom_addr b ADDR_CONF_VSR) = v"
  proof -
    have "host_bytes (flush_if_nrf b u) = host_bytes u" "link_ok b (flush_if_nrf b u) = link_ok b u" for u :: "'a device_scheme"
      by (simp_all add: flush_if_nrf_def eeprom_flush_def host_bytes_def link_ok_def)
    then show "host_bytes ?s = []" "link_ok b ?s" using assms(1,2) by (simp_all add: host_bytes_def [of s])
    show "eeprom_read ?s (eeprom_addr b ADDR_CONF_VSR) = v" by simp
  qed
  have d: "snd (state_of (dispatch_device e b CMD_VSENSE_DIV v (p, s))) = reply b CMD_VSENSE_DIV [] [v - 1] ?s"
    using assms(3,5) r by (auto simp: dispatch_device_def vsr_conf_save_def kiss_indicate_vsense_div_def Let_def)
  have a: "u16_percent (airtime_limit 53) = 52" by code_simp
  have c: "snd (state_of (cmd_st_alock b (p, s))) = reply b CMD_ST_ALOCK [] [0, 52] (s\<lparr>st_airtime_limit := airtime_limit 53\<rparr>)"
    if "cmd_half p = 53"
    using that assms(4) a by (simp add: cmd_st_alock_def vport1_def kiss_indicate_st_alock_def select0_def be16_def byte_at_def)
  have hs: "host_bytes (s\<lparr>st_airtime_limit := l\<rparr>) = []" "link_ok b (s\<lparr>st_airtime_limit := l\<rparr>)" for l
    using assms(1,2) by (simp_all add: host_bytes_def link_ok_def)
  show ?thesis using reply_frame [OF h(2), of "[]" CMD_VSENSE_DIV "[v - 1]"] reply_frame [OF hs(2), of "[]" CMD_ST_ALOCK "[0, 52]"] h hs
    by (simp add: d c del: host_bytes_reply)
qed

theorem limits_read_back_low_witness:
  "kiss_decode (host_bytes (snd (state_of (dispatch_device quiet_env (board_rak4631\<lparr>has_vsense := True\<rparr>) CMD_VSENSE_DIV 129
     (console_start, device_start board_rak4631 (\<lambda>a. 0xFF)))))) = [(CMD_VSENSE_DIV, [128])]"
proof -
  let ?b = "board_rak4631\<lparr>has_vsense := True\<rparr>" and ?s = "device_start board_rak4631 (\<lambda>a. 0xFF)"
  have "link_ok ?b ?s" "host_log ?s = []" "has_vsense ?b" "\<not> has_espnow ?b" "(129 :: u8) \<in> {114, 119, 124, 129}"
    by (simp_all add: link_ok_def board_values)
  from limits_read_back_low [OF this, of quiet_env console_start] show ?thesis by simp
qed

end
