(* ===== verification/Host_Safety.thy ===== *)
theory Host_Safety
  imports Kiss_Parser
begin

text \<open>
  What the host cannot do: once the information block of the store is locked, no sequence of KISS
  bytes other than the unlock command changes it. Every command is shown either to leave the store
  alone or to write outside the block.
\<close>

section \<open>The information block\<close>

text \<open>Product, model, revision, serial number, date, checksum, signature and the lock byte.\<close>

abbreviation (input) INFO_BLOCK_LEN :: nat where "INFO_BLOCK_LEN \<equiv> ADDR_INFO_LOCK + 1"

definition info_block :: "board \<Rightarrow> 'a rom_scheme \<Rightarrow> u8 list" where
  "info_block b s = read_from eeprom_read (eeprom_addr b 0) INFO_BLOCK_LEN s"

definition info_kept :: "board \<Rightarrow> 'a rom_scheme \<Rightarrow> 'a rom_scheme \<Rightarrow> bool" where
  "info_kept b s t \<longleftrightarrow>
     (\<forall>a. eeprom_offset b \<le> a \<and> a < eeprom_offset b + INFO_BLOCK_LEN \<longrightarrow> eeprom_read t a = eeprom_read s a)"

text \<open>The builds with the 1 KB store, whose fields \<open>esp32_fields_disjoint\<close> shows to be disjoint.\<close>

definition esp32_store :: "board \<Rightarrow> bool" where
  "esp32_store b \<longleftrightarrow> mcu b = McuEsp32 \<and> config_offset b = 0 \<and> 584 \<le> eeprom_size b"

lemma info_kept_trans: "info_kept b s t \<Longrightarrow> info_kept b t u \<Longrightarrow> info_kept b s u"
  by (simp add: info_kept_def)

lemma info_kept_refl [simp]: "info_kept b s s"
  by (simp add: info_kept_def)

lemma info_kept_eeprom: "eeprom t = eeprom s \<Longrightarrow> info_kept b s t"
  by (simp add: info_kept_def eeprom_read_def)

lemma info_kept_block: "info_kept b s t \<Longrightarrow> info_block b t = info_block b s"
  by (simp add: info_kept_def info_block_def read_from_def eeprom_addr_def)

lemma info_kept_locked: "info_kept b s t \<Longrightarrow> eeprom_info_locked b t = eeprom_info_locked b s"
  by (simp add: info_kept_def eeprom_info_locked_def eeprom_addr_def)

lemma info_kept_update [intro]:
  "a < eeprom_offset b \<or> eeprom_offset b + INFO_BLOCK_LEN \<le> a \<Longrightarrow> info_kept b s (eeprom_update b a x s)"
  by (auto simp: info_kept_def)

lemma info_kept_write:
  "a + length xs \<le> eeprom_offset b \<or> eeprom_offset b + INFO_BLOCK_LEN \<le> a \<Longrightarrow>
    info_kept b s (write_from (eeprom_update b) a xs s)"
  by (auto simp: info_kept_def rs.rd_write_from)

section \<open>Operations that leave the store alone\<close>

lemma eeprom_replies [simp]:
  "eeprom (select0 b s) = eeprom s" "eeprom (kiss_indicate_vsense_div b r s) = eeprom s"
  "eeprom (kiss_indicate_time b c s) = eeprom s" "eeprom (kiss_indicate_ntp_sync b st c s) = eeprom s"
  "eeprom (kiss_indicate_sensor e b s) = eeprom s" "eeprom (kiss_indicate_fbstate b p s) = eeprom s"
  "eeprom (kiss_indicate_fb b p s) = eeprom s" "eeprom (kiss_indicate_disp e b s) = eeprom s"
  by (simp_all add: select0_def kiss_select_interface_def kiss_indicate_vsense_div_def kiss_indicate_time_def
      kiss_indicate_ntp_sync_def kiss_indicate_sensor_def kiss_indicate_fbstate_def kiss_indicate_fb_def
      kiss_indicate_disp_def Let_def)

lemma eeprom_radio_replies [simp]:
  "eeprom (kiss_indicate_random b x s) = eeprom s" "eeprom (kiss_indicate_ready b s) = eeprom s"
  "eeprom (kiss_indicate_not_ready b s) = eeprom s" "eeprom (kiss_indicate_detect b s) = eeprom s"
  "eeprom (kiss_indicate_version b s) = eeprom s" "eeprom (kiss_indicate_platform b s) = eeprom s"
  "eeprom (kiss_indicate_board b s) = eeprom s" "eeprom (kiss_indicate_mcu b s) = eeprom s"
  for s :: "'a rom_scheme"
  by (simp_all add: reply_defs)

lemma eeprom_state_replies [simp]:
  "eeprom (kiss_indicate_radiostate b s) = eeprom s" "eeprom (kiss_indicate_stat_rx b s) = eeprom s"
  "eeprom (kiss_indicate_stat_tx b s) = eeprom s" "eeprom (kiss_indicate_stat_rssi b s) = eeprom s"
  "eeprom (kiss_indicate_radio_lock b s) = eeprom s" "eeprom (kiss_indicate_spreadingfactor b s) = eeprom s"
  "eeprom (kiss_indicate_syncword b s) = eeprom s" "eeprom (kiss_indicate_codingrate b s) = eeprom s"
  "eeprom (kiss_indicate_implicit_length b s) = eeprom s" "eeprom (kiss_indicate_txpower b s) = eeprom s"
  "eeprom (kiss_indicate_bandwidth b s) = eeprom s" "eeprom (kiss_indicate_frequency b s) = eeprom s"
  "eeprom (kiss_indicate_promisc b s) = eeprom s"
  by (simp_all add: reply_defs)

lemma eeprom_limit_replies [simp]:
  "eeprom (kiss_indicate_st_alock b s) = eeprom s" "eeprom (kiss_indicate_lt_alock b s) = eeprom s"
  by (simp_all add: kiss_indicate_st_alock_def kiss_indicate_lt_alock_def)

lemma eeprom_v1_replies [simp]:
  "eeprom (kiss_indicate_v1_frequency b s) = eeprom s" "eeprom (kiss_indicate_v1_bandwidth b s) = eeprom s"
  "eeprom (kiss_indicate_v1_txpower b s) = eeprom s" "eeprom (kiss_indicate_v1_sf b s) = eeprom s"
  "eeprom (kiss_indicate_v1_cr b s) = eeprom s" "eeprom (kiss_indicate_v1_radiostate b s) = eeprom s"
  "eeprom (kiss_indicate_v1_st_alock b s) = eeprom s" "eeprom (kiss_indicate_v1_lt_alock b s) = eeprom s"
  "eeprom (kiss_indicate_interfaces b s) = eeprom s" "eeprom (set_cfg f s) = eeprom s"
  by (simp_all add: kiss_indicate_v1_frequency_def kiss_indicate_v1_bandwidth_def kiss_indicate_v1_txpower_def
      kiss_indicate_v1_sf_def kiss_indicate_v1_cr_def kiss_indicate_v1_radiostate_def kiss_indicate_v1_st_alock_def
      kiss_indicate_v1_lt_alock_def kiss_indicate_interfaces_def v1_reply_def kiss_select_interface_def set_cfg_def Let_def)

lemma eeprom_device_replies [simp]:
  "eeprom (kiss_indicate_device_hash b s) = eeprom s" "eeprom (kiss_indicate_target_fw_hash b s) = eeprom s"
  "eeprom (kiss_indicate_fw_hash b s) = eeprom s" "eeprom (kiss_indicate_bootloader_hash b s) = eeprom s"
  "eeprom (kiss_indicate_partition_table_hash b s) = eeprom s"
  by (simp_all add: kiss_indicate_device_hash_def kiss_indicate_target_fw_hash_def kiss_indicate_fw_hash_def
      kiss_indicate_bootloader_hash_def kiss_indicate_partition_table_hash_def)

lemma eeprom_dumps [simp]:
  "eeprom (kiss_dump_eeprom b s) = eeprom s" "eeprom (kiss_dump_config b s) = eeprom s"
proof -
  have w: "eeprom (escaped_writes b xs u) = eeprom u" for xs and u :: "'a rom_scheme"
    using escaped_writes_update [of b xs u] by (auto simp: host_update_def)
  show "eeprom (kiss_dump_eeprom b s) = eeprom s" "eeprom (kiss_dump_config b s) = eeprom s"
    by (simp_all add: kiss_dump_eeprom_def kiss_dump_config_def eeprom_dump_all_def eeprom_config_dump_all_def dump_range_def w)
qed

lemma radio_same_eeprom: "radio_same s t \<Longrightarrow> eeprom t = eeprom s"
  by (simp add: radio_same_def)

lemma eeprom_setters [simp]:
  "eeprom (setSpreadingFactor b s) = eeprom s" "eeprom (setCodingRate b s) = eeprom s" "eeprom (setSyncWord s) = eeprom s"
  "eeprom (setTXPower b s) = eeprom s" "eeprom (setBandwidth b s) = eeprom s" "eeprom (setFrequency b s) = eeprom s"
  "eeprom (set_implicit_length x s) = eeprom s" "eeprom (promisc_enable s) = eeprom s" "eeprom (promisc_disable s) = eeprom s"
  "eeprom (update_radio_lock s) = eeprom s" "eeprom (stopRadio s) = eeprom s"
proof -
  show "eeprom (setSpreadingFactor b s) = eeprom s" by (rule radio_same_eeprom [OF radio_same_setters(1)])
  show "eeprom (setCodingRate b s) = eeprom s" by (rule radio_same_eeprom [OF radio_same_setters(3)])
  show "eeprom (setSyncWord s) = eeprom s" by (rule radio_same_eeprom [OF radio_same_setters(5)])
  show "eeprom (setTXPower b s) = eeprom s" by (rule radio_same_eeprom [OF radio_same_txpower(1)])
  show "eeprom (setBandwidth b s) = eeprom s"
  proof (cases "radio_online s")
    case True
    then show ?thesis by (rule radio_same_eeprom [OF radio_same_bandwidth(1)])
  qed (simp add: setBandwidth_def)
  show "eeprom (setFrequency b s) = eeprom s"
    by (simp add: setFrequency_def modem_set_frequency_def getFrequency_def modem_do_def)
  show "eeprom (set_implicit_length x s) = eeprom s" "eeprom (promisc_enable s) = eeprom s" "eeprom (promisc_disable s) = eeprom s"
    "eeprom (update_radio_lock s) = eeprom s" "eeprom (stopRadio s) = eeprom s"
    by (simp_all add: set_implicit_length_def promisc_enable_def promisc_disable_def update_radio_lock_def stopRadio_def modem_do_def)
qed

lemma eeprom_queue [simp]:
  "eeprom (queue_byte b x s) = eeprom s" "eeprom (queue_close b s) = eeprom s" "eeprom (espnow_tx_byte x t) = eeprom t"
  "eeprom (wifi_do c t) = eeprom t"
  by (simp_all add: queue_byte_def queue_close_def espnow_tx_byte_def wifi_do_def Let_def)

lemma eeprom_startRadio [simp]: "eeprom (snd (state_of (startRadio b s))) = eeprom s"
proof -
  let ?u = "modem_begin b (update_radio_lock s)"
  have "modem_responds ?u \<Longrightarrow> eeprom (start_online b ?u) = eeprom s"
    using start_online_result(5) [of ?u b "lora_freq s"] by (simp add: modem_begin_fields update_radio_lock_fields)
  then show ?thesis by (simp add: startRadio_def Let_def modem_begin_fields kiss_indicate_error_reply)
qed

lemma eeprom_espnow_send [simp]: "eeprom (snd (espnow_send b r d s)) = eeprom s"
proof -
  have c: "eeprom (snd (espnow_send_chunk x t)) = eeprom t" for x and t :: "'a espnow_scheme"
    by (simp add: espnow_send_chunk_def Let_def split: option.split)
  have l: "eeprom (snd (espnow_send_loop h d n ok t)) = eeprom t" for h n ok and t :: "'a espnow_scheme"
  proof (induction "length d - n" arbitrary: n ok t rule: less_induct)
    case less
    show ?case
      by (subst espnow_send_loop.simps) (auto simp: Let_def case_prod_beta c intro!: less.hyps [THEN trans])
  qed
  show ?thesis by (simp add: espnow_send_def case_prod_beta Let_def c l espnow_flash_tx_def npset_def)
qed

section \<open>Operations that write outside the block\<close>

lemma info_kept_saves:
  assumes "esp32_store b"
  shows "info_kept b s (wr_conf_save b v s)" "info_kept b s (bt_conf_save b w s)" "info_kept b s (snd_conf_save b w s)"
    "info_kept b s (di_conf_save b v s)" "info_kept b s (da_conf_save b v s)" "info_kept b s (db_conf_save b v s)"
    "info_kept b s (np_int_conf_save b v s)"
    "info_kept b s (state_of (drot_conf_save b v s))" "info_kept b s (state_of (dia_conf_save b v s))"
    "info_kept b s (state_of (espnow_conf_save b v s))" "info_kept b s (state_of (ethspd_conf_save b v s))"
  by (auto simp: info_kept_def saver_defs eeprom_addr_def Let_def)

lemma info_kept_flush: "info_kept b s (flush_if_nrf b' t) = info_kept b s t"
  by (simp add: info_kept_def)

lemma info_kept_conf:
  "info_kept b s (eeprom_conf_save b s)" "info_kept b s (eeprom_conf_delete b s)"
  by (auto simp: info_kept_def eeprom_conf_save_def eeprom_conf_delete_def eeprom_addr_def rs.rd_write_from Let_def)

lemma info_kept_device:
  assumes "esp32_store b"
  shows "length (dev_sig s) \<le> DEV_SIG_LEN \<Longrightarrow> info_kept b s (device_save_signature c b s)"
    and "length (dev_firmware_hash_target s) \<le> DEV_HASH_LEN \<Longrightarrow> info_kept b s (state_of (device_save_firmware_hash b s))"
proof -
  have sz: "eeprom_offset b = eeprom_size b - EEPROM_RESERVED" "584 \<le> eeprom_size b"
    using assms by (simp_all add: esp32_store_def eeprom_offset_def)
  have k: "eeprom (snd (try_keys c is found t)) = eeprom t \<and> dev_sig (snd (try_keys c is found t)) = dev_sig t"
    for "is" found and t :: "'a device_scheme"
    by (induction "is" arbitrary: found t) (simp_all add: Let_def)
  have v: "eeprom (device_validate_signature c s) = eeprom s" "dev_sig (device_validate_signature c s) = dev_sig s"
    using k by (simp_all add: device_validate_signature_def case_prod_beta Let_def)
  show "info_kept b s (device_save_signature c b s)" if "length (dev_sig s) \<le> DEV_SIG_LEN"
  proof -
    let ?t = "device_validate_signature c s"
    have "info_kept b s ?t" by (rule info_kept_eeprom) (simp add: v)
    moreover have "info_kept b ?t (write_from (eeprom_update b) (dev_sig_addr b 0) (dev_sig ?t) ?t)"
      by (rule info_kept_write, rule disjI1) (use that sz v in \<open>simp add: dev_sig_addr_def\<close>)
    ultimately show ?thesis using info_kept_trans by (auto simp: device_save_signature_def Let_def)
  qed
  show "info_kept b s (state_of (device_save_firmware_hash b s))" if "length (dev_firmware_hash_target s) \<le> DEV_HASH_LEN"
  proof -
    have "info_kept b s (write_from (eeprom_update b) (dev_fwhash_addr b 0) (dev_firmware_hash_target s) s)"
      by (rule info_kept_write, rule disjI1) (use that sz in \<open>simp add: dev_fwhash_addr_def\<close>)
    then show ?thesis by (simp add: device_save_firmware_hash_def Let_def info_kept_flush)
  qed
qed

lemma info_kept_network:
  assumes "esp32_store b"
  shows "a \<le> ADDR_CONF_ETH_DNS \<Longrightarrow> info_kept b (snd ps) (snd (state_of (save_addr4 b a ps)))"
    and "a \<le> ADDR_CONF_PSK \<Longrightarrow> info_kept b s (save_string b a p s)"
    and "info_kept b s (eeprom_update b (eeprom_addr b ADDR_CONF_WCHN) x s)"
    and "info_kept b s (snd (vsr_conf_save e b v (p, s)))" "info_kept b s (snd (ws_conf_save b v (p, s)))"
proof -
  have sz: "config_offset b = 0" "eeprom_offset b = eeprom_size b - EEPROM_RESERVED" "584 \<le> eeprom_size b"
    using assms by (simp_all add: esp32_store_def eeprom_offset_def)
  show "info_kept b (snd ps) (snd (state_of (save_addr4 b a ps)))" if "a \<le> ADDR_CONF_ETH_DNS"
    unfolding save_addr4_def on_node_def by (simp, rule info_kept_write, rule disjI1) (use that sz in \<open>auto simp: config_addr_def min_def\<close>)
  show "info_kept b s (save_string b a p s)" if "a \<le> ADDR_CONF_PSK"
    unfolding save_string_def by (rule info_kept_write, rule disjI1) (use that sz in \<open>simp add: config_addr_def\<close>)
  show "info_kept b s (eeprom_update b (eeprom_addr b ADDR_CONF_WCHN) x s)"
    by (rule info_kept_update) (simp add: eeprom_addr_def)
  show "info_kept b s (snd (vsr_conf_save e b v (p, s)))" "info_kept b s (snd (ws_conf_save b v (p, s)))"
    by (auto simp: vsr_conf_save_def ws_conf_save_def info_kept_flush eeprom_addr_def intro!: info_kept_update)
qed

lemma info_kept_bt:
  assumes "esp32_store b"
  shows "info_kept b (snd ps) (snd (bt_call e op ps))"
    and "info_kept b (snd ps) (snd (bt_legacy_pairing_conf_save e b w ps))"
    and "info_kept b (snd ps) (snd (bt_just_works_conf_save e b w ps))"
proof -
  have c: "info_kept b (snd qs) (snd (bt_call e op qs))" for op and qs :: "'a console_state"
    by (rule info_kept_eeprom) (simp add: bt_call_def case_prod_beta)
  have c': "info_kept b t (snd (bt_call e op (q, t)))" "info_kept b t (snd (bt_call e op' (bt_call e op (q, t))))"
    for op op' q and t :: "'a device_scheme"
    using c [of "(q, t)" op] c [of "bt_call e op (q, t)" op'] info_kept_trans by auto
  have u: "info_kept b s (eeprom_update b ADDR_CONF_BT_LEGACY_PAIRING x s)" "info_kept b s (eeprom_update b ADDR_CONF_BT_JUST_WORKS x s)"
    for x and s :: "'a device_scheme"
    using assms by (auto simp: esp32_store_def eeprom_offset_def intro!: info_kept_update)
  show "info_kept b (snd ps) (snd (bt_call e op ps))" by (rule c)
  show "info_kept b (snd ps) (snd (bt_legacy_pairing_conf_save e b w ps))"
    using info_kept_trans [OF u(1) c'(1)] u(1) by (simp add: bt_legacy_pairing_conf_save_def case_prod_beta Let_def)
  show "info_kept b (snd ps) (snd (bt_just_works_conf_save e b w ps))"
    using info_kept_trans [OF u(2) c'(2)] u(2) by (simp add: bt_just_works_conf_save_def case_prod_beta Let_def)
qed

section \<open>Every command\<close>

abbreviation node_of :: "(console \<times> 's) outcome \<Rightarrow> 's" where
  "node_of r \<equiv> snd (state_of r)"

lemma node_of_simps [simp]:
  "node_of (on_console f ps) = snd ps" "node_of (on_node g ps) = g (snd ps)"
  "node_of (on_node_out h ps) = state_of (h (snd ps))"
  by (cases "h (snd ps)"; simp add: on_console_def on_node_def on_node_out_def)+

lemma kept_if:
  "(P \<Longrightarrow> info_kept b s (node_of r)) \<Longrightarrow> (\<not> P \<Longrightarrow> info_kept b s (node_of r')) \<Longrightarrow> info_kept b s (node_of (if P then r else r'))"
  by simp

lemma info_kept_when_collected:
  assumes "\<And>p. console_ok p \<Longrightarrow> info_kept b (snd ps) (node_of (act (p, snd ps)))" "console_ok (fst ps)"
  shows "info_kept b (snd ps) (node_of (when_collected n act x ps))"
  using assms console_ok_collect(1) by (simp add: when_collected_def Let_def)

lemma info_kept_on_unescaped:
  "(\<And>x p. info_kept b (snd ps) (node_of (act x (p, snd ps)))) \<Longrightarrow> info_kept b (snd ps) (node_of (on_unescaped act x ps))"
  by (simp add: on_unescaped_def case_prod_beta)

lemma info_kept_collect_string:
  "esp32_store b \<Longrightarrow> a \<le> ADDR_CONF_PSK \<Longrightarrow> info_kept b (snd ps) (node_of (collect_string b a x ps))"
  by (simp add: collect_string_def case_prod_beta info_kept_network(2))

lemma state_of_map_outcome [simp]: "state_of (map_outcome f r) = f (state_of r)"
  by (cases r) simp_all

lemma eeprom_commands [simp]:
  "eeprom (node_of (cmd_data b x ps)) = eeprom (snd ps)"
  "eeprom (node_of (cmd_frequency b ps)) = eeprom (snd ps)"
  "eeprom (node_of (cmd_bandwidth b ps)) = eeprom (snd ps)"
  "eeprom (node_of (cmd_time b ps)) = eeprom (snd ps)"
  "eeprom (node_of (cmd_ntp_sync e b x ps)) = eeprom (snd ps)"
  "eeprom (node_of (cmd_leave b x ps)) = eeprom (snd ps)"
  "eeprom (node_of (cmd_st_alock b ps)) = eeprom (snd ps)"
  "eeprom (node_of (cmd_lt_alock b ps)) = eeprom (snd ps)"
  "eeprom (node_of (led_indicate_info x ps)) = eeprom (snd ps)"
  "eeprom (cmd_txpower b m s x) = eeprom s" "eeprom (cmd_sf b m s x) = eeprom s" "eeprom (cmd_cr b m s x) = eeprom s"
  by (simp_all add: cmd_data_def on_unescaped_def cmd_frequency_def cmd_bandwidth_def cmd_time_def cmd_ntp_sync_def
      cmd_leave_def cmd_st_alock_def cmd_lt_alock_def led_indicate_info_def cmd_txpower_def cmd_sf_def cmd_cr_def
      case_prod_beta Let_def)

lemma eeprom_cmd_radio_state [simp]: "eeprom (node_of (cmd_radio_state b x ps)) = eeprom (snd ps)"
proof -
  have "eeprom (state_of (then_do (map_outcome snd (startRadio b s)) (\<lambda>s. Ret (kiss_indicate_radiostate b s)))) = eeprom s"
    for s :: "'a device_scheme"
    using eeprom_startRadio [of b s] by (cases "startRadio b s") simp_all
  then show ?thesis by (simp add: cmd_radio_state_def case_prod_beta Let_def)
qed

lemma dispatch_network2_safe:
  assumes "esp32_store b"
  shows "info_kept b (snd ps) (node_of (dispatch_network2 e b c x ps))"
proof -
  have bt: "info_kept b (snd ps) (bt_conf_save b w (snd (bt_call e op ps)))" for w op
    using info_kept_trans [OF info_kept_bt(1) info_kept_saves(2)] assms by blast
  have pair: "info_kept b (snd ps) (snd (bt_call e op' (q, bt_conf_save b w (snd (bt_call e op ps)))))" for w op op' q
    using info_kept_trans [OF bt [of w op] info_kept_bt(1) [OF assms, of "(q, bt_conf_save b w (snd (bt_call e op ps)))", unfolded snd_conv]]
    by blast
  have rot: "info_kept b s (node_of (then_do (on_node_out (drot_conf_save b v) (p, s)) (\<lambda>(p, s). Ret (display_unblank b (millis s) p, s))))"
    for v p and s :: "'a device_scheme"
    using info_kept_saves(8) [OF assms, of s v] by (cases "drot_conf_save b v s") (simp_all add: on_node_out_def)
  show ?thesis
    by (simp add: dispatch_network2_def assms bt pair rot info_kept_bt info_kept_saves info_kept_on_unescaped case_prod_beta Let_def)
qed

lemma dispatch_network_safe:
  "esp32_store b \<Longrightarrow> console_ok (fst ps) \<Longrightarrow> info_kept b (snd ps) (node_of (dispatch_network e b c x ps))"
proof -
  assume a: "esp32_store b" "console_ok (fst ps)"
  have "info_kept b (snd ps) (node_of (when_collected 4 (save_addr4 b n) x ps))" if "n \<le> ADDR_CONF_ETH_DNS" for n
    by (rule info_kept_when_collected [OF _ a(2)]) (use info_kept_network(1) [OF a(1) that] in \<open>metis snd_conv\<close>)
  then show ?thesis
    by (simp add: dispatch_network_def a dispatch_network2_safe info_kept_collect_string info_kept_saves)
qed

lemma dispatch_device_safe:
  assumes "esp32_store b" "console_ok (fst ps)"
  shows "info_kept b (snd ps) (node_of (dispatch_device e b c x ps))"
proof -
  have sig: "info_kept b s (device_save_signature k b (s\<lparr>dev_sig := take DEV_SIG_LEN l\<rparr>))"
    for k l and s :: "'a device_scheme"
    by (rule info_kept_trans [OF _ info_kept_device(1) [OF assms(1)]], rule info_kept_eeprom) simp_all
  have hash: "info_kept b s (state_of (device_save_firmware_hash b (s\<lparr>dev_firmware_hash_target := take DEV_HASH_LEN l\<rparr>)))"
    for l and s :: "'a device_scheme"
    by (rule info_kept_trans [OF _ info_kept_device(2) [OF assms(1)]], rule info_kept_eeprom) simp_all
  have wr: "info_kept b s (wifi_do WifiRemoteInit (wr_conf_save b v s))" for v and s :: "'a device_scheme"
    by (rule info_kept_trans [OF info_kept_saves(1) [OF assms(1)]], rule info_kept_eeprom) simp
  have vs: "info_kept b s (kiss_indicate_vsense_div b r (snd (vsr_conf_save e b v (p, s))))" for r v p and s :: "'a device_scheme"
    by (rule info_kept_trans [OF info_kept_network(4) [OF assms(1)]], rule info_kept_eeprom) simp
  obtain p s where ps: "ps = (p, s)" by fastforce
  have sg: "info_kept b (snd ps) (node_of (when_collected DEV_SIG_LEN
      (\<lambda>(p, s). Ret (p, device_save_signature (primitives e) b (s\<lparr>dev_sig := take DEV_SIG_LEN (cmdbuf p)\<rparr>))) x ps))"
    by (rule info_kept_when_collected [OF _ assms(2)]) (simp add: sig)
  have hs: "info_kept b (snd ps) (node_of (when_collected DEV_HASH_LEN
      (\<lambda>(p, s). on_node_out (device_save_firmware_hash b) (p, s\<lparr>dev_firmware_hash_target := take DEV_HASH_LEN (cmdbuf p)\<rparr>)) x ps))"
    by (rule info_kept_when_collected [OF _ assms(2)]) (simp add: hash)
  have dn: "info_kept b (snd ps) (node_of (dispatch_network e b c x ps))" by (rule dispatch_network_safe [OF assms])
  note u = info_kept_network(3,5) [OF assms(1)]
  show ?thesis
    using sg hs dn unfolding ps dispatch_device_def
    by (intro kept_if) (simp_all add: wr vs u info_kept_saves [OF assms(1)] info_kept_eeprom case_prod_beta)
qed

lemma dispatch_display_safe:
  "esp32_store b \<Longrightarrow> console_ok (fst ps) \<Longrightarrow> info_kept b (snd ps) (node_of (dispatch_display e b c x ps))"
  by (simp add: dispatch_display_def dispatch_device_safe info_kept_when_collected info_kept_eeprom case_prod_beta Let_def)

lemma dispatch_host_safe:
  assumes "esp32_store b" "console_ok (fst ps)" "eeprom_info_locked b (snd ps)" "\<not> (c = CMD_UNLOCK_ROM \<and> x = ROM_UNLOCK_BYTE)"
  shows "info_kept b (snd ps) (node_of (dispatch_host e b c x ps))"
proof -
  have w: "info_kept b (snd ps) (eeprom_write b a v (snd ps))" for a v
    using eeprom_write_locked [OF assms(3)] by (simp add: info_kept_def)
  show ?thesis using assms(1,2,4)
    by (simp add: dispatch_host_def dispatch_display_safe info_kept_when_collected w info_kept_conf info_kept_eeprom case_prod_beta Let_def)
qed

lemma dispatch_safe:
  assumes "esp32_store b" "console_ok (fst ps)" "eeprom_info_locked b (snd ps)" "\<not> (c = CMD_UNLOCK_ROM \<and> x = ROM_UNLOCK_BYTE)"
  shows "info_kept b (snd ps) (node_of (dispatch e b c x ps))"
  using assms by (simp add: dispatch_def dispatch_host_safe info_kept_when_collected info_kept_eeprom)

lemma serial_callback_safe:
  assumes "esp32_store b" "console_ok p" "eeprom_info_locked b s"
    and "\<not> (IN_FRAME s \<and> kiss_command s = CMD_UNLOCK_ROM \<and> x = ROM_UNLOCK_BYTE)"
  shows "info_kept b s (node_of (serial_callback e b x (p, s)))"
proof -
  have d: "eeprom (end_data e b s) = eeprom s"
    by (simp add: end_data_def Let_def)
  have d': "IN_FRAME s \<Longrightarrow> info_kept b s (node_of (dispatch e b (kiss_command s) x (p, s)))"
    using dispatch_safe [of b "(p, s)"] assms by simp
  show ?thesis
    using d' by (simp add: serial_callback_def end_sync_word_def d info_kept_eeprom Let_def)
qed

text \<open>A run in which no byte completes the unlock command.\<close>

fun never_unlocks :: "board \<Rightarrow> (callback_env \<times> u8) list \<Rightarrow> 'a console_state \<Rightarrow> bool" where
  "never_unlocks b [] ps = True"
| "never_unlocks b ((e, x) # xs) ps =
     (\<not> (IN_FRAME (snd ps) \<and> kiss_command (snd ps) = CMD_UNLOCK_ROM \<and> x = ROM_UNLOCK_BYTE) \<and>
      (case serial_callback e b x ps of Ret qs \<Rightarrow> never_unlocks b xs qs | _ \<Rightarrow> True))"

lemma serial_poll_safe:
  "esp32_store b \<Longrightarrow> console_ok (fst ps) \<Longrightarrow> eeprom_info_locked b (snd ps) \<Longrightarrow> never_unlocks b xs ps \<Longrightarrow>
    info_kept b (snd ps) (node_of (serial_poll b xs ps))"
proof (induction xs arbitrary: ps)
  case (Cons ex xs)
  obtain e x where ex: "ex = (e, x)" by fastforce
  let ?r = "serial_callback e b x ps"
  have k: "info_kept b (snd ps) (node_of ?r)"
    using serial_callback_safe [of b "fst ps" "snd ps" x e] Cons.prems by (simp add: ex)
  have ok: "console_ok (console_of ?r)" using Cons.prems(2) by (rule serial_callback_ok)
  show ?case
  proof (cases ?r)
    case (Ret qs)
    then have "info_kept b (snd qs) (node_of (serial_poll b xs qs))"
      using Cons.prems k ok by (intro Cons.IH) (simp_all add: ex info_kept_locked)
    then show ?thesis using Ret k info_kept_trans by (auto simp: ex)
  qed (use k in \<open>simp_all add: ex\<close>)
qed simp

lemma never_unlocks_without_byte: "ROM_UNLOCK_BYTE \<notin> snd ` set xs \<Longrightarrow> never_unlocks b xs ps"
  by (induction xs arbitrary: ps) (auto split: outcome.split)

section \<open>Properties\<close>

text \<open>
  C2: On the ESP32 builds a provisioned node keeps its identity whatever its host sends: with the lock byte
  set, no sequence of bytes that does not complete the unlock command changes product, model, serial number,
  date, checksum, signature or the lock itself, although many commands write to the same store.
\<close>

theorem locked_identity_survives_host:
  assumes "esp32_store b" "console_ok p" "eeprom_info_locked b s" "never_unlocks b xs (p, s)"
  shows "info_block b (node_of (serial_poll b xs (p, s))) = info_block b s \<and>
    eeprom_info_locked b (node_of (serial_poll b xs (p, s)))"
  using serial_poll_safe [of b "(p, s)" xs] assms info_kept_block info_kept_locked by fastforce

theorem locked_identity_survives_host_witness:
  "info_block board_meshpoe_s3 (node_of (serial_poll board_meshpoe_s3
       (map (Pair quiet_env) [FEND, CMD_ROM_WRITE, 0, 7, FEND])
       (console_start, device_start board_meshpoe_s3 good_memory))) =
     info_block board_meshpoe_s3 (device_start board_meshpoe_s3 good_memory)"
proof -
  let ?b = board_meshpoe_s3 and ?s = "device_start board_meshpoe_s3 good_memory"
  let ?xs = "map (Pair quiet_env) [FEND, CMD_ROM_WRITE, 0, 7, FEND]"
  have "esp32_store ?b" by (simp add: esp32_store_def board_meshpoe_s3_def board_values)
  moreover have "eeprom_info_locked ?b ?s"
    by (simp add: eeprom_info_locked_def eeprom_read_def good_memory_def eeprom_addr_def)
  moreover have "never_unlocks ?b ?xs (console_start, ?s)"
    by (rule never_unlocks_without_byte) auto
  ultimately show ?thesis using locked_identity_survives_host [of ?b console_start ?s ?xs] console_start_ok by blast
qed

end
