(* ===== verification/Vault.thy ===== *)
theory Vault
  imports Device
begin

text \<open>
  The protection of the node's identity by a PIN (\<^verbatim>\<open>Vault.h\<close>): the container for encrypted keys, unlocking,
  switching the protection on and off, and what the node starts with afterwards (\<open>setup\<close> of
  \<^verbatim>\<open>RNode_Firmware.ino\<close>, \<open>urns_init\<close> of \<^verbatim>\<open>URNS.h\<close>). Every change of a file or of the enable byte is
  recorded in \<open>disks\<close>, in the order the code makes them, so that a loss of power at any moment leaves
  one of the recorded states. The ciphers are the record \<open>vault_crypto\<close>; the random generator and
  what the file system does with a write or a rename is \<open>vault_env\<close>.
\<close>

section \<open>Files, ciphers, state\<close>

datatype vpath = LegacyIdentity | VaultVk | VaultIdentity | Tmp vpath

type_synonym disk = "(vpath \<Rightarrow> u8 list option) \<times> (nat \<Rightarrow> u8)"

record vault_crypto =
  pbkdf2_sha256 :: "u8 list \<Rightarrow> u8 list \<Rightarrow> u32 \<Rightarrow> u8 list"
  gcm_seal :: "u8 list \<Rightarrow> u8 list \<Rightarrow> u8 list \<Rightarrow> u8 list"
  gcm_open :: "u8 list \<Rightarrow> u8 list \<Rightarrow> u8 list \<Rightarrow> u8 list option"
  hkdf_sha256 :: "u8 list \<Rightarrow> u8 list \<Rightarrow> u8 list"

record vault_env =
  esp_random :: "nat \<Rightarrow> u32"
  arduino_random256 :: "nat \<Rightarrow> u8"
  fs_stored :: "nat \<Rightarrow> u8 list \<Rightarrow> u8 list"
  fs_ok :: "nat \<Rightarrow> bool"

record vault = device +
  files :: "vpath \<Rightarrow> u8 list option"
  vault_enabled :: bool
  vault_unlocked :: bool
  vault_key :: "u8 list"
  rng_calls :: nat
  fs_calls :: nat
  disks :: "disk list"

datatype vault_error = NotUnlocked | EmptyKey | Truncated | BadMagic | LengthMismatch | NoIterations | AuthFailed | IdentityMissing

abbreviation (input) VAULT_PBKDF2_ITERATIONS :: u32 where "VAULT_PBKDF2_ITERATIONS \<equiv> 10000"
abbreviation (input) VAULT_SALT_SIZE :: nat where "VAULT_SALT_SIZE \<equiv> 16"
abbreviation (input) VAULT_NONCE_SIZE :: nat where "VAULT_NONCE_SIZE \<equiv> 12"
abbreviation (input) VAULT_HEADER_SIZE :: nat where "VAULT_HEADER_SIZE \<equiv> 42"

section \<open>The file system\<close>

text \<open>
  A write may be cut off after any number of bytes when power is lost; after it the file holds what the
  flash stored. A rename that fails leaves both files alone.
\<close>

definition write_file :: "vault_env \<Rightarrow> vpath \<Rightarrow> u8 list \<Rightarrow> 'a vault_scheme \<Rightarrow> 'a vault_scheme" where
  "write_file env p bs s =
     (let fs = (files s)(p := Some (fs_stored env (fs_calls s) bs));
          torn = map (\<lambda>k. ((files s)(p := Some (take k bs)), eeprom s)) [0..<length bs]
      in s\<lparr>files := fs, fs_calls := fs_calls s + 1, disks := disks s @ torn @ [(fs, eeprom s)]\<rparr>)"

definition rename_file :: "vault_env \<Rightarrow> vpath \<Rightarrow> vpath \<Rightarrow> 'a vault_scheme \<Rightarrow> 'a vault_scheme" where
  "rename_file env p q s =
     (let fs = (if fs_ok env (fs_calls s) \<and> files s p \<noteq> None then (files s)(q := files s p, p := None) else files s)
      in s\<lparr>files := fs, fs_calls := fs_calls s + 1, disks := disks s @ [(fs, eeprom s)]\<rparr>)"

definition remove_file :: "vpath \<Rightarrow> 'a vault_scheme \<Rightarrow> 'a vault_scheme" where
  "remove_file p s =
     (let fs = (files s)(p := None)
      in s\<lparr>files := fs, fs_calls := fs_calls s + 1, disks := disks s @ [(fs, eeprom s)]\<rparr>)"

definition read_file :: "vpath \<Rightarrow> 'a vault_scheme \<Rightarrow> u8 list" where
  "read_file p s = (case files s p of None \<Rightarrow> [] | Some bs \<Rightarrow> bs)"

definition write_vault_flag :: "board \<Rightarrow> u8 \<Rightarrow> 'a vault_scheme \<Rightarrow> 'a vault_scheme" where
  "write_vault_flag b x s =
     (if has_eeprom b then
        (let s = store_byte ADDR_CONF_VAULT_ENABLED x s in s\<lparr>disks := disks s @ [(files s, eeprom s)]\<rparr>)
      else s)"

section \<open>Random bytes and the ciphers\<close>

fun rng_words :: "vault_env \<Rightarrow> nat \<Rightarrow> nat \<Rightarrow> u8 list" where
  "rng_words env k 0 = []"
| "rng_words env k (Suc n) = rev (be32 (esp_random env k)) @ rng_words env (k + 1) n"

text \<open>Whole words are copied in little-endian order, the last one only as far as it is needed.\<close>

definition vault_random_bytes :: "vault_env \<Rightarrow> board \<Rightarrow> nat \<Rightarrow> 'a vault_scheme \<Rightarrow> u8 list \<times> 'a vault_scheme" where
  "vault_random_bytes env b n s =
     (if mcu b = McuEsp32 then
        (let w = (n + 3) div 4 in (take n (rng_words env (rng_calls s) w), s\<lparr>rng_calls := rng_calls s + w\<rparr>))
      else (map (\<lambda>i. arduino_random256 env (rng_calls s + i)) [0..<n], s\<lparr>rng_calls := rng_calls s + n\<rparr>))"

definition pbkdf2_hmac_sha256 :: "vault_crypto \<Rightarrow> u8 list \<Rightarrow> u8 list \<Rightarrow> u32 \<Rightarrow> vault_error + u8 list" where
  "pbkdf2_hmac_sha256 c pw salt iterations =
     (if iterations = 0 then Inl NoIterations else Inr (pbkdf2_sha256 c pw salt iterations))"

definition AES_256_GCM_decrypt :: "vault_crypto \<Rightarrow> u8 list \<Rightarrow> u8 list \<Rightarrow> u8 list \<Rightarrow> vault_error + u8 list" where
  "AES_256_GCM_decrypt c payload key nonce =
     (if length payload < 16 then Inl Truncated
      else (case gcm_open c payload key nonce of None \<Rightarrow> Inl AuthFailed | Some p \<Rightarrow> Inr p))"

definition hkdf :: "vault_crypto \<Rightarrow> u8 list \<Rightarrow> u8 list \<Rightarrow> vault_error + u8 list" where
  "hkdf c key context = (if key = [] then Inl EmptyKey else Inr (hkdf_sha256 c key context))"

definition chars :: "string \<Rightarrow> u8 list" where
  "chars cs = map (\<lambda>ch. of_nat (of_char ch)) cs"

abbreviation IDENTITY_CONTEXT :: "u8 list" where
  "IDENTITY_CONTEXT \<equiv> chars ''rnode-vault/identity/v1''"

section \<open>The container\<close>

abbreviation (input) RNVB :: "u8 list" where "RNVB \<equiv> [0x52, 0x4E, 0x56, 0x42]"

definition vault_wrap_blob ::
  "vault_env \<Rightarrow> vault_crypto \<Rightarrow> board \<Rightarrow> u8 list \<Rightarrow> u8 list \<Rightarrow> u32 \<Rightarrow> 'a vault_scheme \<Rightarrow> (vault_error + u8 list) \<times> 'a vault_scheme" where
  "vault_wrap_blob env c b plaintext pw iterations s =
     (let (salt, s) = vault_random_bytes env b VAULT_SALT_SIZE s;
          (nonce, s) = vault_random_bytes env b VAULT_NONCE_SIZE s
      in case pbkdf2_hmac_sha256 c pw salt iterations of
           Inl e \<Rightarrow> (Inl e, s)
         | Inr kek \<Rightarrow>
             (let payload = gcm_seal c plaintext kek nonce
              in (Inr (RNVB @ [1, 1] @ be32 iterations @ salt @ nonce @ be32 (of_nat (length payload)) @ payload), s)))"

definition be32_at :: "u8 list \<Rightarrow> nat \<Rightarrow> u32" where
  "be32_at bs i = of_be32 (bs ! i) (bs ! (i + 1)) (bs ! (i + 2)) (bs ! (i + 3))"

definition vault_unwrap_blob :: "vault_crypto \<Rightarrow> u8 list \<Rightarrow> u8 list \<Rightarrow> vault_error + u8 list" where
  "vault_unwrap_blob c blob pw =
     (if length blob < VAULT_HEADER_SIZE then Inl Truncated
      else if take 4 blob \<noteq> RNVB then Inl BadMagic
      else
        (let iterations = be32_at blob 6;
             salt = take VAULT_SALT_SIZE (drop 10 blob);
             nonce = take VAULT_NONCE_SIZE (drop 26 blob);
             payload_len = be32_at blob 38
         in if (of_nat (length blob) :: u32) \<noteq> of_nat VAULT_HEADER_SIZE + payload_len then Inl LengthMismatch
            else
              (let payload = take (unat payload_len) (drop VAULT_HEADER_SIZE blob)
               in case pbkdf2_hmac_sha256 c pw salt iterations of
                    Inl e \<Rightarrow> Inl e
                  | Inr kek \<Rightarrow> AES_256_GCM_decrypt c payload kek nonce)))"

section \<open>Locking and unlocking\<close>

definition vault_derive_subkey :: "vault_crypto \<Rightarrow> u8 list \<Rightarrow> 'a vault_scheme \<Rightarrow> vault_error + u8 list" where
  "vault_derive_subkey c context s = (if \<not> vault_unlocked s then Inl NotUnlocked else hkdf c (vault_key s) context)"

definition vault_lock :: "'a vault_scheme \<Rightarrow> 'a vault_scheme" where
  "vault_lock s = s\<lparr>vault_key := [], vault_unlocked := False\<rparr>"

definition hex_digit :: "u8 \<Rightarrow> u8" where
  "hex_digit x = (if x < 10 then 0x30 + x else 0x57 + x)"

definition toHex :: "u8 list \<Rightarrow> u8 list" where
  "toHex bs = concat (map (\<lambda>x. [hex_digit (drop_bit 4 (x AND 0xF0)), hex_digit (x AND 0x0F)]) bs)"

definition message_context :: "u8 list \<Rightarrow> u8 list" where
  "message_context peer_hash = chars ''rnode-vault/msg/'' @ toHex peer_hash"

definition vault_encrypt_message_field ::
  "vault_env \<Rightarrow> vault_crypto \<Rightarrow> board \<Rightarrow> u8 list \<Rightarrow> u8 list \<Rightarrow> 'a vault_scheme \<Rightarrow> (vault_error + u8 list) \<times> 'a vault_scheme" where
  "vault_encrypt_message_field env c b peer_hash plaintext s =
     (case vault_derive_subkey c (message_context peer_hash) s of
        Inl e \<Rightarrow> (Inl e, s)
      | Inr subkey \<Rightarrow>
          (let (nonce, s) = vault_random_bytes env b VAULT_NONCE_SIZE s
           in (Inr (nonce @ gcm_seal c plaintext subkey nonce), s)))"

definition vault_decrypt_message_field :: "vault_crypto \<Rightarrow> u8 list \<Rightarrow> u8 list \<Rightarrow> 'a vault_scheme \<Rightarrow> vault_error + u8 list" where
  "vault_decrypt_message_field c peer_hash envelope s =
     (if length envelope \<le> VAULT_NONCE_SIZE then Inl Truncated
      else
        (case vault_derive_subkey c (message_context peer_hash) s of
           Inl e \<Rightarrow> Inl e
         | Inr subkey \<Rightarrow>
             AES_256_GCM_decrypt c (drop VAULT_NONCE_SIZE envelope) subkey (take VAULT_NONCE_SIZE envelope)))"

text \<open>What the password opens: the key of the vault, if the file is there and the container is whole.\<close>

definition open_vk :: "vault_crypto \<Rightarrow> u8 list \<Rightarrow> 'a vault_scheme \<Rightarrow> u8 list option" where
  "open_vk c pw s =
     (if files s VaultVk = None \<or> read_file VaultVk s = [] then None
      else
        (case vault_unwrap_blob c (read_file VaultVk s) pw of
           Inl e \<Rightarrow> None
         | Inr vk \<Rightarrow> if length vk \<noteq> 32 then None else Some vk))"

definition vault_try_unlock :: "vault_crypto \<Rightarrow> u8 list \<Rightarrow> 'a vault_scheme \<Rightarrow> bool \<times> 'a vault_scheme" where
  "vault_try_unlock c pw s =
     (case open_vk c pw s of None \<Rightarrow> (False, s) | Some vk \<Rightarrow> (True, s\<lparr>vault_key := vk, vault_unlocked := True\<rparr>))"

definition vault_verify_password :: "vault_crypto \<Rightarrow> u8 list \<Rightarrow> 'a vault_scheme \<Rightarrow> bool" where
  "vault_verify_password c pw s \<longleftrightarrow> open_vk c pw s \<noteq> None"

definition vault_load_identity_plaintext :: "vault_crypto \<Rightarrow> 'a vault_scheme \<Rightarrow> vault_error + u8 list" where
  "vault_load_identity_plaintext c s =
     (if \<not> vault_unlocked s then Inl NotUnlocked
      else
        (let id_file = read_file VaultIdentity s
         in if id_file = [] then Inl IdentityMissing
            else if length id_file \<le> VAULT_NONCE_SIZE then Inl Truncated
            else
              (case vault_derive_subkey c IDENTITY_CONTEXT s of
                 Inl e \<Rightarrow> Inl e
               | Inr id_key \<Rightarrow> AES_256_GCM_decrypt c (drop VAULT_NONCE_SIZE id_file) id_key (take VAULT_NONCE_SIZE id_file))))"

section \<open>Switching the protection on and off\<close>

text \<open>An uncaught exception restarts the device.\<close>

definition vault_enable ::
  "vault_env \<Rightarrow> vault_crypto \<Rightarrow> board \<Rightarrow> u8 list \<Rightarrow> 'a vault_scheme \<Rightarrow> (bool \<times> 'a vault_scheme) outcome" where
  "vault_enable env c b pw s =
     (if vault_enabled s \<or> files s LegacyIdentity = None then Ret (False, s)
      else
        (let (vk, s) = vault_random_bytes env b 32 s;
             (wrapped, s) = vault_wrap_blob env c b vk pw VAULT_PBKDF2_ITERATIONS s
         in case wrapped of
              Inl e \<Rightarrow> Rebooted (False, s)
            | Inr vk_blob \<Rightarrow>
                (let identity_plain = read_file LegacyIdentity s
                 in if identity_plain = [] then Ret (False, s)
                    else
                      (case hkdf c vk IDENTITY_CONTEXT of
                         Inl e \<Rightarrow> Rebooted (False, s)
                       | Inr id_key \<Rightarrow>
                           (let (id_nonce, s) = vault_random_bytes env b VAULT_NONCE_SIZE s;
                                id_file = id_nonce @ gcm_seal c identity_plain id_key id_nonce;
                                s = write_file env (Tmp VaultVk) vk_blob s;
                                s = write_file env (Tmp VaultIdentity) id_file s
                            in if read_file (Tmp VaultVk) s \<noteq> vk_blob \<or> read_file (Tmp VaultIdentity) s \<noteq> id_file
                               then Ret (False, remove_file (Tmp VaultIdentity) (remove_file (Tmp VaultVk) s))
                               else
                                 (let s = rename_file env (Tmp VaultVk) VaultVk s;
                                      s = rename_file env (Tmp VaultIdentity) VaultIdentity s;
                                      s = remove_file LegacyIdentity s;
                                      s = write_vault_flag b VAULT_ENABLE_BYTE s
                                  in Ret (True, s\<lparr>vault_enabled := True, vault_key := vk, vault_unlocked := True\<rparr>)))))))"

definition vault_disable ::
  "vault_env \<Rightarrow> vault_crypto \<Rightarrow> board \<Rightarrow> u8 list \<Rightarrow> 'a vault_scheme \<Rightarrow> (bool \<times> 'a vault_scheme) outcome" where
  "vault_disable env c b pw s =
     (case open_vk c pw s of
        None \<Rightarrow> Ret (False, s)
      | Some vk \<Rightarrow>
          (let id_file = read_file VaultIdentity s
           in if length id_file \<le> VAULT_NONCE_SIZE then Ret (False, s)
              else
                (case hkdf c vk IDENTITY_CONTEXT of
                   Inl e \<Rightarrow> Rebooted (False, s)
                 | Inr id_key \<Rightarrow>
                     (case AES_256_GCM_decrypt c (drop VAULT_NONCE_SIZE id_file) id_key (take VAULT_NONCE_SIZE id_file) of
                        Inl e \<Rightarrow> Ret (False, s)
                      | Inr identity_plain \<Rightarrow>
                          (let s = write_file env (Tmp LegacyIdentity) identity_plain s
                           in if read_file (Tmp LegacyIdentity) s \<noteq> identity_plain
                              then Ret (False, remove_file (Tmp LegacyIdentity) s)
                              else
                                (let s = rename_file env (Tmp LegacyIdentity) LegacyIdentity s;
                                     s = remove_file VaultIdentity s;
                                     s = remove_file VaultVk s;
                                     s = write_vault_flag b VAULT_DISABLE_BYTE s
                                 in Ret (True, vault_lock (s\<lparr>vault_enabled := False\<rparr>))))))))"

section \<open>Starting the node\<close>

text \<open>
  What a start leads to: the node runs with an identity, makes a new one, stays at the PIN screen, or stops
  at an exception nobody handles.
\<close>

datatype start_result = Running "u8 list" | NewIdentity | AtPinScreen | Aborted

definition read_vault_flag :: "'a vault_scheme \<Rightarrow> 'a vault_scheme" where
  "read_vault_flag s =
     (if eeprom s ADDR_CONF_VAULT_ENABLED = VAULT_ENABLE_BYTE then s\<lparr>vault_enabled := True\<rparr>
      else if eeprom s ADDR_CONF_VAULT_ENABLED = VAULT_DISABLE_BYTE then s\<lparr>vault_enabled := False\<rparr> else s)"

definition load_identity :: "vault_crypto \<Rightarrow> 'a vault_scheme \<Rightarrow> start_result" where
  "load_identity c s =
     (if vault_enabled s then (case vault_load_identity_plaintext c s of Inl e \<Rightarrow> Aborted | Inr p \<Rightarrow> Running p)
      else (case files s LegacyIdentity of Some p \<Rightarrow> Running p | None \<Rightarrow> NewIdentity))"

text \<open>The part of \<open>setup\<close> that leads to the identity, when \<open>pw\<close> is entered at the PIN screen.\<close>

definition start_node :: "vault_crypto \<Rightarrow> u8 list \<Rightarrow> 'a vault_scheme \<Rightarrow> start_result" where
  "start_node c pw s =
     (let s = read_vault_flag s
      in if vault_enabled s then (let (ok, s) = vault_try_unlock c pw s in if ok then load_identity c s else AtPinScreen)
         else load_identity c s)"

text \<open>A start after power was lost: the variables have their initial values, files and store are as left.\<close>

definition power_up :: "disk \<Rightarrow> 'a vault_scheme \<Rightarrow> 'a vault_scheme" where
  "power_up d s =
     rom.eeprom_update (\<lambda>_. snd d)
       (s\<lparr>files := fst d, vault_enabled := False, vault_unlocked := False, vault_key := [], disks := []\<rparr>)"

text \<open>
  The PIN screen at start-up tries the passwords entered one after the other, with a delay after each wrong one:
  the attempts are counted in a byte.
\<close>

definition throttle_ms :: "u8 \<Rightarrow> nat" where
  "throttle_ms attempts =
     (if attempts \<le> 3 then 800
      else min 60000 (1000 * 2 ^ (if unat attempts - 3 > 6 then 6 else unat attempts - 3)))"

fun vault_unlock_boot_screen ::
  "vault_crypto \<Rightarrow> u8 list list \<Rightarrow> u8 \<Rightarrow> 'a vault_scheme \<Rightarrow> nat list \<times> 'a vault_scheme option" where
  "vault_unlock_boot_screen c [] attempts s = ([], None)"
| "vault_unlock_boot_screen c (pw # pws) attempts s =
     (let (ok, s) = vault_try_unlock c pw s
      in if ok then ([], Some s)
         else (let (ds, r) = vault_unlock_boot_screen c pws (attempts + 1) s in (throttle_ms (attempts + 1) # ds, r)))"

section \<open>The container is read back\<close>

text \<open>What is relied on of AES-256-GCM: the tag is 16 bytes, and decryption inverts encryption.\<close>

definition gcm_law :: "vault_crypto \<Rightarrow> bool" where
  "gcm_law c \<longleftrightarrow> (\<forall>p k n. length (gcm_seal c p k n) = length p + 16 \<and> gcm_open c (gcm_seal c p k n) k n = Some p)"

lemma gcm_lawD:
  assumes "gcm_law c"
  shows "length (gcm_seal c p k n) = length p + 16" "AES_256_GCM_decrypt c (gcm_seal c p k n) k n = Inr p"
  using assms by (simp_all add: gcm_law_def AES_256_GCM_decrypt_def)

lemma length_rng_words [simp]: "length (rng_words env k n) = 4 * n"
  by (induction n arbitrary: k) simp_all

lemma random_bytes:
  obtains bs m where "vault_random_bytes env b n s = (bs, s\<lparr>rng_calls := m\<rparr>)" "length bs = n"
  by (rule that [of "fst (vault_random_bytes env b n s)" "rng_calls (snd (vault_random_bytes env b n s))"])
    (simp_all add: vault_random_bytes_def Let_def)

lemma be32_at_be32: "i = length xs \<Longrightarrow> be32_at (xs @ be32 w @ ys) i = w"
  by (simp add: be32_at_def be32_def nth_append)

lemma unwrap_parts:
  assumes "length salt = VAULT_SALT_SIZE" "length nonce = VAULT_NONCE_SIZE" "length payload < 2 ^ 32 - VAULT_HEADER_SIZE" "it \<noteq> 0"
  shows "vault_unwrap_blob c (RNVB @ [1, 1] @ be32 it @ salt @ nonce @ be32 (of_nat (length payload)) @ payload) pw =
    AES_256_GCM_decrypt c payload (pbkdf2_sha256 c pw salt it) nonce"
proof -
  let ?n = "of_nat (length payload) :: u32"
  let ?blob = "RNVB @ [1, 1] @ be32 it @ salt @ nonce @ be32 ?n @ payload"
  have len: "length ?blob = VAULT_HEADER_SIZE + length payload" using assms by simp
  have at: "be32_at ?blob 6 = it" "be32_at ?blob 38 = ?n"
    using be32_at_be32 [of 6 "RNVB @ [1, 1]" it "salt @ nonce @ be32 ?n @ payload"]
      be32_at_be32 [of 38 "RNVB @ [1, 1] @ be32 it @ salt @ nonce" ?n payload] assms(1,2) by simp_all
  have part: "take 16 (drop 10 ?blob) = salt" "take 12 (drop 26 ?blob) = nonce" "drop 42 ?blob = payload" "take 4 ?blob = RNVB"
    using assms(1,2) by (simp_all add: be32_def)
  have un: "unat ?n = length payload" using assms(3) by (simp add: unat_of_nat)
  show ?thesis
    unfolding vault_unwrap_blob_def Let_def len at part un using assms(4) by (simp add: pbkdf2_hmac_sha256_def)
qed

lemma wrap_blob:
  assumes "gcm_law c" "it \<noteq> 0" "length plaintext < 2 ^ 32 - 58"
  obtains blob n where "vault_wrap_blob env c b plaintext pw it s = (Inr blob, s\<lparr>rng_calls := n\<rparr>)"
    "vault_unwrap_blob c blob pw = Inr plaintext" "length blob = length plaintext + 58"
proof -
  obtain salt m where salt: "vault_random_bytes env b VAULT_SALT_SIZE s = (salt, s\<lparr>rng_calls := m\<rparr>)" "length salt = VAULT_SALT_SIZE"
    by (rule random_bytes)
  obtain nonce m' where nonce: "vault_random_bytes env b VAULT_NONCE_SIZE (s\<lparr>rng_calls := m\<rparr>) = (nonce, s\<lparr>rng_calls := m, rng_calls := m'\<rparr>)"
    "length nonce = VAULT_NONCE_SIZE"
    by (rule random_bytes)
  let ?payload = "gcm_seal c plaintext (pbkdf2_sha256 c pw salt it) nonce"
  let ?blob = "RNVB @ [1, 1] @ be32 it @ salt @ nonce @ be32 (of_nat (length ?payload)) @ ?payload"
  have l: "length ?payload = length plaintext + 16" by (rule gcm_lawD [OF assms(1)])
  have u: "vault_unwrap_blob c ?blob pw = Inr plaintext"
    using unwrap_parts [of salt nonce ?payload it c pw] assms(2,3) l salt(2) nonce(2) by (simp add: gcm_lawD [OF assms(1)])
  have w: "vault_wrap_blob env c b plaintext pw it s = (Inr ?blob, s\<lparr>rng_calls := m'\<rparr>)"
    using assms(2) salt(1) nonce(1) by (simp add: vault_wrap_blob_def pbkdf2_hmac_sha256_def Let_def)
  have "length ?blob = length plaintext + 58" using l salt(2) nonce(2) by simp
  then show ?thesis by (rule that [OF w u])
qed

section \<open>What a start finds\<close>

lemma power_up_fields [simp]:
  "files (power_up d s) = fst d" "eeprom (power_up d s) = snd d" "\<not> vault_enabled (power_up d s)"
  by (simp_all add: power_up_def)

lemma read_file_simps [simp]:
  "read_file p (s\<lparr>vault_enabled := e\<rparr>) = read_file p s" "read_file p (s\<lparr>vault_key := k\<rparr>) = read_file p s"
  "read_file p (s\<lparr>vault_unlocked := u\<rparr>) = read_file p s" "read_file p (power_up d s) = (case fst d p of None \<Rightarrow> [] | Some bs \<Rightarrow> bs)"
  by (simp_all add: read_file_def)

lemma open_vk_cong: "files s VaultVk = files t VaultVk \<Longrightarrow> open_vk c pw s = open_vk c pw t"
  by (simp add: open_vk_def read_file_def)

text \<open>The identity a password opens in a set of files.\<close>

definition sealed_identity :: "vault_crypto \<Rightarrow> u8 list \<Rightarrow> (vpath \<Rightarrow> u8 list option) \<Rightarrow> start_result" where
  "sealed_identity c pw fs =
     (case fs VaultVk of None \<Rightarrow> AtPinScreen
      | Some blob \<Rightarrow>
          (case vault_unwrap_blob c blob pw of Inl e \<Rightarrow> AtPinScreen
           | Inr vk \<Rightarrow>
               if blob = [] \<or> length vk \<noteq> 32 then AtPinScreen
               else
                 (case fs VaultIdentity of None \<Rightarrow> Aborted
                  | Some f \<Rightarrow>
                      if length f \<le> VAULT_NONCE_SIZE then Aborted
                      else
                        (case AES_256_GCM_decrypt c (drop VAULT_NONCE_SIZE f) (hkdf_sha256 c vk IDENTITY_CONTEXT) (take VAULT_NONCE_SIZE f) of
                           Inl e \<Rightarrow> Aborted | Inr p \<Rightarrow> Running p))))"

lemma sealed_identity_cong:
  "fs VaultVk = gs VaultVk \<Longrightarrow> fs VaultIdentity = gs VaultIdentity \<Longrightarrow> sealed_identity c pw fs = sealed_identity c pw gs"
proof -
  assume vk: "fs VaultVk = gs VaultVk" and i: "fs VaultIdentity = gs VaultIdentity"
  show ?thesis unfolding sealed_identity_def vk i ..
qed

lemma start_power_up:
  "start_node c pw (power_up (fs, ee) s) =
     (if ee ADDR_CONF_VAULT_ENABLED = VAULT_ENABLE_BYTE then sealed_identity c pw fs
      else (case fs LegacyIdentity of Some p \<Rightarrow> Running p | None \<Rightarrow> NewIdentity))"
proof (cases "ee ADDR_CONF_VAULT_ENABLED = VAULT_ENABLE_BYTE")
  case True
  have o: "open_vk c pw ((power_up (fs, ee) s)\<lparr>vault_enabled := True\<rparr>) =
      (case fs VaultVk of None \<Rightarrow> None
       | Some blob \<Rightarrow> (case vault_unwrap_blob c blob pw of Inl e \<Rightarrow> None | Inr vk \<Rightarrow> if blob = [] \<or> length vk \<noteq> 32 then None else Some vk))"
    by (auto simp: open_vk_def split: option.split sum.split)
  show ?thesis
    using True
    by (auto simp: start_node_def read_vault_flag_def vault_try_unlock_def o load_identity_def vault_load_identity_plaintext_def
        vault_derive_subkey_def hkdf_def sealed_identity_def Let_def split: option.split sum.split)
next
  case False
  then show ?thesis
    by (auto simp: start_node_def read_vault_flag_def load_identity_def Let_def split: option.split)
qed

section \<open>What the steps record\<close>

lemma file_op_fields [simp]:
  "files (write_file env p bs s) = (files s)(p := Some (fs_stored env (fs_calls s) bs))" "eeprom (write_file env p bs s) = eeprom s"
  "files (remove_file p s) = (files s)(p := None)" "eeprom (remove_file p s) = eeprom s" "eeprom (rename_file env p q s) = eeprom s"
  "disks (remove_file p s) = disks s @ [((files s)(p := None), eeprom s)]"
  "vault_enabled (write_file env p bs s) = vault_enabled s" "vault_enabled (remove_file p s) = vault_enabled s"
  by (simp_all add: write_file_def remove_file_def rename_file_def Let_def)

lemma rename_ok:
  "(\<And>n. fs_ok env n) \<Longrightarrow> files s p = Some f \<Longrightarrow> files (rename_file env p q s) = (files s)(q := Some f, p := None)"
  "(\<And>n. fs_ok env n) \<Longrightarrow> files s p = Some f \<Longrightarrow>
    disks (rename_file env p q s) = disks s @ [((files s)(q := Some f, p := None), eeprom s)]"
  by (simp_all add: rename_file_def Let_def)

lemma disks_writeD:
  "d \<in> set (disks (write_file env p bs s)) \<Longrightarrow> d \<in> set (disks s) \<or> (\<exists>x. d = ((files s)(p := Some x), eeprom s))"
  by (auto simp: write_file_def Let_def)

lemma write_flag:
  "has_eeprom b \<Longrightarrow> disks (write_vault_flag b x s) = disks s @ [(files s, (eeprom s)(ADDR_CONF_VAULT_ENABLED := x))]"
  "has_eeprom b \<Longrightarrow> eeprom (write_vault_flag b x s) = (eeprom s)(ADDR_CONF_VAULT_ENABLED := x)"
  "files (write_vault_flag b x s) = files s"
  by (simp_all add: write_vault_flag_def store_byte_def Let_def)

text \<open>Files that hold the identity under the password.\<close>

lemma sealed_identityI:
  assumes "fs VaultVk = Some blob" "vault_unwrap_blob c blob pw = Inr vk" "blob \<noteq> []" "length vk = 32"
    and "fs VaultIdentity = Some f" "VAULT_NONCE_SIZE < length f"
    and "AES_256_GCM_decrypt c (drop VAULT_NONCE_SIZE f) (hkdf_sha256 c vk IDENTITY_CONTEXT) (take VAULT_NONCE_SIZE f) = Inr p"
  shows "sealed_identity c pw fs = Running p"
  using assms by (simp add: sealed_identity_def)

lemma sealed_without_identity: "fs VaultIdentity = None \<Longrightarrow> sealed_identity c pw fs \<in> {Aborted, AtPinScreen}"
  by (simp add: sealed_identity_def split: option.split sum.split)

text \<open>
  \<open>vault_enable\<close> in terms of what it writes: the container \<open>blob\<close> with the new key and the file
  \<open>f\<close> with the encrypted identity.
\<close>

lemma vault_enable_writes:
  assumes "gcm_law c" "\<not> vault_enabled s" "files s LegacyIdentity = Some idn" "idn \<noteq> []"
  obtains blob f vk m where "vault_unwrap_blob c blob pw = Inr vk" "blob \<noteq> []" "length vk = 32" "VAULT_NONCE_SIZE < length f"
    "AES_256_GCM_decrypt c (drop VAULT_NONCE_SIZE f) (hkdf_sha256 c vk IDENTITY_CONTEXT) (take VAULT_NONCE_SIZE f) = Inr idn"
    "vault_enable env c b pw s =
       (let s = write_file env (Tmp VaultIdentity) f (write_file env (Tmp VaultVk) blob (s\<lparr>rng_calls := m\<rparr>))
        in if read_file (Tmp VaultVk) s \<noteq> blob \<or> read_file (Tmp VaultIdentity) s \<noteq> f
           then Ret (False, remove_file (Tmp VaultIdentity) (remove_file (Tmp VaultVk) s))
           else Ret (True, (write_vault_flag b VAULT_ENABLE_BYTE (remove_file LegacyIdentity
                  (rename_file env (Tmp VaultIdentity) VaultIdentity (rename_file env (Tmp VaultVk) VaultVk s))))
                  \<lparr>vault_enabled := True, vault_key := vk, vault_unlocked := True\<rparr>))"
proof -
  obtain vk m where vk: "vault_random_bytes env b 32 s = (vk, s\<lparr>rng_calls := m\<rparr>)" "length vk = 32" by (rule random_bytes)
  have it: "VAULT_PBKDF2_ITERATIONS \<noteq> 0" and l: "length vk < 2 ^ 32 - 58" using vk(2) by simp_all
  obtain blob m' where blob: "vault_wrap_blob env c b vk pw VAULT_PBKDF2_ITERATIONS (s\<lparr>rng_calls := m\<rparr>) = (Inr blob, s\<lparr>rng_calls := m, rng_calls := m'\<rparr>)"
    "vault_unwrap_blob c blob pw = Inr vk" "length blob = length vk + 58"
    by (rule wrap_blob [OF assms(1) it l])
  obtain nonce m'' where nonce: "vault_random_bytes env b VAULT_NONCE_SIZE (s\<lparr>rng_calls := m'\<rparr>) = (nonce, s\<lparr>rng_calls := m', rng_calls := m''\<rparr>)"
    "length nonce = VAULT_NONCE_SIZE"
    by (rule random_bytes)
  let ?f = "nonce @ gcm_seal c idn (hkdf_sha256 c vk IDENTITY_CONTEXT) nonce"
  have f: "VAULT_NONCE_SIZE < length ?f"
    "AES_256_GCM_decrypt c (drop VAULT_NONCE_SIZE ?f) (hkdf_sha256 c vk IDENTITY_CONTEXT) (take VAULT_NONCE_SIZE ?f) = Inr idn"
    using nonce(2) by (simp_all add: gcm_lawD [OF assms(1)])
  have i: "read_file LegacyIdentity (s\<lparr>rng_calls := m'\<rparr>) = idn" using assms(3) by (simp add: read_file_def)
  have h: "hkdf c vk IDENTITY_CONTEXT = Inr (hkdf_sha256 c vk IDENTITY_CONTEXT)" using vk(2) by (auto simp: hkdf_def)
  have b: "blob \<noteq> []" using blob(3) by auto
  show ?thesis
    by (rule that [OF blob(2) b vk(2) f, of m''])
      (use assms(2-4) vk(1) blob(1) nonce(1) i h in \<open>simp add: vault_enable_def Let_def\<close>)
qed

text \<open>The steps after both files have been verified.\<close>

definition enable_commit :: "vault_env \<Rightarrow> board \<Rightarrow> 'a vault_scheme \<Rightarrow> 'a vault_scheme" where
  "enable_commit env b s =
     write_vault_flag b VAULT_ENABLE_BYTE (remove_file LegacyIdentity
       (rename_file env (Tmp VaultIdentity) VaultIdentity (rename_file env (Tmp VaultVk) VaultVk s)))"

lemma enable_commit:
  assumes "files s (Tmp VaultVk) = Some blob" "files s (Tmp VaultIdentity) = Some f" "\<And>n. fs_ok env n" "has_eeprom b"
  defines "fs3 \<equiv> (files s)(VaultVk := Some blob, Tmp VaultVk := None)"
  defines "fs4 \<equiv> fs3(VaultIdentity := Some f, Tmp VaultIdentity := None)"
  shows "disks (enable_commit env b s) = disks s @ [(fs3, eeprom s), (fs4, eeprom s), (fs4(LegacyIdentity := None), eeprom s),
      (fs4(LegacyIdentity := None), (eeprom s)(ADDR_CONF_VAULT_ENABLED := VAULT_ENABLE_BYTE))]"
    and "files (enable_commit env b s) = fs4(LegacyIdentity := None)"
    and "eeprom (enable_commit env b s) = (eeprom s)(ADDR_CONF_VAULT_ENABLED := VAULT_ENABLE_BYTE)"
proof -
  let ?s = "rename_file env (Tmp VaultVk) VaultVk s"
  note r = rename_ok [where env = env and s = s, OF assms(3,1), of VaultVk]
  have "files ?s (Tmp VaultIdentity) = Some f" using r(1) assms(2) by simp
  note r' = rename_ok [where env = env and s = ?s, OF assms(3) this, of VaultIdentity]
  show "disks (enable_commit env b s) = disks s @ [(fs3, eeprom s), (fs4, eeprom s), (fs4(LegacyIdentity := None), eeprom s),
      (fs4(LegacyIdentity := None), (eeprom s)(ADDR_CONF_VAULT_ENABLED := VAULT_ENABLE_BYTE))]"
    "files (enable_commit env b s) = fs4(LegacyIdentity := None)"
    "eeprom (enable_commit env b s) = (eeprom s)(ADDR_CONF_VAULT_ENABLED := VAULT_ENABLE_BYTE)"
    by (simp_all add: enable_commit_def write_flag(1,2) [OF assms(4)] write_flag(3) r r' fs3_def fs4_def)
qed

text \<open>What \<open>vault_enable\<close> leaves, on the way and in the end.\<close>

definition enable_result :: "vault_crypto \<Rightarrow> u8 list \<Rightarrow> u8 list \<Rightarrow> vault_env \<Rightarrow> 'a vault_scheme \<Rightarrow> bool \<Rightarrow> 'a vault_scheme \<Rightarrow> bool" where
  "enable_result c pw idn env s ok t \<longleftrightarrow>
     (\<forall>d \<in> set (disks t). fst d LegacyIdentity = Some idn \<and> snd d = eeprom s \<or>
        ok \<and> fst d LegacyIdentity = None \<and> sealed_identity c pw (fst d) = Running idn \<and>
          snd d \<in> {eeprom s, (eeprom s)(ADDR_CONF_VAULT_ENABLED := VAULT_ENABLE_BYTE)}) \<and>
     (files t, eeprom t) \<in> set (disks t) \<and> files t LegacyIdentity = (if ok then None else Some idn) \<and>
     eeprom t = (if ok then (eeprom s)(ADDR_CONF_VAULT_ENABLED := VAULT_ENABLE_BYTE) else eeprom s) \<and>
     (ok \<longrightarrow> (files t, eeprom s) \<in> set (disks t) \<and> sealed_identity c pw (files t) = Running idn) \<and>
     ((\<forall>n bs. fs_stored env n bs = bs) \<longrightarrow> ok)"

lemma vault_enable_result:
  assumes "gcm_law c" "\<not> vault_enabled s" "files s LegacyIdentity = Some idn" "idn \<noteq> []" "\<And>n. fs_ok env n" "has_eeprom b"
    and "disks s = []"
  obtains ok t where "vault_enable env c b pw s = Ret (ok, t)" "enable_result c pw idn env s ok t"
proof -
  obtain blob f vk m where w: "vault_unwrap_blob c blob pw = Inr vk" "blob \<noteq> []" "length vk = 32" "VAULT_NONCE_SIZE < length f"
    "AES_256_GCM_decrypt c (drop VAULT_NONCE_SIZE f) (hkdf_sha256 c vk IDENTITY_CONTEXT) (take VAULT_NONCE_SIZE f) = Inr idn"
    and e: "vault_enable env c b pw s =
       (let s = write_file env (Tmp VaultIdentity) f (write_file env (Tmp VaultVk) blob (s\<lparr>rng_calls := m\<rparr>))
        in if read_file (Tmp VaultVk) s \<noteq> blob \<or> read_file (Tmp VaultIdentity) s \<noteq> f
           then Ret (False, remove_file (Tmp VaultIdentity) (remove_file (Tmp VaultVk) s))
           else Ret (True, (enable_commit env b s)\<lparr>vault_enabled := True, vault_key := vk, vault_unlocked := True\<rparr>))"
    unfolding enable_commit_def by (rule vault_enable_writes [OF assms(1-4), where env = env and b = b and pw = pw])
  define s2 where "s2 = write_file env (Tmp VaultIdentity) f (write_file env (Tmp VaultVk) blob (s\<lparr>rng_calls := m\<rparr>))"
  note e = e [folded s2_def, unfolded Let_def, folded s2_def]
  have s2: "files s2 LegacyIdentity = Some idn" "eeprom s2 = eeprom s" using assms(3) by (simp_all add: s2_def)
  have early: "fst d LegacyIdentity = Some idn \<and> snd d = eeprom s" if "d \<in> set (disks s2)" for d
    using that assms(3,7) by (auto simp: s2_def dest!: disks_writeD)
  show ?thesis
  proof (cases "read_file (Tmp VaultVk) s2 \<noteq> blob \<or> read_file (Tmp VaultIdentity) s2 \<noteq> f")
    case True
    let ?t = "remove_file (Tmp VaultIdentity) (remove_file (Tmp VaultVk) s2)"
    have t: "vault_enable env c b pw s = Ret (False, ?t)" using True e by simp
    have "\<not> (\<forall>n bs. fs_stored env n bs = bs)" using True by (auto simp: s2_def read_file_def)
    then show ?thesis by (intro that [OF t]) (use early s2 in \<open>auto simp: enable_result_def\<close>)
  next
    case False
    then have "files s2 (Tmp VaultVk) = Some blob" "files s2 (Tmp VaultIdentity) = Some f"
      by (simp_all add: s2_def read_file_def)
    note c' = enable_commit [where env = env and b = b, OF this assms(5,6)]
    let ?t = "(enable_commit env b s2)\<lparr>vault_enabled := True, vault_key := vk, vault_unlocked := True\<rparr>"
    have "sealed_identity c pw (files (enable_commit env b s2)) = Running idn"
      by (rule sealed_identityI [OF _ w(1-3) _ w(4,5)]) (simp_all add: c'(2))
    moreover have t: "vault_enable env c b pw s = Ret (True, ?t)" using False e by simp
    ultimately show ?thesis by (intro that [OF t]) (use early s2 in \<open>auto simp: enable_result_def c'\<close>)
  qed
qed

text \<open>Switching the protection off.\<close>

definition disable_commit :: "vault_env \<Rightarrow> board \<Rightarrow> 'a vault_scheme \<Rightarrow> 'a vault_scheme" where
  "disable_commit env b s =
     write_vault_flag b VAULT_DISABLE_BYTE (remove_file VaultVk (remove_file VaultIdentity
       (rename_file env (Tmp LegacyIdentity) LegacyIdentity s)))"

lemma disable_commit:
  assumes "files s (Tmp LegacyIdentity) = Some idn" "\<And>n. fs_ok env n" "has_eeprom b"
  defines "fs2 \<equiv> (files s)(LegacyIdentity := Some idn, Tmp LegacyIdentity := None)"
  defines "fs3 \<equiv> fs2(VaultIdentity := None)"
  defines "fs4 \<equiv> fs3(VaultVk := None)"
  shows "disks (disable_commit env b s) = disks s @ [(fs2, eeprom s), (fs3, eeprom s), (fs4, eeprom s),
      (fs4, (eeprom s)(ADDR_CONF_VAULT_ENABLED := VAULT_DISABLE_BYTE))]"
    and "files (disable_commit env b s) = fs4"
    and "eeprom (disable_commit env b s) = (eeprom s)(ADDR_CONF_VAULT_ENABLED := VAULT_DISABLE_BYTE)"
  by (simp_all add: disable_commit_def write_flag(1,2) [OF assms(3)] write_flag(3) rename_ok [where env = env and s = s, OF assms(2,1)]
      fs2_def fs3_def fs4_def)

lemma vault_disable_writes:
  assumes "sealed_identity c pw (files s) = Running idn"
  shows "vault_disable env c b pw s =
    (let s = write_file env (Tmp LegacyIdentity) idn s
     in if read_file (Tmp LegacyIdentity) s \<noteq> idn then Ret (False, remove_file (Tmp LegacyIdentity) s)
        else Ret (True, vault_lock ((disable_commit env b s)\<lparr>vault_enabled := False\<rparr>)))"
proof -
  obtain blob vk f where v: "files s VaultVk = Some blob" "vault_unwrap_blob c blob pw = Inr vk" "blob \<noteq> []" "length vk = 32"
    "files s VaultIdentity = Some f" "VAULT_NONCE_SIZE < length f"
    "AES_256_GCM_decrypt c (drop VAULT_NONCE_SIZE f) (hkdf_sha256 c vk IDENTITY_CONTEXT) (take VAULT_NONCE_SIZE f) = Inr idn"
    using assms by (auto simp: sealed_identity_def split: option.splits sum.splits if_splits)
  have "open_vk c pw s = Some vk" using v(1-4) by (simp add: open_vk_def read_file_def)
  moreover have "read_file VaultIdentity s = f" using v(5) by (simp add: read_file_def)
  moreover have "hkdf c vk IDENTITY_CONTEXT = Inr (hkdf_sha256 c vk IDENTITY_CONTEXT)" using v(4) by (auto simp: hkdf_def)
  ultimately show ?thesis using v(6,7) by (simp add: vault_disable_def disable_commit_def Let_def)
qed

definition disable_result :: "vault_crypto \<Rightarrow> u8 list \<Rightarrow> u8 list \<Rightarrow> vault_env \<Rightarrow> 'a vault_scheme \<Rightarrow> bool \<Rightarrow> 'a vault_scheme \<Rightarrow> bool" where
  "disable_result c pw idn env s ok t \<longleftrightarrow>
     (\<forall>d \<in> set (disks t). sealed_identity c pw (fst d) = Running idn \<and> snd d = eeprom s \<or>
        ok \<and> fst d LegacyIdentity = Some idn \<and> fst d VaultIdentity = None \<and>
          snd d \<in> {eeprom s, (eeprom s)(ADDR_CONF_VAULT_ENABLED := VAULT_DISABLE_BYTE)}) \<and>
     eeprom t = (if ok then (eeprom s)(ADDR_CONF_VAULT_ENABLED := VAULT_DISABLE_BYTE) else eeprom s) \<and>
     (if ok then files t LegacyIdentity = Some idn \<and> files t VaultVk = None \<and> files t VaultIdentity = None \<and>
        (files t, eeprom s) \<in> set (disks t)
      else sealed_identity c pw (files t) = Running idn) \<and>
     ((\<forall>n bs. fs_stored env n bs = bs) \<longrightarrow> ok)"

lemma vault_disable_result:
  assumes "sealed_identity c pw (files s) = Running idn" "\<And>n. fs_ok env n" "has_eeprom b" "disks s = []"
  obtains ok t where "vault_disable env c b pw s = Ret (ok, t)" "disable_result c pw idn env s ok t"
proof -
  define s1 where "s1 = write_file env (Tmp LegacyIdentity) idn s"
  note e = vault_disable_writes [OF assms(1), of env b, unfolded Let_def, folded s1_def]
  have keep: "sealed_identity c pw ((files s)(Tmp p := x)) = Running idn" for p x
    by (rule trans [OF sealed_identity_cong assms(1)]) simp_all
  have early: "sealed_identity c pw (fst d) = Running idn \<and> snd d = eeprom s" if "d \<in> set (disks s1)" for d
    using that assms(4) keep by (auto simp: s1_def dest!: disks_writeD)
  have ee: "eeprom s1 = eeprom s" by (simp add: s1_def)
  show ?thesis
  proof (cases "read_file (Tmp LegacyIdentity) s1 = idn")
    case True
    then have "files s1 (Tmp LegacyIdentity) = Some idn" by (simp add: s1_def read_file_def)
    note c' = disable_commit [where env = env and b = b, OF this assms(2,3)]
    have "sealed_identity c pw ((files s1)(LegacyIdentity := Some idn, Tmp LegacyIdentity := None)) = Running idn"
      by (rule trans [OF sealed_identity_cong assms(1)]) (simp_all add: s1_def)
    note early = early this
    have t: "vault_disable env c b pw s = Ret (True, vault_lock ((disable_commit env b s1)\<lparr>vault_enabled := False\<rparr>))"
      using True e by simp
    show ?thesis by (intro that [OF t]) (use early ee in \<open>auto simp: disable_result_def vault_lock_def c'\<close>)
  next
    case False
    then have t: "vault_disable env c b pw s = Ret (False, remove_file (Tmp LegacyIdentity) s1)" using e by simp
    have "\<not> (\<forall>n bs. fs_stored env n bs = bs)" using False by (auto simp: s1_def read_file_def)
    moreover have "files (remove_file (Tmp LegacyIdentity) s1) = (files s)(Tmp LegacyIdentity := None)" by (simp add: s1_def)
    ultimately show ?thesis by (intro that [OF t]) (use early ee keep in \<open>auto simp: disable_result_def\<close>)
  qed
qed

section \<open>Properties\<close>

text \<open>
  C11: switching PIN protection on does not lose the identity, as long as renaming a file does not fail (the code does
  not look at the results of the two renames, \<^verbatim>\<open>Vault.h\<close> 323 to 325; \<open>failed_rename_when_enabling\<close> shows
  what happens otherwise). Whatever is read back from the temporary files, and if power is lost at any moment, also in
  the middle of writing a file, the next start with that PIN runs with the identity, with one exception: between
  the removal of the clear identity and the enable byte the node starts as a new one, but the vault is complete and
  opens to the identity as soon as the byte is set. When \<open>vault_enable\<close> returns, the node starts with its
  identity; if it succeeded, under the PIN and with no clear copy left, and if it failed, as before.
\<close>

theorem enabling_pin_keeps_identity:
  assumes "gcm_law c" "\<not> vault_enabled s" "files s LegacyIdentity = Some idn" "idn \<noteq> []" "\<And>n. fs_ok env n" "has_eeprom b"
    and "disks s = []" "eeprom s ADDR_CONF_VAULT_ENABLED \<noteq> VAULT_ENABLE_BYTE"
  shows "\<exists>ok t. vault_enable env c b pw s = Ret (ok, t) \<and>
    (\<forall>d \<in> set (disks t). start_node c pw (power_up d u) = Running idn \<or>
       ok \<and> fst d LegacyIdentity = None \<and> snd d = eeprom s \<and> start_node c pw (power_up d u) = NewIdentity \<and>
       start_node c pw (power_up (fst d, (snd d)(ADDR_CONF_VAULT_ENABLED := VAULT_ENABLE_BYTE)) u) = Running idn) \<and>
    start_node c pw (power_up (files t, eeprom t) u) = Running idn \<and>
    files t LegacyIdentity = (if ok then None else Some idn) \<and>
    eeprom t = (if ok then (eeprom s)(ADDR_CONF_VAULT_ENABLED := VAULT_ENABLE_BYTE) else eeprom s)"
proof -
  obtain ok t where t: "vault_enable env c b pw s = Ret (ok, t)" "enable_result c pw idn env s ok t"
    by (rule vault_enable_result [OF assms(1-7), where pw = pw])
  have "start_node c pw (power_up d u) = Running idn \<or>
      ok \<and> fst d LegacyIdentity = None \<and> snd d = eeprom s \<and> start_node c pw (power_up d u) = NewIdentity \<and>
      start_node c pw (power_up (fst d, (snd d)(ADDR_CONF_VAULT_ENABLED := VAULT_ENABLE_BYTE)) u) = Running idn" if "d \<in> set (disks t)" for d
  proof -
    have "fst d LegacyIdentity = Some idn \<and> snd d = eeprom s \<or>
        ok \<and> fst d LegacyIdentity = None \<and> sealed_identity c pw (fst d) = Running idn \<and>
          (snd d = eeprom s \<or> snd d = (eeprom s)(ADDR_CONF_VAULT_ENABLED := VAULT_ENABLE_BYTE))"
      using t(2) that by (auto simp: enable_result_def)
    then show ?thesis using assms(8) by (cases d) (auto simp: start_power_up)
  qed
  moreover have "start_node c pw (power_up (files t, eeprom t) u) = Running idn"
    using t(2) assms(8) by (auto simp: enable_result_def start_power_up)
  ultimately show ?thesis using t by (auto simp: enable_result_def)
qed

text \<open>A concrete vault for the witnesses: the tag is the key, and the password is the key.\<close>

definition toy_vault_crypto :: vault_crypto where
  "toy_vault_crypto =
     \<lparr>pbkdf2_sha256 = (\<lambda>pw salt it. pw), gcm_seal = (\<lambda>p k n. p @ take 16 (k @ replicate 16 0)),
      gcm_open = (\<lambda>x k n. if drop (length x - 16) x = take 16 (k @ replicate 16 0) then Some (take (length x - 16) x) else None),
      hkdf_sha256 = (\<lambda>k ctx. k)\<rparr>"

definition toy_vault_env :: vault_env where
  "toy_vault_env = \<lparr>esp_random = (\<lambda>n. 0x01020304), arduino_random256 = (\<lambda>n. 0), fs_stored = (\<lambda>n bs. bs), fs_ok = (\<lambda>n. True)\<rparr>"

definition vault_start :: "board \<Rightarrow> (nat \<Rightarrow> u8) \<Rightarrow> u8 list \<Rightarrow> vault" where
  "vault_start b m idn = device.extend (device_start b m)
     \<lparr>files = (\<lambda>p. if p = LegacyIdentity then Some idn else None), vault_enabled = False, vault_unlocked = False, vault_key = [],
      rng_calls = 0, fs_calls = 0, disks = []\<rparr>"

lemma toy_vault_law: "gcm_law toy_vault_crypto"
  by (auto simp: gcm_law_def toy_vault_crypto_def min_def)

lemma vault_start_fields [simp]:
  "files (vault_start b m idn) LegacyIdentity = Some idn" "\<not> vault_enabled (vault_start b m idn)" "disks (vault_start b m idn) = []"
  "eeprom (vault_start b m idn) = m"
  by (simp_all add: vault_start_def device.defs device_start_defs)

theorem enabling_pin_keeps_identity_witness:
  "\<exists>ok t. vault_enable toy_vault_env toy_vault_crypto board_meshpoe_s3 [0x31, 0x32, 0x33, 0x34] (vault_start board_meshpoe_s3 (\<lambda>a. 0xFF) [7, 8]) = Ret (ok, t) \<and>
    start_node toy_vault_crypto [0x31, 0x32, 0x33, 0x34] (power_up (files t, eeprom t) (vault_start board_meshpoe_s3 (\<lambda>a. 0xFF) [])) = Running [7, 8]"
  using enabling_pin_keeps_identity [OF toy_vault_law, of "vault_start board_meshpoe_s3 (\<lambda>a. 0xFF) [7, 8]" "[7, 8]" toy_vault_env
      board_meshpoe_s3 "[0x31, 0x32, 0x33, 0x34]" "vault_start board_meshpoe_s3 (\<lambda>a. 0xFF) []"]
  by (auto simp: toy_vault_env_def board_meshpoe_s3_def board_values)

text \<open>
  C19: PIN protection can be switched off again without losing the identity, as long as renaming a file does not fail
  (\<^verbatim>\<open>Vault.h\<close> 428 to 430 does not look at the result; see \<open>failed_rename_when_disabling\<close>). On a node that
  starts with its identity under the PIN, \<open>vault_disable\<close> with that PIN leaves, when it succeeds, a node that starts
  with its identity whatever is typed, and otherwise one whose protection is still on and works. If power is lost on
  the way, the next start with the PIN runs with the identity as long as the vault's identity file is there;
  between its removal and the enable byte the node stays at the PIN screen or stops, but the identity is there in
  the clear and the node starts with it as soon as the byte is cleared.
\<close>

theorem disabling_pin_keeps_identity:
  assumes "eeprom s ADDR_CONF_VAULT_ENABLED = VAULT_ENABLE_BYTE" "start_node c pw (power_up (files s, eeprom s) u) = Running idn"
    and "\<And>n. fs_ok env n" "has_eeprom b" "disks s = []"
  shows "\<exists>ok t. vault_disable env c b pw s = Ret (ok, t) \<and>
    (\<forall>d \<in> set (disks t). start_node c pw (power_up d u) = Running idn \<or>
       ok \<and> fst d VaultIdentity = None \<and> snd d = eeprom s \<and> start_node c pw (power_up d u) \<in> {Aborted, AtPinScreen} \<and>
       (\<forall>pw'. start_node c pw' (power_up (fst d, (snd d)(ADDR_CONF_VAULT_ENABLED := VAULT_DISABLE_BYTE)) u) = Running idn)) \<and>
    (ok \<longrightarrow> (\<forall>pw'. start_node c pw' (power_up (files t, eeprom t) u) = Running idn) \<and> files t VaultVk = None \<and> files t VaultIdentity = None) \<and>
    (\<not> ok \<longrightarrow> start_node c pw (power_up (files t, eeprom t) u) = Running idn \<and> eeprom t = eeprom s)"
proof -
  have sealed: "sealed_identity c pw (files s) = Running idn" using assms(1,2) by (simp add: start_power_up)
  obtain ok t where t: "vault_disable env c b pw s = Ret (ok, t)" "disable_result c pw idn env s ok t"
    by (rule vault_disable_result [OF sealed assms(3-5)])
  have "start_node c pw (power_up d u) = Running idn \<or>
       ok \<and> fst d VaultIdentity = None \<and> snd d = eeprom s \<and> start_node c pw (power_up d u) \<in> {Aborted, AtPinScreen} \<and>
       (\<forall>pw'. start_node c pw' (power_up (fst d, (snd d)(ADDR_CONF_VAULT_ENABLED := VAULT_DISABLE_BYTE)) u) = Running idn)"
    if "d \<in> set (disks t)" for d
  proof -
    have "sealed_identity c pw (fst d) = Running idn \<and> snd d = eeprom s \<or>
        ok \<and> fst d LegacyIdentity = Some idn \<and> fst d VaultIdentity = None \<and>
          (snd d = eeprom s \<or> snd d = (eeprom s)(ADDR_CONF_VAULT_ENABLED := VAULT_DISABLE_BYTE))"
      using t(2) that by (auto simp: disable_result_def)
    then show ?thesis
      using assms(1) sealed_without_identity [of "fst d" c pw] by (cases d) (auto simp: start_power_up)
  qed
  moreover have "(ok \<longrightarrow> (\<forall>pw'. start_node c pw' (power_up (files t, eeprom t) u) = Running idn) \<and> files t VaultVk = None \<and> files t VaultIdentity = None)"
    "(\<not> ok \<longrightarrow> start_node c pw (power_up (files t, eeprom t) u) = Running idn \<and> eeprom t = eeprom s)"
    using t(2) assms(1) by (auto simp: disable_result_def start_power_up)
  ultimately show ?thesis using t(1) by blast
qed

text \<open>The node of the witnesses after its protection has been switched on.\<close>

abbreviation (input) toy_pin :: "u8 list" where "toy_pin \<equiv> [0x31, 0x32, 0x33, 0x34]"

definition protected_node :: vault where
  "protected_node =
     (snd (state_of (vault_enable toy_vault_env toy_vault_crypto board_meshpoe_s3 toy_pin
        (vault_start board_meshpoe_s3 (\<lambda>a. 0xFF) [7, 8]))))\<lparr>disks := []\<rparr>"

lemma protected_node:
  "eeprom protected_node ADDR_CONF_VAULT_ENABLED = VAULT_ENABLE_BYTE" "disks protected_node = []"
  "start_node toy_vault_crypto toy_pin (power_up (files protected_node, eeprom protected_node) u) = Running [7, 8]"
proof -
  let ?s = "vault_start board_meshpoe_s3 (\<lambda>a. 0xFF) [7, 8]"
  have a: "\<not> vault_enabled ?s" "files ?s LegacyIdentity = Some [7, 8]" "[7, 8] \<noteq> ([] :: u8 list)" "\<And>n. fs_ok toy_vault_env n"
    "has_eeprom board_meshpoe_s3" "disks ?s = []"
    by (simp_all add: toy_vault_env_def board_meshpoe_s3_def board_values)
  obtain ok t where t: "vault_enable toy_vault_env toy_vault_crypto board_meshpoe_s3 toy_pin ?s = Ret (ok, t)"
    "enable_result toy_vault_crypto toy_pin [7, 8] toy_vault_env ?s ok t"
    by (rule vault_enable_result [OF toy_vault_law a, where pw = toy_pin])
  have n: "protected_node = t\<lparr>disks := []\<rparr>" by (simp add: protected_node_def t(1))
  have ok using t(2) by (simp add: enable_result_def toy_vault_env_def)
  then show "eeprom protected_node ADDR_CONF_VAULT_ENABLED = VAULT_ENABLE_BYTE" "disks protected_node = []"
    "start_node toy_vault_crypto toy_pin (power_up (files protected_node, eeprom protected_node) u) = Running [7, 8]"
    using t(2) by (simp_all add: n enable_result_def start_power_up)
qed

theorem disabling_pin_keeps_identity_witness:
  "\<exists>ok t. vault_disable toy_vault_env toy_vault_crypto board_meshpoe_s3 toy_pin protected_node = Ret (ok, t) \<and>
    (ok \<longrightarrow> start_node toy_vault_crypto [] (power_up (files t, eeprom t) protected_node) = Running [7, 8])"
proof -
  have "\<And>n. fs_ok toy_vault_env n" "has_eeprom board_meshpoe_s3"
    by (simp_all add: toy_vault_env_def board_meshpoe_s3_def board_values)
  from disabling_pin_keeps_identity [OF protected_node(1) protected_node(3) [of protected_node] this protected_node(2)] show ?thesis by blast
qed

text \<open>
  Power lost between the files and the enable byte is not handled. \<open>vault_enable\<close> removes the clear identity
  before it sets the byte: in between, a start finds neither and makes a new identity, whatever is typed,
  although the old one is in the vault. \<open>vault_disable\<close> removes the vault before it clears the byte:
  in between, a start waits at the PIN screen for ever, although the identity is there in the clear.
\<close>

theorem power_loss_before_flag_strands_node:
  assumes "gcm_law c" "\<not> vault_enabled s" "files s LegacyIdentity = Some idn" "idn \<noteq> []" "\<And>n. fs_ok env n" "has_eeprom b"
    and "disks s = []" "eeprom s ADDR_CONF_VAULT_ENABLED \<noteq> VAULT_ENABLE_BYTE" "\<And>n bs. fs_stored env n bs = bs"
  shows "\<exists>t t'. vault_enable env c b pw s = Ret (True, t) \<and> vault_disable env c b pw (t\<lparr>disks := []\<rparr>) = Ret (True, t') \<and>
    (\<exists>d \<in> set (disks t). \<forall>pw'. start_node c pw' (power_up d u) = NewIdentity) \<and>
    (\<exists>d \<in> set (disks t'). fst d LegacyIdentity = Some idn \<and> (\<forall>pw'. start_node c pw' (power_up d u) = AtPinScreen))"
proof -
  obtain ok t where t: "vault_enable env c b pw s = Ret (ok, t)" "enable_result c pw idn env s ok t"
    by (rule vault_enable_result [OF assms(1-7), where pw = pw])
  have ok: ok and sealed: "sealed_identity c pw (files (t\<lparr>disks := []\<rparr>)) = Running idn"
    using t(2) assms(9) by (simp_all add: enable_result_def)
  obtain ok' t' where t': "vault_disable env c b pw (t\<lparr>disks := []\<rparr>) = Ret (ok', t')"
    "disable_result c pw idn env (t\<lparr>disks := []\<rparr>) ok' t'"
    by (rule vault_disable_result [where env = env, OF sealed assms(5,6)]) simp
  have ok': ok' using t'(2) assms(9) by (simp add: disable_result_def)
  have m: "(files t, eeprom s) \<in> set (disks t)" "(files t', eeprom t) \<in> set (disks t')" "files t' LegacyIdentity = Some idn"
    using t(2) t'(2) ok ok' by (simp_all add: enable_result_def disable_result_def)
  have "start_node c pw' (power_up (files t, eeprom s) u) = NewIdentity" for pw'
    using t(2) ok assms(8) by (simp add: enable_result_def start_power_up)
  then have lost: "\<exists>d \<in> set (disks t). \<forall>pw'. start_node c pw' (power_up d u) = NewIdentity" using m(1) by blast
  have "start_node c pw' (power_up (files t', eeprom t) u) = AtPinScreen" for pw'
    using t(2) t'(2) ok ok' by (simp add: enable_result_def disable_result_def start_power_up sealed_identity_def)
  then have "\<exists>d \<in> set (disks t'). fst d LegacyIdentity = Some idn \<and> (\<forall>pw'. start_node c pw' (power_up d u) = AtPinScreen)"
    using m(2,3) by (intro bexI [OF _ m(2)]) simp
  moreover have "vault_enable env c b pw s = Ret (True, t)" "vault_disable env c b pw (t\<lparr>disks := []\<rparr>) = Ret (True, t')"
    using t(1) t'(1) ok ok' by simp_all
  ultimately show ?thesis using lost by blast
qed

theorem power_loss_before_flag_strands_node_witness:
  "\<exists>t t'. vault_enable toy_vault_env toy_vault_crypto board_meshpoe_s3 toy_pin (vault_start board_meshpoe_s3 (\<lambda>a. 0xFF) [7, 8]) = Ret (True, t) \<and>
    vault_disable toy_vault_env toy_vault_crypto board_meshpoe_s3 toy_pin (t\<lparr>disks := []\<rparr>) = Ret (True, t') \<and>
    (\<exists>d \<in> set (disks t). \<forall>pw'. start_node toy_vault_crypto pw' (power_up d protected_node) = NewIdentity)"
proof -
  let ?s = "vault_start board_meshpoe_s3 (\<lambda>a. 0xFF) [7, 8]"
  have "\<not> vault_enabled ?s" "files ?s LegacyIdentity = Some [7, 8]" "[7, 8] \<noteq> ([] :: u8 list)" "\<And>n. fs_ok toy_vault_env n"
    "has_eeprom board_meshpoe_s3" "disks ?s = []" "eeprom ?s ADDR_CONF_VAULT_ENABLED \<noteq> VAULT_ENABLE_BYTE"
    "\<And>n bs. fs_stored toy_vault_env n bs = bs"
    by (simp_all add: toy_vault_env_def board_meshpoe_s3_def board_values)
  from power_loss_before_flag_strands_node [OF toy_vault_law this, where u = protected_node and pw = toy_pin] show ?thesis by blast
qed

text \<open>
  The results of the renames are not looked at. If renaming the new vault key fails, \<open>vault_enable\<close> still
  removes the clear identity, sets the enable byte and reports success: no PIN starts the node any more. If
  renaming the decrypted identity fails, \<open>vault_disable\<close> still removes the vault and reports success: the node
  starts as a new one. In both cases the identity is left only in a temporary file that nothing reads.
\<close>

lemma rename_failed:
  "\<not> fs_ok env (fs_calls s) \<Longrightarrow> files (rename_file env p q s) = files s"
  by (simp add: rename_file_def)

theorem failed_rename_when_enabling:
  assumes "gcm_law c" "\<not> vault_enabled s" "files s LegacyIdentity = Some idn" "idn \<noteq> []" "has_eeprom b"
    and "files s VaultVk = None" "\<And>n bs. fs_stored env n bs = bs" "\<not> fs_ok env (fs_calls s + 2)"
  shows "\<exists>t. vault_enable env c b pw s = Ret (True, t) \<and> files t LegacyIdentity = None \<and>
    (\<forall>pw'. start_node c pw' (power_up (files t, eeprom t) u) = AtPinScreen)"
proof -
  obtain blob f vk m where e: "vault_enable env c b pw s =
       (let s = write_file env (Tmp VaultIdentity) f (write_file env (Tmp VaultVk) blob (s\<lparr>rng_calls := m\<rparr>))
        in if read_file (Tmp VaultVk) s \<noteq> blob \<or> read_file (Tmp VaultIdentity) s \<noteq> f
           then Ret (False, remove_file (Tmp VaultIdentity) (remove_file (Tmp VaultVk) s))
           else Ret (True, (enable_commit env b s)\<lparr>vault_enabled := True, vault_key := vk, vault_unlocked := True\<rparr>))"
    unfolding enable_commit_def by (rule vault_enable_writes [OF assms(1-4), where env = env and b = b and pw = pw])
  define s2 where "s2 = write_file env (Tmp VaultIdentity) f (write_file env (Tmp VaultVk) blob (s\<lparr>rng_calls := m\<rparr>))"
  have s2: "read_file (Tmp VaultVk) s2 = blob" "read_file (Tmp VaultIdentity) s2 = f" "fs_calls s2 = fs_calls s + 2" "files s2 VaultVk = None"
    using assms(6,7) by (simp_all add: s2_def read_file_def write_file_def Let_def)
  then have "files (rename_file env (Tmp VaultVk) VaultVk s2) VaultVk = None" using assms(8) by (simp add: rename_failed)
  then have "files (enable_commit env b s2) VaultVk = None" "files (enable_commit env b s2) LegacyIdentity = None"
    by (simp_all add: enable_commit_def write_flag(3) rename_file_def Let_def)
  moreover have "eeprom (enable_commit env b s2) ADDR_CONF_VAULT_ENABLED = VAULT_ENABLE_BYTE"
    by (simp add: enable_commit_def write_flag(2) [OF assms(5)])
  moreover have "vault_enable env c b pw s = Ret (True, (enable_commit env b s2)\<lparr>vault_enabled := True, vault_key := vk, vault_unlocked := True\<rparr>)"
    using e s2 by (simp add: Let_def s2_def [symmetric])
  ultimately show ?thesis by (simp add: start_power_up sealed_identity_def)
qed

theorem failed_rename_when_disabling:
  assumes "sealed_identity c pw (files s) = Running idn" "has_eeprom b"
    and "files s LegacyIdentity = None" "\<And>n bs. fs_stored env n bs = bs" "\<not> fs_ok env (fs_calls s + 1)"
  shows "\<exists>t. vault_disable env c b pw s = Ret (True, t) \<and> files t VaultIdentity = None \<and> files t VaultVk = None \<and>
    (\<forall>pw'. start_node c pw' (power_up (files t, eeprom t) u) = NewIdentity)"
proof -
  define s1 where "s1 = write_file env (Tmp LegacyIdentity) idn s"
  have s1: "read_file (Tmp LegacyIdentity) s1 = idn" "files s1 LegacyIdentity = None" "fs_calls s1 = fs_calls s + 1"
    using assms(3,4) by (simp_all add: s1_def read_file_def write_file_def Let_def)
  then have "files (rename_file env (Tmp LegacyIdentity) LegacyIdentity s1) LegacyIdentity = None"
    using assms(5) by (simp add: rename_failed)
  then have "files (disable_commit env b s1) LegacyIdentity = None" "files (disable_commit env b s1) VaultIdentity = None"
    "files (disable_commit env b s1) VaultVk = None"
    by (simp_all add: disable_commit_def write_flag(3))
  moreover have "eeprom (disable_commit env b s1) ADDR_CONF_VAULT_ENABLED = VAULT_DISABLE_BYTE"
    by (simp add: disable_commit_def write_flag(2) [OF assms(2)])
  moreover have "vault_disable env c b pw s = Ret (True, vault_lock ((disable_commit env b s1)\<lparr>vault_enabled := False\<rparr>))"
    using vault_disable_writes [OF assms(1), of env b] s1 by (simp add: Let_def s1_def [symmetric])
  ultimately show ?thesis by (simp add: vault_lock_def start_power_up)
qed

section \<open>Wrong passwords\<close>

text \<open>A password that does not open the key changes nothing, at the PIN screen or in the menu.\<close>

lemma wrong_password_changes_nothing:
  assumes "open_vk c pw s = None"
  shows "vault_try_unlock c pw s = (False, s)" "vault_disable env c b pw s = Ret (False, s)" "\<not> vault_verify_password c pw s"
  using assms by (simp_all add: vault_try_unlock_def vault_disable_def vault_verify_password_def)

text \<open>
  The delays of the PIN screen: two seconds after the fourth wrong PIN, doubled each time up to a minute. The
  counter is a byte, so that after 255 wrong PINs the delays start again at 0.8 seconds.
\<close>

lemma boot_screen_delays:
  "list_all (\<lambda>pw. open_vk c pw s = None) pws \<Longrightarrow>
    vault_unlock_boot_screen c pws n s = (map (\<lambda>i. throttle_ms (n + of_nat i + 1)) [0..<length pws], None)"
proof (induction pws arbitrary: n)
  case (Cons pw pws)
  then show ?case
    by (simp add: wrong_password_changes_nothing upt_Suc_map ac_simps del: upt_Suc)
qed simp

theorem pin_delays_start_again:
  assumes "list_all (\<lambda>pw. open_vk c pw s = None) pws" "length pws = 256"
  shows "\<exists>ds. vault_unlock_boot_screen c pws 0 s = (ds, None) \<and> take 10 ds = [800, 800, 800, 2000, 4000, 8000, 16000, 32000, 60000, 60000] \<and>
    ds ! 254 = 60000 \<and> ds ! 255 = 800"
  using boot_screen_delays [OF assms(1), of 0] assms(2)
  by (simp add: throttle_ms_def take_map upt_conv_Cons word_le_nat_alt)

section \<open>Keys for messages\<close>

lemma nibbles: "drop_bit 4 (x AND 0xF0) = take_bit 4 (drop_bit 4 x)" "x AND 0x0F = take_bit 4 x" for x :: u8
proof -
  have "(0x0F :: u8) = mask 4" by (simp add: mask_eq_exp_minus_1)
  moreover have "drop_bit 4 (0xF0 :: u8) = mask 4" by (simp add: mask_eq_exp_minus_1)
  ultimately show "drop_bit 4 (x AND 0xF0) = take_bit 4 (drop_bit 4 x)" "x AND 0x0F = take_bit 4 x"
    by (simp_all only: drop_bit_and take_bit_eq_mask)
qed

lemma hex_digit_inj: "x < 16 \<Longrightarrow> y < 16 \<Longrightarrow> hex_digit x = hex_digit y \<Longrightarrow> x = y" for x y :: u8
  by (simp add: hex_digit_def unat_arith_simps split: if_splits)

lemma hex_pair_inj:
  "take_bit 4 x = take_bit 4 y \<Longrightarrow> take_bit 4 (drop_bit 4 x) = take_bit 4 (drop_bit 4 y) \<Longrightarrow> x = y" for x y :: u8
proof (rule bit_word_eqI)
  fix n assume l: "take_bit 4 x = take_bit 4 y" and h: "take_bit 4 (drop_bit 4 x) = take_bit 4 (drop_bit 4 y)" and n: "n < LENGTH(8)"
  from arg_cong [OF l, of "\<lambda>w. bit w n"] arg_cong [OF h, of "\<lambda>w. bit w (n - 4)"] n
  show "bit x n = bit y n" by (cases "n < 4") (auto simp: bit_take_bit_iff bit_drop_bit_eq)
qed

lemma toHex_Cons: "toHex (x # xs) = [hex_digit (take_bit 4 (drop_bit 4 x)), hex_digit (take_bit 4 x)] @ toHex xs"
  by (simp add: toHex_def nibbles)

lemma toHex_inj: "toHex xs = toHex ys \<Longrightarrow> xs = ys"
proof (induction xs arbitrary: ys)
  case Nil
  then show ?case by (cases ys) (simp_all add: toHex_Cons, simp add: toHex_def)
next
  case (Cons x xs)
  have lt: "take_bit 4 w < (16 :: u8)" for w by (simp add: take_bit_eq_mod word_mod_less_divisor)
  show ?case
  proof (cases ys)
    case Nil
    then show ?thesis using Cons.prems by (simp add: toHex_Cons) (simp add: toHex_def)
  next
    case (Cons y zs)
    then have e: "hex_digit (take_bit 4 (drop_bit 4 x)) = hex_digit (take_bit 4 (drop_bit 4 y))"
      "hex_digit (take_bit 4 x) = hex_digit (take_bit 4 y)" "toHex xs = toHex zs"
      using \<open>toHex (x # xs) = toHex ys\<close> by (simp_all add: toHex_Cons)
    have "x = y" by (rule hex_pair_inj) (use hex_digit_inj [OF lt lt] e(1,2) in blast)+
    then show ?thesis using Cons.IH [OF e(3)] Cons by simp
  qed
qed

text \<open>
  Every conversation has a key of its own, which is not that of the identity: the derivation contexts of two
  peers differ, and what was encrypted for a peer is read back.
\<close>

theorem message_keys_separate:
  assumes "gcm_law c" "vault_unlocked s" "vault_key s \<noteq> []"
  shows "(message_context h = message_context h' \<longleftrightarrow> h = h') \<and> message_context h \<noteq> IDENTITY_CONTEXT \<and>
    (\<exists>e n. vault_encrypt_message_field env c b h p s = (Inr e, s\<lparr>rng_calls := n\<rparr>) \<and> vault_decrypt_message_field c h e s = Inr p)"
proof -
  obtain nonce n where nonce: "vault_random_bytes env b VAULT_NONCE_SIZE s = (nonce, s\<lparr>rng_calls := n\<rparr>)" "length nonce = VAULT_NONCE_SIZE"
    by (rule random_bytes)
  have k: "vault_derive_subkey c (message_context h) s = Inr (hkdf_sha256 c (vault_key s) (message_context h))"
    using assms(2,3) by (simp add: vault_derive_subkey_def hkdf_def)
  have "\<exists>e n. vault_encrypt_message_field env c b h p s = (Inr e, s\<lparr>rng_calls := n\<rparr>) \<and> vault_decrypt_message_field c h e s = Inr p"
    using nonce gcm_lawD [OF assms(1)] by (auto simp: vault_encrypt_message_field_def k vault_decrypt_message_field_def)
  then show ?thesis using toHex_inj by (auto simp: message_context_def chars_def)
qed

end
