(* ===== verification/Pin_Entry.thy ===== *)
theory Pin_Entry
  imports Machines
begin

text \<open>
  Entering a PIN: the push button (\<^verbatim>\<open>Input.h\<close>), the rotary encoder (\<^verbatim>\<open>Encoder.h\<close>) while the PIN screen owns
  it, and the screen itself (\<^verbatim>\<open>VaultUnlock.h\<close>). A pass of the screen's loop reads both controls; what they
  read, the time and the encoder's edges since the last pass are its input; the several reads of \<open>millis\<close>
  within one pass are taken to give the same value. Drawing and sounds are left out.
\<close>

section \<open>The controls\<close>

text \<open>\<open>True\<close> is a pressed button (the pin reads low).\<close>

record controls =
  encoder_prev_ab :: nat
  encoder_quarter :: int
  encoder_delta :: int
  enc_btn_state :: bool
  enc_btn_debounce_state :: bool
  enc_btn_debounce_last :: u32
  enc_btn_down_last :: u32
  button_state :: bool
  debounce_state :: bool
  button_debounce_last :: u32
  button_down_last :: u32
  button_up_last :: u32

record pin_pad = controls +
  vault_unlock_active :: bool
  vault_suppress_next_release :: bool
  vault_pin_buf :: "u8 list"
  vault_pin_len :: nat
  vault_pin_current_digit :: u8
  vault_pin_submitted :: bool
  vault_pin_submit_fired :: bool
  vault_confirm_mode :: bool
  vault_confirm_cancelled :: bool
  vault_hold_anchor_ms :: u32
  vault_hold_active :: bool
  vault_last_seen_pressed_ms :: u32

record pad_pass =
  pp_ms :: u32
  pp_edges :: "nat list"
  pp_encoder :: bool
  pp_button :: bool

abbreviation (input) ENCODER_STEPS_PER_DETENT :: int where "ENCODER_STEPS_PER_DETENT \<equiv> 4"
abbreviation (input) ENC_BTN_DEBOUNCE_DELAY :: u32 where "ENC_BTN_DEBOUNCE_DELAY \<equiv> 25"
abbreviation (input) button_debounce_delay :: u32 where "button_debounce_delay \<equiv> 25"
abbreviation (input) VAULT_PIN_MAX_LEN :: nat where "VAULT_PIN_MAX_LEN \<equiv> 8"
abbreviation (input) VAULT_PIN_MIN_LEN :: nat where "VAULT_PIN_MIN_LEN \<equiv> 4"
abbreviation (input) VAULT_SUBMIT_HOLD_MS :: u32 where "VAULT_SUBMIT_HOLD_MS \<equiv> 3000"
abbreviation (input) VAULT_HOLD_GRACE_MS :: u32 where "VAULT_HOLD_GRACE_MS \<equiv> 150"

definition ENCODER_TABLE :: "int list" where
  "ENCODER_TABLE = [0, -1, 1, 0,  1, 0, 0, -1,  -1, 0, 0, 1,  0, 1, -1, 0]"

definition encoder_isr :: "nat \<Rightarrow> 'a controls_scheme \<Rightarrow> 'a controls_scheme" where
  "encoder_isr ab s =
     (let step = ENCODER_TABLE ! (4 * encoder_prev_ab s + ab);
          s = s\<lparr>encoder_prev_ab := ab\<rparr>
      in if step \<noteq> 0 then
           (let s = s\<lparr>encoder_quarter := encoder_quarter s + step\<rparr>;
                s = (if encoder_quarter s \<ge> ENCODER_STEPS_PER_DETENT then s\<lparr>encoder_delta := 1, encoder_quarter := 0\<rparr> else s)
            in if encoder_quarter s \<le> - ENCODER_STEPS_PER_DETENT then s\<lparr>encoder_delta := - 1, encoder_quarter := 0\<rparr> else s)
         else s)"

text \<open>
  Both buttons are debounced the same way. A sample gives the new state, the reading last seen and the time
  it was first seen.
\<close>

definition debounce :: "u32 \<Rightarrow> u32 \<Rightarrow> bool \<Rightarrow> bool \<times> bool \<times> u32 \<Rightarrow> bool \<times> bool \<times> u32" where
  "debounce delay ms reading d =
     (let (state, seen, last) = d;
          (seen, last) = (if reading \<noteq> seen then (reading, ms) else (seen, last))
      in (if ms - last > delay then reading else state, seen, last))"

section \<open>The PIN screen\<close>

definition vault_pin_reset :: "'a pin_pad_scheme \<Rightarrow> 'a pin_pad_scheme" where
  "vault_pin_reset s =
     s\<lparr>vault_pin_len := 0, vault_pin_buf := copy_at 0 [0] (vault_pin_buf s), vault_pin_current_digit := 0,
       vault_pin_submitted := False, vault_pin_submit_fired := False\<rparr>"

definition vault_unlock_confirm_digit :: "'a pin_pad_scheme \<Rightarrow> 'a pin_pad_scheme" where
  "vault_unlock_confirm_digit s =
     (let n = vault_pin_len s
      in if n < VAULT_PIN_MAX_LEN then
           (let s = s\<lparr>vault_pin_buf := copy_at (n + 1) [0] (copy_at n [0x30 + vault_pin_current_digit s] (vault_pin_buf s)),
                      vault_pin_len := n + 1, vault_pin_current_digit := 0\<rparr>
            in if vault_pin_len s = VAULT_PIN_MAX_LEN then s\<lparr>vault_pin_submitted := True\<rparr> else s)
         else s)"

definition vault_unlock_backspace :: "'a pin_pad_scheme \<Rightarrow> 'a pin_pad_scheme" where
  "vault_unlock_backspace s =
     (let n = vault_pin_len s
      in if n > 0 then s\<lparr>vault_pin_len := n - 1, vault_pin_buf := copy_at (n - 1) [0] (vault_pin_buf s)\<rparr> else s)"

definition vault_unlock_try_submit :: "'a pin_pad_scheme \<Rightarrow> 'a pin_pad_scheme" where
  "vault_unlock_try_submit s = (if vault_pin_len s \<ge> VAULT_PIN_MIN_LEN then s\<lparr>vault_pin_submitted := True\<rparr> else s)"

definition vault_unlock_encoder_rotate :: "int \<Rightarrow> 'a pin_pad_scheme \<Rightarrow> 'a pin_pad_scheme" where
  "vault_unlock_encoder_rotate dir s =
     (if vault_confirm_mode s then s
      else (let v = uint (vault_pin_current_digit s) + dir + 10
            in s\<lparr>vault_pin_current_digit := word_of_int (v - 10 * c_div v 10)\<rparr>))"

definition vault_unlock_encoder_button :: "u32 \<Rightarrow> 'a pin_pad_scheme \<Rightarrow> 'a pin_pad_scheme" where
  "vault_unlock_encoder_button duration s =
     (if vault_confirm_mode s then s\<lparr>vault_confirm_cancelled := True\<rparr>
      else if duration < 400 then vault_unlock_confirm_digit s
      else if duration < 3000 then vault_unlock_backspace s
      else vault_unlock_try_submit s)"

definition vault_unlock_button_press :: "u32 \<Rightarrow> 'a pin_pad_scheme \<Rightarrow> 'a pin_pad_scheme" where
  "vault_unlock_button_press duration s =
     (if vault_confirm_mode s then s\<lparr>vault_confirm_cancelled := True\<rparr>
      else if duration < 400 then vault_unlock_encoder_rotate 1 s
      else if duration < 1200 then vault_unlock_confirm_digit s
      else if duration < 3000 then vault_unlock_backspace s
      else vault_unlock_try_submit s)"

section \<open>Reading the controls\<close>

text \<open>While the screen is up, \<open>button_event\<close> and \<open>encoder_process\<close> pass everything to it.\<close>

definition input_read :: "u32 \<Rightarrow> bool \<Rightarrow> 'a pin_pad_scheme \<Rightarrow> 'a pin_pad_scheme" where
  "input_read ms reading s =
     (let previous = button_state s;
          (state, seen, last) = debounce button_debounce_delay ms reading (previous, debounce_state s, button_debounce_last s);
          s = s\<lparr>button_state := state, debounce_state := seen, button_debounce_last := last\<rparr>
      in if previous \<and> \<not> state then
           vault_unlock_button_press (ms - button_down_last s) (s\<lparr>button_up_last := ms\<rparr>)
         else if \<not> previous \<and> state then s\<lparr>button_down_last := ms\<rparr>
         else s)"

definition encoder_process :: "u32 \<Rightarrow> bool \<Rightarrow> 'a pin_pad_scheme \<Rightarrow> 'a pin_pad_scheme" where
  "encoder_process ms reading s =
     (let d = encoder_delta s;
          s = s\<lparr>encoder_delta := 0\<rparr>;
          s = (if d \<noteq> 0 then vault_unlock_encoder_rotate d s else s);
          previous = enc_btn_state s;
          (state, seen, last) = debounce ENC_BTN_DEBOUNCE_DELAY ms reading (previous, enc_btn_debounce_state s, enc_btn_debounce_last s);
          s = s\<lparr>enc_btn_state := state, enc_btn_debounce_state := seen, enc_btn_debounce_last := last\<rparr>
      in if previous \<and> \<not> state then vault_unlock_encoder_button (ms - enc_btn_down_last s) s
         else if \<not> previous \<and> state then s\<lparr>enc_btn_down_last := ms\<rparr>
         else s)"

definition vault_track_hold :: "u32 \<Rightarrow> bool \<Rightarrow> 'a pin_pad_scheme \<Rightarrow> u32 \<times> 'a pin_pad_scheme" where
  "vault_track_hold ms pressed s =
     (let s = (if pressed then
                 (let s = s\<lparr>vault_last_seen_pressed_ms := ms\<rparr>
                  in if \<not> vault_hold_active s then s\<lparr>vault_hold_active := True, vault_hold_anchor_ms := ms\<rparr> else s)
               else if vault_hold_active s \<and> ms - vault_last_seen_pressed_ms s > VAULT_HOLD_GRACE_MS
               then s\<lparr>vault_hold_active := False\<rparr> else s)
      in (if vault_hold_active s then ms - vault_hold_anchor_ms s else 0, s))"

definition vault_hold_reset :: "'a pin_pad_scheme \<Rightarrow> 'a pin_pad_scheme" where
  "vault_hold_reset s = s\<lparr>vault_hold_active := False, vault_last_seen_pressed_ms := 0, vault_hold_anchor_ms := 0\<rparr>"

text \<open>The controls of one pass, on a board with or without an encoder.\<close>

definition read_controls :: "bool \<Rightarrow> pad_pass \<Rightarrow> 'a pin_pad_scheme \<Rightarrow> bool \<times> 'a pin_pad_scheme" where
  "read_controls has_encoder i s =
     (let s = (if has_encoder then encoder_process (pp_ms i) (pp_encoder i) (fold encoder_isr (pp_edges i) s) else s);
          s = input_read (pp_ms i) (pp_button i) s
      in (has_encoder \<and> enc_btn_state s \<or> button_state s, s))"

definition prompt_pass :: "bool \<Rightarrow> pad_pass \<Rightarrow> 'a pin_pad_scheme \<Rightarrow> 'a pin_pad_scheme" where
  "prompt_pass has_encoder i s =
     (let (pressed, s) = read_controls has_encoder i s;
          (held, s) = vault_track_hold (pp_ms i) pressed s
      in if \<not> vault_pin_submit_fired s \<and> held \<ge> VAULT_SUBMIT_HOLD_MS
         then (vault_unlock_try_submit s)\<lparr>vault_pin_submit_fired := True\<rparr> else s)"

text \<open>The loops end when a PIN is submitted or a decision is made; \<open>None\<close> while they still wait.\<close>

fun prompt_loop :: "bool \<Rightarrow> pad_pass list \<Rightarrow> 'a pin_pad_scheme \<Rightarrow> 'a pin_pad_scheme option" where
  "prompt_loop has_encoder [] s = (if vault_pin_submitted s then Some s else None)"
| "prompt_loop has_encoder (i # is) s =
     (if vault_pin_submitted s then Some s else prompt_loop has_encoder is (prompt_pass has_encoder i s))"

definition vault_unlock_prompt :: "bool \<Rightarrow> pad_pass list \<Rightarrow> 'a pin_pad_scheme \<Rightarrow> (u8 list \<times> 'a pin_pad_scheme) option" where
  "vault_unlock_prompt has_encoder is s =
     (case prompt_loop has_encoder is (vault_hold_reset (vault_pin_reset (s\<lparr>vault_unlock_active := True\<rparr>))) of
        None \<Rightarrow> None
      | Some s \<Rightarrow>
          Some (take (vault_pin_len s) (vault_pin_buf s),
                s\<lparr>vault_pin_buf := replicate (VAULT_PIN_MAX_LEN + 1) 0, vault_pin_len := 0, vault_unlock_active := False,
                  vault_suppress_next_release := True\<rparr>))"

fun confirm_loop :: "bool \<Rightarrow> pad_pass list \<Rightarrow> 'a pin_pad_scheme \<Rightarrow> (bool \<times> 'a pin_pad_scheme) option" where
  "confirm_loop has_encoder [] s = None"
| "confirm_loop has_encoder (i # is) s =
     (let (pressed, s) = read_controls has_encoder i s;
          (held, s) = vault_track_hold (pp_ms i) pressed s
      in if held \<ge> VAULT_SUBMIT_HOLD_MS then Some (True, s)
         else if vault_confirm_cancelled s then Some (False, s)
         else confirm_loop has_encoder is s)"

definition vault_identity_confirm :: "bool \<Rightarrow> pad_pass list \<Rightarrow> 'a pin_pad_scheme \<Rightarrow> (bool \<times> 'a pin_pad_scheme) option" where
  "vault_identity_confirm has_encoder is s =
     (case confirm_loop has_encoder is
             (vault_hold_reset (s\<lparr>vault_unlock_active := True, vault_confirm_mode := True, vault_confirm_cancelled := False\<rparr>)) of
        None \<Rightarrow> None
      | Some (confirmed, s) \<Rightarrow>
          (let s = s\<lparr>vault_unlock_active := False, vault_confirm_mode := False\<rparr>;
               s = (if confirmed then s\<lparr>vault_suppress_next_release := True\<rparr> else s)
           in Some (confirmed, vault_hold_reset s)))"

section \<open>Debouncing\<close>

definition samples :: "u32 \<Rightarrow> (nat \<times> bool) list \<Rightarrow> bool \<times> bool \<times> u32 \<Rightarrow> bool \<times> bool \<times> u32" where
  "samples delay xs d = fold (\<lambda>(t, r). debounce delay (of_nat t) r) xs d"

text \<open>Since the remembered time every reading was the remembered one.\<close>

lemma samples_seen:
  assumes "sorted (t0 # map fst xs)" "samples delay xs (st, seen0, of_nat t0) = (st', seen, since)"
  obtains k where "since = of_nat k" "k \<le> (if xs = [] then t0 else fst (last xs))"
    "\<And>t r. (t, r) \<in> set xs \<Longrightarrow> k < t \<Longrightarrow> r = seen"
  using assms
proof (induction xs arbitrary: st' seen since thesis rule: rev_induct)
  case Nil
  then show ?case by (auto simp: samples_def)
next
  case (snoc x xs)
  obtain t r where x: "x = (t, r)" by fastforce
  obtain st1 seen1 since1 where d: "samples delay xs (st, seen0, of_nat t0) = (st1, seen1, since1)" by (cases "samples delay xs (st, seen0, of_nat t0)") auto
  have so: "sorted (t0 # map fst xs)" and le: "\<And>t' r'. (t', r') \<in> set xs \<Longrightarrow> t' \<le> t" "t0 \<le> t"
    using snoc.prems(2) by (auto simp: x sorted_append)
  from snoc.IH [OF _ so d] obtain k where k: "since1 = of_nat k" "k \<le> (if xs = [] then t0 else fst (last xs))"
    "\<And>t r. (t, r) \<in> set xs \<Longrightarrow> k < t \<Longrightarrow> r = seen1" by blast
  have kt: "k \<le> t"
    using k(2) le(2) le(1) [of "fst (last xs)" "snd (last xs)"] last_in_set [of xs] by (auto split: if_splits)
  have e: "(st', seen, since) = debounce delay (of_nat t) r (st1, seen1, since1)" using snoc.prems(3) d by (simp add: samples_def x)
  show ?case
  proof (cases "r = seen1")
    case True
    then have "seen = seen1" "since = since1" using e by (auto simp: debounce_def)
    then show ?thesis using k kt True snoc.prems(1) [of k] by (auto simp: x)
  next
    case False
    then have "seen = r" "since = of_nat t" using e by (auto simp: debounce_def)
    then show ?thesis using le(1) snoc.prems(1) [of t] by (fastforce simp: x)
  qed
qed

text \<open>
  A button is only taken as pressed or released after it has read so for more than 25 milliseconds. When a
  sample changes the debounced state, every sample of the 25 milliseconds before it had the same
  reading, however long the clock has been running; and a reading that stays for longer than that (and less
  than the 49 days the clock takes to wrap) is taken over.
\<close>

theorem button_is_debounced:
  assumes "sorted (t0 # map fst xs @ [t])" "samples delay xs (st, seen0, of_nat t0) = (st', seen, since)"
  shows "(fst (debounce delay (of_nat t) r (st', seen, since)) \<noteq> st' \<longrightarrow>
      (\<forall>(t', r') \<in> set xs. t - t' \<le> unat delay \<longrightarrow> r' = r)) \<and>
    (since = of_nat k \<and> k < t \<and> seen = r \<and> unat delay < t - k \<and> t - k < 2 ^ 32 \<longrightarrow>
      fst (debounce delay (of_nat t) r (st', seen, since)) = r)"
proof -
  have so: "sorted (t0 # map fst xs)" using assms(1) by (auto simp: sorted_append)
  obtain j where j: "since = of_nat j" "j \<le> (if xs = [] then t0 else fst (last xs))"
    "\<And>t r. (t, r) \<in> set xs \<Longrightarrow> j < t \<Longrightarrow> r = seen"
    using samples_seen [OF so assms(2)] by blast
  have "j \<le> t" using j(2) assms(1) by (cases xs rule: rev_cases) (auto simp: sorted_append)
  then have diff: "(of_nat t :: u32) - of_nat j = of_nat (t - j)" by (simp add: of_nat_diff)
  have "(\<forall>(t', r') \<in> set xs. t - t' \<le> unat delay \<longrightarrow> r' = r)" if "fst (debounce delay (of_nat t) r (st', seen, since)) \<noteq> st'"
  proof -
    have s: "seen = r" and "delay < of_nat (t - j)"
      using that diff by (auto simp: debounce_def j(1) Let_def split: if_splits)
    then have "unat delay < (t - j) mod 2 ^ 32" by (simp add: word_less_nat_alt unat_of_nat)
    then have "unat delay < t - j" using mod_less_eq_dividend [of "t - j" "2 ^ 32"] by linarith
    then show ?thesis using j(3) s by fastforce
  qed
  moreover have "fst (debounce delay (of_nat t) r (st', seen, since)) = r"
    if "since = of_nat k" "k < t" "seen = r" "unat delay < t - k" "t - k < 2 ^ 32"
  proof -
    have "(of_nat t :: u32) - of_nat k = of_nat (t - k)" using that(2) by (simp add: of_nat_diff)
    moreover have "delay < of_nat (t - k)" using that(4,5) by (simp add: word_less_nat_alt unat_of_nat del: of_nat_diff)
    ultimately show ?thesis using that(1,3) by (simp add: debounce_def)
  qed
  ultimately show ?thesis by blast
qed

theorem button_is_debounced_witness:
  "fst (debounce 25 (of_nat 126) True (samples 25 [(0, False), (100, True), (110, True)] (False, False, of_nat 0))) = True"
proof -
  have d: "samples 25 [(0, False), (100, True), (110, True)] (False, False, of_nat 0) = (False, True, of_nat 100)"
    by (simp add: samples_def debounce_def)
  then show ?thesis
    using button_is_debounced [of 0 "[(0, False), (100, True), (110, True)]" 126 25 False False, OF _ d, of True 100] by simp
qed

section \<open>The rotary encoder\<close>

text \<open>The readings of the two channels along a turn, in the direction counted as positive.\<close>

definition gray :: "int \<Rightarrow> nat" where
  "gray p = [0, 2, 3, 1] ! nat (p mod 4)"

lemma gray_step:
  "ENCODER_TABLE ! (4 * gray p + gray (p + 1)) = 1" "ENCODER_TABLE ! (4 * gray p + gray (p - 1)) = - 1"
  "ENCODER_TABLE ! (5 * gray p) = 0"
proof -
  have "p mod 4 = 0 \<or> p mod 4 = 1 \<or> p mod 4 = 2 \<or> p mod 4 = 3" using pos_mod_bound [of 4 p] pos_mod_sign [of 4 p] by linarith
  moreover have "(p + 1) mod 4 = (p mod 4 + 1) mod 4" "(p - 1) mod 4 = (p mod 4 + 3) mod 4" by presburger+
  ultimately show "ENCODER_TABLE ! (4 * gray p + gray (p + 1)) = 1" "ENCODER_TABLE ! (4 * gray p + gray (p - 1)) = - 1"
    "ENCODER_TABLE ! (5 * gray p) = 0"
    by (auto simp: gray_def ENCODER_TABLE_def)
qed

text \<open>A turn: positions one step apart, or the same twice when a contact bounces without moving on.\<close>

fun turn :: "int \<Rightarrow> int list \<Rightarrow> bool" where
  "turn p [] \<longleftrightarrow> True"
| "turn p (q # qs) \<longleftrightarrow> \<bar>q - p\<bar> \<le> 1 \<and> turn q qs"

lemma encoder_within:
  assumes "turn p qs" "list_all (\<lambda>q. \<bar>q - p0\<bar> < 4) qs" "encoder_prev_ab s = gray p" "encoder_quarter s = p - p0" "\<bar>p - p0\<bar> < 4"
  defines "l \<equiv> last (p # qs)"
  shows "encoder_quarter (fold encoder_isr (map gray qs) s) = l - p0 \<and> encoder_prev_ab (fold encoder_isr (map gray qs) s) = gray l \<and>
    encoder_delta (fold encoder_isr (map gray qs) s) = encoder_delta s \<and> \<bar>l - p0\<bar> < 4"
  unfolding l_def using assms(1-5)
proof (induction qs arbitrary: p s)
  case (Cons q qs)
  let ?s = "encoder_isr (gray q) s"
  have "q = p \<or> q = p + 1 \<or> q = p - 1" "\<bar>q - p0\<bar> < 4" using Cons.prems(1,2) by auto
  then have "encoder_prev_ab ?s = gray q \<and> encoder_quarter ?s = q - p0 \<and> encoder_delta ?s = encoder_delta s"
    using Cons.prems(3,4) by (auto simp: encoder_isr_def gray_step Let_def)
  then show ?case using Cons.IH [of q ?s] Cons.prems(1,2) by simp
qed simp

text \<open>
  C34: The encoder counts detents, whatever the contacts do in between. From a detent, any sequence of readings that
  moves by single steps, with bounces and turns back on the way, and reaches the next detent for the first time gives
  exactly one step in the direction turned, and none before.
\<close>

theorem encoder_counts_detents:
  assumes "turn p qs" "list_all (\<lambda>q. \<bar>q - p\<bar> < 4) qs" "encoder_prev_ab s = gray p" "encoder_quarter s = 0" "encoder_delta s = 0"
    and "dir \<in> {- 1, 1}" "last (p # qs) = p + 3 * dir"
  defines "s1 \<equiv> fold encoder_isr (map gray qs) s"
  shows "encoder_delta s1 = 0 \<and> encoder_delta (encoder_isr (gray (p + 4 * dir)) s1) = dir \<and>
    encoder_quarter (encoder_isr (gray (p + 4 * dir)) s1) = 0 \<and>
    encoder_prev_ab (encoder_isr (gray (p + 4 * dir)) s1) = gray (p + 4 * dir)"
proof -
  have s1: "encoder_quarter s1 = 3 * dir" "encoder_prev_ab s1 = gray (p + 3 * dir)" "encoder_delta s1 = 0"
    using encoder_within [OF assms(1,2,3)] assms(4,5,7) by (simp_all add: s1_def)
  have "dir = 1 \<or> dir = - 1" using assms(6) by auto
  moreover have "ENCODER_TABLE ! (4 * gray (p + 3) + gray (p + 4)) = 1" "ENCODER_TABLE ! (4 * gray (p - 3) + gray (p - 4)) = - 1"
    using gray_step(1) [of "p + 3"] gray_step(2) [of "p - 3"] by (simp_all add: add.commute)
  ultimately show ?thesis using s1 by (auto simp: encoder_isr_def Let_def)
qed

section \<open>The PIN that is returned\<close>

definition digit_char :: "u8 \<Rightarrow> bool" where
  "digit_char x \<longleftrightarrow> 0x30 \<le> x \<and> x \<le> 0x39"

text \<open>The digits entered so far.\<close>

definition pin_text :: "'a pin_pad_scheme \<Rightarrow> u8 list" where
  "pin_text s = take (vault_pin_len s) (vault_pin_buf s)"

definition pin_inv :: "'a pin_pad_scheme \<Rightarrow> bool" where
  "pin_inv s \<longleftrightarrow> length (vault_pin_buf s) = VAULT_PIN_MAX_LEN + 1 \<and> vault_pin_len s \<le> VAULT_PIN_MAX_LEN \<and>
     list_all digit_char (pin_text s) \<and> vault_pin_buf s ! vault_pin_len s = 0 \<and> vault_pin_current_digit s < 10"

lemma take_snoc_update: "n < length xs \<Longrightarrow> take (Suc n) (copy_at (Suc n) [e] (copy_at n [d] xs)) = take n xs @ [d]"
  by (simp add: copy_at_def)

lemma pin_text_confirm:
  assumes "pin_inv s"
  shows "pin_text (vault_unlock_confirm_digit s) =
      (if vault_pin_len s < VAULT_PIN_MAX_LEN then pin_text s @ [0x30 + vault_pin_current_digit s] else pin_text s)"
    and "pin_inv (vault_unlock_confirm_digit s)"
proof -
  let ?n = "vault_pin_len s"
  let ?buf = "copy_at (Suc ?n) [0] (copy_at ?n [0x30 + vault_pin_current_digit s] (vault_pin_buf s))"
  have t: "take (Suc ?n) ?buf = pin_text s @ [0x30 + vault_pin_current_digit s]"
    using assms take_snoc_update [of ?n "vault_pin_buf s"] by (simp add: pin_inv_def pin_text_def)
  have d: "digit_char (0x30 + vault_pin_current_digit s)" using assms by (simp add: pin_inv_def digit_char_def unat_arith_simps)
  have f: "vault_pin_buf (vault_unlock_confirm_digit s) = ?buf" "vault_pin_len (vault_unlock_confirm_digit s) = Suc ?n"
    "vault_pin_current_digit (vault_unlock_confirm_digit s) = 0" if "?n < VAULT_PIN_MAX_LEN"
    using that by (simp_all add: vault_unlock_confirm_digit_def Let_def)
  have g: "vault_unlock_confirm_digit s = s" if "\<not> ?n < VAULT_PIN_MAX_LEN"
    using that by (simp add: vault_unlock_confirm_digit_def Let_def)
  show "pin_text (vault_unlock_confirm_digit s) =
      (if ?n < VAULT_PIN_MAX_LEN then pin_text s @ [0x30 + vault_pin_current_digit s] else pin_text s)"
    using t f g by (simp add: pin_text_def)
  show "pin_inv (vault_unlock_confirm_digit s)"
  proof (cases "?n < VAULT_PIN_MAX_LEN")
    case True
    then have "?buf = (vault_pin_buf s)[?n := 0x30 + vault_pin_current_digit s, Suc ?n := 0]"
      using assms by (simp add: pin_inv_def copy_at_update)
    then have "length ?buf = 9" "?buf ! Suc ?n = 0" using assms True by (simp_all add: pin_inv_def)
    then show ?thesis using True assms d t f by (simp add: pin_inv_def pin_text_def)
  qed (use assms g in simp)
qed

lemma pin_inv_backspace:
  assumes "pin_inv s"
  shows "pin_inv (vault_unlock_backspace s)"
proof (cases "vault_pin_len s")
  case 0
  then show ?thesis using assms by (simp add: vault_unlock_backspace_def Let_def)
next
  case (Suc n)
  then have "list_all digit_char (take n (vault_pin_buf s))"
    using assms by (auto simp: pin_inv_def pin_text_def take_Suc_conv_app_nth)
  then show ?thesis using Suc assms by (simp add: pin_inv_def pin_text_def vault_unlock_backspace_def copy_at_update Let_def)
qed

lemma pin_inv_small:
  "pin_inv s \<Longrightarrow> pin_inv (vault_unlock_try_submit s)"
  "pin_inv s \<Longrightarrow> dir \<in> {- 1, 1} \<Longrightarrow> pin_inv (vault_unlock_encoder_rotate dir s)"
proof -
  assume s: "pin_inv s"
  show "pin_inv (vault_unlock_try_submit s)" using s by (simp add: vault_unlock_try_submit_def pin_inv_def pin_text_def)
  assume "dir \<in> {- 1, 1}"
  then have r: "0 \<le> uint (vault_pin_current_digit s) + dir + 10" by auto
  let ?v = "uint (vault_pin_current_digit s) + dir + 10"
  have v: "?v - 10 * c_div ?v 10 = ?v mod 10" using r by (simp add: c_div_def minus_mult_div_eq_mod)
  have "word_of_int (?v mod 10) < (10 :: u8)"
    using pos_mod_bound [of 10 ?v] pos_mod_sign [of 10 ?v] by (simp add: word_less_def uint_word_of_int)
  then show "pin_inv (vault_unlock_encoder_rotate dir s)"
    using s unfolding vault_unlock_encoder_rotate_def Let_def v by (simp add: pin_inv_def pin_text_def)
qed

text \<open>One pass of the screen.\<close>

lemma pin_inv_same:
  assumes "pin_inv s" "vault_pin_buf t = vault_pin_buf s" "vault_pin_len t = vault_pin_len s"
    and "vault_pin_current_digit t = vault_pin_current_digit s"
  shows "pin_inv t"
  using assms by (simp add: pin_inv_def pin_text_def)

lemma pin_inv_buttons:
  "pin_inv s \<Longrightarrow> pin_inv (vault_unlock_encoder_button d s)" "pin_inv s \<Longrightarrow> pin_inv (vault_unlock_button_press d s)"
  using pin_text_confirm(2) pin_inv_backspace pin_inv_small(1) pin_inv_small(2) [of s 1]
    pin_inv_same [of s "s\<lparr>vault_confirm_cancelled := True\<rparr>"]
  by (auto simp: vault_unlock_encoder_button_def vault_unlock_button_press_def)

lemma isr_fields:
  "vault_pin_buf (fold encoder_isr es s) = vault_pin_buf s" "vault_pin_len (fold encoder_isr es s) = vault_pin_len s"
  "vault_pin_current_digit (fold encoder_isr es s) = vault_pin_current_digit s"
  "vault_pin_submitted (fold encoder_isr es s) = vault_pin_submitted s"
  for s :: "'a pin_pad_scheme"
  by (induction es arbitrary: s) (simp_all add: encoder_isr_def Let_def)

lemma isr_delta: "encoder_delta s \<in> {- 1, 0, 1} \<Longrightarrow> encoder_delta (fold encoder_isr es s) \<in> {- 1, 0, 1}"
proof (induction es arbitrary: s)
  case (Cons e es)
  have "encoder_delta (encoder_isr e s) \<in> {- 1, 0, 1}" using Cons.prems by (auto simp: encoder_isr_def Let_def)
  then show ?case using Cons.IH by simp
qed simp

lemma pin_inv_input_read: "pin_inv s \<Longrightarrow> pin_inv (input_read ms r s)"
  unfolding input_read_def Let_def case_prod_beta
  by (auto intro!: pin_inv_buttons intro: pin_inv_same)

lemma pin_inv_encoder_process:
  assumes "pin_inv s" "encoder_delta s \<in> {- 1, 0, 1}"
  shows "pin_inv (encoder_process ms r s)"
proof -
  let ?s = "s\<lparr>encoder_delta := 0\<rparr>"
  have "pin_inv ?s" by (rule pin_inv_same [OF assms(1)]) simp_all
  then have "pin_inv (if encoder_delta s \<noteq> 0 then vault_unlock_encoder_rotate (encoder_delta s) ?s else ?s)"
    using pin_inv_small(2) [of ?s "encoder_delta s"] assms(2) by auto
  then show ?thesis
    unfolding encoder_process_def Let_def case_prod_beta by (auto intro!: pin_inv_buttons intro: pin_inv_same)
qed


definition pad_inv :: "'a pin_pad_scheme \<Rightarrow> bool" where
  "pad_inv s \<longleftrightarrow> pin_inv s \<and> encoder_delta s \<in> {- 1, 0, 1}"

lemma delta_kept [simp]:
  "encoder_delta (vault_unlock_button_press d s) = encoder_delta s" "encoder_delta (vault_unlock_encoder_button d s) = encoder_delta s"
  "encoder_delta (vault_unlock_encoder_rotate dir s) = encoder_delta s" "encoder_delta (vault_unlock_try_submit s) = encoder_delta s"
  by (simp_all add: vault_unlock_button_press_def vault_unlock_encoder_button_def vault_unlock_encoder_rotate_def
      vault_unlock_confirm_digit_def vault_unlock_backspace_def vault_unlock_try_submit_def Let_def)

lemma pad_inv_read: "pad_inv s \<Longrightarrow> pad_inv (snd (read_controls he i s))"
proof -
  assume s: "pad_inv s"
  let ?f = "fold encoder_isr (pp_edges i) s"
  let ?s = "if he then encoder_process (pp_ms i) (pp_encoder i) ?f else s"
  have f: "encoder_delta ?f \<in> {- 1, 0, 1}" using s isr_delta by (auto simp: pad_inv_def)
  have "pin_inv ?f" using s pin_inv_same [of s ?f] by (simp add: pad_inv_def isr_fields)
  then have "pin_inv ?s" using s pin_inv_encoder_process f by (auto simp: pad_inv_def)
  moreover have "encoder_delta ?s \<in> {- 1, 0, 1}"
    using s by (auto simp: pad_inv_def encoder_process_def Let_def case_prod_beta)
  moreover have "encoder_delta (input_read (pp_ms i) (pp_button i) ?s) = encoder_delta ?s"
    by (simp add: input_read_def Let_def case_prod_beta)
  ultimately show ?thesis using pin_inv_input_read [of ?s] by (simp add: pad_inv_def read_controls_def Let_def)
qed

lemma pad_inv_track: "pad_inv s \<Longrightarrow> pad_inv (snd (vault_track_hold ms pr s))"
  by (simp add: pad_inv_def pin_inv_def pin_text_def vault_track_hold_def Let_def)

lemma pad_inv_submit: "pad_inv s \<Longrightarrow> pad_inv ((vault_unlock_try_submit s)\<lparr>vault_pin_submit_fired := True\<rparr>)"
  by (simp add: pad_inv_def pin_inv_def pin_text_def vault_unlock_try_submit_def)

interpretation screen: step_invariant "prompt_pass he" pad_inv
  for he
proof
  fix s :: "'a pin_pad_scheme" and i
  assume "pad_inv s"
  then have t: "pad_inv (snd (vault_track_hold (pp_ms i) (fst (read_controls he i s)) (snd (read_controls he i s))))"
    by (intro pad_inv_track pad_inv_read)
  show "pad_inv (prompt_pass he i s)" using t pad_inv_submit [OF t] by (simp add: prompt_pass_def Let_def case_prod_beta)
qed







lemma isr_button [simp]: "button_state (fold encoder_isr es s) = button_state s"
  by (induction es arbitrary: s) (simp_all add: encoder_isr_def Let_def)



section \<open>Properties of the screen\<close>


section \<open>Every PIN can be entered\<close>

text \<open>The passes of a press of the button: down, debounced, up, debounced, and a pause.\<close>

definition press :: "u32 \<Rightarrow> u32 \<Rightarrow> u32 \<Rightarrow> u32 \<Rightarrow> pad_pass list" where
  "press t up released pause =
     map (\<lambda>(ms, r). \<lparr>pp_ms = ms, pp_edges = [], pp_encoder = False, pp_button = r\<rparr>)
       [(t, True), (t + 26, True), (t + up, False), (t + released, False), (t + pause, False)]"

definition ready :: "'a pin_pad_scheme \<Rightarrow> bool" where
  "ready s \<longleftrightarrow> \<not> button_state s \<and> \<not> debounce_state s \<and> \<not> vault_hold_active s \<and> \<not> vault_pin_submitted s \<and>
     \<not> vault_pin_submit_fired s \<and> \<not> vault_confirm_mode s"

lemmas pass_defs = prompt_pass_def read_controls_def input_read_def debounce_def vault_track_hold_def Let_def press_def

text \<open>A short press turns the digit on, a longer one takes it over.\<close>

lemma tap:
  assumes "ready s" "s' = fold (prompt_pass False) (press t 100 126 300) s"
  shows "prompt_loop False (press t 100 126 300 @ is) s = prompt_loop False is s'" "ready s'"
    "vault_pin_buf s' = vault_pin_buf s" "vault_pin_len s' = vault_pin_len s"
    "vault_pin_current_digit s' = vault_pin_current_digit (vault_unlock_encoder_rotate 1 s)"
  using assms(1) unfolding assms(2)
  by (simp_all add: ready_def pass_defs vault_unlock_button_press_def vault_unlock_encoder_rotate_def)

lemma rotate_digit:
  assumes "vault_pin_current_digit s = of_nat k" "k < 9" "\<not> vault_confirm_mode s"
  shows "vault_pin_current_digit (vault_unlock_encoder_rotate 1 s) = of_nat (Suc k)"
proof -
  have u: "uint (of_nat k :: u8) = int k" using assms(2) by (simp add: uint_nat unat_of_nat)
  have "c_div (11 + int k) 10 = 1" using assms(2) by (simp add: c_div_def)
  then show ?thesis using assms by (simp add: vault_unlock_encoder_rotate_def Let_def u)
qed

definition taps :: "u32 \<Rightarrow> nat \<Rightarrow> pad_pass list" where
  "taps t d = concat (map (\<lambda>k. press (t + 1000 * of_nat k) 100 126 300) [0..<d])"

lemma taps:
  assumes "ready s" "vault_pin_current_digit s = 0"
  shows "d < 10 \<Longrightarrow> prompt_loop False (taps t d @ is) s = prompt_loop False is (fold (prompt_pass False) (taps t d) s) \<and>
    ready (fold (prompt_pass False) (taps t d) s) \<and> vault_pin_buf (fold (prompt_pass False) (taps t d) s) = vault_pin_buf s \<and>
    vault_pin_len (fold (prompt_pass False) (taps t d) s) = vault_pin_len s \<and>
    vault_pin_current_digit (fold (prompt_pass False) (taps t d) s) = of_nat d"
proof (induction d arbitrary: "is")
  case 0
  show ?case using assms by (simp add: taps_def)
next
  case (Suc d)
  let ?u = "fold (prompt_pass False) (taps t d) s" and ?p = "press (t + 1000 * of_nat d) 100 126 300"
  have e: "taps t (Suc d) = taps t d @ ?p" by (simp add: taps_def)
  have u: "ready ?u" "vault_pin_buf ?u = vault_pin_buf s" "vault_pin_len ?u = vault_pin_len s" "vault_pin_current_digit ?u = of_nat d"
    and l: "prompt_loop False (taps t d @ ?p @ is) s = prompt_loop False (?p @ is) ?u"
    using Suc.IH Suc.prems by simp_all
  note v = tap [OF u(1) refl, where t = "t + 1000 * of_nat d"]
  have "\<not> vault_confirm_mode ?u" using u(1) by (simp add: ready_def)
  then have "vault_pin_current_digit (fold (prompt_pass False) ?p ?u) = of_nat (Suc d)"
    using v(5) rotate_digit [OF u(4)] Suc.prems by simp
  then show ?case unfolding e using v(1-4) u(2,3) l by (simp del: of_nat_Suc)
qed

text \<open>Taking the digit over ends the entry when it is the eighth.\<close>

lemma confirm_press:
  assumes "ready s" "s' = fold (prompt_pass False) (press t 600 626 800) s" "vault_pin_len s < 7"
  shows "prompt_loop False (press t 600 626 800 @ is) s = prompt_loop False is s'" "ready s'"
    "vault_pin_buf s' = vault_pin_buf (vault_unlock_confirm_digit s)" "vault_pin_len s' = Suc (vault_pin_len s)"
    "vault_pin_current_digit s' = 0"
  using assms(1,3) unfolding assms(2)
  by (simp_all add: ready_def pass_defs vault_unlock_button_press_def vault_unlock_confirm_digit_def)

lemma last_confirm_press:
  assumes "ready s" "s' = fold (prompt_pass False) (take 4 (press t 600 626 800)) s" "vault_pin_len s = 7"
  shows "prompt_loop False (press t 600 626 800 @ is) s = Some s'"
    "vault_pin_buf s' = vault_pin_buf (vault_unlock_confirm_digit s)" "vault_pin_len s' = 8" "\<not> button_state s'"
  using assms(1,3) unfolding assms(2)
  by (simp_all add: ready_def pass_defs vault_unlock_button_press_def vault_unlock_confirm_digit_def)

text \<open>A press of more than three seconds submits while the button is still held.\<close>

definition hold :: "u32 \<Rightarrow> pad_pass list" where
  "hold t = map (\<lambda>ms. \<lparr>pp_ms = ms, pp_edges = [], pp_encoder = False, pp_button = True\<rparr>) [t, t + 26, t + 3100]"

lemma submit_press:
  assumes "ready s" "s' = fold (prompt_pass False) (hold t) s" "4 \<le> vault_pin_len s"
  shows "prompt_loop False (hold t) s = Some s'" "vault_pin_buf s' = vault_pin_buf s" "vault_pin_len s' = vault_pin_len s"
    "button_state s' \<and> debounce_state s'"
  using assms(1,3) unfolding assms(2)
  by (simp_all add: ready_def pass_defs hold_def vault_unlock_try_submit_def)

text \<open>Dialling a digit and taking it over.\<close>

definition digit_passes :: "u32 \<Rightarrow> nat \<Rightarrow> pad_pass list" where
  "digit_passes t d = taps t d @ press (t + 1000 * of_nat d) 600 626 800"

fun enter :: "u32 \<Rightarrow> nat list \<Rightarrow> pad_pass list" where
  "enter t [] = []"
| "enter t (d # ds) = digit_passes t d @ enter (t + 1000 * of_nat (d + 1)) ds"

definition entering :: "'a pin_pad_scheme \<Rightarrow> bool" where
  "entering s \<longleftrightarrow> ready s \<and> pad_inv s \<and> vault_pin_current_digit s = 0"

lemma pin_text_len: "pad_inv s \<Longrightarrow> vault_pin_len s = length (pin_text s)"
  by (simp add: pad_inv_def pin_inv_def pin_text_def)

lemma dialled:
  assumes "entering s" "d < 10" "u = fold (prompt_pass False) (taps t d) s" "vault_pin_len s < 8"
  shows "prompt_loop False (taps t d @ is) s = prompt_loop False is u" "ready u" "pad_inv u" "pin_text u = pin_text s"
    "vault_pin_len u = vault_pin_len s" "vault_pin_current_digit u = of_nat d"
    "pin_text s @ [0x30 + of_nat d] = pin_text (vault_unlock_confirm_digit u)"
proof -
  have s: "ready s" "vault_pin_current_digit s = 0" "pad_inv s" using assms(1) by (simp_all add: entering_def)
  note t = taps [OF s(1,2) assms(2), where t = t, folded assms(3)]
  show u: "prompt_loop False (taps t d @ is) s = prompt_loop False is u" "ready u" "pin_text u = pin_text s"
    "vault_pin_len u = vault_pin_len s" "vault_pin_current_digit u = of_nat d"
    using t by (simp_all add: pin_text_def)
  show i: "pad_inv u" unfolding assms(3) by (rule screen.inv_run [OF s(3)])
  show "pin_text s @ [0x30 + of_nat d] = pin_text (vault_unlock_confirm_digit u)"
    using pin_text_confirm(1) [of u] i u assms(4) by (simp add: pad_inv_def)
qed

lemma digit_entered:
  assumes "entering s" "d < 10" "vault_pin_len s < 7"
  obtains s' where "\<And>is. prompt_loop False (digit_passes t d @ is) s = prompt_loop False is s'" "entering s'"
    "pin_text s' = pin_text s @ [0x30 + of_nat d]"
proof -
  define u where "u = fold (prompt_pass False) (taps t d) s"
  note u = dialled [OF assms(1,2) u_def]
  let ?s = "fold (prompt_pass False) (press (t + 1000 * of_nat d) 600 626 800) u"
  have l: "vault_pin_len s < 8" "vault_pin_len u < 7" using assms(3) u(5) by simp_all
  note c = confirm_press [OF u(2) [OF l(1)] refl l(2), where t = "t + 1000 * of_nat d"]
  have "pin_text ?s = pin_text (vault_unlock_confirm_digit u)"
    using c(3,4) l(2) by (simp add: pin_text_def vault_unlock_confirm_digit_def Let_def)
  moreover have "pad_inv ?s" by (rule screen.inv_run [OF u(3) [OF l(1)]])
  ultimately show ?thesis
    by (intro that [of ?s]) (use u c l in \<open>simp_all add: digit_passes_def entering_def\<close>)
qed

lemma digits_entered:
  "entering s \<Longrightarrow> list_all (\<lambda>d. d < 10) ds \<Longrightarrow> vault_pin_len s + length ds \<le> 7 \<Longrightarrow>
    \<exists>s'. (\<forall>is. prompt_loop False (enter t ds @ is) s = prompt_loop False is s') \<and> entering s' \<and>
      pin_text s' = pin_text s @ map (\<lambda>d. 0x30 + of_nat d) ds"
proof (induction ds arbitrary: s t)
  case (Cons d ds)
  obtain u where u: "\<And>is. prompt_loop False (digit_passes t d @ is) s = prompt_loop False is u" "entering u"
    "pin_text u = pin_text s @ [0x30 + of_nat d]"
    by (rule digit_entered [of s d t]) (use Cons.prems in auto)
  have "vault_pin_len u = Suc (vault_pin_len s)"
    using pin_text_len [of u] pin_text_len [of s] u Cons.prems(1) by (simp add: entering_def)
  then show ?case using Cons.IH [OF u(2), of "t + 1000 * of_nat (d + 1)"] Cons.prems u by auto
qed auto

text \<open>The eighth digit ends the entry, with the button released.\<close>

lemma eighth_digit:
  assumes "entering s" "d < 10" "vault_pin_len s = 7"
  obtains s' where "prompt_loop False (digit_passes t d) s = Some s'" "pin_text s' = pin_text s @ [0x30 + of_nat d]"
    "\<not> button_state s'"
proof -
  define u where "u = fold (prompt_pass False) (taps t d) s"
  have l: "vault_pin_len s < 8" using assms(3) by simp
  note u = dialled [OF assms(1,2) u_def l]
  have n: "vault_pin_len u = 7" using u(5) assms(3) by simp
  let ?s = "fold (prompt_pass False) (take 4 (press (t + 1000 * of_nat d) 600 626 800)) u"
  note c = last_confirm_press [OF u(2) refl n, where t = "t + 1000 * of_nat d"]
  have "pin_text ?s = pin_text (vault_unlock_confirm_digit u)"
    using c(2,3) n by (simp add: pin_text_def vault_unlock_confirm_digit_def Let_def)
  then show ?thesis by (intro that [of ?s]) (use u c(1) [of "[]"] c(4) in \<open>simp_all add: digit_passes_def\<close>)
qed

text \<open>The whole entry: the digits, and a long press unless there are eight of them.\<close>

definition pin_time :: "u32 \<Rightarrow> nat list \<Rightarrow> u32" where
  "pin_time t ds = t + 1000 * of_nat (sum_list ds + length ds)"

definition pin_passes :: "u32 \<Rightarrow> nat list \<Rightarrow> pad_pass list" where
  "pin_passes t ds = enter t ds @ (if length ds = 8 then [] else hold (pin_time t ds))"

lemma enter_snoc: "enter t (ds @ [d]) = enter t ds @ digit_passes (pin_time t ds) d"
  by (induction ds arbitrary: t) (simp_all add: pin_time_def algebra_simps)

lemma pin_entered:
  assumes "entering s" "vault_pin_len s = 0" "list_all (\<lambda>d. d < 10) ds" "4 \<le> length ds" "length ds \<le> 8"
  shows "\<exists>u. prompt_loop False (pin_passes t ds) s = Some u \<and> pin_text u = map (\<lambda>d. 0x30 + of_nat d) ds \<and>
    (if length ds = 8 then \<not> button_state u else button_state u \<and> debounce_state u)"
proof (cases "length ds = 8")
  case True
  then obtain es d where ds: "ds = es @ [d]" "length es = 7" by (cases ds rule: rev_cases) auto
  obtain v where v: "\<forall>is. prompt_loop False (enter t es @ is) s = prompt_loop False is v" "entering v"
    "pin_text v = pin_text s @ map (\<lambda>d. 0x30 + of_nat d) es"
    using digits_entered [OF assms(1), of es t] assms(2,3) ds by auto
  have p: "pin_text s = []" using assms(2) by (simp add: pin_text_def)
  then have "vault_pin_len v = 7" using pin_text_len [of v] v(2,3) ds(2) by (simp add: entering_def)
  then obtain u where "prompt_loop False (digit_passes (pin_time t es) d) v = Some u" "pin_text u = pin_text v @ [0x30 + of_nat d]"
    "\<not> button_state u"
    using eighth_digit [OF v(2)] assms(3) ds(1) by (metis list.pred_inject(2) list_all_append)
  then show ?thesis using v(1,3) p True by (simp add: pin_passes_def ds(1) enter_snoc)
next
  case False
  then obtain v where v: "\<forall>is. prompt_loop False (enter t ds @ is) s = prompt_loop False is v" "entering v"
    "pin_text v = pin_text s @ map (\<lambda>d. 0x30 + of_nat d) ds"
    using digits_entered [OF assms(1,3), of t] assms(2,5) by auto
  have p: "pin_text s = []" using assms(2) by (simp add: pin_text_def)
  then have "4 \<le> vault_pin_len v" using pin_text_len [of v] v(2,3) assms(4) by (simp add: entering_def)
  moreover have "ready v" using v(2) by (simp add: entering_def)
  ultimately show ?thesis using submit_press [OF _ refl, of v "pin_time t ds"] v p False by (simp add: pin_passes_def pin_text_def)
qed

lemma prompt_entered:
  assumes "\<not> button_state s" "\<not> debounce_state s" "\<not> vault_confirm_mode s" "length (vault_pin_buf s) = 9" "encoder_delta s = 0"
    and "list_all (\<lambda>d. d < 10) ds" "4 \<le> length ds" "length ds \<le> 8"
  shows "\<exists>t'. vault_unlock_prompt False (pin_passes t ds) s = Some (map (\<lambda>d. 0x30 + of_nat d) ds, t') \<and>
    vault_suppress_next_release t' \<and> (if length ds = 8 then \<not> button_state t' else button_state t' \<and> debounce_state t')"
proof -
  let ?s = "vault_hold_reset (vault_pin_reset (s\<lparr>vault_unlock_active := True\<rparr>))"
  have "entering ?s" "vault_pin_len ?s = 0"
    using assms(1-5) by (simp_all add: entering_def ready_def pad_inv_def pin_inv_def pin_text_def vault_hold_reset_def vault_pin_reset_def copy_at_update)
  then obtain u where "prompt_loop False (pin_passes t ds) ?s = Some u" "pin_text u = map (\<lambda>d. 0x30 + of_nat d) ds"
    "if length ds = 8 then \<not> button_state u else button_state u \<and> debounce_state u"
    using pin_entered assms(6-8) by blast
  then show ?thesis by (simp add: vault_unlock_prompt_def pin_text_def)
qed

text \<open>
  C33: Every PIN of four to eight digits can be entered with one button. On a board without an encoder there is a
  sequence of presses, starting at any time of the clock, also when it wraps, for which the screen returns exactly
  these digits.
\<close>

theorem every_pin_can_be_entered:
  assumes "\<not> button_state s" "\<not> debounce_state s" "\<not> vault_confirm_mode s" "length (vault_pin_buf s) = 9" "encoder_delta s = 0"
    and "list_all (\<lambda>d. d < 10) ds" "4 \<le> length ds" "length ds \<le> 8"
  shows "\<exists>t'. vault_unlock_prompt False (pin_passes t ds) s = Some (map (\<lambda>d. 0x30 + of_nat d) ds, t')"
  using prompt_entered [OF assms] by blast

definition pad_start :: pin_pad where
  "pad_start =
     \<lparr>encoder_prev_ab = 0, encoder_quarter = 0, encoder_delta = 0, enc_btn_state = False, enc_btn_debounce_state = False,
      enc_btn_debounce_last = 0, enc_btn_down_last = 0, button_state = False, debounce_state = False, button_debounce_last = 0,
      button_down_last = 0, button_up_last = 0, vault_unlock_active = False, vault_suppress_next_release = False,
      vault_pin_buf = replicate 9 0, vault_pin_len = 0, vault_pin_current_digit = 0, vault_pin_submitted = False,
      vault_pin_submit_fired = False, vault_confirm_mode = False, vault_confirm_cancelled = False, vault_hold_anchor_ms = 0,
      vault_hold_active = False, vault_last_seen_pressed_ms = 0\<rparr>"

theorem every_pin_can_be_entered_witness:
  "\<exists>t'. vault_unlock_prompt False (pin_passes (- 5000) [1, 9, 0, 3]) pad_start = Some ([0x31, 0x39, 0x30, 0x33], t')"
  using every_pin_can_be_entered [of pad_start "[1, 9, 0, 3]" "- 5000"] by (simp add: pad_start_def)


text \<open>
  After a PIN of eight digits the next click is lost: the entry ends when the button is released, but the flag that
  swallows the next release is set all the same, as if the button were still held.
\<close>

theorem full_pin_swallows_next_click:
  assumes "\<not> button_state s" "\<not> debounce_state s" "\<not> vault_confirm_mode s" "length (vault_pin_buf s) = 9" "encoder_delta s = 0"
    and "list_all (\<lambda>d. d < 10) ds" "length ds = 8"
  shows "\<exists>pin t'. vault_unlock_prompt False (pin_passes t ds) s = Some (pin, t') \<and> \<not> button_state t' \<and> vault_suppress_next_release t'"
  using prompt_entered [OF assms(1-6), of t] assms(7) by auto

section \<open>A hold and the question after it\<close>

text \<open>A pass of the loops on a board without an encoder.\<close>

definition button_pass :: "u32 \<Rightarrow> bool \<Rightarrow> pad_pass" where
  "button_pass ms r = \<lparr>pp_ms = ms, pp_edges = [], pp_encoder = False, pp_button = r\<rparr>"

lemma held_pass:
  assumes "button_state s" "debounce_state s"
  shows "read_controls False (button_pass ms True) s = (True, s)"
    "read_controls False (button_pass ms False) s = (True, s\<lparr>debounce_state := False, button_debounce_last := ms\<rparr>)"
  using assms by (cases s; simp add: read_controls_def button_pass_def input_read_def debounce_def)+

lemma released_pass:
  assumes "button_state s" "\<not> debounce_state s" "button_debounce_last s = ms" "vault_confirm_mode s"
  shows "read_controls False (button_pass (ms + 26) False) s =
    (False, s\<lparr>button_state := False, button_up_last := ms + 26, vault_confirm_cancelled := True\<rparr>)"
  using assms by (cases s) (simp add: read_controls_def button_pass_def input_read_def debounce_def vault_unlock_button_press_def)

lemma confirm_while_held:
  assumes "button_state s" "debounce_state s"
  shows "\<exists>t. vault_identity_confirm False [button_pass ms True, button_pass (ms + 3000) True] s = Some (True, t)"
    "\<exists>t. vault_identity_confirm False [button_pass ms False, button_pass (ms + 26) False] s = Some (False, t)"
proof -
  let ?s = "vault_hold_reset (s\<lparr>vault_unlock_active := True, vault_confirm_mode := True, vault_confirm_cancelled := False\<rparr>)"
  have s: "button_state ?s" "debounce_state ?s" "vault_confirm_mode ?s" "\<not> vault_confirm_cancelled ?s" "\<not> vault_hold_active ?s"
    using assms by (simp_all add: vault_hold_reset_def)
  have "\<exists>t. confirm_loop False [button_pass ms True, button_pass (ms + 3000) True] v = Some (True, t)"
    "\<exists>t. confirm_loop False [button_pass ms False, button_pass (ms + 26) False] v = Some (False, t)"
    if "button_state v" "debounce_state v" "vault_confirm_mode v" "\<not> vault_confirm_cancelled v" "\<not> vault_hold_active v" for v :: "'a pin_pad_scheme"
    using that by (simp_all add: held_pass released_pass vault_track_hold_def) (simp_all add: button_pass_def)
  from this [OF s] show
    "\<exists>t. vault_identity_confirm False [button_pass ms True, button_pass (ms + 3000) True] s = Some (True, t)"
    "\<exists>t. vault_identity_confirm False [button_pass ms False, button_pass (ms + 26) False] s = Some (False, t)"
    by (auto simp: vault_identity_confirm_def)
qed

text \<open>
  C40: The question whether to replace the identity is answered by the press that submitted the PIN. A PIN of four to
  seven digits is submitted by holding the button, and the question comes up while it is still held: letting go of
  it, at whatever time, is taken for a refusal, and holding on for three more seconds for consent. With a single
  button no separate gesture can confirm the import.
\<close>

theorem pin_hold_answers_question:
  assumes "\<not> button_state s" "\<not> debounce_state s" "\<not> vault_confirm_mode s" "length (vault_pin_buf s) = 9" "encoder_delta s = 0"
    and "list_all (\<lambda>d. d < 10) ds" "4 \<le> length ds" "length ds < 8"
  shows "\<exists>t'. vault_unlock_prompt False (pin_passes t ds) s = Some (map (\<lambda>d. 0x30 + of_nat d) ds, t') \<and>
    (\<exists>u. vault_identity_confirm False [button_pass ms False, button_pass (ms + 26) False] t' = Some (False, u)) \<and>
    (\<exists>u. vault_identity_confirm False [button_pass ms True, button_pass (ms + 3000) True] t' = Some (True, u))"
proof -
  obtain t' where "vault_unlock_prompt False (pin_passes t ds) s = Some (map (\<lambda>d. 0x30 + of_nat d) ds, t')"
    "button_state t' \<and> debounce_state t'"
    using prompt_entered [OF assms(1-7), of t] assms(8) by auto
  then show ?thesis using confirm_while_held [of t' ms] by blast
qed

theorem pin_hold_answers_question_witness:
  "\<exists>t' u. vault_unlock_prompt False (pin_passes 0 [1, 9, 0, 3]) pad_start = Some ([0x31, 0x39, 0x30, 0x33], t') \<and>
    vault_identity_confirm False [button_pass 60000 False, button_pass 60026 False] t' = Some (False, u)"
  using pin_hold_answers_question [of pad_start "[1, 9, 0, 3]" 0 60000] by (auto simp: pad_start_def)

theorem encoder_counts_detents_witness:
  "encoder_delta (encoder_isr (gray (- 4)) (fold encoder_isr (map gray [- 1, 0, 1, 0, - 1, - 2, - 3]) pad_start)) = - 1"
  using encoder_counts_detents [of 0 "[- 1, 0, 1, 0, - 1, - 2, - 3]" pad_start "- 1"]
  by (simp add: pad_start_def gray_def)

end
