(* ===== verification/Identity_Transfer.thy ===== *)
theory Identity_Transfer
  imports Vault Pin_Entry Kiss_Parser
begin

text \<open>
  Moving a node's identity (\<^verbatim>\<open>IdentityTransfer.h\<close>): the key as text in base 32, for a paper copy, and the
  encrypted container sent to the host and taken from it. Both flows ask for PINs on the node's own screen
  (\<open>vault_unlock_prompt\<close> of \<open>Pin_Entry\<close>), so the state is that of the screen and that of the node; what
  the user does at each prompt is the record \<open>transfer_user\<close>, and a flow whose prompt is still waiting is
  \<open>None\<close>. The provisioning protocol (\<^verbatim>\<open>Provisioning.h\<close>) is framed the same way.
\<close>

section \<open>The key as text\<close>

abbreviation (input) VAULT_IDENTITY_KEYSIZE_BYTES :: nat where "VAULT_IDENTITY_KEYSIZE_BYTES \<equiv> 64"
abbreviation (input) VAULT_IDENTITY_KEY_BASE32_LEN :: nat where "VAULT_IDENTITY_KEY_BASE32_LEN \<equiv> 104"

type_synonym u64 = "64 word"

definition ALPHABET :: "u8 list" where
  "ALPHABET = chars ''ABCDEFGHIJKLMNOPQRSTUVWXYZ234567''"

definition group_word :: "u8 list \<Rightarrow> u64" where
  "group_word g =
     push_bit 32 (ucast (g ! 0)) OR push_bit 24 (ucast (g ! 1)) OR push_bit 16 (ucast (g ! 2)) OR push_bit 8 (ucast (g ! 3)) OR
     ucast (g ! 4)"

definition group_chars :: "nat \<Rightarrow> u64 \<Rightarrow> u8 list" where
  "group_chars n buf = map (\<lambda>c. ALPHABET ! unat (drop_bit (35 - c * 5) buf AND 0x1F)) [0..<n]"

definition CHARS_FOR_REM :: "nat list" where
  "CHARS_FOR_REM = [2, 4, 5, 7]"

function identity_key_to_base32 :: "u8 list \<Rightarrow> u8 list" where
  "identity_key_to_base32 key =
     (if length key \<ge> 5 then group_chars 8 (group_word (take 5 key)) @ identity_key_to_base32 (drop 5 key)
      else if key = [] then []
      else
        (let buf = group_word (key @ replicate (5 - length key) 0); nchars = CHARS_FOR_REM ! (length key - 1)
         in group_chars nchars buf @ replicate (8 - nchars) 0x3D))"
  by auto
termination by (relation "measure length") auto

declare identity_key_to_base32.simps [simp del]

definition charval :: "u8 \<Rightarrow> u64 option" where
  "charval ch =
     (if 0x41 \<le> ch \<and> ch \<le> 0x5A then Some (ucast (ch - 0x41))
      else if 0x32 \<le> ch \<and> ch \<le> 0x37 then Some (ucast (ch - 0x32) + 26) else None)"

fun group_value :: "u64 \<Rightarrow> u8 list \<Rightarrow> u64 option" where
  "group_value buf [] = Some buf"
| "group_value buf (ch # chs) =
     (case charval ch of None \<Rightarrow> None | Some v \<Rightarrow> group_value (push_bit 5 buf OR v) chs)"

definition decode_group :: "nat \<Rightarrow> nat \<Rightarrow> u8 list \<Rightarrow> u8 list option" where
  "decode_group nchars nbytes grp =
     (if list_all (\<lambda>ch. ch = 0x3D) (take (8 - nchars) (drop nchars grp)) then
        (case group_value 0 (take nchars grp) of
           None \<Rightarrow> None
         | Some buf \<Rightarrow>
             (let buf = push_bit (40 - nchars * 5) buf
              in Some (map (\<lambda>i. ucast (drop_bit (32 - i * 8) buf AND 0xFF)) [0..<nbytes])))
      else None)"

text \<open>The \<open>n\<close> groups that are left, of which the last one is short.\<close>

fun decode_groups :: "nat \<Rightarrow> u8 list \<Rightarrow> u8 list option" where
  "decode_groups 0 b32 = Some []"
| "decode_groups (Suc n) b32 =
     (case decode_group (if n = 0 then 7 else 8) (if n = 0 then 4 else 5) (take 8 b32) of
        None \<Rightarrow> None
      | Some bs \<Rightarrow> (case decode_groups n (drop 8 b32) of None \<Rightarrow> None | Some rest \<Rightarrow> Some (bs @ rest)))"

definition identity_key_from_base32 :: "u8 list \<Rightarrow> u8 list option" where
  "identity_key_from_base32 b32 =
     (if length b32 \<noteq> VAULT_IDENTITY_KEY_BASE32_LEN then None
      else
        (case decode_groups 13 b32 of
           None \<Rightarrow> None | Some out \<Rightarrow> if length out = VAULT_IDENTITY_KEYSIZE_BYTES then Some out else None))"

section \<open>Replies to the host\<close>

definition kiss_indicate_identity_export :: "board \<Rightarrow> u8 list \<Rightarrow> 'a host_scheme \<Rightarrow> 'a host_scheme" where
  "kiss_indicate_identity_export b blob s = reply b CMD_IDENTITY_EXPORT [] blob (select0 b s)"

definition kiss_indicate_identity_import_result :: "board \<Rightarrow> bool \<Rightarrow> 'a host_scheme \<Rightarrow> 'a host_scheme" where
  "kiss_indicate_identity_import_result b ok s = reply b CMD_IDENTITY_IMPORT [byte_of_bool ok] [] (select0 b s)"

text \<open>The reply of the provisioning protocol.\<close>

definition kiss_indicate_provision_response :: "board \<Rightarrow> u8 list \<Rightarrow> 'a host_scheme \<Rightarrow> 'a host_scheme" where
  "kiss_indicate_provision_response b response s = reply b CMD_PROVISION_RSP [] response (select0 b s)"

text \<open>\<open>handle_message\<close> is the provisioning engine of the Reticulum library.\<close>

definition on_provision_request :: "(u8 list \<Rightarrow> u8 list) \<Rightarrow> board \<Rightarrow> u8 list \<Rightarrow> 'a vault_scheme \<Rightarrow> 'a vault_scheme" where
  "on_provision_request handle_message b req s =
     (if \<not> urns_ready s then s else kiss_indicate_provision_response b (handle_message req) s)"

section \<open>Export and import\<close>

record transfer_user =
  verify_passes :: "pad_pass list"
  pin_passes1 :: "pad_pass list"
  pin_passes2 :: "pad_pass list"
  confirm_passes :: "pad_pass list"

type_synonym 'a transfer = "pin_pad \<times> 'a vault_scheme"

text \<open>The first prompt of the export, which only a protected node shows.\<close>

definition export_gate :: "vault_crypto \<Rightarrow> bool \<Rightarrow> pad_pass list \<Rightarrow> 'a transfer \<Rightarrow> (bool \<times> pin_pad) option" where
  "export_gate c he is ps =
     (let (pad, s) = ps
      in if vault_enabled s then
           (case vault_unlock_prompt he is pad of None \<Rightarrow> None | Some (pw, pad) \<Rightarrow> Some (vault_verify_password c pw s, pad))
         else Some (True, pad))"

definition identity_to_export :: "vault_crypto \<Rightarrow> 'a vault_scheme \<Rightarrow> vault_error + u8 list" where
  "identity_to_export c s =
     (if vault_enabled s then vault_load_identity_plaintext c s
      else if read_file LegacyIdentity s = [] then Inl IdentityMissing else Inr (read_file LegacyIdentity s))"

definition send_identity ::
  "vault_env \<Rightarrow> vault_crypto \<Rightarrow> board \<Rightarrow> u8 list \<Rightarrow> 'a transfer \<Rightarrow> 'a transfer outcome" where
  "send_identity env c b pw ps =
     (let (pad, s) = ps
      in case identity_to_export c s of
           Inl e \<Rightarrow> Ret (pad, kiss_indicate_identity_export b [] s)
         | Inr identity_plain \<Rightarrow>
             (case vault_wrap_blob env c b identity_plain pw VAULT_PBKDF2_ITERATIONS s of
                (Inl e, s) \<Rightarrow> Rebooted (pad, s)
              | (Inr blob, s) \<Rightarrow> Ret (pad, kiss_indicate_identity_export b blob s)))"

definition vault_identity_export_flow ::
  "vault_env \<Rightarrow> vault_crypto \<Rightarrow> board \<Rightarrow> bool \<Rightarrow> transfer_user \<Rightarrow> 'a transfer \<Rightarrow> 'a transfer outcome option" where
  "vault_identity_export_flow env c b he u ps =
     (let cancelled = (\<lambda>pad. Some (Ret (pad, kiss_indicate_identity_export b [] (snd ps))))
      in case export_gate c he (verify_passes u) ps of
           None \<Rightarrow> None
         | Some (ok, pad) \<Rightarrow>
             if \<not> ok then cancelled pad
             else
               (case vault_unlock_prompt he (pin_passes1 u) pad of
                  None \<Rightarrow> None
                | Some (exp_pw1, pad) \<Rightarrow>
                    if length exp_pw1 < VAULT_PIN_MIN_LEN then cancelled pad
                    else
                      (case vault_unlock_prompt he (pin_passes2 u) pad of
                         None \<Rightarrow> None
                       | Some (exp_pw2, pad) \<Rightarrow>
                           if exp_pw1 \<noteq> exp_pw2 then cancelled pad else Some (send_identity env c b exp_pw1 (pad, snd ps)))))"

text \<open>A file replaced by way of a temporary one that is read back first.\<close>

definition replace_file :: "vault_env \<Rightarrow> vpath \<Rightarrow> u8 list \<Rightarrow> 'a vault_scheme \<Rightarrow> bool \<times> 'a vault_scheme" where
  "replace_file env p bs s =
     (let s = write_file env (Tmp p) bs s
      in if read_file (Tmp p) s \<noteq> bs then (False, remove_file (Tmp p) s) else (True, rename_file env (Tmp p) p s))"

definition vault_identity_commit ::
  "vault_env \<Rightarrow> vault_crypto \<Rightarrow> board \<Rightarrow> u8 list \<Rightarrow> 'a vault_scheme \<Rightarrow> (bool \<times> 'a vault_scheme) outcome" where
  "vault_identity_commit env c b identity_plain s =
     (if vault_enabled s then
        (case vault_derive_subkey c IDENTITY_CONTEXT s of
           Inl e \<Rightarrow> Rebooted (False, s)
         | Inr id_key \<Rightarrow>
             (let (id_nonce, s) = vault_random_bytes env b VAULT_NONCE_SIZE s
              in Ret (replace_file env VaultIdentity (id_nonce @ gcm_seal c identity_plain id_key id_nonce) s)))
      else Ret (replace_file env LegacyIdentity identity_plain s))"

definition vault_identity_import_flow ::
  "vault_env \<Rightarrow> vault_crypto \<Rightarrow> board \<Rightarrow> bool \<Rightarrow> transfer_user \<Rightarrow> u8 list \<Rightarrow> 'a transfer \<Rightarrow> 'a transfer outcome option" where
  "vault_identity_import_flow env c b he u blob ps =
     (let s = snd ps; refused = (\<lambda>pad s. Some (Ret (pad, kiss_indicate_identity_import_result b False s)))
      in case vault_unlock_prompt he (pin_passes1 u) (fst ps) of
           None \<Rightarrow> None
         | Some (pw, pad) \<Rightarrow>
             (case vault_unwrap_blob c blob pw of
                Inl e \<Rightarrow> refused pad s
              | Inr identity_plain \<Rightarrow>
                  if length identity_plain \<noteq> VAULT_IDENTITY_KEYSIZE_BYTES then refused pad s
                  else
                    (case vault_identity_confirm he (confirm_passes u) pad of
                       None \<Rightarrow> None
                     | Some (confirmed, pad) \<Rightarrow>
                         if \<not> confirmed then refused pad s
                         else
                           (case vault_identity_commit env c b identity_plain s of
                              Ret (committed, s) \<Rightarrow>
                                if \<not> committed then refused pad s
                                else Some (Rebooted (pad, kiss_indicate_identity_import_result b True s))
                            | Rebooted (r, s) \<Rightarrow> Some (Rebooted (pad, s))
                            | Hung (r, s) \<Rightarrow> Some (Hung (pad, s))))))"

definition on_identity_export_request ::
  "vault_env \<Rightarrow> vault_crypto \<Rightarrow> board \<Rightarrow> bool \<Rightarrow> transfer_user \<Rightarrow> 'a transfer \<Rightarrow> 'a transfer outcome option" where
  "on_identity_export_request env c b he u ps =
     (if \<not> urns_ready (snd ps) then Some (Ret (fst ps, kiss_indicate_identity_export b [] (snd ps)))
      else vault_identity_export_flow env c b he u ps)"

definition on_identity_import_request ::
  "vault_env \<Rightarrow> vault_crypto \<Rightarrow> board \<Rightarrow> bool \<Rightarrow> transfer_user \<Rightarrow> u8 list \<Rightarrow> 'a transfer \<Rightarrow> 'a transfer outcome option" where
  "on_identity_import_request env c b he u blob ps =
     (if \<not> urns_ready (snd ps) then Some (Ret (fst ps, kiss_indicate_identity_import_result b False (snd ps)))
      else vault_identity_import_flow env c b he u blob ps)"

text \<open>
  The menu's way to restore an identity from its text. The result is the text left in the entry field, and
  whether a message says that the key is invalid or could not be written.
\<close>

datatype restore_popup = NoPopup | InvalidKey | ErrorPopup

definition restore_identity ::
  "vault_env \<Rightarrow> vault_crypto \<Rightarrow> board \<Rightarrow> bool \<Rightarrow> pad_pass list \<Rightarrow> u8 list \<Rightarrow> 'a transfer \<Rightarrow>
     (restore_popup \<times> u8 list \<times> 'a transfer) outcome option" where
  "restore_identity env c b he is entry ps =
     (case identity_key_from_base32 entry of
        None \<Rightarrow> Some (Ret (InvalidKey, entry, ps))
      | Some raw_key \<Rightarrow>
          (case vault_identity_confirm he is (fst ps) of
             None \<Rightarrow> None
           | Some (confirmed, pad) \<Rightarrow>
               if \<not> confirmed then Some (Ret (NoPopup, entry, pad, snd ps))
               else
                 (case vault_identity_commit env c b raw_key (snd ps) of
                    Ret (committed, s) \<Rightarrow>
                      Some (if committed then Rebooted (NoPopup, [], pad, s) else Ret (ErrorPopup, [], pad, s))
                  | Rebooted (r, s) \<Rightarrow> Some (Rebooted (NoPopup, entry, pad, s))
                  | Hung (r, s) \<Rightarrow> Some (Hung (NoPopup, entry, pad, s)))))"

section \<open>The text is read back\<close>


lemma charval_ALPHABET: "v < 32 \<Longrightarrow> charval (ALPHABET ! v) = Some (of_nat v)"
proof -
  have "list_all (\<lambda>v. charval (ALPHABET ! v) = Some (of_nat v)) [0..<32]" by code_simp
  then show "v < 32 \<Longrightarrow> charval (ALPHABET ! v) = Some (of_nat v)" by (simp add: list_all_iff)
qed

lemma mask5: "(0x1F :: u64) = mask 5"
  by (simp add: mask_eq_exp_minus_1)

lemma unat_and_1F: "unat (w AND 0x1F) < 32" for w :: u64
  by (simp add: mask5 take_bit_eq_mask [symmetric] take_bit_eq_mod unat_mod)

lemma charval_digit: "charval (ALPHABET ! unat (w AND 0x1F)) = Some (w AND 0x1F)"
  using charval_ALPHABET [OF unat_and_1F] by simp

lemma shift_in: "push_bit 5 (drop_bit (n + 5) w) OR (drop_bit n w AND 0x1F) = drop_bit n w" for w :: u64
proof (rule bit_word_eqI)
  fix i assume i: "i < LENGTH(64)"
  have "5 \<le> i \<Longrightarrow> n + 5 + (i - 5) = n + i" by simp
  then show "bit (push_bit 5 (drop_bit (n + 5) w) OR (drop_bit n w AND 0x1F)) i = bit (drop_bit n w) i"
    using i by (auto simp: mask5 bit_or_iff bit_push_bit_iff bit_drop_bit_eq bit_and_iff bit_mask_iff)
qed

lemma group_value_chars:
  "k + n \<le> 8 \<Longrightarrow>
    group_value (drop_bit (40 - k * 5) w) (map (\<lambda>c. ALPHABET ! unat (drop_bit (35 - c * 5) w AND 0x1F)) [k..<k + n]) =
    Some (drop_bit (40 - (k + n) * 5) w)"
proof (induction n arbitrary: k)
  case (Suc n)
  have "40 - k * 5 = (35 - k * 5) + 5" "40 - Suc k * 5 = 35 - k * 5" using Suc.prems by simp_all
  then have "push_bit 5 (drop_bit (40 - k * 5) w) OR (drop_bit (35 - k * 5) w AND 0x1F) = drop_bit (40 - Suc k * 5) w"
    by (simp only: shift_in)
  moreover have "[k..<k + Suc n] = k # [Suc k..<Suc k + n]" by (simp add: upt_rec [of k])
  ultimately show ?case using Suc.IH [of "Suc k"] Suc.prems by (simp add: charval_digit)
qed simp

text \<open>The bits of a group, read from its bytes.\<close>

lemma bit_group_word: "bit (group_word g) m \<longleftrightarrow> m < 40 \<and> bit (g ! (4 - m div 8)) (m mod 8)"
proof -
  have u: "bit (push_bit k (ucast x :: u64)) m \<longleftrightarrow> k \<le> m \<and> m < k + 8 \<and> bit x (m - k)" if "k \<le> 32" for k m and x :: u8
    using that bit_imp_le_length [of x "m - k"] by (auto simp: bit_push_bit_iff bit_ucast_iff)
  have z: "bit (ucast x :: u64) m \<longleftrightarrow> m < 8 \<and> bit x m" for m and x :: u8
    using u [of 0 x] by simp
  obtain q r where m: "m = 8 * q + r" "r < 8" by (metis mod_less_divisor mult_div_mod_eq zero_less_numeral)
  have dm: "m div 8 = q" "m mod 8 = r" using m by simp_all
  consider "q = 0" | "q = 1" | "q = 2" | "q = 3" | "q = 4" | "5 \<le> q" by linarith
  then show ?thesis unfolding dm using m(2) by cases (simp_all add: group_word_def bit_or_iff u z m(1))
qed

lemma group_word_bytes:
  assumes "i < 5" "k = 0 \<or> k = 5 \<and> i < 4"
  shows "ucast (drop_bit (32 - i * 8) (push_bit k (drop_bit k (group_word g))) AND 0xFF) = g ! i"
proof (rule bit_word_eqI)
  fix j assume j: "j < LENGTH(8)"
  have ff: "(0xFF :: u64) = mask 8" by (simp add: mask_eq_exp_minus_1)
  have "32 - i * 8 + j = 8 * (4 - i) + j" using assms(1) by simp
  moreover have "k \<le> 8 * (4 - i) + j" using assms by auto
  moreover have "8 * (4 - i) + j < 40" using assms(1) j by simp
  ultimately show "bit (ucast (drop_bit (32 - i * 8) (push_bit k (drop_bit k (group_word g))) AND 0xFF) :: u8) j = bit (g ! i) j"
    using assms(1) j
    by (simp add: ff bit_ucast_iff bit_and_iff bit_mask_iff bit_drop_bit_eq bit_push_bit_iff bit_group_word)
qed

lemma drop_group_word: "drop_bit 40 (group_word g) = 0"
  by (rule bit_word_eqI) (simp add: bit_drop_bit_eq bit_group_word)

lemma decode_group_chars:
  assumes "length g = 5" "n = 8 \<and> k = 5 \<or> n = 7 \<and> k = 4"
  shows "decode_group n k (group_chars n (group_word g) @ replicate (8 - n) 0x3D) = Some (take k g)"
proof -
  have n: "n \<le> 8" "length (group_chars n (group_word g)) = n" using assms(2) by (auto simp: group_chars_def)
  have v: "group_value 0 (group_chars n (group_word g)) = Some (drop_bit (40 - n * 5) (group_word g))"
    using group_value_chars [of 0 n "group_word g"] n(1) by (simp add: group_chars_def drop_group_word)
  have b: "map (\<lambda>i. ucast (drop_bit (32 - i * 8) (push_bit (40 - n * 5) (drop_bit (40 - n * 5) (group_word g))) AND 0xFF)) [0..<k] = take k g"
  proof (rule nth_equalityI)
    fix i assume "i < length (map (\<lambda>i. ucast (drop_bit (32 - i * 8) (push_bit (40 - n * 5) (drop_bit (40 - n * 5) (group_word g))) AND 0xFF) :: u8) [0..<k])"
    then have "i < k" by simp
    then show "map (\<lambda>i. ucast (drop_bit (32 - i * 8) (push_bit (40 - n * 5) (drop_bit (40 - n * 5) (group_word g))) AND 0xFF)) [0..<k] ! i = take k g ! i"
      using group_word_bytes [of i "40 - n * 5" g] assms(2) by auto
  qed (use assms in auto)
  show ?thesis using b by (simp add: decode_group_def n v Let_def list_all_iff)
qed

text \<open>A key of \<open>n\<close> whole groups and a last one of four bytes.\<close>

lemma decode_groups_key:
  "length key = 5 * n + 4 \<Longrightarrow>
    length (identity_key_to_base32 key) = 8 * (n + 1) \<and> decode_groups (n + 1) (identity_key_to_base32 key) = Some key"
proof (induction n arbitrary: key)
  case 0
  let ?g = "key @ replicate (5 - length key) 0"
  have e: "identity_key_to_base32 key = group_chars 7 (group_word ?g) @ replicate (8 - 7) 0x3D"
    using 0 by (subst identity_key_to_base32.simps) (auto simp: CHARS_FOR_REM_def Let_def)
  have l: "length (identity_key_to_base32 key) = 8" by (simp add: e group_chars_def)
  have "decode_group 7 4 (identity_key_to_base32 key) = Some key"
    unfolding e by (subst decode_group_chars) (use 0 in simp_all)
  then show ?case using l by simp
next
  case (Suc n)
  let ?g = "take 5 key"
  have e: "identity_key_to_base32 key = group_chars 8 (group_word ?g) @ identity_key_to_base32 (drop 5 key)"
    using Suc.prems by (subst identity_key_to_base32.simps) simp
  have l: "length (group_chars 8 (group_word ?g)) = 8" by (simp add: group_chars_def)
  have "decode_group 8 5 (group_chars 8 (group_word ?g)) = Some ?g"
    using decode_group_chars [of ?g 8 5] Suc.prems by simp
  moreover have "length (drop 5 key) = 5 * n + 4" using Suc.prems by simp
  ultimately show ?case using Suc.IH [of "drop 5 key"] l by (simp add: e)
qed

text \<open>
  C35: A paper copy of the identity restores it: the text shown for a key of 64 bytes is exactly 104 characters, and
  typing it back gives the same key.
\<close>

theorem identity_text_roundtrip:
  assumes "length key = VAULT_IDENTITY_KEYSIZE_BYTES"
  shows "length (identity_key_to_base32 key) = VAULT_IDENTITY_KEY_BASE32_LEN \<and> identity_key_from_base32 (identity_key_to_base32 key) = Some key"
  using decode_groups_key [of key 12] assms by (simp add: identity_key_from_base32_def)

theorem identity_text_roundtrip_witness:
  "identity_key_from_base32 (identity_key_to_base32 (replicate 64 0xA5)) = Some (replicate 64 0xA5)"
  using identity_text_roundtrip [of "replicate 64 0xA5"] by simp

section \<open>Replacing the identity\<close>

lemma host_file_ops [simp]:
  "link_ok b (write_file env p bs s) = link_ok b s" "host_bytes (write_file env p bs s) = host_bytes s"
  "link_ok b (rename_file env p q s) = link_ok b s" "host_bytes (rename_file env p q s) = host_bytes s"
  "link_ok b (remove_file p s) = link_ok b s" "host_bytes (remove_file p s) = host_bytes s"
  "link_ok b (s\<lparr>rng_calls := n\<rparr>) = link_ok b s" "host_bytes (s\<lparr>rng_calls := n\<rparr>) = host_bytes s"
  by (simp_all add: link_ok_def host_bytes_def write_file_def rename_file_def remove_file_def Let_def)

lemma replace_file:
  assumes "replace_file env p bs s = (ok, t)" "disks s = []"
  shows "\<forall>d \<in> set (disks t). snd d = eeprom s \<and> ((\<exists>x. fst d = (files s)(Tmp p := x)) \<or> fst d = (files s)(p := Some bs, Tmp p := None))"
    and "eeprom t = eeprom s"
    and "files t = (if ok \<and> fs_ok env (fs_calls s + 1) then (files s)(p := Some bs, Tmp p := None)
                    else (files s)(Tmp p := (if ok then Some bs else None)))"
    and "(\<And>n bs. fs_stored env n bs = bs) \<Longrightarrow> ok" "link_ok b t = link_ok b s" "host_bytes t = host_bytes s"
proof -
  let ?w = "write_file env (Tmp p) bs s"
  have f: "fs_calls ?w = fs_calls s + 1" by (simp add: write_file_def Let_def)
  have d: "snd d = eeprom s \<and> (\<exists>x. fst d = (files s)(Tmp p := x))" if "d \<in> set (disks ?w)" for d
    using disks_writeD [OF that] assms(2) by auto
  have t: "ok = (read_file (Tmp p) ?w = bs)" "t = (if ok then rename_file env (Tmp p) p ?w else remove_file (Tmp p) ?w)"
    using assms(1) by (auto simp: replace_file_def Let_def split: if_splits)
  have r: "ok \<Longrightarrow> files ?w (Tmp p) = Some bs" using t(1) by (simp add: read_file_def)
  have n: "(files s)(Tmp p := v, p := w, Tmp p := x) = (files s)(p := w, Tmp p := x)" for v w x
    by (auto simp: fun_eq_iff)
  show "\<forall>d \<in> set (disks t). snd d = eeprom s \<and> ((\<exists>x. fst d = (files s)(Tmp p := x)) \<or> fst d = (files s)(p := Some bs, Tmp p := None))"
    using d r by (auto simp: t(2) rename_file_def f Let_def n)
  show "eeprom t = eeprom s" by (simp add: t(2))
  show "files t = (if ok \<and> fs_ok env (fs_calls s + 1) then (files s)(p := Some bs, Tmp p := None)
                   else (files s)(Tmp p := (if ok then Some bs else None)))"
    using r by (simp add: t(2) rename_file_def f Let_def n)
  show "(\<And>n bs. fs_stored env n bs = bs) \<Longrightarrow> ok" by (simp add: t(1) read_file_def)
  show "link_ok b t = link_ok b s" "host_bytes t = host_bytes s" by (simp_all add: t(2))
qed

text \<open>A running node: protected or not as its store says, and if protected, unlocked with the PIN.\<close>

definition unlocked_with :: "vault_crypto \<Rightarrow> u8 list \<Rightarrow> 'a vault_scheme \<Rightarrow> bool" where
  "unlocked_with c pw s \<longleftrightarrow>
     (vault_enabled s \<longleftrightarrow> eeprom s ADDR_CONF_VAULT_ENABLED = VAULT_ENABLE_BYTE) \<and>
     (vault_enabled s \<longrightarrow> vault_unlocked s \<and> open_vk c pw s = Some (vault_key s))"

lemma open_vk_length: "open_vk c pw s = Some vk \<Longrightarrow> length vk = 32"
  by (auto simp: open_vk_def split: if_splits sum.splits)

lemma sealed_of_key:
  assumes "open_vk c pw s = Some vk" "fs VaultVk = files s VaultVk" "fs VaultIdentity = Some (nonce @ gcm_seal c p (hkdf_sha256 c vk IDENTITY_CONTEXT) nonce)"
    and "length nonce = VAULT_NONCE_SIZE" "gcm_law c"
  shows "sealed_identity c pw fs = Running p"
proof -
  obtain blob where "fs VaultVk = Some blob" "blob \<noteq> []" "vault_unwrap_blob c blob pw = Inr vk" "length vk = 32"
    using assms(1,2) by (auto simp: open_vk_def read_file_def split: if_splits sum.splits option.splits)
  then show ?thesis using assms(3-5) by (simp add: sealed_identity_def gcm_lawD)
qed

text \<open>What a commit leaves when power is lost at any moment, and in the end.\<close>

definition commit_result ::
  "vault_crypto \<Rightarrow> u8 list \<Rightarrow> u8 list \<Rightarrow> u8 list \<Rightarrow> vault_env \<Rightarrow> 'a vault_scheme \<Rightarrow> bool \<Rightarrow> 'a vault_scheme \<Rightarrow> bool" where
  "commit_result c pw old new env s ok t \<longleftrightarrow>
     (\<forall>d \<in> set (disks t). \<forall>u :: 'a vault_scheme. start_node c pw (power_up d u) \<in> {Running old, Running new}) \<and>
     (\<forall>u :: 'a vault_scheme. start_node c pw (power_up (files t, eeprom t) u) =
        Running (if ok \<and> fs_ok env (fs_calls s + 1) then new else old)) \<and>
     ((\<forall>n bs. fs_stored env n bs = bs) \<longrightarrow> ok) \<and> host_bytes t = host_bytes s \<and> (\<forall>b. link_ok b t = link_ok b s)"

lemma identity_commit:
  assumes "gcm_law c" "unlocked_with c pw s" "start_node c pw (power_up (files s, eeprom s) s) = Running old" "disks s = []"
  obtains ok t where "vault_identity_commit env c b new s = Ret (ok, t)" "commit_result c pw old new env s ok t"
proof (cases "vault_enabled s")
  case False
  obtain ok t where r: "replace_file env LegacyIdentity new s = (ok, t)" by fastforce
  have e: "eeprom s ADDR_CONF_VAULT_ENABLED \<noteq> VAULT_ENABLE_BYTE" using False assms(2) by (simp add: unlocked_with_def)
  then have l: "files s LegacyIdentity = Some old" using assms(3) by (auto simp: start_power_up split: option.splits)
  have "commit_result c pw old new env s ok t"
    using replace_file [OF r assms(4)] e l by (auto simp: commit_result_def start_power_up)
  moreover have "vault_identity_commit env c b new s = Ret (ok, t)" using False r by (simp add: vault_identity_commit_def)
  ultimately show ?thesis by (rule that [rotated])
next
  case True
  then have k: "open_vk c pw s = Some (vault_key s)" "vault_unlocked s" "vault_key s \<noteq> []"
    and e: "eeprom s ADDR_CONF_VAULT_ENABLED = VAULT_ENABLE_BYTE"
    using assms(2) open_vk_length [of c pw s "vault_key s"] by (auto simp: unlocked_with_def)
  obtain nonce m where nonce: "vault_random_bytes env b VAULT_NONCE_SIZE s = (nonce, s\<lparr>rng_calls := m\<rparr>)" "length nonce = VAULT_NONCE_SIZE"
    by (rule random_bytes)
  let ?f = "nonce @ gcm_seal c new (hkdf_sha256 c (vault_key s) IDENTITY_CONTEXT) nonce"
  obtain ok t where r: "replace_file env VaultIdentity ?f (s\<lparr>rng_calls := m\<rparr>) = (ok, t)" by fastforce
  have old: "sealed_identity c pw (files s) = Running old" using assms(3) e by (simp add: start_power_up)
  have same: "sealed_identity c pw ((files s)(Tmp VaultIdentity := x)) = Running old" for x
    using sealed_identity_cong [of "(files s)(Tmp VaultIdentity := x)" "files s"] old by simp
  have new: "sealed_identity c pw ((files s)(VaultIdentity := Some ?f, Tmp VaultIdentity := x)) = Running new" for x
    by (rule sealed_of_key [OF k(1)]) (use nonce(2) assms(1) in simp_all)
  have "commit_result c pw old new env s ok t"
    using replace_file [OF r] assms(4) e same new by (auto simp: commit_result_def start_power_up)
  moreover have "vault_identity_commit env c b new s = Ret (ok, t)"
    using True r k nonce(1) by (simp add: vault_identity_commit_def vault_derive_subkey_def hkdf_def)
  ultimately show ?thesis by (rule that [rotated])
qed

text \<open>
  C12: The identity of a running node is replaced atomically. Whatever the file system does, and at whatever moment
  power is lost, the node starts with the old identity or with the new one, under the same PIN; if the
  function reports failure, with the old one; if it reports success and the rename did not fail, with the new one.
\<close>

theorem identity_is_replaced_atomically:
  assumes "gcm_law c" "unlocked_with c pw s" "start_node c pw (power_up (files s, eeprom s) s) = Running old" "disks s = []"
  shows "\<exists>ok t. vault_identity_commit env c b new s = Ret (ok, t) \<and>
    (\<forall>d \<in> set (disks t). start_node c pw (power_up d s) \<in> {Running old, Running new}) \<and>
    start_node c pw (power_up (files t, eeprom t) s) = Running (if ok \<and> fs_ok env (fs_calls s + 1) then new else old)"
proof -
  obtain ok t where "vault_identity_commit env c b new s = Ret (ok, t)" "commit_result c pw old new env s ok t"
    by (rule identity_commit [OF assms])
  then show ?thesis unfolding commit_result_def by blast
qed

section \<open>What the host receives\<close>

lemma host_update_vault [simp]:
  "files (host_update l f st s) = files s" "disks (host_update l f st s) = disks s" "eeprom (host_update l f st s) = eeprom s"
  by (simp_all add: host_update_def)

lemma reply_vault [simp]:
  "files (reply b c raw esc s) = files s" "disks (reply b c raw esc s) = disks s" "eeprom (reply b c raw esc s) = eeprom s"
  for s :: "'a vault_scheme"
proof -
  obtain l f st where "reply b c raw esc s = host_update l f st s" using reply_update by blast
  then show "files (reply b c raw esc s) = files s" "disks (reply b c raw esc s) = disks s" "eeprom (reply b c raw esc s) = eeprom s"
    by simp_all
qed

lemma transfer_replies [simp]:
  "files (kiss_indicate_identity_export b blob s) = files s" "eeprom (kiss_indicate_identity_export b blob s) = eeprom s"
  "files (kiss_indicate_identity_import_result b ok s) = files s" "eeprom (kiss_indicate_identity_import_result b ok s) = eeprom s"
  "disks (kiss_indicate_identity_import_result b ok s) = disks s"
  by (simp_all add: kiss_indicate_identity_export_def kiss_indicate_identity_import_result_def select0_def kiss_select_interface_def)

lemma transfer_bytes:
  "link_ok b s \<Longrightarrow> host_bytes (kiss_indicate_identity_export b blob s) =
     host_bytes s @ frames_bytes (select_frames b) @ kiss_frame CMD_IDENTITY_EXPORT blob"
  "link_ok b s \<Longrightarrow> host_bytes (kiss_indicate_identity_import_result b ok s) =
     host_bytes s @ frames_bytes (select_frames b) @ kiss_frame CMD_IDENTITY_IMPORT [byte_of_bool ok]"
  by (simp_all add: kiss_indicate_identity_export_def kiss_indicate_identity_import_result_def select0_bytes reply_frame
      byte_of_bool_def del: host_bytes_reply)

section \<open>An import frame\<close>

definition in_import :: "board \<Rightarrow> 'a console_state \<Rightarrow> bool" where
  "in_import b ps \<longleftrightarrow> has_urns b \<and> IN_FRAME (snd ps) \<and> kiss_command (snd ps) = CMD_IDENTITY_IMPORT \<and> console_ok (fst ps)"

definition store_identity :: "u8 \<Rightarrow> console \<Rightarrow> console" where
  "store_identity x p = p\<lparr>identity_import_buf := copy_at (frame_len p) [x] (identity_import_buf p), frame_len := frame_len p + 1\<rparr>"

lemma import_byte:
  assumes "in_import b (p, s)" "x \<noteq> FEND" "frame_len p < MTU"
  shows "serial_callback e b x (p, s) = Ret (collect_identity x p, s)"
  using assms by (simp add: serial_callback_def in_import_def dispatch_def on_console_def)

lemma import_unit:
  assumes "in_import b (p, s)" "\<not> ESCAPE p" "frame_len p < MTU" "map snd xs = stuff x"
  shows "serial_poll b xs (p, s) = Ret (store_identity x p, s)"
proof -
  have n: "p\<lparr>ESCAPE := False\<rparr> = p" using assms(2) by (cases p) simp
  show ?thesis
  proof (cases "x = FEND \<or> x = FESC")
    case True
    then obtain e1 e2 y where xs: "xs = [(e1, FESC), (e2, y)]" and y: "y \<noteq> FEND" "y \<noteq> FESC" "unstuff_byte y = x"
      using assms(4) by (auto simp: stuff_def unstuff_byte_def map_eq_Cons_conv split: if_splits)
    have i: "in_import b (p\<lparr>ESCAPE := True\<rparr>, s)" using assms(1) by (simp add: in_import_def console_ok_def)
    show ?thesis
      using import_byte [OF assms(1), of FESC e1] import_byte [OF i y(1), of e2] assms(3) y n
      by (simp add: xs collect_identity_def unescape_def store_identity_def)
  next
    case False
    then obtain e where "xs = [(e, x)]" using assms(4) by (auto simp: stuff_def)
    then show ?thesis using import_byte [OF assms(1), of x e] assms(2,3) False by (simp add: collect_identity_def unescape_def store_identity_def)
  qed
qed

lemma import_bytes:
  "in_import b (p, s) \<Longrightarrow> \<not> ESCAPE p \<Longrightarrow> frame_len p + length d \<le> MTU \<Longrightarrow> map snd xs = stuff_all d \<Longrightarrow>
    \<exists>p'. serial_poll b xs (p, s) = Ret (p', s) \<and> in_import b (p', s) \<and> frame_len p' = frame_len p + length d \<and> calls p' = calls p \<and>
      take (frame_len p') (identity_import_buf p') = take (frame_len p) (identity_import_buf p) @ d"
proof (induction d arbitrary: xs p)
  case (Cons x d)
  then obtain ys zs where xs: "xs = ys @ zs" "map snd ys = stuff x" "map snd zs = stuff_all d"
    by (auto simp: stuff_all_def map_eq_append_conv)
  have l: "frame_len p < MTU" "length (identity_import_buf p) = MTU" using Cons.prems(1,3) by (simp_all add: in_import_def console_ok_def)
  have u: "serial_poll b ys (p, s) = Ret (store_identity x p, s)" by (rule import_unit) (use Cons.prems xs l in simp_all)
  have "in_import b (store_identity x p, s)"
    using Cons.prems(1) l by (simp add: in_import_def console_ok_def store_identity_def length_copy_at)
  then have "\<exists>p'. serial_poll b zs (store_identity x p, s) = Ret (p', s) \<and> in_import b (p', s) \<and>
      frame_len p' = frame_len (store_identity x p) + length d \<and> calls p' = calls (store_identity x p) \<and>
      take (frame_len p') (identity_import_buf p') = take (frame_len (store_identity x p)) (identity_import_buf (store_identity x p)) @ d"
    by (rule Cons.IH) (use Cons.prems xs in \<open>simp_all add: store_identity_def\<close>)
  then show ?case
    using l take_copy_at [of "frame_len p" "[x]" "identity_import_buf p"] u
    by (auto simp: xs(1) serial_poll_append store_identity_def)
qed (simp add: stuff_all_def)

lemma import_frame:
  assumes "has_urns b" "console_ok p" "\<not> ESCAPE p" "between_frames s" "length blob \<le> MTU" "blob \<noteq> []"
    and "map snd xs = kiss_frame CMD_IDENTITY_IMPORT blob"
  shows "\<exists>p'. serial_poll b xs (p, s) = Ret (p', s\<lparr>IN_FRAME := False, kiss_command := CMD_IDENTITY_IMPORT\<rparr>) \<and>
    calls p' = calls p @ [OnIdentityImport blob]"
proof -
  obtain e1 e2 ys e3 where xs: "xs = [(e1, FEND), (e2, CMD_IDENTITY_IMPORT)] @ ys @ [(e3, FEND)]" and ys: "map snd ys = stuff_all blob"
    using assms(7) by (auto simp: kiss_frame_def map_eq_Cons_conv map_eq_append_conv)
  let ?p = "p\<lparr>frame_len := 0\<rparr>" and ?s = "s\<lparr>IN_FRAME := True, kiss_command := CMD_IDENTITY_IMPORT\<rparr>"
  have o: "serial_poll b [(e1, FEND), (e2, CMD_IDENTITY_IMPORT)] (p, s) = Ret (?p, ?s)"
    using frame_start [OF assms(4), of b e1 e2 CMD_IDENTITY_IMPORT p] by simp
  have "in_import b (?p, ?s)" using assms(1,2) by (simp add: in_import_def console_ok_def)
  then obtain p' where p': "serial_poll b ys (?p, ?s) = Ret (p', ?s)" "frame_len p' = length blob" "calls p' = calls p"
    "take (length blob) (identity_import_buf p') = blob"
    using import_bytes [of b ?p ?s blob ys] assms(3,5) ys by fastforce
  have c: "serial_callback e3 b FEND (p', ?s) = Ret (call_peripheral (OnIdentityImport blob) p', ?s\<lparr>IN_FRAME := False\<rparr>)"
    using assms(1,6) p'(2,4) by (simp add: serial_callback_def)
  show ?thesis
    unfolding xs serial_poll_append o then_do.simps p'(1) serial_poll_one c using p'(3) by (simp add: call_peripheral_def)
qed

section \<open>Export\<close>

text \<open>The identity as it is sent under a PIN.\<close>

lemma send_identity:
  assumes "gcm_law c" "link_ok b s" "\<forall>p. identity_to_export c s = Inr p \<longrightarrow> length p < 2 ^ 32 - 58"
  shows "\<exists>t blob. send_identity env c b pw (pad, s) = Ret (pad, t) \<and> files t = files s \<and> eeprom t = eeprom s \<and>
    host_bytes t = host_bytes s @ frames_bytes (select_frames b) @ kiss_frame CMD_IDENTITY_EXPORT blob \<and>
    (case identity_to_export c s of Inl e \<Rightarrow> blob = []
     | Inr p \<Rightarrow> vault_unwrap_blob c blob pw = Inr p \<and> length blob = length p + 58)"
proof (cases "identity_to_export c s")
  case (Inl e)
  then show ?thesis using assms(2) by (simp add: send_identity_def transfer_bytes)
next
  case (Inr p)
  have "VAULT_PBKDF2_ITERATIONS \<noteq> 0" "length p < 2 ^ 32 - 58" using assms(3) Inr by simp_all
  then obtain blob n where "vault_wrap_blob env c b p pw VAULT_PBKDF2_ITERATIONS s = (Inr blob, s\<lparr>rng_calls := n\<rparr>)"
    "vault_unwrap_blob c blob pw = Inr p" "length blob = length p + 58"
    using wrap_blob [OF assms(1)] by blast
  then show ?thesis using assms(2) Inr by (simp add: send_identity_def transfer_bytes) blast
qed

text \<open>
  C20: an export over the host link gives the host only what the user allows. It always answers the host, with one
  frame, and changes no file. Unless the frame is empty, first the PIN was given again if the node is protected, then
  the same export PIN of at least four digits was typed twice, and the frame is the identity encrypted under that
  PIN. On a node without protection only the export PIN is asked for. The property is about this link: the menu
  shows the key of a protected node as text on the node's own display (\<open>draw_menu_urns_identity_key_disp\<close> of
  \<^verbatim>\<open>Menu.h\<close>), which is not part of it.
\<close>

theorem export_needs_the_pin:
  assumes "gcm_law c" "link_ok b s" "\<forall>p. identity_to_export c s = Inr p \<longrightarrow> length p < 2 ^ 32 - 58"
    and "vault_identity_export_flow env c b he u (pad, s) = Some r"
  shows "\<exists>pad' t blob. r = Ret (pad', t) \<and> files t = files s \<and> eeprom t = eeprom s \<and>
    host_bytes t = host_bytes s @ frames_bytes (select_frames b) @ kiss_frame CMD_IDENTITY_EXPORT blob \<and>
    (blob \<noteq> [] \<longrightarrow>
      (\<exists>pad1 pw pad2 idn.
         (if vault_enabled s then \<exists>pin. vault_unlock_prompt he (verify_passes u) pad = Some (pin, pad1) \<and> open_vk c pin s \<noteq> None
          else pad1 = pad) \<and>
         vault_unlock_prompt he (pin_passes1 u) pad1 = Some (pw, pad2) \<and>
         vault_unlock_prompt he (pin_passes2 u) pad2 = Some (pw, pad') \<and> VAULT_PIN_MIN_LEN \<le> length pw \<and>
         identity_to_export c s = Inr idn \<and> vault_unwrap_blob c blob pw = Inr idn))"
    (is "\<exists>pad' t blob. ?P pad' t blob")
proof -
  have none: "\<exists>pad' t blob. ?P pad' t blob" if "r = Ret (q, kiss_indicate_identity_export b [] s)" for q
    using that assms(2) by (simp add: transfer_bytes) blast
  obtain ok pad1 where gate: "export_gate c he (verify_passes u) (pad, s) = Some (ok, pad1)"
    using assms(4) by (auto simp: vault_identity_export_flow_def Let_def split: option.splits)
  have g: "if vault_enabled s then \<exists>pin. vault_unlock_prompt he (verify_passes u) pad = Some (pin, pad1) \<and> open_vk c pin s \<noteq> None else pad1 = pad" if ok
    using gate that by (auto simp: export_gate_def vault_verify_password_def split: if_splits option.splits)
  show ?thesis
  proof (cases "\<exists>q. r = Ret (q, kiss_indicate_identity_export b [] s)")
    case False
    then obtain pw pad2 pad3 where pw: "vault_unlock_prompt he (pin_passes1 u) pad1 = Some (pw, pad2)"
      "vault_unlock_prompt he (pin_passes2 u) pad2 = Some (pw, pad3)" "VAULT_PIN_MIN_LEN \<le> length pw" ok
      "r = send_identity env c b pw (pad3, s)"
      using assms(4) by (auto simp: vault_identity_export_flow_def Let_def gate split: option.splits if_splits)
    obtain t blob where t: "r = Ret (pad3, t)" "files t = files s" "eeprom t = eeprom s"
      "host_bytes t = host_bytes s @ frames_bytes (select_frames b) @ kiss_frame CMD_IDENTITY_EXPORT blob"
      "case identity_to_export c s of Inl e \<Rightarrow> blob = [] | Inr p \<Rightarrow> vault_unwrap_blob c blob pw = Inr p \<and> length blob = length p + 58"
      using send_identity [OF assms(1-3), of env pw pad3] pw(5) by auto
    have "\<exists>idn. identity_to_export c s = Inr idn \<and> vault_unwrap_blob c blob pw = Inr idn" if "blob \<noteq> []"
      using t(5) that by (auto split: sum.splits)
    then have "?P pad3 t blob" using t(1-4) pw(1-3) g [OF pw(4)] by blast
    then show ?thesis by blast
  qed (use none in blast)
qed

section \<open>Import\<close>

text \<open>
  C21: A host alone cannot replace the identity. An import that touches any file, if only for a moment, was opened with a PIN typed on
  the node, held a key of exactly 64 bytes, and was agreed to on the node's screen.
\<close>

theorem import_needs_the_user:
  assumes "on_identity_import_request env c b he u blob (pad, s) = Some r" "t = snd (state_of r)"
    and "files t \<noteq> files s \<or> eeprom t \<noteq> eeprom s \<or> disks t \<noteq> disks s"
  shows "urns_ready s \<and> (\<exists>pin pad1 idn pad2. vault_unlock_prompt he (pin_passes1 u) pad = Some (pin, pad1) \<and>
    vault_unwrap_blob c blob pin = Inr idn \<and> length idn = VAULT_IDENTITY_KEYSIZE_BYTES \<and>
    vault_identity_confirm he (confirm_passes u) pad1 = Some (True, pad2))"
  using assms
  by (auto simp: on_identity_import_request_def vault_identity_import_flow_def Let_def split: if_splits option.splits sum.splits)

text \<open>An import the user agrees to: the host is told that it succeeded, and the node restarts.\<close>

lemma import_accepted:
  assumes "gcm_law c" "unlocked_with c pw s" "start_node c pw (power_up (files s, eeprom s) s) = Running old" "disks s = []"
    and "urns_ready s" "link_ok b s" "vault_unlock_prompt he (pin_passes1 u) pad = Some (pin, pad1)"
    and "vault_identity_confirm he (confirm_passes u) pad1 = Some (True, pad2)"
    and "vault_unwrap_blob c blob pin = Inr idn" "length idn = VAULT_IDENTITY_KEYSIZE_BYTES" "\<And>n bs. fs_stored env n bs = bs"
  shows "\<exists>t. on_identity_import_request env c b he u blob (pad, s) = Some (Rebooted (pad2, t)) \<and>
    host_bytes t = host_bytes s @ frames_bytes (select_frames b) @ kiss_frame CMD_IDENTITY_IMPORT [0x01] \<and>
    start_node c pw (power_up (files t, eeprom t) s) = Running (if fs_ok env (fs_calls s + 1) then idn else old)"
proof -
  obtain ok t where t: "vault_identity_commit env c b idn s = Ret (ok, t)" "commit_result c pw old idn env s ok t"
    by (rule identity_commit [OF assms(1-4)])
  have ok: ok "link_ok b t" "host_bytes t = host_bytes s" using t(2) assms(6,11) by (simp_all add: commit_result_def)
  have "on_identity_import_request env c b he u blob (pad, s) = Some (Rebooted (pad2, kiss_indicate_identity_import_result b True t))"
    using t(1) ok(1) assms(5,7-10) by (simp add: on_identity_import_request_def vault_identity_import_flow_def)
  moreover have "start_node c pw (power_up (files t, eeprom t) s) = Running (if fs_ok env (fs_calls s + 1) then idn else old)"
    using t(2) ok(1) by (simp add: commit_result_def)
  ultimately show ?thesis using ok(2,3) by (simp add: transfer_bytes byte_of_bool_def)
qed

text \<open>
  C10: An identity moves from one node to another. The user of the first node enters an export PIN twice (and the
  node's own PIN if it has one); the host decodes the reply and sends its content to the second node as a frame of
  its own, which the command parser collects byte for byte; there the same PIN is entered and the question answered.
  The second node then tells its host that all went well and, under its own PIN or none, starts with the identity
  of the first.
\<close>

theorem identity_moves_between_nodes:
  assumes "gcm_law c"
    and a: "link_ok a s" "host_bytes s = []" "identity_to_export c s = Inr idn" "length idn = VAULT_IDENTITY_KEYSIZE_BYTES"
    and gate: "export_gate c he (verify_passes u) (pad, s) = Some (True, pad1)"
    and pins: "vault_unlock_prompt he (pin_passes1 u) pad1 = Some (pin, pad2)" "vault_unlock_prompt he (pin_passes2 u) pad2 = Some (pin, pad3)"
      "VAULT_PIN_MIN_LEN \<le> length pin"
    and b: "has_urns b" "console_ok p" "\<not> ESCAPE p" "between_frames s'" "urns_ready s'" "link_ok b s'" "disks s' = []"
    and running: "unlocked_with c pw s'" "start_node c pw (power_up (files s', eeprom s') s') = Running old"
    and user: "vault_unlock_prompt he' (pin_passes1 u') pad' = Some (pin, pad1')" "vault_identity_confirm he' (confirm_passes u') pad1' = Some (True, pad2')"
    and fs: "\<And>n bs. fs_stored env' n bs = bs" "\<And>n. fs_ok env' n"
    and xs: "\<And>blob. (CMD_IDENTITY_EXPORT, blob) \<in> set (kiss_decode (host_bytes t)) \<Longrightarrow> map snd xs = kiss_frame CMD_IDENTITY_IMPORT blob"
    and t: "vault_identity_export_flow env c a he u (pad, s) = Some (Ret (q, t))"
  shows "\<exists>blob p' s'' t'. (CMD_IDENTITY_EXPORT, blob) \<in> set (kiss_decode (host_bytes t)) \<and>
    serial_poll b xs (p, s') = Ret (p', s'') \<and> calls p' = calls p @ [OnIdentityImport blob] \<and>
    on_identity_import_request env' c b he' u' blob (pad', s'') = Some (Rebooted (pad2', t')) \<and>
    (\<exists>fs. host_bytes t' = host_bytes s' @ fs @ kiss_frame CMD_IDENTITY_IMPORT [0x01]) \<and>
    start_node c pw (power_up (files t', eeprom t') s'') = Running idn"
proof -
  have l: "\<forall>p. identity_to_export c s = Inr p \<longrightarrow> length p < 2 ^ 32 - 58" using a(3,4) by simp
  obtain blob where blob: "host_bytes t = frames_bytes (select_frames a) @ kiss_frame CMD_IDENTITY_EXPORT blob"
    "vault_unwrap_blob c blob pin = Inr idn" "length blob = length idn + 58"
    using send_identity [OF assms(1) a(1) l, of env pin pad3] t a(2,3) gate pins
    by (auto simp: vault_identity_export_flow_def)
  have d: "kiss_decode (host_bytes t) = select_frames a @ [(CMD_IDENTITY_EXPORT, blob)]"
    unfolding blob(1) by (rule frames_bytes_decode) (simp_all add: select_frames_ok)
  then have f: "map snd xs = kiss_frame CMD_IDENTITY_IMPORT blob" using xs by simp
  let ?s = "s'\<lparr>IN_FRAME := False, kiss_command := CMD_IDENTITY_IMPORT\<rparr>"
  have n: "length blob \<le> MTU" "blob \<noteq> []" using blob(3) a(4) by auto
  obtain p' where p': "serial_poll b xs (p, s') = Ret (p', ?s)" "calls p' = calls p @ [OnIdentityImport blob]"
    using import_frame [OF b(1-4) n f] by blast
  have same: "files ?s = files s'" "eeprom ?s = eeprom s'" "disks ?s = []" "urns_ready ?s" "link_ok b ?s" "host_bytes ?s = host_bytes s'"
    "unlocked_with c pw ?s"
    using b(5-7) running(1) open_vk_cong [of ?s s' c pw] by (simp_all add: link_ok_def host_bytes_def unlocked_with_def)
  have st: "start_node c pw (power_up (files ?s, eeprom ?s) ?s) = Running old" using running(2) by (simp add: start_power_up)
  obtain t' where "on_identity_import_request env' c b he' u' blob (pad', ?s) = Some (Rebooted (pad2', t'))"
    "host_bytes t' = host_bytes s' @ frames_bytes (select_frames b) @ kiss_frame CMD_IDENTITY_IMPORT [0x01]"
    "start_node c pw (power_up (files t', eeprom t') ?s) = Running idn"
    using import_accepted [OF assms(1) same(7) st same(3-5) user blob(2) a(4) fs(1)] fs(2) same(6) by auto
  moreover have "(CMD_IDENTITY_EXPORT, blob) \<in> set (kiss_decode (host_bytes t))" by (simp add: d)
  ultimately show ?thesis using p' by blast
qed

text \<open>
  A rename that fails is not noticed: the host is told that the import succeeded, and the node restarts
  with the identity it had.
\<close>

theorem failed_rename_is_acknowledged:
  assumes "gcm_law c" "unlocked_with c pw s" "start_node c pw (power_up (files s, eeprom s) s) = Running old" "disks s = []"
    and "urns_ready s" "link_ok b s" "vault_unlock_prompt he (pin_passes1 u) pad = Some (pin, pad1)"
    and "vault_identity_confirm he (confirm_passes u) pad1 = Some (True, pad2)"
    and "vault_unwrap_blob c blob pin = Inr idn" "length idn = VAULT_IDENTITY_KEYSIZE_BYTES" "\<And>n bs. fs_stored env n bs = bs"
    and "\<not> fs_ok env (fs_calls s + 1)"
  shows "\<exists>t. on_identity_import_request env c b he u blob (pad, s) = Some (Rebooted (pad2, t)) \<and>
    (\<exists>fs. host_bytes t = host_bytes s @ fs @ kiss_frame CMD_IDENTITY_IMPORT [0x01]) \<and>
    start_node c pw (power_up (files t, eeprom t) s) = Running old"
  using import_accepted [OF assms(1-11)] assms(12) by auto

section \<open>The transfer at work\<close>

definition eight_zeros :: "nat list" where
  "eight_zeros = replicate 8 0"

definition typed :: "u32 \<Rightarrow> pin_pad \<Rightarrow> pin_pad" where
  "typed t pad = snd (the (vault_unlock_prompt False (pin_passes t eight_zeros) pad))"

lemma typed_twice:
  "vault_unlock_prompt False (pin_passes 0 eight_zeros) pad_start = Some (replicate 8 0x30, typed 0 pad_start)"
  "vault_unlock_prompt False (pin_passes 20000 eight_zeros) (typed 0 pad_start) =
     Some (replicate 8 0x30, typed 20000 (typed 0 pad_start))"
  by code_simp+

definition agreed :: "pin_pad" where
  "agreed = snd (the (vault_identity_confirm False (hold 40000) (typed 0 pad_start)))"

lemma agreed: "vault_identity_confirm False (hold 40000) (typed 0 pad_start) = Some (True, agreed)"
  by code_simp

text \<open>A user who types this PIN wherever one is asked for and agrees to everything, and two nodes without protection.\<close>

definition willing_user :: transfer_user where
  "willing_user =
     \<lparr>verify_passes = [], pin_passes1 = pin_passes 0 eight_zeros, pin_passes2 = pin_passes 20000 eight_zeros, confirm_passes = hold 40000\<rparr>"

definition urns_board :: board where
  "urns_board = board_meshpoe_s3\<lparr>has_urns := True\<rparr>"

definition urns_node :: "u8 list \<Rightarrow> vault" where
  "urns_node idn = (vault_start urns_board (\<lambda>a. 0xFF) idn)\<lparr>usb_avail := True, urns_ready := True, IN_FRAME := False\<rparr>"

abbreviation (input) first_key :: "u8 list" where "first_key \<equiv> replicate 64 7"
abbreviation (input) second_key :: "u8 list" where "second_key \<equiv> replicate 64 8"

lemma urns_node [simp]:
  "files (urns_node idn) LegacyIdentity = Some idn" "\<not> vault_enabled (urns_node idn)" "disks (urns_node idn) = []"
  "eeprom (urns_node idn) = (\<lambda>a. 0xFF)" "link_ok urns_board (urns_node idn)" "host_bytes (urns_node idn) = []" "urns_ready (urns_node idn)"
  "between_frames (urns_node idn)"
  by (simp_all add: urns_node_def vault_start_def device.defs device_start_defs link_ok_def host_bytes_def between_frames_def)

lemma urns_node_runs:
  "unlocked_with c pw (urns_node idn)" "start_node c pw (power_up (files (urns_node idn), eeprom (urns_node idn)) u) = Running idn"
  "idn \<noteq> [] \<Longrightarrow> identity_to_export c (urns_node idn) = Inr idn"
  by (simp_all add: unlocked_with_def start_power_up identity_to_export_def read_file_def)

lemma toy_env [simp]: "fs_stored toy_vault_env n bs = bs" "fs_ok toy_vault_env n"
  by (simp_all add: toy_vault_env_def)

lemma willing_user [simp]:
  "verify_passes willing_user = []" "pin_passes1 willing_user = pin_passes 0 eight_zeros"
  "pin_passes2 willing_user = pin_passes 20000 eight_zeros" "confirm_passes willing_user = hold 40000"
  by (simp_all add: willing_user_def)

theorem identity_is_replaced_atomically_witness:
  "\<exists>ok t. vault_identity_commit toy_vault_env toy_vault_crypto urns_board second_key (urns_node first_key) = Ret (ok, t) \<and>
    (\<forall>d \<in> set (disks t). start_node toy_vault_crypto [] (power_up d (urns_node first_key)) \<in> {Running first_key, Running second_key})"
  using identity_is_replaced_atomically [OF toy_vault_law urns_node_runs(1,2) urns_node(3), where new = second_key and env = toy_vault_env
      and b = urns_board and pw = "[]"] by blast

text \<open>The export of the first node, which the witnesses below start from.\<close>

definition export_result :: "pin_pad \<times> vault" where
  "export_result =
     state_of (the (vault_identity_export_flow toy_vault_env toy_vault_crypto urns_board False willing_user (pad_start, urns_node first_key)))"

definition exported :: "u8 list" where
  "exported = snd (hd (rev (kiss_decode (host_bytes (snd export_result)))))"

lemma export_result:
  "vault_identity_export_flow toy_vault_env toy_vault_crypto urns_board False willing_user (pad_start, urns_node first_key) = Some (Ret export_result)"
  "kiss_decode (host_bytes (snd export_result)) = select_frames urns_board @ [(CMD_IDENTITY_EXPORT, exported)]"
  "vault_unwrap_blob toy_vault_crypto exported (replicate 8 0x30) = Inr first_key" "exported \<noteq> []"
proof -
  have n: "first_key \<noteq> []" by simp
  have l: "\<forall>p. identity_to_export toy_vault_crypto (urns_node first_key) = Inr p \<longrightarrow> length p < 2 ^ 32 - 58"
    by (simp add: urns_node_runs(3) [OF n])
  obtain t blob where s: "send_identity toy_vault_env toy_vault_crypto urns_board (replicate 8 0x30) (typed 20000 (typed 0 pad_start), urns_node first_key) =
      Ret (typed 20000 (typed 0 pad_start), t)" "host_bytes t = frames_bytes (select_frames urns_board) @ kiss_frame CMD_IDENTITY_EXPORT blob"
    "vault_unwrap_blob toy_vault_crypto blob (replicate 8 0x30) = Inr first_key" "length blob = 122"
    using send_identity [OF toy_vault_law urns_node(5) l, of toy_vault_env "replicate 8 0x30" "typed 20000 (typed 0 pad_start)"]
    by (auto simp: urns_node_runs(3) [OF n])
  show f: "vault_identity_export_flow toy_vault_env toy_vault_crypto urns_board False willing_user (pad_start, urns_node first_key) = Some (Ret export_result)"
    using s(1) by (simp add: export_result_def vault_identity_export_flow_def export_gate_def typed_twice)
  have "export_result = (typed 20000 (typed 0 pad_start), t)"
    using s(1) by (simp add: export_result_def vault_identity_export_flow_def export_gate_def typed_twice)
  then have r: "snd export_result = t" by (metis snd_conv)
  have d: "kiss_decode (host_bytes t) = select_frames urns_board @ [(CMD_IDENTITY_EXPORT, blob)]"
    unfolding s(2) by (rule frames_bytes_decode) (simp_all add: select_frames_ok)
  have "exported = blob" unfolding exported_def r d by simp
  then show "kiss_decode (host_bytes (snd export_result)) = select_frames urns_board @ [(CMD_IDENTITY_EXPORT, exported)]"
    "vault_unwrap_blob toy_vault_crypto exported (replicate 8 0x30) = Inr first_key" "exported \<noteq> []"
    using d s(3,4) unfolding r by auto
qed

theorem export_needs_the_pin_witness:
  "\<exists>pad t blob. vault_identity_export_flow toy_vault_env toy_vault_crypto urns_board False willing_user (pad_start, urns_node first_key) =
      Some (Ret (pad, t)) \<and> host_bytes t = frames_bytes (select_frames urns_board) @ kiss_frame CMD_IDENTITY_EXPORT blob"
  using export_needs_the_pin [OF toy_vault_law urns_node(5) _ export_result(1)] export_result(1) by (simp add: urns_node_runs(3)) blast

theorem import_needs_the_user_witness:
  "\<exists>r. on_identity_import_request toy_vault_env toy_vault_crypto urns_board False willing_user exported (pad_start, urns_node second_key) = Some r \<and>
    (\<exists>pin pad1 pad2. vault_unlock_prompt False (pin_passes1 willing_user) pad_start = Some (pin, pad1) \<and>
      vault_identity_confirm False (confirm_passes willing_user) pad1 = Some (True, pad2))"
proof -
  obtain t where t: "on_identity_import_request toy_vault_env toy_vault_crypto urns_board False willing_user exported (pad_start, urns_node second_key) =
      Some (Rebooted (agreed, t))" "start_node toy_vault_crypto [] (power_up (files t, eeprom t) (urns_node second_key)) = Running first_key"
    using import_accepted [where u = willing_user and he = False and pad = pad_start and ?pad2.0 = agreed, OF toy_vault_law urns_node_runs(1,2) urns_node(3,7,5)
        _ _ export_result(3), where env = toy_vault_env and ?pad1.0 = "typed 0 pad_start" and pw = "[]"] agreed typed_twice
    by auto
  have "files t \<noteq> files (urns_node second_key) \<or> eeprom t \<noteq> eeprom (urns_node second_key)"
    using t(2) urns_node_runs(2) [of toy_vault_crypto "[]" second_key "urns_node second_key"] by auto
  then show ?thesis using import_needs_the_user [OF t(1), of t] t(1) by auto
qed

theorem identity_moves_between_nodes_witness:
  "\<exists>p' s'' t'. serial_poll urns_board (map (Pair quiet_env) (kiss_frame CMD_IDENTITY_IMPORT exported)) (console_start, urns_node second_key) = Ret (p', s'') \<and>
    on_identity_import_request toy_vault_env toy_vault_crypto urns_board False willing_user exported (pad_start, s'') = Some (Rebooted (agreed, t')) \<and>
    start_node toy_vault_crypto [] (power_up (files t', eeprom t') s'') = Running first_key"
proof -
  have frames: "(CMD_IDENTITY_EXPORT, blob) \<in> set (kiss_decode (host_bytes (snd export_result))) \<longleftrightarrow> blob = exported" for blob
    by (auto simp: export_result(2) select_frames_def)
  have x: "vault_identity_export_flow toy_vault_env toy_vault_crypto urns_board False willing_user (pad_start, urns_node first_key) =
      Some (Ret (fst export_result, snd export_result))" by (simp add: export_result(1))
  have g: "export_gate toy_vault_crypto False (verify_passes willing_user) (pad_start, urns_node first_key) = Some (True, pad_start)"
    "vault_unlock_prompt False (pin_passes1 willing_user) pad_start = Some (replicate 8 0x30, typed 0 pad_start)"
    "vault_unlock_prompt False (pin_passes2 willing_user) (typed 0 pad_start) = Some (replicate 8 0x30, typed 20000 (typed 0 pad_start))"
    "vault_identity_confirm False (confirm_passes willing_user) (typed 0 pad_start) = Some (True, agreed)"
    "has_urns urns_board" "4 \<le> length (replicate 8 (0x30 :: u8))" "identity_to_export toy_vault_crypto (urns_node first_key) = Inr first_key"
    "length first_key = 64" "map snd (map (Pair quiet_env) (kiss_frame CMD_IDENTITY_IMPORT exported)) = kiss_frame CMD_IDENTITY_IMPORT exported"
    by (simp_all add: export_gate_def typed_twice agreed urns_board_def urns_node_runs comp_def)
  show ?thesis
    using identity_moves_between_nodes [where s' = "urns_node second_key" and pw = "[]"
        and xs = "map (Pair quiet_env) (kiss_frame CMD_IDENTITY_IMPORT exported)", OF toy_vault_law urns_node(5,6) g(7,8,1,2,3,6,5) console_start_ok urns_node(8,7,5,3) urns_node_runs(1,2) g(2,4)
        toy_env _ x] g(9) frames
    by auto
qed

end
