(* ===== verification/Sx127x.thy ===== *)
theory Sx127x
  imports Radio_State
begin

text \<open>
  The driver of the SX1276 and SX1278 modems (\<^verbatim>\<open>sx127x.cpp\<close>). The chip is behind a serial bus: the record \<open>modem_chip\<close> holds
  what one transaction of two bytes does, what passing time does, and how its registers and its packet buffer are
  observed; \<open>chip_law\<close> states what is relied on of it, as the data sheet documents. Switching pins and attaching the
  interrupt are left out, and so is the estimate of the frequency error, which is computed in floating point.
\<close>

section \<open>Registers\<close>

abbreviation (input) REG_FIFO_7X :: u8 where "REG_FIFO_7X \<equiv> 0x00"
abbreviation (input) REG_OP_MODE_7X :: u8 where "REG_OP_MODE_7X \<equiv> 0x01"
abbreviation (input) REG_FRF_MSB_7X :: u8 where "REG_FRF_MSB_7X \<equiv> 0x06"
abbreviation (input) REG_FRF_MID_7X :: u8 where "REG_FRF_MID_7X \<equiv> 0x07"
abbreviation (input) REG_FRF_LSB_7X :: u8 where "REG_FRF_LSB_7X \<equiv> 0x08"
abbreviation (input) REG_PA_CONFIG_7X :: u8 where "REG_PA_CONFIG_7X \<equiv> 0x09"
abbreviation (input) REG_OCP_7X :: u8 where "REG_OCP_7X \<equiv> 0x0b"
abbreviation (input) REG_LNA_7X :: u8 where "REG_LNA_7X \<equiv> 0x0c"
abbreviation (input) REG_FIFO_ADDR_PTR_7X :: u8 where "REG_FIFO_ADDR_PTR_7X \<equiv> 0x0d"
abbreviation (input) REG_FIFO_TX_BASE_ADDR_7X :: u8 where "REG_FIFO_TX_BASE_ADDR_7X \<equiv> 0x0e"
abbreviation (input) REG_FIFO_RX_BASE_ADDR_7X :: u8 where "REG_FIFO_RX_BASE_ADDR_7X \<equiv> 0x0f"
abbreviation (input) REG_FIFO_RX_CURRENT_ADDR_7X :: u8 where "REG_FIFO_RX_CURRENT_ADDR_7X \<equiv> 0x10"
abbreviation (input) REG_IRQ_FLAGS_7X :: u8 where "REG_IRQ_FLAGS_7X \<equiv> 0x12"
abbreviation (input) REG_RX_NB_BYTES_7X :: u8 where "REG_RX_NB_BYTES_7X \<equiv> 0x13"
abbreviation (input) REG_MODEM_STAT_7X :: u8 where "REG_MODEM_STAT_7X \<equiv> 0x18"
abbreviation (input) REG_PKT_SNR_VALUE_7X :: u8 where "REG_PKT_SNR_VALUE_7X \<equiv> 0x19"
abbreviation (input) REG_PKT_RSSI_VALUE_7X :: u8 where "REG_PKT_RSSI_VALUE_7X \<equiv> 0x1a"
abbreviation (input) REG_RSSI_VALUE_7X :: u8 where "REG_RSSI_VALUE_7X \<equiv> 0x1b"
abbreviation (input) REG_MODEM_CONFIG_1_7X :: u8 where "REG_MODEM_CONFIG_1_7X \<equiv> 0x1d"
abbreviation (input) REG_MODEM_CONFIG_2_7X :: u8 where "REG_MODEM_CONFIG_2_7X \<equiv> 0x1e"
abbreviation (input) REG_PREAMBLE_MSB_7X :: u8 where "REG_PREAMBLE_MSB_7X \<equiv> 0x20"
abbreviation (input) REG_PREAMBLE_LSB_7X :: u8 where "REG_PREAMBLE_LSB_7X \<equiv> 0x21"
abbreviation (input) REG_PAYLOAD_LENGTH_7X :: u8 where "REG_PAYLOAD_LENGTH_7X \<equiv> 0x22"
abbreviation (input) REG_MODEM_CONFIG_3_7X :: u8 where "REG_MODEM_CONFIG_3_7X \<equiv> 0x26"
abbreviation (input) REG_FREQ_ERROR_MSB_7X :: u8 where "REG_FREQ_ERROR_MSB_7X \<equiv> 0x28"
abbreviation (input) REG_FREQ_ERROR_MID_7X :: u8 where "REG_FREQ_ERROR_MID_7X \<equiv> 0x29"
abbreviation (input) REG_FREQ_ERROR_LSB_7X :: u8 where "REG_FREQ_ERROR_LSB_7X \<equiv> 0x2a"
abbreviation (input) REG_RSSI_WIDEBAND_7X :: u8 where "REG_RSSI_WIDEBAND_7X \<equiv> 0x2c"
abbreviation (input) REG_DETECTION_OPTIMIZE_7X :: u8 where "REG_DETECTION_OPTIMIZE_7X \<equiv> 0x31"
abbreviation (input) REG_HIGH_BW_OPTIMIZE_1_7X :: u8 where "REG_HIGH_BW_OPTIMIZE_1_7X \<equiv> 0x36"
abbreviation (input) REG_DETECTION_THRESHOLD_7X :: u8 where "REG_DETECTION_THRESHOLD_7X \<equiv> 0x37"
abbreviation (input) REG_SYNC_WORD_7X :: u8 where "REG_SYNC_WORD_7X \<equiv> 0x39"
abbreviation (input) REG_HIGH_BW_OPTIMIZE_2_7X :: u8 where "REG_HIGH_BW_OPTIMIZE_2_7X \<equiv> 0x3a"
abbreviation (input) REG_DIO_MAPPING_1_7X :: u8 where "REG_DIO_MAPPING_1_7X \<equiv> 0x40"
abbreviation (input) REG_VERSION_7X :: u8 where "REG_VERSION_7X \<equiv> 0x42"
abbreviation (input) REG_TCXO_7X :: u8 where "REG_TCXO_7X \<equiv> 0x4b"
abbreviation (input) REG_PA_DAC_7X :: u8 where "REG_PA_DAC_7X \<equiv> 0x4d"
abbreviation (input) MODE_LONG_RANGE_MODE_7X :: u8 where "MODE_LONG_RANGE_MODE_7X \<equiv> 0x80"
abbreviation (input) MODE_SLEEP_7X :: u8 where "MODE_SLEEP_7X \<equiv> 0x00"
abbreviation (input) MODE_STDBY_7X :: u8 where "MODE_STDBY_7X \<equiv> 0x01"
abbreviation (input) MODE_TX_7X :: u8 where "MODE_TX_7X \<equiv> 0x03"
abbreviation (input) MODE_RX_CONTINUOUS_7X :: u8 where "MODE_RX_CONTINUOUS_7X \<equiv> 0x05"
abbreviation (input) MODE_RX_SINGLE_7X :: u8 where "MODE_RX_SINGLE_7X \<equiv> 0x06"
abbreviation (input) PA_BOOST_7X :: u8 where "PA_BOOST_7X \<equiv> 0x80"
abbreviation (input) IRQ_TX_DONE_MASK_7X :: u8 where "IRQ_TX_DONE_MASK_7X \<equiv> 0x08"
abbreviation (input) IRQ_RX_DONE_MASK_7X :: u8 where "IRQ_RX_DONE_MASK_7X \<equiv> 0x40"
abbreviation (input) IRQ_PAYLOAD_CRC_ERROR_MASK_7X :: u8 where "IRQ_PAYLOAD_CRC_ERROR_MASK_7X \<equiv> 0x20"
abbreviation (input) SYNC_WORD_7X :: u8 where "SYNC_WORD_7X \<equiv> 0x12"
abbreviation (input) MAX_PKT_LENGTH :: nat where "MAX_PKT_LENGTH \<equiv> 255"
abbreviation (input) RSSI_OFFSET :: int where "RSSI_OFFSET \<equiv> 157"

section \<open>The bus\<close>

record 'c modem_chip =
  spi_transfer :: "u8 \<Rightarrow> u8 \<Rightarrow> 'c \<Rightarrow> u8 \<times> 'c"
  elapse :: "'c \<Rightarrow> 'c"
  restart :: "'c \<Rightarrow> 'c"
  chip_reg :: "'c \<Rightarrow> u8 \<Rightarrow> u8"
  chip_fifo :: "'c \<Rightarrow> u8 \<Rightarrow> u8"

record 'c sx127x =
  chip :: 'c
  sx_frequency :: u32
  sx_packetIndex :: int
  sx_implicitHeaderMode :: bool
  sx_preinit_done :: bool
  low_datarate :: bool

definition sx127x_singleTransfer :: "'c modem_chip \<Rightarrow> u8 \<Rightarrow> u8 \<Rightarrow> 'c sx127x \<Rightarrow> u8 \<times> 'c sx127x" where
  "sx127x_singleTransfer T address v s = (let (response, c) = spi_transfer T address v (chip s) in (response, s\<lparr>chip := c\<rparr>))"

definition sx127x_readRegister :: "'c modem_chip \<Rightarrow> u8 \<Rightarrow> 'c sx127x \<Rightarrow> u8 \<times> 'c sx127x" where
  "sx127x_readRegister T address s = sx127x_singleTransfer T (address AND 0x7F) 0x00 s"

definition sx127x_writeRegister :: "'c modem_chip \<Rightarrow> u8 \<Rightarrow> u8 \<Rightarrow> 'c sx127x \<Rightarrow> 'c sx127x" where
  "sx127x_writeRegister T address v s = snd (sx127x_singleTransfer T (address OR 0x80) v s)"

text \<open>A register changed by a function of its value.\<close>

definition update_register :: "'c modem_chip \<Rightarrow> u8 \<Rightarrow> (u8 \<Rightarrow> u8) \<Rightarrow> 'c sx127x \<Rightarrow> 'c sx127x" where
  "update_register T address f s = (let (v, s) = sx127x_readRegister T address s in sx127x_writeRegister T address (f v) s)"

section \<open>Modes and settings\<close>

definition sx127x_standby :: "'c modem_chip \<Rightarrow> 'c sx127x \<Rightarrow> 'c sx127x" where
  "sx127x_standby T s = sx127x_writeRegister T REG_OP_MODE_7X (MODE_LONG_RANGE_MODE_7X OR MODE_STDBY_7X) s"

definition sx127x_sleep :: "'c modem_chip \<Rightarrow> 'c sx127x \<Rightarrow> 'c sx127x" where
  "sx127x_sleep T s = sx127x_writeRegister T REG_OP_MODE_7X (MODE_LONG_RANGE_MODE_7X OR MODE_SLEEP_7X) s"

definition sx127x_setSyncWord :: "'c modem_chip \<Rightarrow> u8 \<Rightarrow> 'c sx127x \<Rightarrow> 'c sx127x" where
  "sx127x_setSyncWord T sw s = sx127x_writeRegister T REG_SYNC_WORD_7X sw s"

definition sx127x_enableCrc :: "'c modem_chip \<Rightarrow> 'c sx127x \<Rightarrow> 'c sx127x" where
  "sx127x_enableCrc T s = update_register T REG_MODEM_CONFIG_2_7X (\<lambda>v. v OR 0x04) s"

definition sx127x_disableCrc :: "'c modem_chip \<Rightarrow> 'c sx127x \<Rightarrow> 'c sx127x" where
  "sx127x_disableCrc T s = update_register T REG_MODEM_CONFIG_2_7X (\<lambda>v. v AND 0xFB) s"

definition sx127x_enableTCXO :: "'c modem_chip \<Rightarrow> 'c sx127x \<Rightarrow> 'c sx127x" where
  "sx127x_enableTCXO T s = update_register T REG_TCXO_7X (\<lambda>v. v OR 0x10) s"

definition sx127x_disableTCXO :: "'c modem_chip \<Rightarrow> 'c sx127x \<Rightarrow> 'c sx127x" where
  "sx127x_disableTCXO T s = update_register T REG_TCXO_7X (\<lambda>v. v AND 0xEF) s"

definition sx127x_explicitHeaderMode :: "'c modem_chip \<Rightarrow> 'c sx127x \<Rightarrow> 'c sx127x" where
  "sx127x_explicitHeaderMode T s =
     update_register T REG_MODEM_CONFIG_1_7X (\<lambda>v. v AND 0xFE) (s\<lparr>sx_implicitHeaderMode := False\<rparr>)"

definition sx127x_implicitHeaderMode :: "'c modem_chip \<Rightarrow> 'c sx127x \<Rightarrow> 'c sx127x" where
  "sx127x_implicitHeaderMode T s =
     update_register T REG_MODEM_CONFIG_1_7X (\<lambda>v. v OR 0x01) (s\<lparr>sx_implicitHeaderMode := True\<rparr>)"

definition sx127x_random :: "'c modem_chip \<Rightarrow> 'c sx127x \<Rightarrow> u8 \<times> 'c sx127x" where
  "sx127x_random T s = sx127x_readRegister T REG_RSSI_WIDEBAND_7X s"

definition sx127x_setTxPower :: "'c modem_chip \<Rightarrow> int \<Rightarrow> pa_pin \<Rightarrow> 'c sx127x \<Rightarrow> 'c sx127x" where
  "sx127x_setTxPower T level pin s =
     (if pin = RFO then
        (let level = (if level < 0 then 0 else if level > 14 then 14 else level)
         in sx127x_writeRegister T REG_PA_CONFIG_7X (0x70 OR word_of_int level) (sx127x_writeRegister T REG_PA_DAC_7X 0x84 s))
      else
        (let level = (if level < 2 then 2 else if level > 17 then 17 else level)
         in sx127x_writeRegister T REG_PA_CONFIG_7X (PA_BOOST_7X OR word_of_int (level - 2)) (sx127x_writeRegister T REG_PA_DAC_7X 0x84 s)))"

definition sx127x_getTxPower :: "'c modem_chip \<Rightarrow> 'c sx127x \<Rightarrow> u8 \<times> 'c sx127x" where
  "sx127x_getTxPower T s = sx127x_readRegister T REG_PA_CONFIG_7X s"

definition sx127x_getFrequency :: "'c modem_chip \<Rightarrow> 'c sx127x \<Rightarrow> u32 \<times> 'c sx127x" where
  "sx127x_getFrequency T s =
     (let (msb, s) = sx127x_readRegister T REG_FRF_MSB_7X s;
          (mid, s) = sx127x_readRegister T REG_FRF_MID_7X s;
          (lsb, s) = sx127x_readRegister T REG_FRF_LSB_7X s;
          frf = unat (of_be32 0 msb mid lsb)
      in (of_nat (frf * 32000000 div 2 ^ 19), s))"

definition sx127x_optimizeModemSensitivity :: "'c modem_chip \<Rightarrow> 'c sx127x \<Rightarrow> 'c sx127x" where
  "sx127x_optimizeModemSensitivity T s =
     (let (v, s) = sx127x_readRegister T REG_MODEM_CONFIG_1_7X s; bw = drop_bit 4 v;
          (freq, s) = sx127x_getFrequency T s
      in if bw = 9 \<and> 410000000 \<le> freq \<and> freq \<le> 525000000 then
           sx127x_writeRegister T REG_HIGH_BW_OPTIMIZE_2_7X 0x7F (sx127x_writeRegister T REG_HIGH_BW_OPTIMIZE_1_7X 0x02 s)
         else if bw = 9 \<and> 820000000 \<le> freq \<and> freq \<le> 1020000000 then
           sx127x_writeRegister T REG_HIGH_BW_OPTIMIZE_2_7X 0x64 (sx127x_writeRegister T REG_HIGH_BW_OPTIMIZE_1_7X 0x02 s)
         else sx127x_writeRegister T REG_HIGH_BW_OPTIMIZE_1_7X 0x03 s)"

definition sx127x_setFrequency :: "'c modem_chip \<Rightarrow> u32 \<Rightarrow> 'c sx127x \<Rightarrow> 'c sx127x" where
  "sx127x_setFrequency T f s =
     (let s = s\<lparr>sx_frequency := f\<rparr>;
          frf = (of_nat (unat f * 2 ^ 19 div 32000000) :: u32);
          s = sx127x_writeRegister T REG_FRF_MSB_7X (ucast (drop_bit 16 frf)) s;
          s = sx127x_writeRegister T REG_FRF_MID_7X (ucast (drop_bit 8 frf)) s;
          s = sx127x_writeRegister T REG_FRF_LSB_7X (ucast frf) s
      in sx127x_optimizeModemSensitivity T s)"

definition bandwidth_table :: "int list" where
  "bandwidth_table = [7800, 10400, 15600, 20800, 31250, 41700, 62500, 125000, 250000, 500000]"

definition sx127x_getSignalBandwidth :: "'c modem_chip \<Rightarrow> 'c sx127x \<Rightarrow> int \<times> 'c sx127x" where
  "sx127x_getSignalBandwidth T s =
     (let (v, s) = sx127x_readRegister T REG_MODEM_CONFIG_1_7X s; bw = unat (drop_bit 4 v)
      in (if bw \<le> 9 then bandwidth_table ! bw else 0, s))"

text \<open>The division by the bandwidth in kHz traps when the register holds none of the ten codes.\<close>

definition low_rate :: "nat \<Rightarrow> int \<Rightarrow> bool" where
  "low_rate sf bw \<longleftrightarrow> 2 ^ sf div (bw div 1000) > 16"

definition sx127x_handleLowDataRate :: "'c modem_chip \<Rightarrow> 'c sx127x \<Rightarrow> 'c sx127x outcome" where
  "sx127x_handleLowDataRate T s =
     (let (v, s) = sx127x_readRegister T REG_MODEM_CONFIG_2_7X s; sf = unat (drop_bit 4 v);
          (bw, s) = sx127x_getSignalBandwidth T s
      in if bw div 1000 = 0 then Rebooted s
         else if low_rate sf bw then Ret ((sx127x_writeRegister T REG_MODEM_CONFIG_3_7X 0x0C s)\<lparr>low_datarate := True\<rparr>)
         else Ret ((sx127x_writeRegister T REG_MODEM_CONFIG_3_7X 0x04 s)\<lparr>low_datarate := False\<rparr>))"

definition clamp :: "int \<Rightarrow> int \<Rightarrow> int \<Rightarrow> int" where
  "clamp lo hi x = (if x < lo then lo else if x > hi then hi else x)"

definition sx127x_setSpreadingFactor :: "'c modem_chip \<Rightarrow> int \<Rightarrow> 'c sx127x \<Rightarrow> 'c sx127x outcome" where
  "sx127x_setSpreadingFactor T sf s =
     (let sf = clamp 6 12 sf;
          s = sx127x_writeRegister T REG_DETECTION_OPTIMIZE_7X (if sf = 6 then 0xC5 else 0xC3) s;
          s = sx127x_writeRegister T REG_DETECTION_THRESHOLD_7X (if sf = 6 then 0x0C else 0x0A) s;
          s = update_register T REG_MODEM_CONFIG_2_7X (\<lambda>v. (v AND 0x0F) OR (push_bit 4 (word_of_int sf) AND 0xF0)) s
      in sx127x_handleLowDataRate T s)"

definition bandwidth_code :: "int \<Rightarrow> u8" where
  "bandwidth_code sbw =
     (if sbw \<le> 7800 then 0 else if sbw \<le> 10400 then 1 else if sbw \<le> 15600 then 2 else if sbw \<le> 20800 then 3
      else if sbw \<le> 31250 then 4 else if sbw \<le> 41700 then 5 else if sbw \<le> 62500 then 6 else if sbw \<le> 125000 then 7
      else if sbw \<le> 250000 then 8 else 9)"

definition sx127x_setSignalBandwidth :: "'c modem_chip \<Rightarrow> int \<Rightarrow> 'c sx127x \<Rightarrow> 'c sx127x outcome" where
  "sx127x_setSignalBandwidth T sbw s =
     then_do (sx127x_handleLowDataRate T
        (update_register T REG_MODEM_CONFIG_1_7X (\<lambda>v. (v AND 0x0F) OR push_bit 4 (bandwidth_code sbw)) s))
       (\<lambda>s. Ret (sx127x_optimizeModemSensitivity T s))"

definition sx127x_setCodingRate4 :: "'c modem_chip \<Rightarrow> int \<Rightarrow> 'c sx127x \<Rightarrow> 'c sx127x" where
  "sx127x_setCodingRate4 T denominator s =
     (let cr = clamp 5 8 denominator - 4
      in update_register T REG_MODEM_CONFIG_1_7X (\<lambda>v. (v AND 0xF1) OR push_bit 1 (word_of_int cr)) s)"

definition sx127x_setPreambleLength :: "'c modem_chip \<Rightarrow> int \<Rightarrow> 'c sx127x \<Rightarrow> 'c sx127x" where
  "sx127x_setPreambleLength T preamble_symbols s =
     (let len = (word_of_int (preamble_symbols - 4) :: u32)
      in sx127x_writeRegister T REG_PREAMBLE_LSB_7X (ucast len) (sx127x_writeRegister T REG_PREAMBLE_MSB_7X (ucast (drop_bit 8 len)) s))"

section \<open>Start\<close>

definition sx127x_reset :: "'c modem_chip \<Rightarrow> bool \<Rightarrow> 'c sx127x \<Rightarrow> 'c sx127x" where
  "sx127x_reset T reset_pin s = (if reset_pin then s\<lparr>chip := restart T (chip s)\<rparr> else s)"

text \<open>
  \<open>ts\<close> are the milliseconds since the start at which the loop looks at the clock; the chip goes on in the
  pauses in between. \<open>version\<close> is not initialised.
\<close>

fun preInit_loop :: "'c modem_chip \<Rightarrow> nat list \<Rightarrow> u8 \<Rightarrow> 'c sx127x \<Rightarrow> u8 \<times> 'c sx127x" where
  "preInit_loop T [] version s = (version, s)"
| "preInit_loop T (t # ts) version s =
     (if t < 500 then
        (let (version, s) = sx127x_readRegister T REG_VERSION_7X s
         in if version = 0x12 then (version, s) else preInit_loop T ts version (s\<lparr>chip := elapse T (chip s)\<rparr>))
      else (version, s))"

definition sx127x_preInit :: "'c modem_chip \<Rightarrow> u8 \<Rightarrow> nat list \<Rightarrow> 'c sx127x \<Rightarrow> bool \<times> 'c sx127x" where
  "sx127x_preInit T version ts s =
     (let (version, s) = preInit_loop T ts version s
      in if version \<noteq> 0x12 then (False, s) else (True, s\<lparr>sx_preinit_done := True\<rparr>))"

definition sx127x_begin :: "'c modem_chip \<Rightarrow> bool \<Rightarrow> u8 \<Rightarrow> nat list \<Rightarrow> u32 \<Rightarrow> 'c sx127x \<Rightarrow> bool \<times> 'c sx127x" where
  "sx127x_begin T reset_pin version ts f s =
     (let s = sx127x_reset T reset_pin s;
          (ok, s) = (if \<not> sx_preinit_done s then sx127x_preInit T version ts s else (True, s))
      in if \<not> ok then (False, s)
         else
           (let s = sx127x_sleep T s;
                s = sx127x_setFrequency T f s;
                s = sx127x_writeRegister T REG_FIFO_TX_BASE_ADDR_7X 0 s;
                s = sx127x_writeRegister T REG_FIFO_RX_BASE_ADDR_7X 0 s;
                s = update_register T REG_LNA_7X (\<lambda>v. v OR 0x03) s;
                s = sx127x_writeRegister T REG_MODEM_CONFIG_3_7X 0x04 s;
                s = sx127x_setSyncWord T SYNC_WORD_7X s;
                s = sx127x_enableCrc T s;
                s = sx127x_setTxPower T 2 PA_BOOST s
            in (True, sx127x_standby T s)))"

definition sx127x_end :: "'c modem_chip \<Rightarrow> 'c sx127x \<Rightarrow> 'c sx127x" where
  "sx127x_end T s = (sx127x_sleep T s)\<lparr>sx_preinit_done := False\<rparr>"

section \<open>Sending\<close>

definition sx127x_beginPacket :: "'c modem_chip \<Rightarrow> bool \<Rightarrow> 'c sx127x \<Rightarrow> 'c sx127x" where
  "sx127x_beginPacket T implicitHeader s =
     (let s = sx127x_standby T s;
          s = (if implicitHeader then sx127x_implicitHeaderMode T s else sx127x_explicitHeaderMode T s);
          s = sx127x_writeRegister T REG_FIFO_ADDR_PTR_7X 0 s
      in sx127x_writeRegister T REG_PAYLOAD_LENGTH_7X 0 s)"

definition sx127x_write :: "'c modem_chip \<Rightarrow> u8 list \<Rightarrow> 'c sx127x \<Rightarrow> nat \<times> 'c sx127x" where
  "sx127x_write T buffer s =
     (let (v, s) = sx127x_readRegister T REG_PAYLOAD_LENGTH_7X s;
          currentLength = unat v;
          size = (if currentLength + length buffer > MAX_PKT_LENGTH then MAX_PKT_LENGTH - currentLength else length buffer);
          s = fold (sx127x_writeRegister T REG_FIFO_7X) (take size buffer) s
      in (size, sx127x_writeRegister T REG_PAYLOAD_LENGTH_7X (of_nat (currentLength + size)) s))"

text \<open>The chip goes on while the loop yields. There is no time limit: \<open>None\<close> when the chip never reports the end.\<close>

partial_function (option) tx_done_wait :: "'c modem_chip \<Rightarrow> 'c sx127x \<Rightarrow> 'c sx127x option" where
  "tx_done_wait T s =
     (let (irqs, s) = sx127x_readRegister T REG_IRQ_FLAGS_7X s
      in if irqs AND IRQ_TX_DONE_MASK_7X = 0 then tx_done_wait T (s\<lparr>chip := elapse T (chip s)\<rparr>) else Some s)"

definition sx127x_endPacket :: "'c modem_chip \<Rightarrow> 'c sx127x \<Rightarrow> 'c sx127x option" where
  "sx127x_endPacket T s =
     (case tx_done_wait T (sx127x_writeRegister T REG_OP_MODE_7X (MODE_LONG_RANGE_MODE_7X OR MODE_TX_7X) s) of
        None \<Rightarrow> None
      | Some s \<Rightarrow> Some (sx127x_writeRegister T REG_IRQ_FLAGS_7X IRQ_TX_DONE_MASK_7X s))"

section \<open>Receiving\<close>

definition sx127x_receive :: "'c modem_chip \<Rightarrow> int \<Rightarrow> 'c sx127x \<Rightarrow> 'c sx127x" where
  "sx127x_receive T len s =
     (let s = (if len > 0
               then sx127x_writeRegister T REG_PAYLOAD_LENGTH_7X (word_of_int len) (sx127x_implicitHeaderMode T s)
               else sx127x_explicitHeaderMode T s)
      in sx127x_writeRegister T REG_OP_MODE_7X (MODE_LONG_RANGE_MODE_7X OR MODE_RX_CONTINUOUS_7X) s)"

definition sx127x_onReceive :: "'c modem_chip \<Rightarrow> bool \<Rightarrow> 'c sx127x \<Rightarrow> 'c sx127x" where
  "sx127x_onReceive T callback s = (if callback then sx127x_writeRegister T REG_DIO_MAPPING_1_7X 0x00 s else s)"

definition sx127x_available :: "'c modem_chip \<Rightarrow> 'c sx127x \<Rightarrow> int \<times> 'c sx127x" where
  "sx127x_available T s = (let (n, s) = sx127x_readRegister T REG_RX_NB_BYTES_7X s in (uint n - sx_packetIndex s, s))"

definition sx127x_read :: "'c modem_chip \<Rightarrow> 'c sx127x \<Rightarrow> int \<times> 'c sx127x" where
  "sx127x_read T s =
     (let (n, s) = sx127x_available T s
      in if n = 0 then (- 1, s)
         else (let (x, s) = sx127x_readRegister T REG_FIFO_7X (s\<lparr>sx_packetIndex := sx_packetIndex s + 1\<rparr>) in (uint x, s)))"

definition sx127x_peek :: "'c modem_chip \<Rightarrow> 'c sx127x \<Rightarrow> int \<times> 'c sx127x" where
  "sx127x_peek T s =
     (let (n, s) = sx127x_available T s
      in if n = 0 then (- 1, s)
         else
           (let (currentAddress, s) = sx127x_readRegister T REG_FIFO_ADDR_PTR_7X s;
                (x, s) = sx127x_readRegister T REG_FIFO_7X s
            in (uint x, sx127x_writeRegister T REG_FIFO_ADDR_PTR_7X currentAddress s)))"

text \<open>\<open>callback\<close> is what the core does with a packet of the given length; it reads it through the driver.\<close>

definition sx127x_handleDio0Rise ::
  "'c modem_chip \<Rightarrow> (nat \<Rightarrow> 'c sx127x \<times> 's \<Rightarrow> 'c sx127x \<times> 's) \<Rightarrow> 'c sx127x \<times> 's \<Rightarrow> 'c sx127x \<times> 's" where
  "sx127x_handleDio0Rise T callback st =
     (let (s, x) = st;
          (irqFlags, s) = sx127x_readRegister T REG_IRQ_FLAGS_7X s;
          s = sx127x_writeRegister T REG_IRQ_FLAGS_7X irqFlags s
      in if irqFlags AND IRQ_PAYLOAD_CRC_ERROR_MASK_7X = 0 then
           (let s = s\<lparr>sx_packetIndex := 0\<rparr>;
                (packetLength, s) =
                  (if sx_implicitHeaderMode s then sx127x_readRegister T REG_PAYLOAD_LENGTH_7X s
                   else sx127x_readRegister T REG_RX_NB_BYTES_7X s);
                (cur, s) = sx127x_readRegister T REG_FIFO_RX_CURRENT_ADDR_7X s;
                s = sx127x_writeRegister T REG_FIFO_ADDR_PTR_7X cur s;
                (s, x) = callback (unat packetLength) (s, x)
            in (sx127x_writeRegister T REG_FIFO_ADDR_PTR_7X 0 s, x))
         else (s, x))"

text \<open>The loop of the core that takes a packet out of the driver.\<close>

fun read_bytes :: "'c modem_chip \<Rightarrow> nat \<Rightarrow> 'c sx127x \<Rightarrow> int list \<times> 'c sx127x" where
  "read_bytes T 0 s = ([], s)"
| "read_bytes T (Suc n) s = (let (x, s) = sx127x_read T s; (xs, s) = read_bytes T n s in (x # xs, s))"

section \<open>Signal strength\<close>

definition sx127x_dcd :: "'c modem_chip \<Rightarrow> 'c sx127x \<Rightarrow> bool \<times> 'c sx127x" where
  "sx127x_dcd T s =
     (let (status, s) = sx127x_readRegister T REG_MODEM_STAT_7X s in (status AND 0x01 = 0x01 \<or> status AND 0x02 = 0x02, s))"

definition sx127x_currentRssi :: "'c modem_chip \<Rightarrow> 'c sx127x \<Rightarrow> int \<times> 'c sx127x" where
  "sx127x_currentRssi T s =
     (let (v, s) = sx127x_readRegister T REG_RSSI_VALUE_7X s; rssi = uint v - RSSI_OFFSET
      in (if sint (sx_frequency s) < 820000000 then rssi - 7 else rssi, s))"

text \<open>The product with the constant is exact to well below one unit; it is cut off towards zero.\<close>

definition slope_corrected :: "int \<Rightarrow> int" where
  "slope_corrected rssi = c_div (1066 * rssi) 1000"

definition sx127x_packetRssi :: "'c modem_chip \<Rightarrow> u8 \<Rightarrow> 'c sx127x \<Rightarrow> int \<times> 'c sx127x" where
  "sx127x_packetRssi T pkt_snr_raw s =
     (let (v, s) = sx127x_readRegister T REG_PKT_RSSI_VALUE_7X s;
          pkt_rssi = uint v - RSSI_OFFSET;
          pkt_snr = c_div (sint pkt_snr_raw) 4;
          pkt_rssi = (if sint (sx_frequency s) < 820000000 then pkt_rssi - 7 else pkt_rssi)
      in (if pkt_snr < 0 then pkt_rssi + pkt_snr else slope_corrected pkt_rssi, s))"

text \<open>Without an argument the ratio is read from the chip, after the strength.\<close>

definition sx127x_packetRssi_snr :: "'c modem_chip \<Rightarrow> 'c sx127x \<Rightarrow> int \<times> 'c sx127x" where
  "sx127x_packetRssi_snr T s =
     (let (v, s) = sx127x_readRegister T REG_PKT_RSSI_VALUE_7X s;
          pkt_rssi = uint v - RSSI_OFFSET;
          (snr, s) = sx127x_readRegister T REG_PKT_SNR_VALUE_7X s;
          pkt_snr = c_div (sint snr) 4;
          pkt_rssi = (if sint (sx_frequency s) < 820000000 then pkt_rssi - 7 else pkt_rssi)
      in (if pkt_snr < 0 then pkt_rssi + pkt_snr else slope_corrected pkt_rssi, s))"

definition sx127x_currentRssiRaw :: "'c modem_chip \<Rightarrow> 'c sx127x \<Rightarrow> u8 \<times> 'c sx127x" where
  "sx127x_currentRssiRaw T s = sx127x_readRegister T REG_RSSI_VALUE_7X s"

definition sx127x_packetRssiRaw :: "'c modem_chip \<Rightarrow> 'c sx127x \<Rightarrow> u8 \<times> 'c sx127x" where
  "sx127x_packetRssiRaw T s = sx127x_readRegister T REG_PKT_RSSI_VALUE_7X s"

definition sx127x_packetSnrRaw :: "'c modem_chip \<Rightarrow> 'c sx127x \<Rightarrow> u8 \<times> 'c sx127x" where
  "sx127x_packetSnrRaw T s = sx127x_readRegister T REG_PKT_SNR_VALUE_7X s"

section \<open>What is relied on of the chip\<close>

text \<open>
  The registers that keep what the driver writes, and with the mode and the two by which the chip reports a packet those that
  are observed. Registers whose content changes with the signal are not among them.
\<close>

definition kept_registers :: "u8 set" where
  "kept_registers =
     {REG_FRF_MSB_7X, REG_FRF_MID_7X, REG_FRF_LSB_7X, REG_PA_CONFIG_7X, REG_LNA_7X, REG_FIFO_ADDR_PTR_7X,
      REG_FIFO_TX_BASE_ADDR_7X, REG_FIFO_RX_BASE_ADDR_7X, REG_MODEM_CONFIG_1_7X,
      REG_MODEM_CONFIG_2_7X, REG_PREAMBLE_MSB_7X, REG_PREAMBLE_LSB_7X, REG_PAYLOAD_LENGTH_7X, REG_MODEM_CONFIG_3_7X,
      REG_DETECTION_OPTIMIZE_7X, REG_HIGH_BW_OPTIMIZE_1_7X, REG_DETECTION_THRESHOLD_7X, REG_SYNC_WORD_7X,
      REG_HIGH_BW_OPTIMIZE_2_7X, REG_DIO_MAPPING_1_7X, REG_TCXO_7X, REG_PA_DAC_7X}"

definition chip_observed :: "u8 set" where
  "chip_observed = {REG_OP_MODE_7X, REG_FIFO_RX_CURRENT_ADDR_7X, REG_RX_NB_BYTES_7X} \<union> kept_registers"

definition chip_kept :: "'c modem_chip \<Rightarrow> 'c \<Rightarrow> u8 \<Rightarrow> u8" where
  "chip_kept T c = (\<lambda>a. if a \<in> chip_observed then chip_reg T c a else 0)"

definition awake :: "'c modem_chip \<Rightarrow> 'c \<Rightarrow> bool" where
  "awake T c \<longleftrightarrow> chip_kept T c REG_OP_MODE_7X AND 7 \<noteq> 0"

text \<open>
  The states are those of a chip that has been switched to the LoRa modem. A transaction whose address has the top bit clear
  reads a register and changes nothing; with the bit set it writes. The first address is the packet buffer, at the place of the
  address pointer, which then moves on; it works while the chip is not asleep.
\<close>

definition chip_law :: "'c modem_chip \<Rightarrow> bool" where
  "chip_law T \<longleftrightarrow>
     (\<forall>a v c. 0 < a \<and> a < 0x80 \<longrightarrow> spi_transfer T a v c = (chip_reg T c a, c)) \<and>
     (\<forall>a v c. a \<in> kept_registers \<longrightarrow> chip_kept T (snd (spi_transfer T (a OR 0x80) v c)) = (chip_kept T c)(a := v) \<and>
        chip_fifo T (snd (spi_transfer T (a OR 0x80) v c)) = chip_fifo T c) \<and>
     (\<forall>c. chip_kept T (snd (spi_transfer T (REG_OP_MODE_7X OR 0x80) (MODE_LONG_RANGE_MODE_7X OR MODE_STDBY_7X) c)) =
          (chip_kept T c)(REG_OP_MODE_7X := MODE_LONG_RANGE_MODE_7X OR MODE_STDBY_7X)) \<and>
     (\<forall>v c. chip_kept T (snd (spi_transfer T (REG_IRQ_FLAGS_7X OR 0x80) v c)) = chip_kept T c \<and>
        chip_fifo T (snd (spi_transfer T (REG_IRQ_FLAGS_7X OR 0x80) v c)) = chip_fifo T c) \<and>
     (\<forall>v c. awake T c \<longrightarrow> (let p = chip_kept T c REG_FIFO_ADDR_PTR_7X; (x, c') = spi_transfer T REG_FIFO_7X v c
        in x = chip_fifo T c p \<and> chip_kept T c' = (chip_kept T c)(REG_FIFO_ADDR_PTR_7X := p + 1) \<and> chip_fifo T c' = chip_fifo T c)) \<and>
     (\<forall>v c. awake T c \<longrightarrow> (let p = chip_kept T c REG_FIFO_ADDR_PTR_7X; c' = snd (spi_transfer T (REG_FIFO_7X OR 0x80) v c)
        in chip_kept T c' = (chip_kept T c)(REG_FIFO_ADDR_PTR_7X := p + 1) \<and> chip_fifo T c' = (chip_fifo T c)(p := v)))"

abbreviation regs :: "'c modem_chip \<Rightarrow> 'c sx127x \<Rightarrow> u8 \<Rightarrow> u8" where
  "regs T s \<equiv> chip_kept T (chip s)"

lemma read_register:
  assumes "chip_law T" "0 < a" "a < 0x80"
  shows "sx127x_readRegister T a s = (chip_reg T (chip s) a, s)"
proof -
  have "a AND 0x7F = a"
  proof -
    have "(0x7F :: u8) = mask 7" by (simp add: mask_eq_exp_minus_1)
    then show ?thesis using assms(3) less_mask_eq [of a 7] by simp
  qed
  then show ?thesis using assms by (simp add: sx127x_readRegister_def sx127x_singleTransfer_def chip_law_def)
qed

lemma kept_reg: "a \<in> chip_observed \<Longrightarrow> chip_reg T c a = chip_kept T c a"
  by (simp add: chip_kept_def)

lemma observed_addresses: "a \<in> chip_observed \<Longrightarrow> 0 < a \<and> a < 0x80"
  by (auto simp: chip_observed_def kept_registers_def)

lemma kept_observed [simp]: "a \<in> kept_registers \<Longrightarrow> a \<in> chip_observed"
  by (simp add: chip_observed_def)

lemma reported [simp]: "REG_OP_MODE_7X \<in> chip_observed" "REG_FIFO_RX_CURRENT_ADDR_7X \<in> chip_observed" "REG_RX_NB_BYTES_7X \<in> chip_observed"
  by (simp_all add: chip_observed_def)

lemma read_kept: "chip_law T \<Longrightarrow> a \<in> chip_observed \<Longrightarrow> sx127x_readRegister T a s = (regs T s a, s)"
  using read_register [of T a s] observed_addresses [of a] by (simp add: kept_reg)

lemma write_chip: "chip (sx127x_writeRegister T a v s) = snd (spi_transfer T (a OR 0x80) v (chip s))"
  by (simp add: sx127x_writeRegister_def sx127x_singleTransfer_def split: prod.split)

lemma write_fields [simp]:
  "sx_frequency (sx127x_writeRegister T a v s) = sx_frequency s" "sx_packetIndex (sx127x_writeRegister T a v s) = sx_packetIndex s"
  "sx_implicitHeaderMode (sx127x_writeRegister T a v s) = sx_implicitHeaderMode s"
  "sx_preinit_done (sx127x_writeRegister T a v s) = sx_preinit_done s" "low_datarate (sx127x_writeRegister T a v s) = low_datarate s"
  by (simp_all add: sx127x_writeRegister_def sx127x_singleTransfer_def split: prod.split)

lemma write_kept:
  assumes "chip_law T" "a \<in> kept_registers"
  shows "regs T (sx127x_writeRegister T a v s) = (regs T s)(a := v)"
    "chip_fifo T (chip (sx127x_writeRegister T a v s)) = chip_fifo T (chip s)"
  using assms by (simp_all add: write_chip chip_law_def)

lemma update_kept:
  assumes "chip_law T" "a \<in> kept_registers"
  shows "regs T (update_register T a f s) = (regs T s)(a := f (regs T s a))"
  using assms by (simp add: update_register_def read_kept write_kept)

lemma update_fields [simp]:
  assumes "chip_law T" "a \<in> kept_registers"
  shows "sx_frequency (update_register T a f s) = sx_frequency s" "sx_packetIndex (update_register T a f s) = sx_packetIndex s"
    "sx_implicitHeaderMode (update_register T a f s) = sx_implicitHeaderMode s" "low_datarate (update_register T a f s) = low_datarate s"
  using assms by (simp_all add: update_register_def read_kept)

lemma listed [simp]:
  "REG_FRF_MSB_7X \<in> kept_registers" "REG_FRF_MID_7X \<in> kept_registers" "REG_FRF_LSB_7X \<in> kept_registers"
  "REG_PA_CONFIG_7X \<in> kept_registers" "REG_FIFO_ADDR_PTR_7X \<in> kept_registers"
  "REG_MODEM_CONFIG_1_7X \<in> kept_registers" "REG_MODEM_CONFIG_2_7X \<in> kept_registers"
  "REG_MODEM_CONFIG_3_7X \<in> kept_registers" "REG_PREAMBLE_MSB_7X \<in> kept_registers" "REG_PREAMBLE_LSB_7X \<in> kept_registers"
  "REG_PAYLOAD_LENGTH_7X \<in> kept_registers" "REG_DETECTION_OPTIMIZE_7X \<in> kept_registers" "REG_DETECTION_THRESHOLD_7X \<in> kept_registers"
  "REG_HIGH_BW_OPTIMIZE_1_7X \<in> kept_registers" "REG_HIGH_BW_OPTIMIZE_2_7X \<in> kept_registers" "REG_SYNC_WORD_7X \<in> kept_registers"
  "REG_PA_DAC_7X \<in> kept_registers"
  by (simp_all add: kept_registers_def)

section \<open>The settings as a whole\<close>

text \<open>What the registers say: the configuration of the modem.\<close>

definition hi_nibble :: "u8 \<Rightarrow> u8" where
  "hi_nibble v = drop_bit 4 v"

definition mid_bits :: "u8 \<Rightarrow> u8" where
  "mid_bits v = drop_bit 1 v AND 7"

record modem_config =
  cfg_sf :: u8
  cfg_bw :: u8
  cfg_cr :: u8
  cfg_crc :: bool
  cfg_implicit :: bool
  cfg_low_rate :: bool
  cfg_frf :: u32
  cfg_sync :: u8
  cfg_preamble :: u16
  cfg_pa :: u8

definition config_of :: "(u8 \<Rightarrow> u8) \<Rightarrow> modem_config" where
  "config_of r =
     \<lparr>cfg_sf = hi_nibble (r REG_MODEM_CONFIG_2_7X), cfg_bw = hi_nibble (r REG_MODEM_CONFIG_1_7X),
      cfg_cr = mid_bits (r REG_MODEM_CONFIG_1_7X), cfg_crc = bit (r REG_MODEM_CONFIG_2_7X) 2,
      cfg_implicit = bit (r REG_MODEM_CONFIG_1_7X) 0, cfg_low_rate = bit (r REG_MODEM_CONFIG_3_7X) 3,
      cfg_frf = of_be32 0 (r REG_FRF_MSB_7X) (r REG_FRF_MID_7X) (r REG_FRF_LSB_7X), cfg_sync = r REG_SYNC_WORD_7X,
      cfg_preamble = of_be16 (r REG_PREAMBLE_MSB_7X) (r REG_PREAMBLE_LSB_7X), cfg_pa = r REG_PA_CONFIG_7X\<rparr>"

datatype setting =
  Sf int | Bw int | Cr int | Freq u32 | Crc bool | Header bool | Sync u8 | Preamble int | Power int pa_pin

fun apply_setting :: "'c modem_chip \<Rightarrow> setting \<Rightarrow> 'c sx127x \<Rightarrow> 'c sx127x outcome" where
  "apply_setting T (Sf n) s = sx127x_setSpreadingFactor T n s"
| "apply_setting T (Bw n) s = sx127x_setSignalBandwidth T n s"
| "apply_setting T (Cr n) s = Ret (sx127x_setCodingRate4 T n s)"
| "apply_setting T (Freq f) s = Ret (sx127x_setFrequency T f s)"
| "apply_setting T (Crc e) s = Ret (if e then sx127x_enableCrc T s else sx127x_disableCrc T s)"
| "apply_setting T (Header i) s = Ret (if i then sx127x_implicitHeaderMode T s else sx127x_explicitHeaderMode T s)"
| "apply_setting T (Sync w) s = Ret (sx127x_setSyncWord T w s)"
| "apply_setting T (Preamble n) s = Ret (sx127x_setPreambleLength T n s)"
| "apply_setting T (Power n pin) s = Ret (sx127x_setTxPower T n pin s)"

text \<open>What each setting is meant to change; only spreading factor and bandwidth have a common consequence.\<close>

definition slow :: "modem_config \<Rightarrow> modem_config" where
  "slow g = g\<lparr>cfg_low_rate := low_rate (unat (cfg_sf g)) (bandwidth_table ! unat (cfg_bw g))\<rparr>"

fun intend :: "setting \<Rightarrow> modem_config \<Rightarrow> modem_config" where
  "intend (Sf n) g = slow (g\<lparr>cfg_sf := word_of_int (clamp 6 12 n)\<rparr>)"
| "intend (Bw n) g = slow (g\<lparr>cfg_bw := bandwidth_code n\<rparr>)"
| "intend (Cr n) g = g\<lparr>cfg_cr := word_of_int (clamp 5 8 n - 4)\<rparr>"
| "intend (Freq f) g = g\<lparr>cfg_frf := of_nat (sx127x_frf (unat f))\<rparr>"
| "intend (Crc e) g = g\<lparr>cfg_crc := e\<rparr>"
| "intend (Header i) g = g\<lparr>cfg_implicit := i\<rparr>"
| "intend (Sync w) g = g\<lparr>cfg_sync := w\<rparr>"
| "intend (Preamble n) g = g\<lparr>cfg_preamble := word_of_int (n - 4)\<rparr>"
| "intend (Power n pin) g =
     g\<lparr>cfg_pa := (if pin = RFO then 0x70 OR word_of_int (clamp 0 14 n) else PA_BOOST_7X OR word_of_int (clamp 2 17 n - 2))\<rparr>"

subsection \<open>Bit fields\<close>

lemma u8_eqI:
  fixes v w :: u8
  assumes "bit v 0 = bit w 0" "bit v 1 = bit w 1" "bit v 2 = bit w 2" "bit v 3 = bit w 3"
    "bit v 4 = bit w 4" "bit v 5 = bit w 5" "bit v 6 = bit w 6" "bit v 7 = bit w 7"
  shows "v = w"
proof (rule bit_word_eqI)
  fix n assume "n < LENGTH(8)"
  then consider "n = 0" | "n = 1" | "n = 2" | "n = 3" | "n = 4" | "n = 5" | "n = 6" | "n = 7" by fastforce
  then show "bit v n = bit w n" by cases (use assms in simp_all)
qed

lemma high_bits:
  "w < 16 \<Longrightarrow> \<not> bit w 4 \<and> \<not> bit w 5 \<and> \<not> bit w 6 \<and> \<not> bit w 7" "w < 8 \<Longrightarrow> \<not> bit w 3 \<and> \<not> bit w 4 \<and> \<not> bit w 5 \<and> \<not> bit w 6 \<and> \<not> bit w 7"
  for w :: u8
proof -
  assume "w < 16"
  then have "w = w AND mask 4" using less_mask_eq [of w 4] by simp
  then have "bit w n \<Longrightarrow> n < 4" for n by (metis bit_and_iff bit_mask_iff)
  then show "\<not> bit w 4 \<and> \<not> bit w 5 \<and> \<not> bit w 6 \<and> \<not> bit w 7" by fastforce
next
  assume "w < 8"
  then have "w = w AND mask 3" using less_mask_eq [of w 3] by simp
  then have "bit w n \<Longrightarrow> n < 3" for n by (metis bit_and_iff bit_mask_iff)
  then show "\<not> bit w 3 \<and> \<not> bit w 4 \<and> \<not> bit w 5 \<and> \<not> bit w 6 \<and> \<not> bit w 7" by fastforce
qed

lemma outside [simp]: "8 \<le> n \<Longrightarrow> \<not> bit v n" for v :: u8
  using bit_imp_le_length [of v n] by auto

text \<open>What the masks and shifts of the driver do to the fields of a register.\<close>

lemma sf_field:
  fixes v w :: u8
  assumes "w < 16"
  shows "hi_nibble ((v AND 0x0F) OR (push_bit 4 w AND 0xF0)) = w" "bit ((v AND 0x0F) OR (push_bit 4 w AND 0xF0)) 2 = bit v 2"
proof -
  show "hi_nibble ((v AND 0x0F) OR (push_bit 4 w AND 0xF0)) = w"
    by (rule u8_eqI) (use high_bits(1) [OF assms] in \<open>simp_all add: hi_nibble_def mid_bits_def bit_simps\<close>)
qed (simp add: bit_simps)

lemma bw_field:
  fixes v w :: u8
  assumes "w < 16"
  shows "hi_nibble ((v AND 0x0F) OR push_bit 4 w) = w" "mid_bits ((v AND 0x0F) OR push_bit 4 w) = mid_bits v"
    "bit ((v AND 0x0F) OR push_bit 4 w) 0 = bit v 0"
proof -
  show "hi_nibble ((v AND 0x0F) OR push_bit 4 w) = w"
    by (rule u8_eqI) (use high_bits(1) [OF assms] in \<open>simp_all add: hi_nibble_def mid_bits_def bit_simps\<close>)
  show "mid_bits ((v AND 0x0F) OR push_bit 4 w) = mid_bits v"
    by (rule u8_eqI) (simp_all add: hi_nibble_def mid_bits_def bit_simps)
qed (simp add: bit_simps)

lemma cr_field:
  fixes v w :: u8
  assumes "w < 8"
  shows "hi_nibble ((v AND 0xF1) OR push_bit 1 w) = hi_nibble v" "mid_bits ((v AND 0xF1) OR push_bit 1 w) = w"
    "bit ((v AND 0xF1) OR push_bit 1 w) 0 = bit v 0"
proof -
  show "hi_nibble ((v AND 0xF1) OR push_bit 1 w) = hi_nibble v"
    by (rule u8_eqI) (use high_bits(2) [OF assms] in \<open>simp_all add: hi_nibble_def mid_bits_def bit_simps bit_double_iff mult.commute [of w 2] numeral_2_eq_2\<close>)
  show "mid_bits ((v AND 0xF1) OR push_bit 1 w) = w"
    by (rule u8_eqI) (use high_bits(2) [OF assms] in \<open>simp_all add: hi_nibble_def mid_bits_def bit_simps bit_double_iff mult.commute [of w 2] numeral_2_eq_2\<close>)
qed (simp add: bit_simps bit_double_iff mult.commute [of w 2])

lemma flag_fields:
  "hi_nibble (v OR 0x04) = hi_nibble v" "bit (v OR 0x04) 2" "hi_nibble (v AND 0xFB) = hi_nibble v" "\<not> bit (v AND 0xFB) 2"
  "hi_nibble (v OR 1) = hi_nibble v" "mid_bits (v OR 1) = mid_bits v" "bit (v OR 1) 0"
  "hi_nibble (v AND 0xFE) = hi_nibble v" "mid_bits (v AND 0xFE) = mid_bits v" "\<not> bit (v AND 0xFE) 0" for v :: u8
proof -
  show "hi_nibble (v OR 0x04) = hi_nibble v" "hi_nibble (v AND 0xFB) = hi_nibble v" "hi_nibble (v OR 1) = hi_nibble v"
    "hi_nibble (v AND 0xFE) = hi_nibble v" "mid_bits (v OR 1) = mid_bits v"
    "mid_bits (v AND 0xFE) = mid_bits v"
    by (rule u8_eqI; simp add: hi_nibble_def mid_bits_def bit_simps)+
qed (simp_all add: bit_simps)

lemma frf_field: "of_be32 0 (ucast (drop_bit 16 w)) (ucast (drop_bit 8 w)) (ucast w) = take_bit 24 w"
proof (rule bit_word_eqI)
  fix n assume n: "n < LENGTH(32)"
  show "bit (of_be32 0 (ucast (drop_bit 16 w)) (ucast (drop_bit 8 w)) (ucast w)) n = bit (take_bit 24 w) n"
    unfolding of_be32_def using n by (cases "n < 8"; cases "n < 16"; cases "n < 24") (auto simp: bit_simps)
qed

lemma preamble_field: "of_be16 (ucast (drop_bit 8 (word_of_int k :: u32))) (ucast (word_of_int k :: u32)) = word_of_int k"
proof (rule bit_word_eqI)
  fix n assume n: "n < LENGTH(16)"
  show "bit (of_be16 (ucast (drop_bit 8 (word_of_int k :: u32))) (ucast (word_of_int k :: u32))) n = bit (word_of_int k :: u16) n"
    unfolding of_be16_def using n by (cases "n < 8") (auto simp: bit_simps)
qed

subsection \<open>Each setting\<close>

lemma get_frequency:
  "chip_law T \<Longrightarrow> sx127x_getFrequency T s = (of_nat (unat (cfg_frf (config_of (regs T s))) * 32000000 div 2 ^ 19), s)"
  by (simp add: sx127x_getFrequency_def read_kept config_of_def)

lemma get_bandwidth:
  "chip_law T \<Longrightarrow> sx127x_getSignalBandwidth T s =
     (if cfg_bw (config_of (regs T s)) \<le> 9 then bandwidth_table ! unat (cfg_bw (config_of (regs T s))) else 0, s)"
  by (simp add: sx127x_getSignalBandwidth_def read_kept config_of_def hi_nibble_def word_le_nat_alt)

text \<open>Only registers outside the configuration are changed by the adjustment of the sensitivity.\<close>

lemma optimize_config:
  assumes "chip_law T"
  shows "config_of (regs T (sx127x_optimizeModemSensitivity T s)) = config_of (regs T s)"
    "low_datarate (sx127x_optimizeModemSensitivity T s) = low_datarate s"
  using assms
  by (simp_all add: sx127x_optimizeModemSensitivity_def read_kept get_frequency write_kept Let_def)
    (simp_all add: config_of_def)

lemma bandwidth_positive: "n \<le> 9 \<Longrightarrow> bandwidth_table ! n div 1000 \<noteq> 0"
proof -
  have "list_all (\<lambda>n. bandwidth_table ! n div 1000 \<noteq> 0) [0..<10]" by code_simp
  then show "n \<le> 9 \<Longrightarrow> bandwidth_table ! n div 1000 \<noteq> 0" by (simp add: list_all_iff)
qed

lemma low_rate_set:
  assumes "chip_law T" "cfg_bw (config_of (regs T s)) \<le> 9"
  shows "\<exists>t. sx127x_handleLowDataRate T s = Ret t \<and> config_of (regs T t) = slow (config_of (regs T s)) \<and>
    low_datarate t = cfg_low_rate (config_of (regs T t))"
proof -
  let ?g = "config_of (regs T s)"
  have d: "bandwidth_table ! unat (cfg_bw ?g) div 1000 \<noteq> 0" using assms(2) by (intro bandwidth_positive) (simp add: word_le_nat_alt)
  have w: "config_of (regs T (sx127x_writeRegister T REG_MODEM_CONFIG_3_7X v s)) = ?g\<lparr>cfg_low_rate := bit v 3\<rparr>" for v
    using assms(1) by (simp add: write_kept) (simp add: config_of_def)
  have "bit (0x0C :: u8) 3" "\<not> bit (0x04 :: u8) 3" by simp_all
  then show ?thesis
    using assms d w
    by (simp add: sx127x_handleLowDataRate_def read_kept get_bandwidth slow_def) (simp add: config_of_def hi_nibble_def)
qed

lemma clamp_bounds: "lo \<le> hi \<Longrightarrow> lo \<le> clamp lo hi x \<and> clamp lo hi x \<le> hi"
  by (simp add: clamp_def)

lemma small_word: "0 \<le> k \<Longrightarrow> k < n \<Longrightarrow> n < 256 \<Longrightarrow> (word_of_int k :: u8) < word_of_int n"
  by (simp add: word_less_def uint_word_of_int)

lemma code_small: "bandwidth_code n \<le> 9"
  by (simp add: bandwidth_code_def)

lemma sf_config:
  assumes "chip_law T" "cfg_bw (config_of (regs T s)) \<le> 9"
  shows "\<exists>t. sx127x_setSpreadingFactor T n s = Ret t \<and> config_of (regs T t) = intend (Sf n) (config_of (regs T s)) \<and>
    low_datarate t = cfg_low_rate (config_of (regs T t))"
proof -
  let ?w = "word_of_int (clamp 6 12 n) :: u8"
  have w: "?w < 16" using small_word [of "clamp 6 12 n" 16] clamp_bounds [of 6 12 n] by simp
  define u where "u = update_register T REG_MODEM_CONFIG_2_7X (\<lambda>v. (v AND 0x0F) OR (push_bit 4 ?w AND 0xF0))
    (sx127x_writeRegister T REG_DETECTION_THRESHOLD_7X (if clamp 6 12 n = 6 then 0x0C else 0x0A)
      (sx127x_writeRegister T REG_DETECTION_OPTIMIZE_7X (if clamp 6 12 n = 6 then 0xC5 else 0xC3) s))"
  have c: "config_of (regs T u) = (config_of (regs T s))\<lparr>cfg_sf := ?w\<rparr>"
    using assms(1) by (simp add: u_def update_kept write_kept config_of_def sf_field [OF w])
  have "sx127x_setSpreadingFactor T n s = sx127x_handleLowDataRate T u"
    by (simp add: sx127x_setSpreadingFactor_def u_def Let_def)
  then show ?thesis using low_rate_set [OF assms(1), of u] assms(2) by (simp add: c)
qed

lemma bw_config:
  assumes "chip_law T"
  shows "\<exists>t. sx127x_setSignalBandwidth T n s = Ret t \<and> config_of (regs T t) = intend (Bw n) (config_of (regs T s)) \<and>
    low_datarate t = cfg_low_rate (config_of (regs T t))"
proof -
  let ?w = "bandwidth_code n"
  have w: "?w < 16" using code_small [of n] by (rule le_less_trans) simp
  define u where "u = update_register T REG_MODEM_CONFIG_1_7X (\<lambda>v. (v AND 0x0F) OR push_bit 4 ?w) s"
  have c: "config_of (regs T u) = (config_of (regs T s))\<lparr>cfg_bw := ?w\<rparr>"
    using assms by (simp add: u_def update_kept config_of_def bw_field [OF w])
  obtain t where "sx127x_handleLowDataRate T u = Ret t" "config_of (regs T t) = slow (config_of (regs T u))"
    "low_datarate t = cfg_low_rate (config_of (regs T t))"
    using low_rate_set [OF assms, of u] code_small [of n] by (auto simp: c)
  then show ?thesis using c by (simp add: sx127x_setSignalBandwidth_def u_def [symmetric] optimize_config [OF assms])
qed

lemma frf_word: "take_bit 24 (of_nat k :: u32) = of_nat (k mod 2 ^ 24)"
proof -
  have "unat (take_bit 24 (of_nat k :: u32)) = unat (of_nat (k mod 2 ^ 24) :: u32)"
    by (simp add: take_bit_eq_mod unat_mod unat_of_nat mod_mod_cancel)
  then show ?thesis by (simp add: word_unat_eq_iff)
qed

lemma setting_refines:
  assumes "chip_law T" "cfg_bw (config_of (regs T s)) \<le> 9"
  shows "\<exists>t. apply_setting T x s = Ret t \<and> config_of (regs T t) = intend x (config_of (regs T s))"
proof (cases x)
  case (Cr n)
  define w where "w = (word_of_int (clamp 5 8 n - 4) :: u8)"
  have l: "w < 8" using small_word [of "clamp 5 8 n - 4" 8] clamp_bounds [of 5 8 n] by (simp add: w_def)
  have "config_of (regs T (update_register T REG_MODEM_CONFIG_1_7X (\<lambda>v. (v AND 0xF1) OR push_bit 1 w) s)) = (config_of (regs T s))\<lparr>cfg_cr := w\<rparr>"
    unfolding update_kept [OF assms(1) listed(6)] using cr_field [OF l, of "regs T s REG_MODEM_CONFIG_1_7X"] by (simp add: config_of_def)
  moreover have "apply_setting T x s = Ret (update_register T REG_MODEM_CONFIG_1_7X (\<lambda>v. (v AND 0xF1) OR push_bit 1 w) s)"
    by (simp only: Cr apply_setting.simps sx127x_setCodingRate4_def Let_def w_def)
  ultimately show ?thesis unfolding Cr by (intro exI conjI) (assumption, simp only: intend.simps w_def)
next
  case (Freq f)
  show ?thesis
    using assms(1)
    by (simp add: Freq sx127x_setFrequency_def Let_def optimize_config write_kept)
      (simp add: config_of_def frf_field frf_word sx127x_frf_def)
next
  case (Sf n)
  then show ?thesis using sf_config [OF assms, of n] by auto
next
  case (Bw n)
  then show ?thesis using bw_config [OF assms(1), of n] by auto
qed (use assms(1) in \<open>auto simp: sx127x_enableCrc_def sx127x_disableCrc_def sx127x_explicitHeaderMode_def
    sx127x_implicitHeaderMode_def sx127x_setSyncWord_def sx127x_setPreambleLength_def sx127x_setTxPower_def update_kept write_kept
    config_of_def flag_fields preamble_field [of "n - 4" for n, unfolded of_int_diff of_int_numeral] clamp_def Let_def\<close>)

lemma intend_bandwidth: "cfg_bw g \<le> 9 \<Longrightarrow> cfg_bw (intend x g) \<le> 9"
  using code_small by (cases x) (simp_all add: slow_def)

text \<open>
  C26: The settings of the modem do not disturb each other. Whatever settings are made, in whatever order, the fields of the
  chip's registers hold exactly what was last asked for, within the limits of the chip, although several of them
  share a register that is read, masked and written back; the switch for slow symbols follows spreading factor
  and bandwidth.
\<close>

theorem sx127x_settings_are_independent:
  assumes "chip_law T" "cfg_bw (config_of (regs T s)) \<le> 9"
  shows "\<exists>t. fold (\<lambda>x r. then_do r (apply_setting T x)) xs (Ret s) = Ret t \<and> config_of (regs T t) = fold intend xs (config_of (regs T s))"
  using assms(2)
proof (induction xs arbitrary: s)
  case (Cons x xs)
  obtain t where t: "apply_setting T x s = Ret t" "config_of (regs T t) = intend x (config_of (regs T s))"
    using setting_refines [OF assms(1) Cons.prems] by blast
  then show ?case using Cons.IH [of t] intend_bandwidth [OF Cons.prems, of x] by simp
qed simp

text \<open>
  The core's view of the modem is what the driver does: after a frequency or a bandwidth has been set, the driver reads
  back the value the model of the radio parameters computes.
\<close>

theorem sx127x_reads_back_modelled_values:
  assumes "chip_law T" "m \<in> {SX1276, SX1278}"
  shows "fst (sx127x_getFrequency T (sx127x_setFrequency T f s)) = modem_frequency m f \<and>
    (\<exists>t. sx127x_setSignalBandwidth T (sint w) s = Ret t \<and> fst (sx127x_getSignalBandwidth T t) = uint (modem_bandwidth m w))"
proof -
  obtain t where "apply_setting T (Freq f) s = Ret t" and t: "config_of (regs T t) = intend (Freq f) (config_of (regs T s))"
    using assms(1) by (simp add: sx127x_setFrequency_def Let_def optimize_config write_kept)
      (simp add: config_of_def frf_field frf_word sx127x_frf_def)
  then have "fst (sx127x_getFrequency T (sx127x_setFrequency T f s)) = of_nat (sx127x_frf (unat f) mod 2 ^ 32 * 32000000 div 2 ^ 19)"
    by (simp add: get_frequency [OF assms(1)] unat_of_nat)
  moreover have "sx127x_frf (unat f) mod 2 ^ 32 = sx127x_frf (unat f)" by (simp add: sx127x_frf_def)
  ultimately have "fst (sx127x_getFrequency T (sx127x_setFrequency T f s)) = modem_frequency m f"
    using assms(2) by (auto simp: modem_frequency_def sx127x_frequency_def)
  moreover obtain t' where "sx127x_setSignalBandwidth T (sint w) s = Ret t'" "config_of (regs T t') = intend (Bw (sint w)) (config_of (regs T s))"
    using bw_config [OF assms(1), of "sint w" s] by blast
  moreover have "bandwidth_table ! unat (bandwidth_code k) = uint (subghz_bandwidth k)" for k
    by (simp add: bandwidth_code_def subghz_bandwidth_def bandwidth_table_def)
  ultimately show ?thesis
    using assms(2) code_small [of "sint w"] by (auto simp: get_bandwidth [OF assms(1)] slow_def modem_bandwidth_def)
qed

text \<open>
  The switch for slow symbols is required when a symbol takes more than 16 ms. The driver computes with whole kilohertz and
  whole milliseconds, and leaves it off for exactly the four combinations whose symbols take 16.384 ms.
\<close>

theorem slow_symbols_missed:
  assumes "6 \<le> sf" "sf \<le> 12" "bw \<in> set bandwidth_table"
  shows "low_rate sf bw \<longleftrightarrow>
    2 ^ sf * 1000 > 16 * bw \<and> (sf, bw) \<notin> {(9, 31250), (10, 62500), (11, 125000), (12, 250000)}"
proof -
  have "list_all (\<lambda>sf. list_all (\<lambda>bw. low_rate sf bw \<longleftrightarrow>
      2 ^ sf * 1000 > 16 * bw \<and> (sf, bw) \<notin> {(9, 31250), (10, 62500), (11, 125000), (12, 250000)}) bandwidth_table) [6..<13]"
    by code_simp
  moreover have "sf \<in> set [6..<13]" using assms(1,2) by (simp only: set_upt atLeastLessThan_iff) simp
  ultimately show ?thesis using assms(3) unfolding list_all_iff by blast
qed

section \<open>Packets\<close>

lemma awake_kept: "chip_kept T c REG_OP_MODE_7X = chip_kept T c' REG_OP_MODE_7X \<Longrightarrow> awake T c = awake T c'"
  by (simp add: awake_def)

lemma fifo_write:
  assumes "chip_law T" "awake T (chip s)"
  shows "regs T (sx127x_writeRegister T REG_FIFO_7X v s) = (regs T s)(REG_FIFO_ADDR_PTR_7X := regs T s REG_FIFO_ADDR_PTR_7X + 1)"
    "chip_fifo T (chip (sx127x_writeRegister T REG_FIFO_7X v s)) = (chip_fifo T (chip s))(regs T s REG_FIFO_ADDR_PTR_7X := v)"
  using assms by (simp_all add: write_chip chip_law_def Let_def)

text \<open>The first \<open>n\<close> bytes from place \<open>p\<close> of the chip's buffer.\<close>

definition buffered :: "'c modem_chip \<Rightarrow> 'c sx127x \<Rightarrow> u8 \<Rightarrow> nat \<Rightarrow> u8 list" where
  "buffered T s p n = map (\<lambda>i. chip_fifo T (chip s) (p + of_nat i)) [0..<n]"

lemma buffered_same: "chip_fifo T (chip s) = chip_fifo T (chip t) \<Longrightarrow> buffered T s = buffered T t"
  by (simp add: buffered_def fun_eq_iff)

text \<open>The chip is awake, and the buffer holds the given bytes and nothing after them.\<close>

definition filled :: "'c modem_chip \<Rightarrow> 'c sx127x \<Rightarrow> u8 list \<Rightarrow> bool" where
  "filled T s d \<longleftrightarrow> awake T (chip s) \<and> regs T s REG_FIFO_ADDR_PTR_7X = of_nat (length d) \<and> buffered T s 0 (length d) = d"

lemma filled_byte:
  assumes "chip_law T" "filled T s d" "length d < 256"
  shows "filled T (sx127x_writeRegister T REG_FIFO_7X v s) (d @ [v])"
proof -
  have a: "awake T (chip s)" and p: "regs T s REG_FIFO_ADDR_PTR_7X = of_nat (length d)" and b: "buffered T s 0 (length d) = d"
    using assms(2) by (simp_all add: filled_def)
  let ?t = "sx127x_writeRegister T REG_FIFO_7X v s"
  have "(of_nat i :: u8) \<noteq> of_nat (length d)" if "i < length d" for i
    using that assms(3) by (simp add: word_unat_eq_iff unat_of_nat)
  then have "buffered T ?t 0 (length d) = buffered T s 0 (length d)"
    by (simp add: buffered_def fifo_write [OF assms(1) a] p)
  moreover have "awake T (chip ?t)"
    using a awake_kept [of T "chip ?t" "chip s"] by (simp add: fifo_write [OF assms(1) a])
  ultimately show ?thesis
    using b by (simp add: filled_def fifo_write [OF assms(1) a] p) (simp add: buffered_def fifo_write [OF assms(1) a] p)
qed

lemma filled_bytes:
  "chip_law T \<Longrightarrow> filled T s d \<Longrightarrow> length d + length xs \<le> 256 \<Longrightarrow> filled T (fold (sx127x_writeRegister T REG_FIFO_7X) xs s) (d @ xs)"
proof (induction xs arbitrary: s d)
  case (Cons x xs)
  then show ?case using Cons.IH [OF Cons.prems(1) filled_byte [of T s d x]] by simp
qed simp

lemma bytes_keep:
  "chip_law T \<Longrightarrow> awake T (chip s) \<Longrightarrow> a \<noteq> REG_FIFO_ADDR_PTR_7X \<Longrightarrow> regs T (fold (sx127x_writeRegister T REG_FIFO_7X) xs s) a = regs T s a"
proof (induction xs arbitrary: s)
  case (Cons x xs)
  have "awake T (chip (sx127x_writeRegister T REG_FIFO_7X x s))"
    using Cons.prems awake_kept [of T "chip (sx127x_writeRegister T REG_FIFO_7X x s)" "chip s"] by (simp add: fifo_write)
  then show ?case using Cons.IH [of "sx127x_writeRegister T REG_FIFO_7X x s"] Cons.prems by (simp add: fifo_write)
qed simp

lemma filled_keep:
  "chip_law T \<Longrightarrow> a \<in> kept_registers \<Longrightarrow> a \<noteq> REG_FIFO_ADDR_PTR_7X \<Longrightarrow> filled T s d \<Longrightarrow> filled T (sx127x_writeRegister T a v s) d"
  using awake_kept [of T "chip (sx127x_writeRegister T a v s)" "chip s"] buffered_same [of T "sx127x_writeRegister T a v s" s]
  by (auto simp: filled_def write_kept chip_observed_def kept_registers_def)

definition packet_staged :: "'c modem_chip \<Rightarrow> 'c sx127x \<Rightarrow> u8 list \<Rightarrow> bool" where
  "packet_staged T s d \<longleftrightarrow> filled T s d \<and> length d \<le> 255 \<and> regs T s REG_PAYLOAD_LENGTH_7X = of_nat (length d)"

lemma stage_bytes:
  assumes "chip_law T" "packet_staged T s d"
  shows "fst (sx127x_write T b s) = length (take (255 - length d) b) \<and> packet_staged T (snd (sx127x_write T b s)) (take 255 (d @ b))"
proof -
  have f: "filled T s d" and l: "length d \<le> 255" and r: "regs T s REG_PAYLOAD_LENGTH_7X = of_nat (length d)"
    using assms(2) by (simp_all add: packet_staged_def)
  have n: "unat (of_nat (length d) :: u8) = length d" using l by (simp add: unat_of_nat)
  define m where "m = (if length d + length b > 255 then 255 - length d else length b)"
  define u where "u = fold (sx127x_writeRegister T REG_FIFO_7X) (take m b) s"
  have m: "length (take m b) = m" "take m b = take (255 - length d) b" "length d + m \<le> 255" using l by (auto simp: m_def)
  have w: "sx127x_write T b s = (m, sx127x_writeRegister T REG_PAYLOAD_LENGTH_7X (of_nat (length d + m)) u)"
    by (simp add: sx127x_write_def read_kept [OF assms(1)] r n m_def u_def Let_def)
  have "filled T u (d @ take m b)" unfolding u_def using filled_bytes [OF assms(1) f, of "take m b"] m by simp
  then have "packet_staged T (snd (sx127x_write T b s)) (d @ take m b)"
    using m filled_keep [OF assms(1), of REG_PAYLOAD_LENGTH_7X u] by (simp add: w packet_staged_def write_kept [OF assms(1)])
  moreover have "d @ take m b = take 255 (d @ b)" using m(2) l by simp
  ultimately show ?thesis using m by (simp add: w)
qed

lemma packet_begun:
  assumes "chip_law T"
  shows "packet_staged T (sx127x_beginPacket T h s) []"
proof -
  have "regs T (sx127x_standby T s) = (regs T s)(REG_OP_MODE_7X := 0x81)"
    using assms by (simp add: sx127x_standby_def write_chip chip_law_def)
  then show ?thesis
    using assms by (simp add: sx127x_beginPacket_def Let_def packet_staged_def filled_def buffered_def awake_def write_kept
        sx127x_implicitHeaderMode_def sx127x_explicitHeaderMode_def update_kept)
qed

lemma packet_written:
  "chip_law T \<Longrightarrow> packet_staged T s d \<Longrightarrow> packet_staged T (fold (\<lambda>b s. snd (sx127x_write T b s)) bs s) (take 255 (d @ concat bs))"
proof (induction bs arbitrary: s d)
  case (Cons b bs)
  have "take 255 (take 255 (d @ b) @ concat bs) = take 255 (d @ b @ concat bs)"
    by (cases "length (d @ b) \<le> 255") (auto simp: min_def)
  then show ?case using Cons.IH [OF Cons.prems(1) conjunct2 [OF stage_bytes [OF Cons.prems]], of b] by simp
qed (simp add: packet_staged_def)

lemma fifo_read:
  assumes "chip_law T" "awake T (chip s)"
  obtains c where "sx127x_readRegister T REG_FIFO_7X s = (chip_fifo T (chip s) (regs T s REG_FIFO_ADDR_PTR_7X), s\<lparr>chip := c\<rparr>)"
    "chip_kept T c = (regs T s)(REG_FIFO_ADDR_PTR_7X := regs T s REG_FIFO_ADDR_PTR_7X + 1)" "chip_fifo T c = chip_fifo T (chip s)"
proof -
  obtain x c where t: "spi_transfer T REG_FIFO_7X 0 (chip s) = (x, c)" by fastforce
  have "\<forall>v c. awake T c \<longrightarrow> (let p = chip_kept T c REG_FIFO_ADDR_PTR_7X; (x, c') = spi_transfer T REG_FIFO_7X v c
        in x = chip_fifo T c p \<and> chip_kept T c' = (chip_kept T c)(REG_FIFO_ADDR_PTR_7X := p + 1) \<and> chip_fifo T c' = chip_fifo T c)"
    using assms(1) unfolding chip_law_def by blast
  then have "x = chip_fifo T (chip s) (regs T s REG_FIFO_ADDR_PTR_7X)"
    "chip_kept T c = (regs T s)(REG_FIFO_ADDR_PTR_7X := regs T s REG_FIFO_ADDR_PTR_7X + 1)" "chip_fifo T c = chip_fifo T (chip s)"
    using assms(2) t by (auto simp: Let_def dest!: spec [of _ 0])
  then show thesis using that t by (simp add: sx127x_readRegister_def sx127x_singleTransfer_def)
qed

text \<open>A packet of \<open>n\<close> bytes of which \<open>i\<close> have been read.\<close>

definition reading :: "'c modem_chip \<Rightarrow> nat \<Rightarrow> nat \<Rightarrow> 'c sx127x \<Rightarrow> bool" where
  "reading T n i s \<longleftrightarrow> awake T (chip s) \<and> sx_packetIndex s = int i \<and> n \<le> 255 \<and> regs T s REG_RX_NB_BYTES_7X = of_nat n"

lemma available_left:
  assumes "chip_law T" "reading T n i s"
  shows "sx127x_available T s = (int n - int i, s)"
proof -
  have "uint (of_nat n :: u8) = int n" if "n \<le> 255" using that by (simp add: unsigned_of_nat take_bit_nat_eq_self)
  then show ?thesis using assms by (simp add: sx127x_available_def read_kept reading_def)
qed

lemma read_byte:
  assumes "chip_law T" "reading T n i s" "i < n"
  obtains t where "sx127x_read T s = (uint (chip_fifo T (chip s) (regs T s REG_FIFO_ADDR_PTR_7X)), t)" "reading T n (Suc i) t"
    "regs T t REG_FIFO_ADDR_PTR_7X = regs T s REG_FIFO_ADDR_PTR_7X + 1" "chip_fifo T (chip t) = chip_fifo T (chip s)"
proof -
  let ?s = "s\<lparr>sx_packetIndex := sx_packetIndex s + 1\<rparr>"
  have "awake T (chip ?s)" using assms(2) by (simp add: reading_def)
  then obtain c where c: "sx127x_readRegister T REG_FIFO_7X ?s = (chip_fifo T (chip s) (regs T s REG_FIFO_ADDR_PTR_7X), ?s\<lparr>chip := c\<rparr>)"
    "chip_kept T c = (regs T s)(REG_FIFO_ADDR_PTR_7X := regs T s REG_FIFO_ADDR_PTR_7X + 1)" "chip_fifo T c = chip_fifo T (chip s)"
    using fifo_read [OF assms(1), of ?s] by (auto simp del: fun_upd_apply)
  have "reading T n (Suc i) (?s\<lparr>chip := c\<rparr>)"
    using assms(2) c(2) awake_kept [of T c "chip s"] by (simp add: reading_def)
  then show thesis using that [of "?s\<lparr>chip := c\<rparr>"] c assms(3)
    by (simp add: sx127x_read_def available_left [OF assms(1,2)])
qed

lemma read_rest:
  "chip_law T \<Longrightarrow> reading T n i s \<Longrightarrow> i + k \<le> n \<Longrightarrow>
    \<exists>t. read_bytes T k s = (map uint (buffered T s (regs T s REG_FIFO_ADDR_PTR_7X) k), t) \<and> reading T n (i + k) t"
proof (induction k arbitrary: i s)
  case (Suc k)
  then have "i < n" by simp
  then obtain t where t: "sx127x_read T s = (uint (chip_fifo T (chip s) (regs T s REG_FIFO_ADDR_PTR_7X)), t)" "reading T n (Suc i) t"
    "regs T t REG_FIFO_ADDR_PTR_7X = regs T s REG_FIFO_ADDR_PTR_7X + 1" "chip_fifo T (chip t) = chip_fifo T (chip s)"
    using read_byte [OF Suc.prems(1,2)] by metis
  have "buffered T s p (Suc k) = chip_fifo T (chip s) p # buffered T s (p + 1) k" for p
    by (simp add: buffered_def upt_conv_Cons map_Suc_upt [symmetric] comp_def algebra_simps del: upt_Suc map_Suc_upt)
  moreover obtain u where "read_bytes T k t = (map uint (buffered T t (regs T t REG_FIFO_ADDR_PTR_7X) k), u)" "reading T n (Suc i + k) u"
    using Suc.IH [OF Suc.prems(1) t(2)] Suc.prems(3) by auto
  ultimately show ?case using t buffered_same [of T t s] by simp
qed (simp add: buffered_def)

lemma frame_delivered:
  fixes s :: "'c sx127x"
  assumes "chip_law T" "awake T (chip s)" "\<not> sx_implicitHeaderMode s"
    "chip_reg T (chip s) REG_IRQ_FLAGS_7X AND IRQ_PAYLOAD_CRC_ERROR_MASK_7X = 0"
  defines "n \<equiv> unat (regs T s REG_RX_NB_BYTES_7X)"
  shows "\<exists>t. sx127x_handleDio0Rise T f (s, x) = (let (t, y) = f n (t, x) in (sx127x_writeRegister T REG_FIFO_ADDR_PTR_7X 0 t, y)) \<and>
    reading T n 0 t \<and> buffered T t (regs T t REG_FIFO_ADDR_PTR_7X) = buffered T s (regs T s REG_FIFO_RX_CURRENT_ADDR_7X)"
proof -
  let ?v = "chip_reg T (chip s) REG_IRQ_FLAGS_7X"
  let ?u = "(sx127x_writeRegister T REG_IRQ_FLAGS_7X ?v s)\<lparr>sx_packetIndex := 0\<rparr>"
  let ?t = "sx127x_writeRegister T REG_FIFO_ADDR_PTR_7X (regs T s REG_FIFO_RX_CURRENT_ADDR_7X) ?u"
  have u: "regs T ?u = regs T s" "chip_fifo T (chip ?u) = chip_fifo T (chip s)"
    using assms(1) by (simp_all add: write_chip chip_law_def)
  have "n \<le> 255" using unat_less_256 [of "regs T s REG_RX_NB_BYTES_7X"] unfolding n_def by linarith
  moreover have "regs T ?t = (regs T s)(REG_FIFO_ADDR_PTR_7X := regs T s REG_FIFO_RX_CURRENT_ADDR_7X)"
    "chip_fifo T (chip ?t) = chip_fifo T (chip s)"
    using write_kept [OF assms(1), of REG_FIFO_ADDR_PTR_7X] u by simp_all
  moreover from this have "awake T (chip ?t)" using assms(2) awake_kept [of T "chip ?t" "chip s"] by simp
  ultimately have "reading T n 0 ?t" "buffered T ?t (regs T ?t REG_FIFO_ADDR_PTR_7X) = buffered T s (regs T s REG_FIFO_RX_CURRENT_ADDR_7X)"
    using buffered_same [of T ?t s] by (simp_all add: reading_def n_def)
  moreover have "sx127x_handleDio0Rise T f (s, x) = (let (t, y) = f n (?t, x) in (sx127x_writeRegister T REG_FIFO_ADDR_PTR_7X 0 t, y))"
    using assms(3,4) u
    by (simp add: sx127x_handleDio0Rise_def read_register [OF assms(1), of REG_IRQ_FLAGS_7X] read_kept [OF assms(1)] n_def Let_def)
  ultimately show ?thesis by blast
qed

text \<open>What the core reads in the callback: the bytes, and once more after the last.\<close>

definition take_frame :: "'c modem_chip \<Rightarrow> nat \<Rightarrow> 'c sx127x \<times> int list \<times> int \<Rightarrow> 'c sx127x \<times> int list \<times> int" where
  "take_frame T n st = (let (xs, s) = read_bytes T n (fst st); (x, s) = sx127x_read T s in (s, xs, x))"

text \<open>The receiving chip holds what the sending one had in its buffer when it began to send.\<close>

definition over_the_air :: "'c modem_chip \<Rightarrow> 'c sx127x \<Rightarrow> 'd modem_chip \<Rightarrow> 'd sx127x \<Rightarrow> bool" where
  "over_the_air S s R r \<longleftrightarrow>
     awake R (chip r) \<and> \<not> sx_implicitHeaderMode r \<and>
     chip_reg R (chip r) REG_IRQ_FLAGS_7X AND IRQ_PAYLOAD_CRC_ERROR_MASK_7X = 0 \<and>
     regs R r REG_RX_NB_BYTES_7X = regs S s REG_PAYLOAD_LENGTH_7X \<and>
     buffered R r (regs R r REG_FIFO_RX_CURRENT_ADDR_7X) (unat (regs S s REG_PAYLOAD_LENGTH_7X)) =
       buffered S s 0 (unat (regs S s REG_PAYLOAD_LENGTH_7X))"

text \<open>
  C27: What is written into a packet comes out of it. However the bytes are divided over the calls, wherever the receiving
  chip has put the packet in its buffer, the driver at the other end hands the core exactly the first 255 bytes, and then
  reports that there are no more.
\<close>

theorem sx127x_packet_arrives:
  fixes s :: "'c sx127x" and r :: "'d sx127x"
  assumes "chip_law S" "chip_law R"
    "over_the_air S (fold (\<lambda>b s. snd (sx127x_write S b s)) bs (sx127x_beginPacket S h s)) R r"
  shows "snd (sx127x_handleDio0Rise R (take_frame R) (r, x)) = (map uint (take 255 (concat bs)), - 1)"
proof -
  let ?s = "fold (\<lambda>b s. snd (sx127x_write S b s)) bs (sx127x_beginPacket S h s)" and ?d = "take 255 (concat bs)"
  have p: "packet_staged S ?s ?d" using packet_written [OF assms(1) packet_begun [OF assms(1)], of bs h s] by simp
  have n: "unat (regs S ?s REG_PAYLOAD_LENGTH_7X) = length ?d" using p by (simp add: packet_staged_def unat_of_nat)
  have d: "buffered S ?s 0 (length ?d) = ?d" using p by (simp add: packet_staged_def filled_def)
  note o = assms(3) [unfolded over_the_air_def n d]
  have l: "unat (regs R r REG_RX_NB_BYTES_7X) = length ?d" using o n by metis
  obtain t where t: "sx127x_handleDio0Rise R (take_frame R) (r, x) =
      (let (t, y) = take_frame R (length ?d) (t, x) in (sx127x_writeRegister R REG_FIFO_ADDR_PTR_7X 0 t, y))"
    "reading R (length ?d) 0 t" "buffered R t (regs R t REG_FIFO_ADDR_PTR_7X) = buffered R r (regs R r REG_FIFO_RX_CURRENT_ADDR_7X)"
    using frame_delivered [OF assms(2), of r "take_frame R" x, unfolded l] o by blast
  obtain u where u: "read_bytes R (length ?d) t = (map uint ?d, u)" "reading R (length ?d) (length ?d) u"
    using read_rest [OF assms(2) t(2), of "length ?d"] t(3) o by auto
  have "sx127x_read R u = (- 1, u)" using available_left [OF assms(2) u(2)] by (simp add: sx127x_read_def)
  then show ?thesis using t(1) u(1) by (simp add: take_frame_def)
qed

section \<open>The wait for the end of a transmission\<close>

lemma wait_step:
  assumes "chip_law T"
  shows "tx_done_wait T s = (if chip_reg T (chip s) REG_IRQ_FLAGS_7X AND IRQ_TX_DONE_MASK_7X = 0
    then tx_done_wait T (s\<lparr>chip := elapse T (chip s)\<rparr>) else Some s)"
  by (subst tx_done_wait.simps) (simp add: read_register [OF assms])

lemma wait_result:
  assumes "tx_done_wait T s = Some t" "chip_law T"
  shows "\<exists>n. chip_reg T ((elapse T ^^ n) (chip s)) REG_IRQ_FLAGS_7X AND IRQ_TX_DONE_MASK_7X \<noteq> 0"
  using assms
proof (induction rule: tx_done_wait.raw_induct [rotated, consumes 1, case_names step])
  case (step wait T s t)
  show ?case
  proof (cases "chip_reg T (chip s) REG_IRQ_FLAGS_7X AND IRQ_TX_DONE_MASK_7X = 0")
    case True
    then have "wait T (s\<lparr>chip := elapse T (chip s)\<rparr>) = Some t" using step(2,3) by (simp add: read_register)
    then obtain n where "chip_reg T ((elapse T ^^ n) (elapse T (chip s))) REG_IRQ_FLAGS_7X AND IRQ_TX_DONE_MASK_7X \<noteq> 0"
      using step(1) [of T "s\<lparr>chip := elapse T (chip s)\<rparr>" t] step(3) by auto
    then show ?thesis by (intro exI [of _ "Suc n"]) (simp add: funpow_swap1)
  next
    case False
    then show ?thesis by (intro exI [of _ 0]) simp
  qed
qed

lemma wait_returns:
  "chip_law T \<Longrightarrow> chip_reg T ((elapse T ^^ n) (chip s)) REG_IRQ_FLAGS_7X AND IRQ_TX_DONE_MASK_7X \<noteq> 0 \<Longrightarrow> \<exists>t. tx_done_wait T s = Some t"
proof (induction n arbitrary: s)
  case (Suc n)
  then show ?case using Suc.IH [of "s\<lparr>chip := elapse T (chip s)\<rparr>"] wait_step [of T s] by (simp add: funpow_swap1)
qed (simp add: wait_step)

text \<open>
  Sending has no time limit: the call returns if and only if the chip at some time reports the end of the transmission.
\<close>

theorem sx127x_endPacket_returns:
  assumes "chip_law T"
  shows "(\<exists>t. sx127x_endPacket T s = Some t) \<longleftrightarrow>
    (\<exists>n. chip_reg T ((elapse T ^^ n) (snd (spi_transfer T (REG_OP_MODE_7X OR 0x80) (MODE_LONG_RANGE_MODE_7X OR MODE_TX_7X) (chip s))))
      REG_IRQ_FLAGS_7X AND IRQ_TX_DONE_MASK_7X \<noteq> 0)"
  using wait_result [of T "sx127x_writeRegister T REG_OP_MODE_7X (MODE_LONG_RANGE_MODE_7X OR MODE_TX_7X) s"]
    wait_returns [OF assms, of _ "sx127x_writeRegister T REG_OP_MODE_7X (MODE_LONG_RANGE_MODE_7X OR MODE_TX_7X) s"] assms
  by (fastforce simp: sx127x_endPacket_def write_chip split: option.splits)

section \<open>A chip\<close>

text \<open>Registers and a buffer of 256 bytes, with the buffer kept in sleep; a transmission ends after one step of time.\<close>

definition plain_chip :: "((u8 \<Rightarrow> u8) \<times> (u8 \<Rightarrow> u8)) modem_chip" where
  "plain_chip =
     \<lparr>spi_transfer = (\<lambda>a v (r, f).
        if a = 0 then (f (r REG_FIFO_ADDR_PTR_7X), r(REG_FIFO_ADDR_PTR_7X := r REG_FIFO_ADDR_PTR_7X + 1), f)
        else if a < 0x80 then (r a, r, f)
        else if a = 0x80 then (0, r(REG_FIFO_ADDR_PTR_7X := r REG_FIFO_ADDR_PTR_7X + 1), f(r REG_FIFO_ADDR_PTR_7X := v))
        else (0, r(a AND 0x7F := (if a = 0x92 then 0 else v)), f)),
      elapse = (\<lambda>(r, f). (r(REG_IRQ_FLAGS_7X := 0x08), f)), restart = (\<lambda>_. (\<lambda>_. 0, \<lambda>_. 0)), chip_reg = fst, chip_fifo = snd\<rparr>"

lemma plain_law: "chip_law plain_chip"
proof -
  have a: "a OR 0x80 \<noteq> 0 \<and> \<not> a OR 0x80 < 0x80 \<and> a OR 0x80 \<noteq> 0x80 \<and> a OR 0x80 \<noteq> 0x92 \<and> (a OR 0x80) AND 0x7F = a \<and> a \<in> chip_observed"
    if "a \<in> kept_registers" for a
    using that by (auto simp: kept_registers_def chip_observed_def)
  have "REG_IRQ_FLAGS_7X \<notin> chip_observed" by (simp add: chip_observed_def kept_registers_def)
  then show ?thesis
    by (auto simp: chip_law_def plain_chip_def chip_kept_def fun_eq_iff Let_def dest: a)
qed

definition fresh :: "(u8 \<Rightarrow> u8) \<Rightarrow> (u8 \<Rightarrow> u8) \<Rightarrow> ((u8 \<Rightarrow> u8) \<times> (u8 \<Rightarrow> u8)) sx127x" where
  "fresh r f = \<lparr>chip = (r, f), sx_frequency = 0, sx_packetIndex = 0, sx_implicitHeaderMode = False, sx_preinit_done = True, low_datarate = False\<rparr>"

theorem sx127x_settings_are_independent_witness:
  "\<exists>t. fold (\<lambda>x r. then_do r (apply_setting plain_chip x)) [Sf 12, Bw 125000, Cr 8, Crc True, Header True, Freq 868000000, Sf 7]
      (Ret (fresh (\<lambda>_. 0) (\<lambda>_. 0))) = Ret t \<and>
    config_of (regs plain_chip t) =
      \<lparr>cfg_sf = 7, cfg_bw = 7, cfg_cr = 4, cfg_crc = True, cfg_implicit = True, cfg_low_rate = False, cfg_frf = 0xD90000,
       cfg_sync = 0, cfg_preamble = 0, cfg_pa = 0\<rparr>"
proof -
  have k: "regs plain_chip (fresh (\<lambda>_. 0) (\<lambda>_. 0)) = (\<lambda>_. 0)" by (simp add: chip_kept_def fresh_def plain_chip_def fun_eq_iff)
  have z: "config_of (\<lambda>_. 0) = \<lparr>cfg_sf = 0, cfg_bw = 0, cfg_cr = 0, cfg_crc = False, cfg_implicit = False, cfg_low_rate = False,
      cfg_frf = 0, cfg_sync = 0, cfg_preamble = 0, cfg_pa = 0\<rparr>"
    by (simp add: config_of_def hi_nibble_def mid_bits_def of_be32_def of_be16_def)
  have "fold intend [Sf 12, Bw 125000, Cr 8, Crc True, Header True, Freq 868000000, Sf 7] (config_of (\<lambda>_. 0)) =
      \<lparr>cfg_sf = 7, cfg_bw = 7, cfg_cr = 4, cfg_crc = True, cfg_implicit = True, cfg_low_rate = False, cfg_frf = 0xD90000,
       cfg_sync = 0, cfg_preamble = 0, cfg_pa = 0\<rparr>"
    unfolding z by (simp add: slow_def clamp_def bandwidth_code_def bandwidth_table_def low_rate_def sx127x_frf_def)
  then show ?thesis
    using sx127x_settings_are_independent [OF plain_law, of "fresh (\<lambda>_. 0) (\<lambda>_. 0)"
        "[Sf 12, Bw 125000, Cr 8, Crc True, Header True, Freq 868000000, Sf 7]"]
    unfolding k by (metis z modem_config.select_convs(2) word_zero_le)
qed

theorem sx127x_reads_back_modelled_values_witness:
  "fst (sx127x_getFrequency plain_chip (sx127x_setFrequency plain_chip 868000001 (fresh (\<lambda>_. 0) (\<lambda>_. 0)))) = 868000000"
proof -
  have "modem_frequency SX1276 868000001 = 868000000" by (simp add: modem_frequency_def sx127x_frequency_def sx127x_frf_def)
  then show ?thesis
    using sx127x_reads_back_modelled_values [OF plain_law, of SX1276 868000001 "fresh (\<lambda>_. 0) (\<lambda>_. 0)" 0] by simp
qed

theorem sx127x_packet_arrives_witness:
  "snd (sx127x_handleDio0Rise plain_chip (take_frame plain_chip)
     (fresh ((\<lambda>_. 0)(REG_OP_MODE_7X := 0x85, REG_RX_NB_BYTES_7X := 3, REG_FIFO_RX_CURRENT_ADDR_7X := 0xFE)) ((\<lambda>_. 0)(0xFE := 7, 0xFF := 8, 0 := 9)), [], 0)) =
   ([7, 8, 9], - 1)"
proof -
  let ?r = "fresh ((\<lambda>_. 0)(REG_OP_MODE_7X := 0x85, REG_RX_NB_BYTES_7X := 3, REG_FIFO_RX_CURRENT_ADDR_7X := 0xFE)) ((\<lambda>_. 0)(0xFE := 7, 0xFF := 8, 0 := 9))"
  let ?s = "fold (\<lambda>b s. snd (sx127x_write plain_chip b s)) [[7, 8], [9]] (sx127x_beginPacket plain_chip False (fresh (\<lambda>_. 0) (\<lambda>_. 0)))"
  have "packet_staged plain_chip ?s [7, 8, 9]"
    using packet_written [OF plain_law packet_begun [OF plain_law], of "[[7, 8], [9]]" False "fresh (\<lambda>_. 0) (\<lambda>_. 0)"] by simp
  then have "buffered plain_chip ?s 0 3 = [7, 8, 9]" "regs plain_chip ?s REG_PAYLOAD_LENGTH_7X = 3"
    by (simp_all add: packet_staged_def filled_def numeral_3_eq_3)
  moreover have "buffered plain_chip ?r 0xFE 3 = [7, 8, 9]"
    by (simp add: buffered_def fresh_def plain_chip_def upt_conv_Cons numeral_3_eq_3)
  moreover have "regs plain_chip ?r REG_OP_MODE_7X = 0x85" "regs plain_chip ?r REG_RX_NB_BYTES_7X = 3" "regs plain_chip ?r REG_FIFO_RX_CURRENT_ADDR_7X = 0xFE"
    by (simp_all add: chip_kept_def fresh_def plain_chip_def)
  moreover have "chip_reg plain_chip (chip ?r) REG_IRQ_FLAGS_7X = 0" "\<not> sx_implicitHeaderMode ?r" by (simp_all add: fresh_def plain_chip_def)
  ultimately have "over_the_air plain_chip ?s plain_chip ?r"
    by (simp add: over_the_air_def awake_def)
  then show ?thesis using sx127x_packet_arrives [OF plain_law plain_law] by fastforce
qed

theorem sx127x_endPacket_returns_witness: "\<exists>t. sx127x_endPacket plain_chip (fresh (\<lambda>_. 0) (\<lambda>_. 0)) = Some t"
proof -
  have "chip_reg plain_chip ((elapse plain_chip ^^ 1) c) REG_IRQ_FLAGS_7X AND IRQ_TX_DONE_MASK_7X \<noteq> 0" for c
    by (simp add: plain_chip_def split: prod.split)
  then show ?thesis using sx127x_endPacket_returns [OF plain_law] by blast
qed

end
