(* ===== verification/Sx126x.thy ===== *)
theory Sx126x
  imports Sx127x
begin

text \<open>
  The driver of the SX1262 modem (\<^verbatim>\<open>sx126x.cpp\<close>). The chip takes commands, one per transaction on the serial bus; most of
  its registers cannot be read, so that the driver keeps what it has told the chip in fields of its own. The bus is the
  sequence of what happened on it, and the chip is a function \<open>A\<close> that gives, for such a sequence, the bytes the chip
  returns during the last transaction. Waiting for the busy line, the pins of antenna switch and amplifier, attaching the
  interrupt, and the unused dump of registers are left out.
\<close>

section \<open>Commands\<close>

abbreviation (input) OP_RF_FREQ_6X :: u8 where "OP_RF_FREQ_6X \<equiv> 0x86"
abbreviation (input) OP_SLEEP_6X :: u8 where "OP_SLEEP_6X \<equiv> 0x84"
abbreviation (input) OP_STANDBY_6X :: u8 where "OP_STANDBY_6X \<equiv> 0x80"
abbreviation (input) OP_TX_6X :: u8 where "OP_TX_6X \<equiv> 0x83"
abbreviation (input) OP_RX_6X :: u8 where "OP_RX_6X \<equiv> 0x82"
abbreviation (input) OP_PA_CONFIG_6X :: u8 where "OP_PA_CONFIG_6X \<equiv> 0x95"
abbreviation (input) OP_SET_IRQ_FLAGS_6X :: u8 where "OP_SET_IRQ_FLAGS_6X \<equiv> 0x08"
abbreviation (input) OP_CLEAR_IRQ_STATUS_6X :: u8 where "OP_CLEAR_IRQ_STATUS_6X \<equiv> 0x02"
abbreviation (input) OP_GET_IRQ_STATUS_6X :: u8 where "OP_GET_IRQ_STATUS_6X \<equiv> 0x12"
abbreviation (input) OP_RX_BUFFER_STATUS_6X :: u8 where "OP_RX_BUFFER_STATUS_6X \<equiv> 0x13"
abbreviation (input) OP_PACKET_STATUS_6X :: u8 where "OP_PACKET_STATUS_6X \<equiv> 0x14"
abbreviation (input) OP_CURRENT_RSSI_6X :: u8 where "OP_CURRENT_RSSI_6X \<equiv> 0x15"
abbreviation (input) OP_MODULATION_PARAMS_6X :: u8 where "OP_MODULATION_PARAMS_6X \<equiv> 0x8B"
abbreviation (input) OP_PACKET_PARAMS_6X :: u8 where "OP_PACKET_PARAMS_6X \<equiv> 0x8C"
abbreviation (input) OP_STATUS_6X :: u8 where "OP_STATUS_6X \<equiv> 0xC0"
abbreviation (input) OP_TX_PARAMS_6X :: u8 where "OP_TX_PARAMS_6X \<equiv> 0x8E"
abbreviation (input) OP_PACKET_TYPE_6X :: u8 where "OP_PACKET_TYPE_6X \<equiv> 0x8A"
abbreviation (input) OP_BUFFER_BASE_ADDR_6X :: u8 where "OP_BUFFER_BASE_ADDR_6X \<equiv> 0x8F"
abbreviation (input) OP_READ_REGISTER_6X :: u8 where "OP_READ_REGISTER_6X \<equiv> 0x1D"
abbreviation (input) OP_WRITE_REGISTER_6X :: u8 where "OP_WRITE_REGISTER_6X \<equiv> 0x0D"
abbreviation (input) OP_DIO3_TCXO_CTRL_6X :: u8 where "OP_DIO3_TCXO_CTRL_6X \<equiv> 0x97"
abbreviation (input) OP_DIO2_RF_CTRL_6X :: u8 where "OP_DIO2_RF_CTRL_6X \<equiv> 0x9D"
abbreviation (input) OP_CALIBRATE_6X :: u8 where "OP_CALIBRATE_6X \<equiv> 0x89"
abbreviation (input) OP_RX_TX_FALLBACK_MODE_6X :: u8 where "OP_RX_TX_FALLBACK_MODE_6X \<equiv> 0x93"
abbreviation (input) OP_REGULATOR_MODE_6X :: u8 where "OP_REGULATOR_MODE_6X \<equiv> 0x96"
abbreviation (input) OP_CALIBRATE_IMAGE_6X :: u8 where "OP_CALIBRATE_IMAGE_6X \<equiv> 0x98"
abbreviation (input) OP_CLR_ERROR_6X :: u8 where "OP_CLR_ERROR_6X \<equiv> 0x07"
abbreviation (input) MASK_CALIBRATE_ALL :: u8 where "MASK_CALIBRATE_ALL \<equiv> 0x7f"
abbreviation (input) IRQ_TX_DONE_MASK_6X :: u8 where "IRQ_TX_DONE_MASK_6X \<equiv> 0x01"
abbreviation (input) IRQ_RX_DONE_MASK_6X :: u8 where "IRQ_RX_DONE_MASK_6X \<equiv> 0x02"
abbreviation (input) IRQ_HEADER_DET_MASK_6X :: u8 where "IRQ_HEADER_DET_MASK_6X \<equiv> 0x10"
abbreviation (input) IRQ_PREAMBLE_DET_MASK_6X :: u8 where "IRQ_PREAMBLE_DET_MASK_6X \<equiv> 0x04"
abbreviation (input) IRQ_PAYLOAD_CRC_ERROR_MASK_6X :: u8 where "IRQ_PAYLOAD_CRC_ERROR_MASK_6X \<equiv> 0x40"
abbreviation (input) MODE_LONG_RANGE_MODE_6X :: u8 where "MODE_LONG_RANGE_MODE_6X \<equiv> 0x01"
abbreviation (input) OP_FIFO_WRITE_6X :: u8 where "OP_FIFO_WRITE_6X \<equiv> 0x0E"
abbreviation (input) OP_FIFO_READ_6X :: u8 where "OP_FIFO_READ_6X \<equiv> 0x1E"
abbreviation (input) REG_OCP_6X :: u16 where "REG_OCP_6X \<equiv> 0x08E7"
abbreviation (input) REG_LNA_6X :: u16 where "REG_LNA_6X \<equiv> 0x08AC"
abbreviation (input) REG_SYNC_WORD_MSB_6X :: u16 where "REG_SYNC_WORD_MSB_6X \<equiv> 0x0740"
abbreviation (input) REG_SYNC_WORD_LSB_6X :: u16 where "REG_SYNC_WORD_LSB_6X \<equiv> 0x0741"
abbreviation (input) REG_PAYLOAD_LENGTH_6X :: u16 where "REG_PAYLOAD_LENGTH_6X \<equiv> 0x0702"
abbreviation (input) REG_RANDOM_GEN_6X :: u16 where "REG_RANDOM_GEN_6X \<equiv> 0x0819"
abbreviation (input) MODE_TCXO_3_3V_6X :: u8 where "MODE_TCXO_3_3V_6X \<equiv> 0x07"
abbreviation (input) MODE_TCXO_3_0V_6X :: u8 where "MODE_TCXO_3_0V_6X \<equiv> 0x06"
abbreviation (input) MODE_TCXO_2_7V_6X :: u8 where "MODE_TCXO_2_7V_6X \<equiv> 0x06"
abbreviation (input) MODE_TCXO_2_4V_6X :: u8 where "MODE_TCXO_2_4V_6X \<equiv> 0x06"
abbreviation (input) MODE_TCXO_2_2V_6X :: u8 where "MODE_TCXO_2_2V_6X \<equiv> 0x03"
abbreviation (input) MODE_TCXO_1_8V_6X :: u8 where "MODE_TCXO_1_8V_6X \<equiv> 0x02"
abbreviation (input) MODE_TCXO_1_7V_6X :: u8 where "MODE_TCXO_1_7V_6X \<equiv> 0x01"
abbreviation (input) MODE_TCXO_1_6V_6X :: u8 where "MODE_TCXO_1_6V_6X \<equiv> 0x00"
abbreviation (input) MODE_STDBY_RC_6X :: u8 where "MODE_STDBY_RC_6X \<equiv> 0x00"
abbreviation (input) MODE_STDBY_XOSC_6X :: u8 where "MODE_STDBY_XOSC_6X \<equiv> 0x01"
abbreviation (input) MODE_FALLBACK_STDBY_RC_6X :: u8 where "MODE_FALLBACK_STDBY_RC_6X \<equiv> 0x20"
abbreviation (input) MODE_IMPLICIT_HEADER :: u8 where "MODE_IMPLICIT_HEADER \<equiv> 0x01"
abbreviation (input) MODE_EXPLICIT_HEADER :: u8 where "MODE_EXPLICIT_HEADER \<equiv> 0x00"
abbreviation (input) SYNC_WORD_6X :: u16 where "SYNC_WORD_6X \<equiv> 0x1424"

section \<open>The bus\<close>

datatype bus_event = Reset | Spi "u8 list"

type_synonym chip = "bus_event list \<Rightarrow> nat \<Rightarrow> u8"

text \<open>The switches of the board: the code of the oscillator's voltage, if there is one, and what else depends on the board.\<close>

record sx126x_board =
  tcxo :: "u8 option"
  dio2_as_rf_switch :: bool
  OCP_TUNED :: u8
  lna_gain :: "int option"

record sx126x =
  bus :: "bus_event list"
  x_frequency :: u32
  x_txp :: int
  x_sf :: u8
  x_bw :: u8
  x_cr :: u8
  x_ldro :: u8
  x_packetIndex :: nat
  x_preambleLength :: int
  x_implicitHeaderMode :: bool
  x_payloadLength :: nat
  x_crcMode :: bool
  x_fifo_tx_addr_ptr :: nat
  x_fifo_rx_addr_ptr :: u8
  x_packet :: "u8 list"
  x_preinit_done :: bool
  x_dio0_pending :: bool
  x_low_datarate :: bool
  preamble_detected_at :: u32
  header_detected_at :: u32
  false_preamble_detected :: bool

definition sx126x_new :: sx126x where
  "sx126x_new =
     \<lparr>bus = [], x_frequency = 0, x_txp = 0, x_sf = 7, x_bw = 4, x_cr = 1, x_ldro = 0, x_packetIndex = 0, x_preambleLength = 18,
      x_implicitHeaderMode = False, x_payloadLength = 255, x_crcMode = True, x_fifo_tx_addr_ptr = 0, x_fifo_rx_addr_ptr = 0,
      x_packet = replicate 255 0, x_preinit_done = False, x_dio0_pending = False, x_low_datarate = False,
      preamble_detected_at = 0, header_detected_at = 0, false_preamble_detected = False\<rparr>"

definition on_bus :: "bus_event \<Rightarrow> sx126x \<Rightarrow> sx126x" where
  "on_bus e s = s\<lparr>bus := bus s @ [e]\<rparr>"

definition sx126x_singleTransfer :: "chip \<Rightarrow> u8 \<Rightarrow> u16 \<Rightarrow> u8 \<Rightarrow> sx126x \<Rightarrow> u8 \<times> sx126x" where
  "sx126x_singleTransfer A opcode address v s =
     (let bs = [opcode, byte_at 8 address, byte_at 0 address] @ (if opcode = OP_READ_REGISTER_6X then [0] else []) @ [v];
          s = on_bus (Spi bs) s
      in (A (bus s) (length bs - 1), s))"

definition sx126x_readRegister :: "chip \<Rightarrow> u16 \<Rightarrow> sx126x \<Rightarrow> u8 \<times> sx126x" where
  "sx126x_readRegister A address s = sx126x_singleTransfer A OP_READ_REGISTER_6X address 0 s"

definition sx126x_writeRegister :: "chip \<Rightarrow> u16 \<Rightarrow> u8 \<Rightarrow> sx126x \<Rightarrow> sx126x" where
  "sx126x_writeRegister A address v s = snd (sx126x_singleTransfer A OP_WRITE_REGISTER_6X address v s)"

definition executeOpcode :: "u8 \<Rightarrow> u8 list \<Rightarrow> sx126x \<Rightarrow> sx126x" where
  "executeOpcode opcode buffer s = on_bus (Spi (opcode # buffer)) s"

definition executeOpcodeRead :: "chip \<Rightarrow> u8 \<Rightarrow> nat \<Rightarrow> sx126x \<Rightarrow> u8 list \<times> sx126x" where
  "executeOpcodeRead A opcode n s =
     (let s = on_bus (Spi (opcode # 0 # replicate n 0)) s in (map (\<lambda>i. A (bus s) (2 + i)) [0..<n], s))"

definition writeBuffer :: "u8 list \<Rightarrow> sx126x \<Rightarrow> sx126x" where
  "writeBuffer buffer s =
     (on_bus (Spi (OP_FIFO_WRITE_6X # of_nat (x_fifo_tx_addr_ptr s) # buffer)) s)\<lparr>x_fifo_tx_addr_ptr := x_fifo_tx_addr_ptr s + length buffer\<rparr>"

definition readBuffer :: "chip \<Rightarrow> nat \<Rightarrow> sx126x \<Rightarrow> u8 list \<times> sx126x" where
  "readBuffer A n s =
     (let s = on_bus (Spi (OP_FIFO_READ_6X # x_fifo_rx_addr_ptr s # 0 # replicate n 0)) s in (map (\<lambda>i. A (bus s) (3 + i)) [0..<n], s))"

section \<open>Parameters\<close>

definition setModulationParams :: "u8 \<Rightarrow> u8 \<Rightarrow> u8 \<Rightarrow> u8 \<Rightarrow> sx126x \<Rightarrow> sx126x" where
  "setModulationParams sf bw cr ldro s = executeOpcode OP_MODULATION_PARAMS_6X [sf, bw, cr, ldro, 0, 0, 0, 0] s"

definition setPacketParams :: "chip \<Rightarrow> int \<Rightarrow> bool \<Rightarrow> nat \<Rightarrow> bool \<Rightarrow> sx126x \<Rightarrow> sx126x" where
  "setPacketParams A preamble_symbols headermode payload_length crc s =
     (let preamble = (word_of_int preamble_symbols :: u32);
          s = executeOpcode OP_PACKET_PARAMS_6X
                [byte_at 8 preamble, byte_at 0 preamble, of_bool headermode, of_nat payload_length, of_bool crc, 0, 0, 0, 0] s;
          (iqreg, s) = sx126x_readRegister A 0x0736 s
      in sx126x_writeRegister A 0x0736 (iqreg OR 0x04) s)"

definition current_packet_params :: "chip \<Rightarrow> sx126x \<Rightarrow> sx126x" where
  "current_packet_params A s = setPacketParams A (x_preambleLength s) (x_implicitHeaderMode s) (x_payloadLength s) (x_crcMode s) s"

definition sx126x_enableCrc :: "chip \<Rightarrow> sx126x \<Rightarrow> sx126x" where
  "sx126x_enableCrc A s = current_packet_params A (s\<lparr>x_crcMode := True\<rparr>)"

definition sx126x_disableCrc :: "chip \<Rightarrow> sx126x \<Rightarrow> sx126x" where
  "sx126x_disableCrc A s = current_packet_params A (s\<lparr>x_crcMode := False\<rparr>)"

definition sx126x_explicitHeaderMode :: "chip \<Rightarrow> sx126x \<Rightarrow> sx126x" where
  "sx126x_explicitHeaderMode A s = current_packet_params A (s\<lparr>x_implicitHeaderMode := False\<rparr>)"

definition sx126x_implicitHeaderMode :: "chip \<Rightarrow> sx126x \<Rightarrow> sx126x" where
  "sx126x_implicitHeaderMode A s = current_packet_params A (s\<lparr>x_implicitHeaderMode := True\<rparr>)"

definition sx126x_setPreambleLength :: "chip \<Rightarrow> int \<Rightarrow> sx126x \<Rightarrow> sx126x" where
  "sx126x_setPreambleLength A preamble_symbols s = current_packet_params A (s\<lparr>x_preambleLength := preamble_symbols\<rparr>)"

definition sx126x_bandwidths :: "(u8 \<times> int) list" where
  "sx126x_bandwidths =
     [(0x00, 7800), (0x01, 15600), (0x02, 31250), (0x03, 62500), (0x04, 125000), (0x05, 250000), (0x06, 500000),
      (0x08, 10400), (0x09, 20800), (0x0A, 41700)]"

definition sx126x_getSignalBandwidth :: "sx126x \<Rightarrow> int" where
  "sx126x_getSignalBandwidth s = (case map_of sx126x_bandwidths (x_bw s) of Some bw \<Rightarrow> bw | None \<Rightarrow> 0)"

text \<open>The bandwidth code is never one without an entry, so that the division does not trap.\<close>

definition sx126x_handleLowDataRate :: "sx126x \<Rightarrow> sx126x" where
  "sx126x_handleLowDataRate s =
     (if low_rate (unat (x_sf s)) (sx126x_getSignalBandwidth s) then s\<lparr>x_ldro := 1, x_low_datarate := True\<rparr>
      else s\<lparr>x_ldro := 0, x_low_datarate := False\<rparr>)"

definition sx126x_optimizeModemSensitivity :: "chip \<Rightarrow> sx126x \<Rightarrow> sx126x" where
  "sx126x_optimizeModemSensitivity A s =
     (let (reg, s) = sx126x_readRegister A 0x0889 s
      in if sx126x_getSignalBandwidth s = 500000 then sx126x_writeRegister A 0x0889 (reg AND 0xFB) s
         else sx126x_writeRegister A 0x0889 (reg OR 0x04) s)"

definition current_modulation :: "sx126x \<Rightarrow> sx126x" where
  "current_modulation s = setModulationParams (x_sf s) (x_bw s) (x_cr s) (x_ldro s) s"

definition sx126x_setSpreadingFactor :: "int \<Rightarrow> sx126x \<Rightarrow> sx126x" where
  "sx126x_setSpreadingFactor sf s =
     (let sf = clamp 5 12 sf; s = sx126x_handleLowDataRate (s\<lparr>x_sf := word_of_int sf\<rparr>)
      in setModulationParams (word_of_int sf) (x_bw s) (x_cr s) (x_ldro s) s)"

definition sx126x_bandwidth_code :: "int \<Rightarrow> u8" where
  "sx126x_bandwidth_code sbw =
     (if sbw \<le> 7800 then 0x00 else if sbw \<le> 10400 then 0x08 else if sbw \<le> 15600 then 0x01 else if sbw \<le> 20800 then 0x09
      else if sbw \<le> 31250 then 0x02 else if sbw \<le> 41700 then 0x0A else if sbw \<le> 62500 then 0x03 else if sbw \<le> 125000 then 0x04
      else if sbw \<le> 250000 then 0x05 else 0x06)"

definition sx126x_setSignalBandwidth :: "chip \<Rightarrow> int \<Rightarrow> sx126x \<Rightarrow> sx126x" where
  "sx126x_setSignalBandwidth A sbw s =
     sx126x_optimizeModemSensitivity A (current_modulation (sx126x_handleLowDataRate (s\<lparr>x_bw := sx126x_bandwidth_code sbw\<rparr>)))"

definition sx126x_setCodingRate4 :: "int \<Rightarrow> sx126x \<Rightarrow> sx126x" where
  "sx126x_setCodingRate4 denominator s =
     (let cr = word_of_int (clamp 5 8 denominator - 4); s = s\<lparr>x_cr := cr\<rparr>
      in setModulationParams (x_sf s) (x_bw s) cr (x_ldro s) s)"

text \<open>
  The quotient by the frequency step is never so near to an integer that the rounding of the division in double precision
  could reach it, so that the conversion cuts off the exact quotient.
\<close>

definition sx126x_setFrequency :: "u32 \<Rightarrow> sx126x \<Rightarrow> sx126x" where
  "sx126x_setFrequency f s =
     (let freq = (of_nat (unat f * 2 ^ 25 div 32000000) :: u32)
      in executeOpcode OP_RF_FREQ_6X [byte_at 24 freq, byte_at 16 freq, byte_at 8 freq, byte_at 0 freq] (s\<lparr>x_frequency := f\<rparr>))"

definition sx126x_getFrequency :: "sx126x \<Rightarrow> u32" where
  "sx126x_getFrequency s = x_frequency s"

definition sx126x_setTxPower :: "chip \<Rightarrow> sx126x_board \<Rightarrow> int \<Rightarrow> sx126x \<Rightarrow> sx126x" where
  "sx126x_setTxPower A b level s =
     (let (reg, s) = sx126x_readRegister A 0x08D8 s;
          s = sx126x_writeRegister A 0x08D8 (reg OR 0x1E) s;
          s = executeOpcode OP_PA_CONFIG_6X [0x04, 0x07, 0x00, 0x01] s;
          level = (if level > 22 then 22 else if level < - 9 then - 9 else level);
          s = sx126x_writeRegister A REG_OCP_6X (OCP_TUNED b) s;
          s = executeOpcode OP_TX_PARAMS_6X [word_of_int level, 0x02] s
      in s\<lparr>x_txp := level\<rparr>)"

definition sx126x_getTxPower :: "sx126x \<Rightarrow> u8" where
  "sx126x_getTxPower s = word_of_int (x_txp s)"

text \<open>Either a byte, which is spread over the register with the nibble 4 between, or a value that has this form already.\<close>

definition sync_bytes :: "u16 \<Rightarrow> u8 \<times> u8" where
  "sync_bytes sw =
     (if sw > 0xFF \<and> sw AND 0x0F0F = 0x0404 then (byte_at 8 sw, byte_at 0 sw)
      else (let raw = byte_at 0 sw in ((raw AND 0xF0) OR 0x04, push_bit 4 (raw AND 0x0F) OR 0x04)))"

definition sx126x_setSyncWord :: "chip \<Rightarrow> u16 \<Rightarrow> sx126x \<Rightarrow> sx126x" where
  "sx126x_setSyncWord A sw s =
     (let (msb, lsb) = sync_bytes sw
      in sx126x_writeRegister A REG_SYNC_WORD_LSB_6X lsb (sx126x_writeRegister A REG_SYNC_WORD_MSB_6X msb s))"

section \<open>Modes and start\<close>

definition sx126x_standby :: "sx126x \<Rightarrow> sx126x" where
  "sx126x_standby s = executeOpcode OP_STANDBY_6X [MODE_STDBY_XOSC_6X] s"

definition sx126x_sleep :: "sx126x \<Rightarrow> sx126x" where
  "sx126x_sleep s = executeOpcode OP_SLEEP_6X [0x00] s"

definition loraMode :: "sx126x \<Rightarrow> sx126x" where
  "loraMode s = executeOpcode OP_PACKET_TYPE_6X [MODE_LONG_RANGE_MODE_6X] s"

definition setDCDCRegulator :: "sx126x \<Rightarrow> sx126x" where
  "setDCDCRegulator s = executeOpcode OP_REGULATOR_MODE_6X [0x01] (executeOpcode OP_STANDBY_6X [MODE_STDBY_RC_6X] s)"

definition clearDeviceErrors :: "sx126x \<Rightarrow> sx126x" where
  "clearDeviceErrors s = executeOpcode OP_CLR_ERROR_6X [0x00, 0x00] s"

definition calibrate :: "sx126x \<Rightarrow> sx126x" where
  "calibrate s = executeOpcode OP_CALIBRATE_6X [MASK_CALIBRATE_ALL] (executeOpcode OP_STANDBY_6X [MODE_STDBY_RC_6X] s)"

definition image_freq :: "u32 \<Rightarrow> u8 list" where
  "image_freq f =
     (if 430000000 \<le> f \<and> f \<le> 440000000 then [0x6B, 0x6F]
      else if 470000000 \<le> f \<and> f \<le> 510000000 then [0x75, 0x81]
      else if 779000000 \<le> f \<and> f \<le> 787000000 then [0xC1, 0xC5]
      else if 863000000 \<le> f \<and> f \<le> 870000000 then [0xD7, 0xDB]
      else if 902000000 \<le> f \<and> f \<le> 928000000 then [0xE1, 0xE9] else [0, 0])"

definition calibrate_image :: "u32 \<Rightarrow> sx126x \<Rightarrow> sx126x" where
  "calibrate_image f s = executeOpcode OP_CALIBRATE_IMAGE_6X (image_freq f) s"

definition tcxo_voltage :: "u8 \<Rightarrow> u8" where
  "tcxo_voltage bm = (if bm \<in> {BOARD_RAK4631, BOARD_HELTEC32_V3, BOARD_XIAO_S3} then MODE_TCXO_3_3V_6X else MODE_TCXO_1_8V_6X)"

definition sx126x_enableTCXO :: "sx126x_board \<Rightarrow> sx126x \<Rightarrow> sx126x" where
  "sx126x_enableTCXO b s = (case tcxo b of None \<Rightarrow> s | Some v \<Rightarrow> executeOpcode OP_DIO3_TCXO_CTRL_6X [v, 0x00, 0x00, 0xFF] s)"

definition sx126x_reset :: "bool \<Rightarrow> sx126x \<Rightarrow> sx126x" where
  "sx126x_reset reset_pin s = (if reset_pin then on_bus Reset s else s)"

text \<open>\<open>ts\<close> are the milliseconds since the start at which the loop looks at the clock.\<close>

fun sync_loop :: "chip \<Rightarrow> nat list \<Rightarrow> u16 \<Rightarrow> sx126x \<Rightarrow> u16 \<times> sx126x" where
  "sync_loop A [] sync s = (sync, s)"
| "sync_loop A (t # ts) sync s =
     (if t < 2000 then
        (let (syncmsb, s) = sx126x_readRegister A REG_SYNC_WORD_MSB_6X s;
             (synclsb, s) = sx126x_readRegister A REG_SYNC_WORD_LSB_6X s;
             sync = of_be16 syncmsb synclsb
         in if sync = 0x1424 \<or> sync = 0x4434 then (sync, s) else sync_loop A ts sync s)
      else (sync, s))"

definition sx126x_preInit :: "chip \<Rightarrow> nat list \<Rightarrow> sx126x \<Rightarrow> bool \<times> sx126x" where
  "sx126x_preInit A ts s =
     (let (sync, s) = sync_loop A ts 0 s
      in if sync \<noteq> 0x1424 \<and> sync \<noteq> 0x4434 then (False, s) else (True, s\<lparr>x_preinit_done := True\<rparr>))"

definition oscillator_start :: "sx126x_board \<Rightarrow> sx126x \<Rightarrow> sx126x" where
  "oscillator_start b s =
     (if tcxo b \<noteq> None
      then clearDeviceErrors (executeOpcode OP_RX_TX_FALLBACK_MODE_6X [0x30] (sx126x_enableTCXO b s)) else s)"

definition sx126x_begin :: "chip \<Rightarrow> sx126x_board \<Rightarrow> bool \<Rightarrow> nat list \<Rightarrow> u32 \<Rightarrow> sx126x \<Rightarrow> bool \<times> sx126x" where
  "sx126x_begin A b reset_pin ts f s =
     (let s = sx126x_reset reset_pin s;
          (ok, s) = (if \<not> x_preinit_done s then sx126x_preInit A ts s else (True, s))
      in if \<not> ok then (False, s)
         else
           (let s = setDCDCRegulator s;
                s = oscillator_start b s;
                s = calibrate s;
                s = calibrate_image f s;
                s = loraMode s;
                s = sx126x_standby s;
                s = sx126x_setSyncWord A SYNC_WORD_6X s;
                s = (if dio2_as_rf_switch b then executeOpcode OP_DIO2_RF_CTRL_6X [0x01] s else s);
                s = sx126x_setFrequency f s;
                s = sx126x_setTxPower A b 2 s;
                s = sx126x_enableCrc A s;
                s = sx126x_writeRegister A REG_LNA_6X 0x96 s;
                (reg, s) = sx126x_readRegister A 0x08B5 s;
                s = sx126x_writeRegister A 0x08B5 (reg OR 0x01) s;
                s = executeOpcode OP_BUFFER_BASE_ADDR_6X [0x00, 0x00] s;
                s = current_modulation s
            in (True, current_packet_params A s)))"

definition sx126x_end :: "sx126x \<Rightarrow> sx126x" where
  "sx126x_end s = (sx126x_sleep s)\<lparr>x_preinit_done := False\<rparr>"

section \<open>Sending\<close>

definition sx126x_beginPacket :: "chip \<Rightarrow> bool \<Rightarrow> sx126x \<Rightarrow> sx126x" where
  "sx126x_beginPacket A implicitHeader s =
     (let s = sx126x_standby s;
          s = (if implicitHeader then sx126x_implicitHeaderMode A s else sx126x_explicitHeaderMode A s)
      in current_packet_params A (s\<lparr>x_payloadLength := 0, x_fifo_tx_addr_ptr := 0\<rparr>))"

text \<open>The subtraction is one of unsigned numbers of 32 bits.\<close>

definition sx126x_write :: "u8 list \<Rightarrow> sx126x \<Rightarrow> nat \<times> sx126x" where
  "sx126x_write buffer s =
     (let size = (if x_payloadLength s + length buffer > MAX_PKT_LENGTH
                  then nat ((255 - int (x_payloadLength s)) mod 2 ^ 32) else length buffer);
          s = writeBuffer (take size buffer) s
      in (size, s\<lparr>x_payloadLength := x_payloadLength s + size\<rparr>))"

text \<open>
  The loop looks at the clock, and reads the status while the time is not over and the end is not reported. \<open>None\<close>
  while it goes on.
\<close>

fun tx_poll :: "chip \<Rightarrow> u32 \<Rightarrow> u32 list \<Rightarrow> u8 \<Rightarrow> sx126x \<Rightarrow> (u32 list \<times> sx126x) option" where
  "tx_poll A w_timeout [] irq s = None"
| "tx_poll A w_timeout (t # ts) irq s =
     (if t < w_timeout \<and> irq AND IRQ_TX_DONE_MASK_6X = 0 then
        (let (buf, s) = executeOpcodeRead A OP_GET_IRQ_STATUS_6X 2 s in tx_poll A w_timeout ts (buf ! 1) s)
      else Some (ts, s))"

text \<open>What the chip is told at the end of a packet.\<close>

definition start_tx :: "chip \<Rightarrow> sx126x \<Rightarrow> sx126x" where
  "start_tx A s = executeOpcode OP_TX_6X [0, 0, 0] (current_packet_params A s)"

text \<open>
  The limit is a floating-point constant: the sum is exact and is converted to 32 bits, which is undefined when it is too
  large; then \<open>ovf\<close> stands for the result. \<open>t0\<close>, \<open>ts\<close> are the readings of the clock.
\<close>

definition tx_deadline :: "u32 \<Rightarrow> u32 \<Rightarrow> u32" where
  "tx_deadline ovf t0 = (if unat t0 + 20000 < 2 ^ 32 then t0 + 20000 else ovf)"

definition sx126x_endPacket :: "chip \<Rightarrow> u32 \<Rightarrow> u32 \<Rightarrow> u32 list \<Rightarrow> sx126x \<Rightarrow> (bool \<times> sx126x) option" where
  "sx126x_endPacket A ovf t0 ts s =
     (let s = start_tx A s;
          (buf, s) = executeOpcodeRead A OP_GET_IRQ_STATUS_6X 2 s;
          w_timeout = tx_deadline ovf t0
      in case tx_poll A w_timeout ts (buf ! 1) s of
           Some (t # _, s) \<Rightarrow>
             Some (t < w_timeout, executeOpcode OP_CLEAR_IRQ_STATUS_6X [0x00, IRQ_TX_DONE_MASK_6X] s)
         | _ \<Rightarrow> None)"

section \<open>Receiving\<close>

definition sx126x_receive :: "chip \<Rightarrow> nat \<Rightarrow> sx126x \<Rightarrow> sx126x" where
  "sx126x_receive A len s =
     (let s = (if len > 0 then current_packet_params A ((sx126x_implicitHeaderMode A s)\<lparr>x_payloadLength := len\<rparr>)
               else sx126x_explicitHeaderMode A s)
      in executeOpcode OP_RX_6X [0xFF, 0xFF, 0xFF] s)"

definition sx126x_onReceive :: "bool \<Rightarrow> sx126x \<Rightarrow> sx126x" where
  "sx126x_onReceive callback s =
     (if callback then executeOpcode OP_SET_IRQ_FLAGS_6X [0xFF, 0xFF, 0x00, IRQ_RX_DONE_MASK_6X, 0x00, 0x00, 0x00, 0x00] s else s)"

definition sx126x_available :: "chip \<Rightarrow> sx126x \<Rightarrow> int \<times> sx126x" where
  "sx126x_available A s =
     (let (buf, s) = executeOpcodeRead A OP_RX_BUFFER_STATUS_6X 2 s in (uint (buf ! 0) - int (x_packetIndex s), s))"

text \<open>The whole packet is fetched before its first byte is given.\<close>

definition fetch_packet :: "chip \<Rightarrow> sx126x \<Rightarrow> sx126x" where
  "fetch_packet A s =
     (if x_packetIndex s = 0 then
        (let (rxbuf, s) = executeOpcodeRead A OP_RX_BUFFER_STATUS_6X 2 s;
             size = unat (rxbuf ! 0);
             (bs, s) = readBuffer A size (s\<lparr>x_fifo_rx_addr_ptr := rxbuf ! 1\<rparr>)
         in s\<lparr>x_packet := bs @ drop size (x_packet s)\<rparr>)
      else s)"

definition sx126x_read :: "chip \<Rightarrow> sx126x \<Rightarrow> int \<times> sx126x" where
  "sx126x_read A s =
     (let (n, s) = sx126x_available A s
      in if n = 0 then (- 1, s)
         else
           (let s = fetch_packet A s
            in (uint (x_packet s ! x_packetIndex s), s\<lparr>x_packetIndex := x_packetIndex s + 1\<rparr>)))"

definition sx126x_peek :: "chip \<Rightarrow> sx126x \<Rightarrow> int \<times> sx126x" where
  "sx126x_peek A s =
     (let (n, s) = sx126x_available A s
      in if n = 0 then (- 1, s) else (let s = fetch_packet A s in (uint (x_packet s ! x_packetIndex s), s)))"

text \<open>\<open>callback\<close> is what the core does with a packet of the given length.\<close>

definition sx126x_handleDio0Rise :: "chip \<Rightarrow> (nat \<Rightarrow> sx126x \<times> 's \<Rightarrow> sx126x \<times> 's) \<Rightarrow> sx126x \<times> 's \<Rightarrow> sx126x \<times> 's" where
  "sx126x_handleDio0Rise A callback st =
     (let (s, x) = st;
          (buf, s) = executeOpcodeRead A OP_GET_IRQ_STATUS_6X 2 s;
          s = executeOpcode OP_CLEAR_IRQ_STATUS_6X buf s
      in if buf ! 1 AND IRQ_PAYLOAD_CRC_ERROR_MASK_6X = 0 then
           (let (rxbuf, s) = executeOpcodeRead A OP_RX_BUFFER_STATUS_6X 2 (s\<lparr>x_packetIndex := 0\<rparr>)
            in callback (unat (rxbuf ! 0)) (s, x))
         else (s, x))"

definition sx126x_onDio0Rise :: "sx126x \<Rightarrow> sx126x" where
  "sx126x_onDio0Rise s = s\<lparr>x_dio0_pending := True\<rparr>"

definition unmaskDio0 :: "bool \<Rightarrow> sx126x \<Rightarrow> sx126x" where
  "unmaskDio0 dio0_high s = (if dio0_high then s\<lparr>x_dio0_pending := True\<rparr> else s)"

definition handleDio0IfPending :: "chip \<Rightarrow> (nat \<Rightarrow> sx126x \<times> 's \<Rightarrow> sx126x \<times> 's) \<Rightarrow> sx126x \<times> 's \<Rightarrow> sx126x \<times> 's" where
  "handleDio0IfPending A callback st =
     (if x_dio0_pending (fst st) then sx126x_handleDio0Rise A callback ((fst st)\<lparr>x_dio0_pending := False\<rparr>, snd st) else st)"

section \<open>Carrier and signal\<close>

text \<open>\<open>limit\<close> is the time of a preamble and a header, \<open>t\<close> the clock.\<close>

definition header_watch :: "u8 \<Rightarrow> u32 \<Rightarrow> sx126x \<Rightarrow> sx126x" where
  "header_watch irq t s =
     (if irq AND IRQ_HEADER_DET_MASK_6X \<noteq> 0 then
        (let s = (if header_detected_at s = 0 then s\<lparr>header_detected_at := t\<rparr> else s)
         in if t - header_detected_at s > 20000
            then executeOpcode OP_CLEAR_IRQ_STATUS_6X [0x00, IRQ_HEADER_DET_MASK_6X] (s\<lparr>header_detected_at := 0\<rparr>) else s)
      else s\<lparr>header_detected_at := 0\<rparr>)"

definition preamble_watch :: "u8 \<Rightarrow> u32 \<Rightarrow> u32 \<Rightarrow> sx126x \<Rightarrow> sx126x" where
  "preamble_watch irq limit t s =
     (if irq AND IRQ_PREAMBLE_DET_MASK_6X \<noteq> 0 then
        (let s = (if preamble_detected_at s = 0 then s\<lparr>preamble_detected_at := t\<rparr> else s)
         in if t - preamble_detected_at s > limit
            then executeOpcode OP_CLEAR_IRQ_STATUS_6X [0x00, IRQ_PREAMBLE_DET_MASK_6X]
              (s\<lparr>preamble_detected_at := 0,
                 false_preamble_detected := (irq AND IRQ_HEADER_DET_MASK_6X = 0 \<or> false_preamble_detected s)\<rparr>)
            else s)
      else s)"

definition sx126x_dcd :: "chip \<Rightarrow> u32 \<Rightarrow> u32 \<Rightarrow> sx126x \<Rightarrow> bool \<times> sx126x" where
  "sx126x_dcd A limit t s =
     (let (buf, s) = executeOpcodeRead A OP_GET_IRQ_STATUS_6X 2 s;
          s = header_watch (buf ! 1) t s;
          s = preamble_watch (buf ! 1) limit t s;
          s = (if false_preamble_detected s then (sx126x_receive A 0 s)\<lparr>false_preamble_detected := False\<rparr> else s)
      in (buf ! 1 AND IRQ_HEADER_DET_MASK_6X \<noteq> 0 \<or> buf ! 1 AND IRQ_PREAMBLE_DET_MASK_6X \<noteq> 0, s))"

definition sx126x_currentRssiRaw :: "chip \<Rightarrow> sx126x \<Rightarrow> u8 \<times> sx126x" where
  "sx126x_currentRssiRaw A s = (let (buf, s) = executeOpcodeRead A OP_CURRENT_RSSI_6X 1 s in (buf ! 0, s))"

definition without_gain :: "sx126x_board \<Rightarrow> int \<Rightarrow> int" where
  "without_gain b rssi = (case lna_gain b of Some g \<Rightarrow> rssi - g | None \<Rightarrow> rssi)"

definition sx126x_currentRssi :: "chip \<Rightarrow> sx126x_board \<Rightarrow> sx126x \<Rightarrow> int \<times> sx126x" where
  "sx126x_currentRssi A b s =
     (let (buf, s) = executeOpcodeRead A OP_CURRENT_RSSI_6X 1 s in (without_gain b (c_div (- uint (buf ! 0)) 2), s))"

definition sx126x_packetRssiRaw :: "chip \<Rightarrow> sx126x \<Rightarrow> u8 \<times> sx126x" where
  "sx126x_packetRssiRaw A s = (let (buf, s) = executeOpcodeRead A OP_PACKET_STATUS_6X 3 s in (buf ! 2, s))"

definition sx126x_packetRssi :: "chip \<Rightarrow> sx126x_board \<Rightarrow> sx126x \<Rightarrow> int \<times> sx126x" where
  "sx126x_packetRssi A b s =
     (let (buf, s) = executeOpcodeRead A OP_PACKET_STATUS_6X 3 s in (without_gain b (c_div (- uint (buf ! 0)) 2), s))"

definition sx126x_packetRssi_snr :: "chip \<Rightarrow> u8 \<Rightarrow> sx126x \<Rightarrow> int \<times> sx126x" where
  "sx126x_packetRssi_snr A pkt_snr_raw s =
     (let (buf, s) = executeOpcodeRead A OP_PACKET_STATUS_6X 3 s in (c_div (- uint (buf ! 0)) 2, s))"

definition sx126x_packetSnrRaw :: "chip \<Rightarrow> sx126x \<Rightarrow> u8 \<times> sx126x" where
  "sx126x_packetSnrRaw A s = (let (buf, s) = executeOpcodeRead A OP_PACKET_STATUS_6X 3 s in (buf ! 1, s))"

definition sx126x_random :: "chip \<Rightarrow> sx126x \<Rightarrow> u8 \<times> sx126x" where
  "sx126x_random A s = sx126x_readRegister A REG_RANDOM_GEN_6X s"

section \<open>What the chip has been told\<close>

text \<open>The parameters of the last command with an opcode, since the last reset.\<close>

definition tell :: "u8 \<Rightarrow> bus_event \<Rightarrow> u8 list option \<Rightarrow> u8 list option" where
  "tell opcode e r = (case e of Reset \<Rightarrow> None | Spi [] \<Rightarrow> r | Spi (x # xs) \<Rightarrow> if x = opcode then Some xs else r)"

definition told :: "u8 \<Rightarrow> bus_event list \<Rightarrow> u8 list option" where
  "told opcode es = fold (tell opcode) es None"

text \<open>
  Setting the packet parameters spoils the register of the signal polarity, according to the errata of the chip; it is in
  order when its bit 2 has been set again since.
\<close>

definition polarity_step :: "bus_event \<Rightarrow> bool \<Rightarrow> bool" where
  "polarity_step e ok =
     (case e of
        Reset \<Rightarrow> False
      | Spi bs \<Rightarrow>
          if bs \<noteq> [] \<and> hd bs = OP_PACKET_PARAMS_6X then False
          else if length bs = 4 \<and> bs ! 0 = OP_WRITE_REGISTER_6X \<and> of_be16 (bs ! 1) (bs ! 2) = 0x0736 then bit (bs ! 3) 2
          else ok)"

definition polarity :: "bus_event list \<Rightarrow> bool" where
  "polarity es = fold polarity_step es False"

lemma told_append [simp]: "told opcode (es @ es') = fold (tell opcode) es' (told opcode es)"
  by (simp add: told_def)

lemma polarity_append [simp]: "polarity (es @ es') = fold polarity_step es' (polarity es)"
  by (simp add: polarity_def)

lemma on_bus_sel [simp]:
  "bus (on_bus e s) = bus s @ [e]" "x_frequency (on_bus e s) = x_frequency s" "x_sf (on_bus e s) = x_sf s" "x_bw (on_bus e s) = x_bw s"
  "x_cr (on_bus e s) = x_cr s" "x_ldro (on_bus e s) = x_ldro s" "x_packetIndex (on_bus e s) = x_packetIndex s"
  "x_preambleLength (on_bus e s) = x_preambleLength s" "x_implicitHeaderMode (on_bus e s) = x_implicitHeaderMode s"
  "x_payloadLength (on_bus e s) = x_payloadLength s" "x_crcMode (on_bus e s) = x_crcMode s"
  "x_fifo_tx_addr_ptr (on_bus e s) = x_fifo_tx_addr_ptr s" "x_packet (on_bus e s) = x_packet s"
  "preamble_detected_at (on_bus e s) = preamble_detected_at s" "header_detected_at (on_bus e s) = header_detected_at s"
  "false_preamble_detected (on_bus e s) = false_preamble_detected s"
  by (simp_all add: on_bus_def)

text \<open>The driver goes from one state to the other without touching the modulation.\<close>

definition same_modulation :: "sx126x \<Rightarrow> sx126x \<Rightarrow> bool" where
  "same_modulation s t \<longleftrightarrow>
     told OP_MODULATION_PARAMS_6X (bus t) = told OP_MODULATION_PARAMS_6X (bus s) \<and> (polarity (bus s) \<longrightarrow> polarity (bus t)) \<and>
     x_sf t = x_sf s \<and> x_bw t = x_bw s \<and> x_cr t = x_cr s \<and> x_ldro t = x_ldro s"

lemma same_refl [simp]: "same_modulation s s"
  by (simp add: same_modulation_def)

lemma same_trans [trans]: "same_modulation s t \<Longrightarrow> same_modulation t u \<Longrightarrow> same_modulation s u"
  by (auto simp: same_modulation_def)

lemma same_update [simp]:
  "same_modulation s (t\<lparr>x_packetIndex := n\<rparr>) = same_modulation s t" "same_modulation s (t\<lparr>x_preambleLength := i\<rparr>) = same_modulation s t"
  "same_modulation s (t\<lparr>x_implicitHeaderMode := q\<rparr>) = same_modulation s t" "same_modulation s (t\<lparr>x_payloadLength := n\<rparr>) = same_modulation s t"
  "same_modulation s (t\<lparr>x_crcMode := q\<rparr>) = same_modulation s t" "same_modulation s (t\<lparr>x_fifo_tx_addr_ptr := n\<rparr>) = same_modulation s t"
  "same_modulation s (t\<lparr>x_fifo_rx_addr_ptr := w\<rparr>) = same_modulation s t" "same_modulation s (t\<lparr>x_packet := bs\<rparr>) = same_modulation s t"
  "same_modulation s (t\<lparr>x_frequency := f\<rparr>) = same_modulation s t" "same_modulation s (t\<lparr>x_txp := i\<rparr>) = same_modulation s t"
  "same_modulation s (t\<lparr>header_detected_at := f\<rparr>) = same_modulation s t" "same_modulation s (t\<lparr>preamble_detected_at := f\<rparr>) = same_modulation s t"
  "same_modulation s (t\<lparr>false_preamble_detected := q\<rparr>) = same_modulation s t" "same_modulation s (t\<lparr>x_dio0_pending := q\<rparr>) = same_modulation s t"
  "same_modulation s (t\<lparr>x_preinit_done := q\<rparr>) = same_modulation s t"
  by (simp_all add: same_modulation_def)

lemma same_event:
  "x \<noteq> OP_MODULATION_PARAMS_6X \<Longrightarrow> x \<noteq> OP_PACKET_PARAMS_6X \<Longrightarrow> x \<noteq> OP_WRITE_REGISTER_6X \<Longrightarrow> same_modulation s t \<Longrightarrow>
    same_modulation s (on_bus (Spi (x # xs)) t)"
  by (simp add: same_modulation_def tell_def polarity_step_def)

lemma same_command [simp]:
  "x \<noteq> OP_MODULATION_PARAMS_6X \<Longrightarrow> x \<noteq> OP_PACKET_PARAMS_6X \<Longrightarrow> x \<noteq> OP_WRITE_REGISTER_6X \<Longrightarrow> same_modulation s t \<Longrightarrow>
    same_modulation s (executeOpcode x xs t)"
  by (simp add: executeOpcode_def same_event)

text \<open>Reading puts one event on the bus, and gives what the chip answers to it.\<close>

definition answers :: "chip \<Rightarrow> bus_event list \<Rightarrow> nat \<Rightarrow> nat \<Rightarrow> u8 list" where
  "answers A es k n = map (\<lambda>i. A es (k + i)) [0..<n]"

lemma answers_two [simp]: "answers A es k 2 ! 0 = A es k" "answers A es k 2 ! Suc 0 = A es (Suc k)"
  by (simp_all add: answers_def)

lemma read_answer:
  "executeOpcodeRead A x n s = (answers A (bus s @ [Spi (x # 0 # replicate n 0)]) 2 n, on_bus (Spi (x # 0 # replicate n 0)) s)"
  by (simp add: executeOpcodeRead_def answers_def)

lemma buffer_answer:
  "readBuffer A n s =
     (answers A (bus s @ [Spi (OP_FIFO_READ_6X # x_fifo_rx_addr_ptr s # 0 # replicate n 0)]) 3 n,
      on_bus (Spi (OP_FIFO_READ_6X # x_fifo_rx_addr_ptr s # 0 # replicate n 0)) s)"
  by (simp add: readBuffer_def answers_def Let_def)

lemmas bus_reads = read_answer buffer_answer

lemma same_buffers [simp]:
  "same_modulation s t \<Longrightarrow> same_modulation s (writeBuffer bs t)" "same_modulation s t \<Longrightarrow> same_modulation s (snd (readBuffer A n t))"
  by (simp_all add: writeBuffer_def buffer_answer same_event)

lemma read_register6:
  "sx126x_readRegister A a s =
     (A (bus s @ [Spi [OP_READ_REGISTER_6X, byte_at 8 a, byte_at 0 a, 0, 0]]) 4, on_bus (Spi [OP_READ_REGISTER_6X, byte_at 8 a, byte_at 0 a, 0, 0]) s)"
  by (simp add: sx126x_readRegister_def sx126x_singleTransfer_def Let_def eval_nat_numeral)

lemma write_register6: "sx126x_writeRegister A a v s = on_bus (Spi [OP_WRITE_REGISTER_6X, byte_at 8 a, byte_at 0 a, v]) s"
  by (simp add: sx126x_writeRegister_def sx126x_singleTransfer_def Let_def)

lemma same_read_register [simp]: "same_modulation s t \<Longrightarrow> same_modulation s (snd (sx126x_readRegister A a t))"
  by (simp add: read_register6 same_event)

lemma same_write_register [simp]: "a \<noteq> 0x0736 \<Longrightarrow> same_modulation s t \<Longrightarrow> same_modulation s (sx126x_writeRegister A a v t)"
  by (simp add: write_register6 same_modulation_def tell_def polarity_step_def)

definition packet_params :: "int \<Rightarrow> bool \<Rightarrow> nat \<Rightarrow> bool \<Rightarrow> u8 list" where
  "packet_params n h len q = [byte_at 8 (word_of_int n :: u32), byte_at 0 (word_of_int n :: u32), of_bool h, of_nat len, of_bool q, 0, 0, 0, 0]"

lemma packet_params_events:
  obtains v r where "setPacketParams A n h len q s =
    on_bus (Spi [OP_WRITE_REGISTER_6X, byte_at 8 (0x0736 :: u16), byte_at 0 (0x0736 :: u16), v OR 0x04])
      (on_bus (Spi (OP_READ_REGISTER_6X # r)) (on_bus (Spi (OP_PACKET_PARAMS_6X # packet_params n h len q)) s))"
proof -
  have "setPacketParams A n h len q s = (let (v, t) = sx126x_readRegister A 0x0736 (on_bus (Spi (OP_PACKET_PARAMS_6X # packet_params n h len q)) s)
      in sx126x_writeRegister A 0x0736 (v OR 0x04) t)"
    by (simp only: setPacketParams_def Let_def executeOpcode_def packet_params_def)
  then show thesis using that by (simp add: read_register6 write_register6)
qed

lemma polarity_restored [simp]: "bit (v OR 0x04 :: u8) 2"
  by (simp add: bit_simps)

lemma same_packet_params [simp]: "same_modulation s t \<Longrightarrow> same_modulation s (setPacketParams A n h len q t)"
  by (rule packet_params_events [of A n h len q t])
    (simp add: same_modulation_def tell_def polarity_step_def)

lemma polarity_packet_params: "polarity (bus (setPacketParams A n h len q t))"
  by (rule packet_params_events [of A n h len q t]) (simp add: polarity_step_def)

lemma same_current [simp]: "same_modulation s t \<Longrightarrow> same_modulation s (current_packet_params A t)"
  by (simp add: current_packet_params_def)

lemma same_headers [simp]:
  assumes "same_modulation s t"
  shows "same_modulation s (sx126x_enableCrc A t)" "same_modulation s (sx126x_disableCrc A t)" "same_modulation s (sx126x_explicitHeaderMode A t)"
    "same_modulation s (sx126x_implicitHeaderMode A t)" "same_modulation s (sx126x_setPreambleLength A n t)"
    "same_modulation s (sx126x_standby t)"
  using assms by (simp_all add: sx126x_enableCrc_def sx126x_disableCrc_def sx126x_explicitHeaderMode_def sx126x_implicitHeaderMode_def
      sx126x_setPreambleLength_def sx126x_standby_def)

lemma same_settings [simp]:
  assumes "same_modulation s t"
  shows "same_modulation s (sx126x_setFrequency f t)" "same_modulation s (sx126x_setTxPower A b n t)" "same_modulation s (sx126x_setSyncWord A w t)"
  using assms by (simp_all add: sx126x_setFrequency_def sx126x_setTxPower_def sx126x_setSyncWord_def Let_def read_register6 same_event split: prod.split)

lemma same_packets [simp]:
  assumes "same_modulation s t"
  shows "same_modulation s (sx126x_beginPacket A h t)" "same_modulation s (snd (sx126x_write bs t))" "same_modulation s (start_tx A t)"
    "same_modulation s (sx126x_receive A n t)"
  using assms by (simp_all add: sx126x_beginPacket_def sx126x_write_def start_tx_def sx126x_receive_def Let_def)

lemma same_poll:
  "same_modulation s t \<Longrightarrow> tx_poll A w ts irq t = Some (us, u) \<Longrightarrow> same_modulation s u"
proof (induction ts arbitrary: irq t)
  case (Cons x ts)
  then show ?case
    using Cons.IH [of "on_bus (Spi (OP_GET_IRQ_STATUS_6X # 0 # replicate 2 0)) t"]
    by (auto simp: read_answer same_event split: if_splits)
qed simp

lemma same_end_packet:
  assumes "sx126x_endPacket A ovf t0 ts s = Some (ok, t)"
  shows "same_modulation s t"
proof -
  obtain ts' irq us u where u: "tx_poll A (tx_deadline ovf t0) ts' irq (on_bus (Spi (OP_GET_IRQ_STATUS_6X # 0 # replicate 2 0)) (start_tx A s)) = Some (us, u)"
    "t = executeOpcode OP_CLEAR_IRQ_STATUS_6X [0x00, IRQ_TX_DONE_MASK_6X] u"
    using assms by (auto simp: sx126x_endPacket_def Let_def read_answer split: option.splits list.splits)
  have "same_modulation s u" by (rule same_poll [OF _ u(1)]) (simp add: same_event)
  then show ?thesis using u(2) by simp
qed

lemma same_watch [simp]:
  "same_modulation s t \<Longrightarrow> same_modulation s (header_watch irq now t)" "same_modulation s t \<Longrightarrow> same_modulation s (preamble_watch irq limit now t)"
  by (simp_all add: header_watch_def preamble_watch_def Let_def)

lemma same_dcd [simp]: "same_modulation s t \<Longrightarrow> same_modulation s (snd (sx126x_dcd A limit now t))"
  by (simp add: sx126x_dcd_def Let_def read_answer same_event)

lemma same_read [simp]: "same_modulation s t \<Longrightarrow> same_modulation s (snd (sx126x_read A t))"
  by (simp add: sx126x_read_def sx126x_available_def fetch_packet_def Let_def bus_reads same_event)

section \<open>The chip follows the driver\<close>

datatype sx126x_op =
  SetSf int | SetBw int | SetCr int | SetFreq u32 | SetPreamble int | SetPower int | SetSync u16 | SetCrc bool
| BeginPacket bool | Write "u8 list" | EndPacket u32 u32 "u32 list" | StartReceive nat | Interrupt | Poll u32 u32

fun read_frame :: "chip \<Rightarrow> nat \<Rightarrow> sx126x \<Rightarrow> int list \<times> sx126x" where
  "read_frame A 0 s = ([], s)"
| "read_frame A (Suc n) s = (let (x, s) = sx126x_read A s; (xs, s) = read_frame A n s in (x # xs, s))"

text \<open>What the core reads in the callback: the bytes, and once more after the last.\<close>

definition sx126x_take_frame :: "chip \<Rightarrow> nat \<Rightarrow> sx126x \<times> int list \<times> int \<Rightarrow> sx126x \<times> int list \<times> int" where
  "sx126x_take_frame A n st = (let (xs, s) = read_frame A n (fst st); (x, s) = sx126x_read A s in (s, xs, x))"

fun perform :: "chip \<Rightarrow> sx126x_board \<Rightarrow> sx126x_op \<Rightarrow> sx126x \<Rightarrow> sx126x option" where
  "perform A b (SetSf n) s = Some (sx126x_setSpreadingFactor n s)"
| "perform A b (SetBw n) s = Some (sx126x_setSignalBandwidth A n s)"
| "perform A b (SetCr n) s = Some (sx126x_setCodingRate4 n s)"
| "perform A b (SetFreq f) s = Some (sx126x_setFrequency f s)"
| "perform A b (SetPreamble n) s = Some (sx126x_setPreambleLength A n s)"
| "perform A b (SetPower n) s = Some (sx126x_setTxPower A b n s)"
| "perform A b (SetSync w) s = Some (sx126x_setSyncWord A w s)"
| "perform A b (SetCrc q) s = Some (if q then sx126x_enableCrc A s else sx126x_disableCrc A s)"
| "perform A b (BeginPacket h) s = Some (sx126x_beginPacket A h s)"
| "perform A b (Write bs) s = Some (snd (sx126x_write bs s))"
| "perform A b (EndPacket ovf t0 ts) s = map_option snd (sx126x_endPacket A ovf t0 ts s)"
| "perform A b (StartReceive n) s = Some (sx126x_receive A n s)"
| "perform A b Interrupt s = Some (fst (sx126x_handleDio0Rise A (sx126x_take_frame A) (s, [], 0)))"
| "perform A b (Poll limit now) s = Some (snd (sx126x_dcd A limit now s))"

fun perform_all :: "chip \<Rightarrow> sx126x_board \<Rightarrow> sx126x_op list \<Rightarrow> sx126x \<Rightarrow> sx126x option" where
  "perform_all A b [] s = Some s"
| "perform_all A b (x # xs) s = Option.bind (perform A b x s) (perform_all A b xs)"

text \<open>Spreading factor, code of the bandwidth and code of the coding rate, as last asked for.\<close>

fun asked :: "sx126x_op \<Rightarrow> u8 \<times> u8 \<times> u8 \<Rightarrow> u8 \<times> u8 \<times> u8" where
  "asked (SetSf n) (sf, bw, cr) = (word_of_int (clamp 5 12 n), bw, cr)"
| "asked (SetBw n) (sf, bw, cr) = (sf, sx126x_bandwidth_code n, cr)"
| "asked (SetCr n) (sf, bw, cr) = (sf, bw, word_of_int (clamp 5 8 n - 4))"
| "asked _ m = m"

definition slow_switch :: "u8 \<Rightarrow> u8 \<Rightarrow> u8" where
  "slow_switch sf bw = of_bool (case map_of sx126x_bandwidths bw of Some w \<Rightarrow> low_rate (unat sf) w | None \<Rightarrow> low_rate (unat sf) 0)"

definition modulated :: "u8 \<times> u8 \<times> u8 \<Rightarrow> sx126x \<Rightarrow> bool" where
  "modulated m s \<longleftrightarrow>
     m = (x_sf s, x_bw s, x_cr s) \<and> x_ldro s = slow_switch (x_sf s) (x_bw s) \<and> map_of sx126x_bandwidths (x_bw s) \<noteq> None \<and>
     told OP_MODULATION_PARAMS_6X (bus s) = Some [x_sf s, x_bw s, x_cr s, slow_switch (x_sf s) (x_bw s), 0, 0, 0, 0] \<and> polarity (bus s)"

lemma modulated_same: "modulated m s \<Longrightarrow> same_modulation s t \<Longrightarrow> modulated m t"
  by (auto simp: modulated_def same_modulation_def)

lemma same_frame: "same_modulation s t \<Longrightarrow> same_modulation s (snd (read_frame A n t))"
proof (induction n arbitrary: t)
  case (Suc n)
  then show ?case using Suc.IH [OF same_read [OF Suc.prems, of A]] by (simp add: Let_def case_prod_beta)
qed simp

lemma same_interrupt: "same_modulation s (fst (sx126x_handleDio0Rise A (sx126x_take_frame A) (s, x)))"
proof -
  have "same_modulation s t \<Longrightarrow> same_modulation s (fst (sx126x_take_frame A n (t, x)))" for n t x
    using same_read [OF same_frame, of s t A A n] by (simp add: sx126x_take_frame_def Let_def split: prod.split)
      (metis same_frame same_read snd_conv)
  then show ?thesis by (simp add: sx126x_handleDio0Rise_def Let_def read_answer same_event)
qed

lemma ldro_set:
  "map_of sx126x_bandwidths (x_bw s) \<noteq> None \<Longrightarrow> x_ldro (sx126x_handleLowDataRate s) = slow_switch (x_sf s) (x_bw s)"
  by (auto simp: sx126x_handleLowDataRate_def slow_switch_def sx126x_getSignalBandwidth_def split: option.split)

lemma handle_sel [simp]:
  "x_sf (sx126x_handleLowDataRate s) = x_sf s" "x_bw (sx126x_handleLowDataRate s) = x_bw s" "x_cr (sx126x_handleLowDataRate s) = x_cr s"
  "bus (sx126x_handleLowDataRate s) = bus s"
  by (simp_all add: sx126x_handleLowDataRate_def)

lemma code_known: "map_of sx126x_bandwidths (sx126x_bandwidth_code n) \<noteq> None"
  by (simp add: sx126x_bandwidth_code_def sx126x_bandwidths_def)

lemma same_sensitivity [simp]: "same_modulation s t \<Longrightarrow> same_modulation s (sx126x_optimizeModemSensitivity A t)"
  by (simp add: sx126x_optimizeModemSensitivity_def read_register6 same_event)

lemma performed:
  assumes "modulated m s" "perform A b x s = Some t"
  shows "modulated (asked x m) t"
proof (cases x)
  case (SetSf n)
  then show ?thesis using assms ldro_set [of "s\<lparr>x_sf := word_of_int (clamp 5 12 n)\<rparr>"]
    by (auto simp: modulated_def sx126x_setSpreadingFactor_def setModulationParams_def executeOpcode_def tell_def polarity_step_def Let_def)
next
  case (SetCr n)
  then show ?thesis using assms
    by (auto simp: modulated_def sx126x_setCodingRate4_def setModulationParams_def executeOpcode_def tell_def polarity_step_def Let_def)
next
  case (SetBw n)
  let ?u = "current_modulation (sx126x_handleLowDataRate (s\<lparr>x_bw := sx126x_bandwidth_code n\<rparr>))"
  have "modulated (asked x m) ?u"
    using assms(1) SetBw code_known ldro_set [of "s\<lparr>x_bw := sx126x_bandwidth_code n\<rparr>"]
    by (auto simp: modulated_def current_modulation_def setModulationParams_def executeOpcode_def tell_def polarity_step_def)
  moreover have "same_modulation ?u t" using assms(2) SetBw by (auto simp: sx126x_setSignalBandwidth_def)
  ultimately show ?thesis by (rule modulated_same)
next
  case (EndPacket ovf t0 ts)
  then show ?thesis using assms(2) modulated_same [OF assms(1)] same_end_packet by auto
next
  case Interrupt
  then show ?thesis using assms(2) modulated_same [OF assms(1)] same_interrupt by auto
qed (use assms(2) modulated_same [OF assms(1), of t] in \<open>auto split: if_splits\<close>)

text \<open>
  C22: The chip works with the modulation the driver believes in. After any sequence of settings, packets sent and received,
  interrupts and polls, the last modulation command has carried the spreading factor, bandwidth and coding rate last asked
  for, with the switch for slow symbols that belongs to them, and the register of the signal polarity has been restored.
\<close>

theorem sx126x_chip_follows_driver:
  assumes "modulated m s" "perform_all A b xs s = Some t"
  shows "modulated (fold asked xs m) t"
  using assms
proof (induction xs arbitrary: m s)
  case (Cons x xs)
  obtain y where y: "perform A b x s = Some y" "perform_all A b xs y = Some t" using Cons.prems(2) by (auto simp: bind_eq_Some_conv)
  then show ?case using Cons.IH [OF performed [OF Cons.prems(1) y(1)] y(2)] by simp
qed simp

text \<open>A successful start puts the chip in step with the driver.\<close>

lemma sync_loop_same: "same_modulation s t \<Longrightarrow> same_modulation s (snd (sync_loop A ts w t))"
proof (induction ts arbitrary: w t)
  case (Cons x ts)
  then show ?case by (simp add: Let_def read_register6 same_event)
qed simp

definition chip_setup :: "chip \<Rightarrow> sx126x_board \<Rightarrow> u32 \<Rightarrow> sx126x \<Rightarrow> sx126x" where
  "chip_setup A b f s =
     (let s = sx126x_standby (loraMode (calibrate_image f (calibrate (oscillator_start b (setDCDCRegulator s)))));
          s = sx126x_setSyncWord A SYNC_WORD_6X s;
          s = (if dio2_as_rf_switch b then executeOpcode OP_DIO2_RF_CTRL_6X [0x01] s else s);
          s = sx126x_writeRegister A REG_LNA_6X 0x96 (sx126x_enableCrc A (sx126x_setTxPower A b 2 (sx126x_setFrequency f s)));
          (reg, s) = sx126x_readRegister A 0x08B5 s
      in executeOpcode OP_BUFFER_BASE_ADDR_6X [0x00, 0x00] (sx126x_writeRegister A 0x08B5 (reg OR 0x01) s))"

lemma begin_setup:
  "sx126x_begin A b p ts f s =
     (let s = sx126x_reset p s; (ok, s) = (if \<not> x_preinit_done s then sx126x_preInit A ts s else (True, s))
      in if \<not> ok then (False, s) else (True, current_packet_params A (current_modulation (chip_setup A b f s))))"
  by (simp only: sx126x_begin_def chip_setup_def Let_def case_prod_beta)

lemma same_setup: "same_modulation s t \<Longrightarrow> same_modulation s (chip_setup A b f t)"
  by (simp add: chip_setup_def setDCDCRegulator_def oscillator_start_def sx126x_enableTCXO_def clearDeviceErrors_def calibrate_def
      calibrate_image_def loraMode_def read_register6 Let_def same_event split: option.split)

lemma begin_modulates:
  assumes "fst (sx126x_begin A b p ts f s)" "x_ldro s = slow_switch (x_sf s) (x_bw s)" "map_of sx126x_bandwidths (x_bw s) \<noteq> None"
  shows "modulated (x_sf s, x_bw s, x_cr s) (snd (sx126x_begin A b p ts f s))"
proof -
  define r where "r = sx126x_reset p s"
  define i where "i = snd (if \<not> x_preinit_done r then sx126x_preInit A ts r else (True, r))"
  define u where "u = chip_setup A b f i"
  have "same_modulation r i" using sync_loop_same [of r r A ts 0] by (auto simp: i_def sx126x_preInit_def Let_def case_prod_beta)
  then have "same_modulation r u" unfolding u_def by (rule same_setup)
  moreover have "x_sf r = x_sf s" "x_bw r = x_bw s" "x_cr r = x_cr s" "x_ldro r = x_ldro s" by (simp_all add: r_def sx126x_reset_def)
  ultimately have f: "x_sf u = x_sf s" "x_bw u = x_bw s" "x_cr u = x_cr s" "x_ldro u = x_ldro s" by (simp_all add: same_modulation_def)
  let ?t = "current_packet_params A (current_modulation u)"
  have "snd (sx126x_begin A b p ts f s) = ?t"
    using assms(1) by (auto simp: begin_setup r_def [symmetric] i_def [symmetric] u_def Let_def case_prod_beta split: if_splits)
  moreover have "same_modulation (current_modulation u) ?t" by simp
  moreover have "polarity (bus ?t)" by (simp add: current_packet_params_def polarity_packet_params)
  ultimately show ?thesis
    using assms(2,3) f by (auto simp: modulated_def same_modulation_def current_modulation_def setModulationParams_def executeOpcode_def tell_def)
qed

text \<open>The core's view of the modem is what the driver does, as for the other modems.\<close>

lemma sx126x_reads_back_modelled_values:
  "sx126x_getFrequency (sx126x_setFrequency f s) = modem_frequency SX1262 f"
  "sx126x_getSignalBandwidth (sx126x_setSignalBandwidth A (sint w) s) = uint (modem_bandwidth SX1262 w)"
proof -
  show "sx126x_getFrequency (sx126x_setFrequency f s) = modem_frequency SX1262 f"
    by (simp add: sx126x_getFrequency_def sx126x_setFrequency_def executeOpcode_def modem_frequency_def Let_def)
  let ?u = "current_modulation (sx126x_handleLowDataRate (s\<lparr>x_bw := sx126x_bandwidth_code (sint w)\<rparr>))"
  have "x_bw (sx126x_optimizeModemSensitivity A ?u) = sx126x_bandwidth_code (sint w)"
    using same_sensitivity [of ?u ?u A] by (simp add: same_modulation_def current_modulation_def setModulationParams_def executeOpcode_def)
  then show "sx126x_getSignalBandwidth (sx126x_setSignalBandwidth A (sint w) s) = uint (modem_bandwidth SX1262 w)"
    by (simp add: sx126x_getSignalBandwidth_def sx126x_setSignalBandwidth_def modem_bandwidth_def subghz_bandwidth_def
        sx126x_bandwidth_code_def sx126x_bandwidths_def)
qed

text \<open>The two forms of a synchronisation word agree: the spread form of a byte is taken as it is.\<close>

lemma sync_forms_agree: "(case sync_bytes (ucast (r :: u8)) of (m, l) \<Rightarrow> sync_bytes (of_be16 m l)) = sync_bytes (ucast r)"
proof -
  define m where "m = (r AND 0xF0) OR 0x04"
  define l where "l = push_bit 4 (r AND 0x0F) OR 0x04"
  have "\<not> (ucast r :: u16) > 0xFF"
  proof -
    have "unat (ucast r :: u16) = unat r" by (simp add: unsigned_ucast_eq take_bit_nat_eq_self)
    moreover have "\<not> 255 < unat r" using unat_less_256 [of r] by linarith
    ultimately show ?thesis by (simp add: word_less_nat_alt)
  qed
  moreover have "byte_at 0 (ucast r :: u16) = r" by (rule bit_word_eqI) (simp add: byte_at_def bit_simps)
  ultimately have "sync_bytes (ucast r) = (m, l)" by (simp add: sync_bytes_def m_def l_def Let_def)
  moreover have "of_be16 m l > 0xFF"
  proof (rule ccontr)
    assume "\<not> of_be16 m l > 0xFF"
    then have "of_be16 m l AND mask 8 = of_be16 m l" by (intro less_mask_eq) (simp add: word_less_nat_alt word_le_nat_alt)
    moreover have "bit (of_be16 m l) 10" by (simp add: of_be16_def m_def bit_simps)
    moreover have "\<not> bit (of_be16 m l AND mask 8) 10" by (simp add: bit_simps)
    ultimately show False by simp
  qed
  moreover have "of_be16 m l AND 0x0F0F = 0x0404"
  proof -
    have "of_be16 m l AND of_be16 c d = of_be16 (m AND c) (l AND d)" for c d
      by (rule bit_word_eqI) (auto simp: of_be16_def bit_simps)
    from this [of "0x0F" "0x0F"] have "of_be16 m l AND of_be16 0x0F 0x0F = of_be16 (m AND 0x0F) (l AND 0x0F)" .
    moreover have "m AND 0x0F = 0x04" "l AND 0x0F = 0x04" by (rule u8_eqI; simp add: m_def l_def bit_simps)+
    ultimately show ?thesis by (simp add: of_be16_def)
  qed
  moreover have "byte_at 8 (of_be16 m l) = m" "byte_at 0 (of_be16 m l) = l"
    by (rule bit_word_eqI; simp add: byte_at_def of_be16_def bit_simps)+
  ultimately have "sync_bytes (of_be16 m l) = (m, l)" by (simp add: sync_bytes_def)
  then show ?thesis using \<open>sync_bytes (ucast r) = (m, l)\<close> by simp
qed

section \<open>Packets\<close>

text \<open>The chip's buffer, from the commands that wrote to it.\<close>

definition buffer_step :: "bus_event \<Rightarrow> (u8 \<Rightarrow> u8) \<Rightarrow> u8 \<Rightarrow> u8" where
  "buffer_step e g p =
     (case e of
        Reset \<Rightarrow> 0
      | Spi bs \<Rightarrow>
          if 2 \<le> length bs \<and> bs ! 0 = OP_FIFO_WRITE_6X \<and> unat (p - bs ! 1) < length bs - 2 then bs ! (2 + unat (p - bs ! 1)) else g p)"

definition chip_buffer :: "bus_event list \<Rightarrow> u8 \<Rightarrow> u8" where
  "chip_buffer es = fold buffer_step es (\<lambda>_. 0)"

text \<open>What the chip sends: as many bytes of the buffer, from its start, as the packet parameters say.\<close>

definition sent_bytes :: "bus_event list \<Rightarrow> u8 list" where
  "sent_bytes es = map (\<lambda>i. chip_buffer es (of_nat i)) [0..<unat (the (told OP_PACKET_PARAMS_6X es) ! 3)]"

lemma buffer_append [simp]: "chip_buffer (es @ es') = fold buffer_step es' (chip_buffer es)"
  by (simp add: chip_buffer_def)

lemma buffer_other [simp]: "x \<noteq> OP_FIFO_WRITE_6X \<Longrightarrow> buffer_step (Spi (x # xs)) g = g"
  by (simp add: buffer_step_def fun_eq_iff)

definition loaded :: "sx126x \<Rightarrow> u8 list \<Rightarrow> bool" where
  "loaded s d \<longleftrightarrow>
     x_fifo_tx_addr_ptr s = length d \<and> x_payloadLength s = length d \<and> length d \<le> 255 \<and>
     (\<forall>i < length d. chip_buffer (bus s) (of_nat i) = d ! i)"

lemma loaded_write:
  assumes "loaded s d"
  shows "loaded (snd (sx126x_write b s)) (take 255 (d @ b))"
proof -
  have l: "x_fifo_tx_addr_ptr s = length d" "x_payloadLength s = length d" "length d \<le> 255"
    and c: "\<And>i. i < length d \<Longrightarrow> chip_buffer (bus s) (of_nat i) = d ! i"
    using assms by (simp_all add: loaded_def)
  define e where "e = take (255 - length d) b"
  have "nat ((255 - int (length d)) mod 4294967296) = 255 - length d" using l(3) by (simp add: mod_pos_pos_trivial nat_diff_distrib)
  then have w: "snd (sx126x_write b s) = (writeBuffer e s)\<lparr>x_payloadLength := length d + length e\<rparr>"
    using l by (simp add: sx126x_write_def e_def Let_def writeBuffer_def)
  have p: "unat (of_nat i - of_nat (length d) :: u8) = i - length d" if "length d \<le> i" "i < 256" for i
    using that by (simp flip: of_nat_diff add: unat_of_nat)
  have q: "unat (of_nat i - of_nat (length d) :: u8) \<ge> length e" if "i < length d" "length d + length e \<le> 256" for i
  proof -
    have "unat (of_nat i - of_nat (length d) :: u8) = 256 + i - length d"
      using that l(3) by (simp add: unat_sub_if' unat_of_nat)
    then show ?thesis using that by simp
  qed
  have le: "length d + length e \<le> 255" using l(3) by (simp add: e_def)
  have "chip_buffer (bus (writeBuffer e s)) (of_nat i) = (d @ e) ! i" if "i < length d + length e" for i
  proof (cases "i < length d")
    case True
    then show ?thesis using q [OF True] le c by (simp add: writeBuffer_def buffer_step_def nth_append l)
  next
    case False
    moreover have "i - length d < length e" using False that by simp
    ultimately show ?thesis using p [of i] that le by (simp add: writeBuffer_def buffer_step_def nth_append l)
  qed
  then show ?thesis using le l by (simp add: w loaded_def writeBuffer_def e_def [symmetric])
qed

lemma params_bus:
  obtains es where "current_packet_params A s = s\<lparr>bus := bus s @ es\<rparr>"
    "chip_buffer (bus s @ es) = chip_buffer (bus s)"
    "told OP_PACKET_PARAMS_6X (bus s @ es) = Some (packet_params (x_preambleLength s) (x_implicitHeaderMode s) (x_payloadLength s) (x_crcMode s))"
  by (rule packet_params_events [of A "x_preambleLength s" "x_implicitHeaderMode s" "x_payloadLength s" "x_crcMode s" s])
    (simp add: current_packet_params_def on_bus_def tell_def)

lemma loaded_begin: "loaded (sx126x_beginPacket A h s) []"
proof -
  let ?s = "(if h then sx126x_implicitHeaderMode A (sx126x_standby s) else sx126x_explicitHeaderMode A (sx126x_standby s))\<lparr>x_payloadLength := 0, x_fifo_tx_addr_ptr := 0\<rparr>"
  show ?thesis by (rule params_bus [of A ?s]) (simp add: sx126x_beginPacket_def Let_def loaded_def)
qed

lemma loaded_writes: "loaded s d \<Longrightarrow> loaded (fold (\<lambda>b s. snd (sx126x_write b s)) bs s) (take 255 (d @ concat bs))"
proof (induction bs arbitrary: s d)
  case (Cons b bs)
  have "take 255 (take 255 (d @ b) @ concat bs) = take 255 (d @ b @ concat bs)"
    by (cases "length (d @ b) \<le> 255") (auto simp: min_def)
  then show ?case using Cons.IH [OF loaded_write [OF Cons.prems], of b] by simp
qed (simp add: loaded_def)

lemma sent_loaded:
  assumes "loaded s d"
  shows "sent_bytes (bus (start_tx A s)) = d"
proof (rule params_bus [of A s])
  fix es assume e: "current_packet_params A s = s\<lparr>bus := bus s @ es\<rparr>" "chip_buffer (bus s @ es) = chip_buffer (bus s)"
    "told OP_PACKET_PARAMS_6X (bus s @ es) = Some (packet_params (x_preambleLength s) (x_implicitHeaderMode s) (x_payloadLength s) (x_crcMode s))"
  let ?es = "(bus s @ es) @ [Spi [OP_TX_6X, 0, 0, 0]]"
  have b: "bus (start_tx A s) = ?es" by (simp add: start_tx_def executeOpcode_def e(1))
  have t: "told OP_PACKET_PARAMS_6X ?es = told OP_PACKET_PARAMS_6X (bus s @ es)" "chip_buffer ?es = chip_buffer (bus s @ es)"
    unfolding told_append [of _ "bus s @ es"] buffer_append [of "bus s @ es"] by (simp_all add: tell_def)
  have "unat (packet_params (x_preambleLength s) (x_implicitHeaderMode s) (x_payloadLength s) (x_crcMode s) ! 3) = length d"
    using assms by (simp add: loaded_def packet_params_def unat_of_nat)
  then have "sent_bytes ?es = map (\<lambda>i. chip_buffer (bus s) (of_nat i)) [0..<length d]"
    unfolding sent_bytes_def t e(2,3) by simp
  also have "\<dots> = d" using assms by (intro nth_equalityI) (simp_all add: loaded_def)
  finally show ?thesis using b by simp
qed

text \<open>
  The chip holds the packet \<open>p\<close> from place \<open>q\<close> of its buffer on, without a checksum error, as long as it is only read from.
\<close>

definition only_reads :: "bus_event list \<Rightarrow> bool" where
  "only_reads es \<longleftrightarrow> list_all (\<lambda>e. case e of Spi (x # _) \<Rightarrow> x \<in> {OP_GET_IRQ_STATUS_6X, OP_CLEAR_IRQ_STATUS_6X, OP_RX_BUFFER_STATUS_6X, OP_FIFO_READ_6X} | _ \<Rightarrow> False) es"

definition chip_holds :: "chip \<Rightarrow> bus_event list \<Rightarrow> u8 list \<Rightarrow> u8 \<Rightarrow> bool" where
  "chip_holds A es p q \<longleftrightarrow>
     A (es @ [Spi [OP_GET_IRQ_STATUS_6X, 0, 0, 0]]) 3 AND IRQ_PAYLOAD_CRC_ERROR_MASK_6X = 0 \<and>
     (\<forall>es'. only_reads es' \<longrightarrow>
        A (es @ es' @ [Spi [OP_RX_BUFFER_STATUS_6X, 0, 0, 0]]) 2 = of_nat (length p) \<and>
        A (es @ es' @ [Spi [OP_RX_BUFFER_STATUS_6X, 0, 0, 0]]) 3 = q \<and>
        answers A (es @ es' @ [Spi (OP_FIFO_READ_6X # q # 0 # replicate (length p) 0)]) 3 (length p) = p)"

text \<open>A packet of which \<open>i\<close> bytes have been read.\<close>

definition fetched :: "bus_event list \<Rightarrow> u8 list \<Rightarrow> nat \<Rightarrow> sx126x \<Rightarrow> bool" where
  "fetched es p i s \<longleftrightarrow>
     x_packetIndex s = i \<and> (\<exists>es'. only_reads es' \<and> bus s = es @ es') \<and> (0 < i \<longrightarrow> take (length p) (x_packet s) = p)"

lemma only_reads_append [simp]: "only_reads (es @ es') \<longleftrightarrow> only_reads es \<and> only_reads es'"
  by (simp add: only_reads_def)

lemma status_answer:
  "executeOpcodeRead A x 2 s = ([A (bus s @ [Spi [x, 0, 0, 0]]) 2, A (bus s @ [Spi [x, 0, 0, 0]]) 3], on_bus (Spi [x, 0, 0, 0]) s)"
  by (simp add: executeOpcodeRead_def eval_nat_numeral)

lemma holds_status:
  "chip_holds A es p q \<Longrightarrow> bus s = es @ es' \<Longrightarrow> only_reads es' \<Longrightarrow>
    executeOpcodeRead A OP_RX_BUFFER_STATUS_6X 2 s = ([of_nat (length p), q], on_bus (Spi [OP_RX_BUFFER_STATUS_6X, 0, 0, 0]) s)"
  by (simp add: status_answer chip_holds_def)

lemma fetch_holds:
  assumes "chip_holds A es p q" "length p \<le> 255" "fetched es p i s"
  shows "\<exists>es'. only_reads es' \<and> bus (fetch_packet A s) = es @ es' \<and> take (length p) (x_packet (fetch_packet A s)) = p \<and>
    x_packetIndex (fetch_packet A s) = i"
proof (cases "i = 0")
  case True
  obtain es' where e: "only_reads es'" "bus s = es @ es'" using assms(3) by (auto simp: fetched_def)
  let ?s = "(on_bus (Spi [OP_RX_BUFFER_STATUS_6X, 0, 0, 0]) s)\<lparr>x_fifo_rx_addr_ptr := q\<rparr>"
  have n: "unat (of_nat (length p) :: u8) = length p" using assms(2) by (simp add: unat_of_nat)
  have r: "only_reads (es' @ [Spi [OP_RX_BUFFER_STATUS_6X, 0, 0, 0]])" using e(1) by (simp add: only_reads_def)
  have "answers A (es @ (es' @ [Spi [OP_RX_BUFFER_STATUS_6X, 0, 0, 0]]) @ [Spi (OP_FIFO_READ_6X # q # 0 # replicate (length p) 0)]) 3 (length p) = p"
    using assms(1) r unfolding chip_holds_def by blast
  then have "readBuffer A (length p) ?s = (p, on_bus (Spi (OP_FIFO_READ_6X # q # 0 # replicate (length p) 0)) ?s)"
    using e(2) by (simp add: buffer_answer)
  then have "fetch_packet A s = (on_bus (Spi (OP_FIFO_READ_6X # q # 0 # replicate (length p) 0)) ?s)\<lparr>x_packet := p @ drop (length p) (x_packet s)\<rparr>"
    using assms(3) True by (simp add: fetch_packet_def fetched_def holds_status [OF assms(1) e(2,1)] n Let_def)
  then show ?thesis using e assms(3) True
    by (intro exI [of _ "es' @ [Spi [OP_RX_BUFFER_STATUS_6X, 0, 0, 0], Spi (OP_FIFO_READ_6X # q # 0 # replicate (length p) 0)]"])
      (simp add: fetched_def, simp add: only_reads_def)
next
  case False
  then show ?thesis using assms(3) by (auto simp: fetch_packet_def fetched_def)
qed

lemma available_status:
  assumes "chip_holds A es p q" "length p \<le> 255" "fetched es p i s"
  shows "fst (sx126x_available A s) = int (length p) - int i \<and> fetched es p i (snd (sx126x_available A s))"
proof -
  obtain es' where e: "only_reads es'" "bus s = es @ es'" using assms(3) by (auto simp: fetched_def)
  have "uint (of_nat (length p) :: u8) = int (length p)" using assms(2) by (simp add: unsigned_of_nat take_bit_nat_eq_self)
  moreover have "only_reads (es' @ [Spi [OP_RX_BUFFER_STATUS_6X, 0, 0, 0]])" using e(1) by (simp add: only_reads_def)
  ultimately show ?thesis using assms(3) e
    by (auto simp: sx126x_available_def holds_status [OF assms(1) e(2,1)] fetched_def)
qed

lemma read_next:
  assumes "chip_holds A es p q" "length p \<le> 255" "fetched es p i s" "i < length p"
  shows "fst (sx126x_read A s) = uint (p ! i) \<and> fetched es p (Suc i) (snd (sx126x_read A s))"
proof -
  obtain n u where a: "sx126x_available A s = (n, u)" by fastforce
  have u: "n \<noteq> 0" "fetched es p i u" using available_status [OF assms(1-3)] assms(4) by (simp_all add: a)
  obtain es' where e: "only_reads es'" "bus (fetch_packet A u) = es @ es'" "take (length p) (x_packet (fetch_packet A u)) = p"
    "x_packetIndex (fetch_packet A u) = i"
    using fetch_holds [OF assms(1,2) u(2)] by auto
  have "x_packet (fetch_packet A u) ! i = p ! i" using e(3) assms(4) by (metis nth_take)
  then show ?thesis using u e by (auto simp: sx126x_read_def a fetched_def Let_def)
qed

lemma read_end:
  assumes "chip_holds A es p q" "length p \<le> 255" "fetched es p (length p) s"
  shows "fst (sx126x_read A s) = - 1"
  using available_status [OF assms] by (simp add: sx126x_read_def case_prod_beta)

lemma read_frame_rest:
  assumes "chip_holds A es p q" "length p \<le> 255"
  shows "fetched es p i s \<Longrightarrow> i + k \<le> length p \<Longrightarrow>
    fst (read_frame A k s) = map uint (take k (drop i p)) \<and> fetched es p (i + k) (snd (read_frame A k s))"
proof (induction k arbitrary: i s)
  case (Suc k)
  have i: "i < length p" using Suc.prems by simp
  note r = read_next [OF assms Suc.prems(1) i]
  have "take (Suc k) (drop i p) = p ! i # take k (drop (Suc i) p)" using i by (simp add: Cons_nth_drop_Suc [symmetric])
  then show ?case using r Suc.IH [of "Suc i" "snd (sx126x_read A s)"] Suc.prems(2) by (simp add: case_prod_beta Let_def)
qed simp

lemma frame_received:
  assumes p: "chip_holds R (bus r) p q" and l: "length p \<le> 255"
  shows "snd (sx126x_handleDio0Rise R (sx126x_take_frame R) (r, x)) = (map uint p, - 1)"
proof -
  let ?t = "(on_bus (Spi (OP_CLEAR_IRQ_STATUS_6X # [R (bus r @ [Spi [OP_GET_IRQ_STATUS_6X, 0, 0, 0]]) 2, R (bus r @ [Spi [OP_GET_IRQ_STATUS_6X, 0, 0, 0]]) 3]))
    (on_bus (Spi [OP_GET_IRQ_STATUS_6X, 0, 0, 0]) r))\<lparr>x_packetIndex := 0\<rparr>"
  obtain es where es: "bus ?t = bus r @ es" "only_reads es" by (simp add: only_reads_def)
  let ?u = "on_bus (Spi [OP_RX_BUFFER_STATUS_6X, 0, 0, 0]) ?t"
  have n: "unat (of_nat (length p) :: u8) = length p" using l by (simp add: unat_of_nat)
  have "sx126x_handleDio0Rise R (sx126x_take_frame R) (r, x) = sx126x_take_frame R (length p) (?u, x)"
    using p n holds_status [OF p es]
    by (simp add: sx126x_handleDio0Rise_def status_answer [of R OP_GET_IRQ_STATUS_6X] executeOpcode_def Let_def chip_holds_def)
  moreover have "only_reads (es @ [Spi [OP_RX_BUFFER_STATUS_6X, 0, 0, 0]])" using es(2) by (simp add: only_reads_def)
  then have f: "fetched (bus r) p 0 ?u" using es(1) by (auto simp: fetched_def)
  have "fst (read_frame R (length p) ?u) = map uint p" "fetched (bus r) p (length p) (snd (read_frame R (length p) ?u))"
    using read_frame_rest [OF p l f, of "length p"] by simp_all
  moreover from this(2) have "fst (sx126x_read R (snd (read_frame R (length p) ?u))) = - 1" by (rule read_end [OF p l])
  ultimately show ?thesis by (simp add: sx126x_take_frame_def case_prod_beta Let_def)
qed

text \<open>
  C24: What is written into a packet comes out of it. However the bytes are divided over the calls, the bytes the chip is told
  to send are the first 255, and when the chip at the other end holds them, wherever in its buffer, the driver there hands
  the core exactly these bytes and then reports that there are no more.
\<close>

theorem sx126x_packet_arrives:
  assumes "chip_holds R (bus r) (sent_bytes (bus (start_tx A (fold (\<lambda>b s. snd (sx126x_write b s)) bs (sx126x_beginPacket A h s))))) q"
  shows "snd (sx126x_handleDio0Rise R (sx126x_take_frame R) (r, x)) = (map uint (take 255 (concat bs)), - 1)"
proof -
  have "sent_bytes (bus (start_tx A (fold (\<lambda>b s. snd (sx126x_write b s)) bs (sx126x_beginPacket A h s)))) = take 255 (concat bs)"
    using sent_loaded [OF loaded_writes [OF loaded_begin]] by simp
  then show ?thesis using frame_received [OF assms, of x] by simp
qed

section \<open>Carrier detection\<close>

text \<open>The chip latches its flags until they are cleared; \<open>remaining g es\<close> are those of \<open>g\<close> not yet cleared by \<open>es\<close>.\<close>

definition clear_step :: "bus_event \<Rightarrow> u8 \<Rightarrow> u8" where
  "clear_step e g =
     (case e of Reset \<Rightarrow> 0 | Spi bs \<Rightarrow> if length bs = 3 \<and> bs ! 0 = OP_CLEAR_IRQ_STATUS_6X then g AND NOT (bs ! 2) else g)"

definition remaining :: "u8 \<Rightarrow> bus_event list \<Rightarrow> u8" where
  "remaining g es = fold clear_step es g"

text \<open>From here on nothing is received: the flags are those of \<open>g\<close>, until they are cleared.\<close>

definition quiet_from :: "chip \<Rightarrow> bus_event list \<Rightarrow> u8 \<Rightarrow> bool" where
  "quiet_from A es g \<longleftrightarrow> (\<forall>es'. A (es @ es' @ [Spi [OP_GET_IRQ_STATUS_6X, 0, 0, 0]]) 3 = remaining g es')"

lemma remaining_append [simp]: "remaining g (es @ es') = remaining (remaining g es) es'"
  by (simp add: remaining_def)

lemma remaining_none [simp]: "remaining g [] = g"
  by (simp add: remaining_def)

lemma clear_other: "x \<noteq> OP_CLEAR_IRQ_STATUS_6X \<Longrightarrow> clear_step (Spi (x # xs)) g = g"
  by (simp add: clear_step_def)

lemma flag_bits: "(g :: u8) AND IRQ_HEADER_DET_MASK_6X \<noteq> 0 \<longleftrightarrow> bit g 4" "g AND IRQ_PREAMBLE_DET_MASK_6X \<noteq> 0 \<longleftrightarrow> bit g 2"
  using and_exp_eq_0_iff_not_bit [of g 4] and_exp_eq_0_iff_not_bit [of g 2] by simp_all

lemma params_extend: "\<exists>es. current_packet_params A s = s\<lparr>bus := bus s @ es\<rparr> \<and> (\<forall>g. remaining g es = g)"
proof (rule packet_params_events [of A "x_preambleLength s" "x_implicitHeaderMode s" "x_payloadLength s" "x_crcMode s" s])
  fix v r
  let ?es = "[Spi (OP_PACKET_PARAMS_6X # packet_params (x_preambleLength s) (x_implicitHeaderMode s) (x_payloadLength s) (x_crcMode s)),
    Spi (OP_READ_REGISTER_6X # r), Spi [OP_WRITE_REGISTER_6X, byte_at 8 (0x0736 :: u16), byte_at 0 (0x0736 :: u16), v OR 0x04]]"
  assume "setPacketParams A (x_preambleLength s) (x_implicitHeaderMode s) (x_payloadLength s) (x_crcMode s) s =
    on_bus (Spi [OP_WRITE_REGISTER_6X, byte_at 8 (0x0736 :: u16), byte_at 0 (0x0736 :: u16), v OR 0x04])
      (on_bus (Spi (OP_READ_REGISTER_6X # r))
        (on_bus (Spi (OP_PACKET_PARAMS_6X # packet_params (x_preambleLength s) (x_implicitHeaderMode s) (x_payloadLength s) (x_crcMode s))) s))"
  then show ?thesis by (intro exI [of _ ?es]) (simp add: current_packet_params_def on_bus_def remaining_def clear_other)
qed

lemma receive_extend:
  obtains es where "bus (sx126x_receive A 0 s) = bus s @ es @ [Spi [OP_RX_6X, 0xFF, 0xFF, 0xFF]]" "\<forall>g. remaining g es = g"
    "header_detected_at (sx126x_receive A 0 s) = header_detected_at s" "preamble_detected_at (sx126x_receive A 0 s) = preamble_detected_at s"
proof -
  obtain es where "current_packet_params A (s\<lparr>x_implicitHeaderMode := False\<rparr>) = s\<lparr>x_implicitHeaderMode := False, bus := bus s @ es\<rparr>" "\<forall>g. remaining g es = g"
    using params_extend [of A "s\<lparr>x_implicitHeaderMode := False\<rparr>"] by auto
  then show thesis using that by (simp add: sx126x_receive_def sx126x_explicitHeaderMode_def executeOpcode_def)
qed

definition seen_at :: "u32 \<Rightarrow> u32 \<Rightarrow> u32" where
  "seen_at since now = (if since = 0 then now else since)"

definition overdue :: "u32 \<Rightarrow> u32 \<Rightarrow> u32 \<Rightarrow> bool" where
  "overdue limit since now \<longleftrightarrow> now - seen_at since now > limit"

lemma header_watched:
  "bus (header_watch irq now s) = bus s @
     (if bit irq 4 \<and> overdue 20000 (header_detected_at s) now then [Spi [OP_CLEAR_IRQ_STATUS_6X, 0, IRQ_HEADER_DET_MASK_6X]] else [])"
  "bit irq 4 \<Longrightarrow> \<not> overdue 20000 (header_detected_at s) now \<Longrightarrow> header_detected_at (header_watch irq now s) = seen_at (header_detected_at s) now"
  "preamble_detected_at (header_watch irq now s) = preamble_detected_at s"
  by (auto simp: header_watch_def flag_bits seen_at_def overdue_def executeOpcode_def Let_def split: if_splits)

lemma preamble_watched:
  "bus (preamble_watch irq limit now s) = bus s @
     (if bit irq 2 \<and> overdue limit (preamble_detected_at s) now then [Spi [OP_CLEAR_IRQ_STATUS_6X, 0, IRQ_PREAMBLE_DET_MASK_6X]] else [])"
  "bit irq 2 \<Longrightarrow> \<not> overdue limit (preamble_detected_at s) now \<Longrightarrow> preamble_detected_at (preamble_watch irq limit now s) = seen_at (preamble_detected_at s) now"
  "header_detected_at (preamble_watch irq limit now s) = header_detected_at s"
  by (auto simp: preamble_watch_def flag_bits seen_at_def overdue_def executeOpcode_def Let_def split: if_splits)

lemma cleared_flags:
  "bit (clear_step (Spi [OP_CLEAR_IRQ_STATUS_6X, 0, IRQ_HEADER_DET_MASK_6X]) g) 4 = False"
  "bit (clear_step (Spi [OP_CLEAR_IRQ_STATUS_6X, 0, IRQ_HEADER_DET_MASK_6X]) g) 2 = bit g 2"
  "bit (clear_step (Spi [OP_CLEAR_IRQ_STATUS_6X, 0, IRQ_PREAMBLE_DET_MASK_6X]) g) 4 = bit g 4"
  "bit (clear_step (Spi [OP_CLEAR_IRQ_STATUS_6X, 0, IRQ_PREAMBLE_DET_MASK_6X]) g) 2 = False"
  by (simp_all add: clear_step_def bit_simps)

text \<open>What a poll does to the flags and to the times they were first seen.\<close>

definition poll_result :: "bus_event list \<Rightarrow> u8 \<Rightarrow> u8 \<Rightarrow> u32 \<Rightarrow> u32 \<Rightarrow> sx126x \<Rightarrow> sx126x \<Rightarrow> bool" where
  "poll_result es f g limit now s t \<longleftrightarrow>
     (\<exists>es'. bus t = es @ es' \<and>
        (bit (remaining f es') 4 \<longleftrightarrow> bit g 4 \<and> \<not> overdue 20000 (header_detected_at s) now) \<and>
        (bit (remaining f es') 2 \<longleftrightarrow> bit g 2 \<and> \<not> overdue limit (preamble_detected_at s) now) \<and>
        (bit (remaining f es') 4 \<longrightarrow> header_detected_at t = seen_at (header_detected_at s) now) \<and>
        (bit (remaining f es') 2 \<longrightarrow> preamble_detected_at t = seen_at (preamble_detected_at s) now))"

lemma poll_extend:
  obtains es where "bus (snd (sx126x_dcd A limit now s)) =
      bus (preamble_watch (A (bus s @ [Spi [OP_GET_IRQ_STATUS_6X, 0, 0, 0]]) 3) limit now (header_watch (A (bus s @ [Spi [OP_GET_IRQ_STATUS_6X, 0, 0, 0]]) 3) now
        (on_bus (Spi [OP_GET_IRQ_STATUS_6X, 0, 0, 0]) s))) @ es" "\<forall>g. remaining g es = g"
    "header_detected_at (snd (sx126x_dcd A limit now s)) = header_detected_at (header_watch (A (bus s @ [Spi [OP_GET_IRQ_STATUS_6X, 0, 0, 0]]) 3) now
        (on_bus (Spi [OP_GET_IRQ_STATUS_6X, 0, 0, 0]) s))"
    "preamble_detected_at (snd (sx126x_dcd A limit now s)) = preamble_detected_at (preamble_watch (A (bus s @ [Spi [OP_GET_IRQ_STATUS_6X, 0, 0, 0]]) 3) limit now
        (header_watch (A (bus s @ [Spi [OP_GET_IRQ_STATUS_6X, 0, 0, 0]]) 3) now (on_bus (Spi [OP_GET_IRQ_STATUS_6X, 0, 0, 0]) s)))"
proof -
  define u where "u = preamble_watch (A (bus s @ [Spi [OP_GET_IRQ_STATUS_6X, 0, 0, 0]]) 3) limit now (header_watch (A (bus s @ [Spi [OP_GET_IRQ_STATUS_6X, 0, 0, 0]]) 3) now
        (on_bus (Spi [OP_GET_IRQ_STATUS_6X, 0, 0, 0]) s))"
  have d: "snd (sx126x_dcd A limit now s) = (if false_preamble_detected u then (sx126x_receive A 0 u)\<lparr>false_preamble_detected := False\<rparr> else u)"
    by (simp add: sx126x_dcd_def status_answer u_def Let_def)
  have h: "header_detected_at u = header_detected_at (header_watch (A (bus s @ [Spi [OP_GET_IRQ_STATUS_6X, 0, 0, 0]]) 3) now
        (on_bus (Spi [OP_GET_IRQ_STATUS_6X, 0, 0, 0]) s))"
    by (simp add: u_def preamble_watched)
  show thesis
  proof (cases "false_preamble_detected u")
    case True
    obtain es where "bus (sx126x_receive A 0 u) = bus u @ es @ [Spi [OP_RX_6X, 0xFF, 0xFF, 0xFF]]" "\<forall>g. remaining g es = g"
      "header_detected_at (sx126x_receive A 0 u) = header_detected_at u" "preamble_detected_at (sx126x_receive A 0 u) = preamble_detected_at u"
      by (rule receive_extend)
    then show thesis using that [of "es @ [Spi [OP_RX_6X, 0xFF, 0xFF, 0xFF]]"] d True h
      by (simp add: u_def [symmetric]) (simp add: remaining_def clear_other)
  next
    case False
    then show thesis using that [of "[]"] d h by (simp add: u_def [symmetric])
  qed
qed

lemma poll_step:
  assumes "quiet_from A es f" "bus s = es @ es'"
  shows "poll_result es f (remaining f es') limit now s (snd (sx126x_dcd A limit now s))"
    "fst (sx126x_dcd A limit now s) \<longleftrightarrow> bit (remaining f es') 4 \<or> bit (remaining f es') 2"
proof -
  let ?r = "on_bus (Spi [OP_GET_IRQ_STATUS_6X, 0, 0, 0]) s" and ?i = "remaining f es'"
  have i: "A (bus s @ [Spi [OP_GET_IRQ_STATUS_6X, 0, 0, 0]]) 3 = ?i" using assms by (simp add: quiet_from_def)
  show "fst (sx126x_dcd A limit now s) \<longleftrightarrow> bit ?i 4 \<or> bit ?i 2"
    by (simp add: sx126x_dcd_def status_answer Let_def i flag_bits)
  let ?h = "if bit ?i 4 \<and> overdue 20000 (header_detected_at s) now then [Spi [OP_CLEAR_IRQ_STATUS_6X, 0, IRQ_HEADER_DET_MASK_6X]] else []"
    and ?p = "if bit ?i 2 \<and> overdue limit (preamble_detected_at s) now then [Spi [OP_CLEAR_IRQ_STATUS_6X, 0, IRQ_PREAMBLE_DET_MASK_6X]] else []"
  obtain es2 where t: "bus (snd (sx126x_dcd A limit now s)) = es @ (es' @ [Spi [OP_GET_IRQ_STATUS_6X, 0, 0, 0]] @ ?h @ ?p @ es2)" "\<forall>g. remaining g es2 = g"
    "header_detected_at (snd (sx126x_dcd A limit now s)) = header_detected_at (header_watch ?i now ?r)"
    "preamble_detected_at (snd (sx126x_dcd A limit now s)) = preamble_detected_at (preamble_watch ?i limit now (header_watch ?i now ?r))"
    by (rule poll_extend [of A limit now s, unfolded i]) (simp add: header_watched(1,3) preamble_watched(1) assms(2))
  let ?es = "es' @ [Spi [OP_GET_IRQ_STATUS_6X, 0, 0, 0]] @ ?h @ ?p @ es2"
  have "remaining ?i [Spi [OP_GET_IRQ_STATUS_6X, 0, 0, 0]] = ?i" by (simp add: remaining_def clear_other)
  then have "remaining f ?es = remaining (remaining ?i ?h) ?p" by (simp only: remaining_append t(2) simp_thms)
  then have "bit (remaining f ?es) 4 \<longleftrightarrow> bit ?i 4 \<and> \<not> overdue 20000 (header_detected_at s) now"
    "bit (remaining f ?es) 2 \<longleftrightarrow> bit ?i 2 \<and> \<not> overdue limit (preamble_detected_at s) now"
    by (auto simp: remaining_def cleared_flags)
  moreover from this have "bit (remaining f ?es) 4 \<longrightarrow> header_detected_at (snd (sx126x_dcd A limit now s)) = seen_at (header_detected_at s) now"
    "bit (remaining f ?es) 2 \<longrightarrow> preamble_detected_at (snd (sx126x_dcd A limit now s)) = seen_at (preamble_detected_at s) now"
    using header_watched(2) [of ?i ?r now] preamble_watched(2) [of ?i limit "header_watch ?i now ?r" now] t(3,4) by (simp_all add: header_watched(3))
  ultimately show "poll_result es f ?i limit now s (snd (sx126x_dcd A limit now s))"
    unfolding poll_result_def using t(1) by blast
qed

text \<open>The flags that are still set have been seen, at time \<open>t0\<close> or before.\<close>

definition marked :: "bus_event list \<Rightarrow> u8 \<Rightarrow> u32 \<Rightarrow> sx126x \<Rightarrow> bool" where
  "marked es f t0 s \<longleftrightarrow>
     (\<exists>es'. bus s = es @ es' \<and>
        (bit (remaining f es') 4 \<longrightarrow> header_detected_at s \<noteq> 0 \<and> header_detected_at s \<le> t0) \<and>
        (bit (remaining f es') 2 \<longrightarrow> preamble_detected_at s \<noteq> 0 \<and> preamble_detected_at s \<le> t0))"

lemma seen_bounds: "t0 \<noteq> 0 \<Longrightarrow> h \<le> t0 \<Longrightarrow> seen_at h t0 \<noteq> 0 \<and> seen_at h t0 \<le> t0"
  by (simp add: seen_at_def)

lemma marked_first:
  assumes "quiet_from A (bus s) f" "t0 \<noteq> 0" "header_detected_at s \<le> t0" "preamble_detected_at s \<le> t0"
  shows "marked (bus s) f t0 (snd (sx126x_dcd A limit t0 s))"
  using poll_step(1) [OF assms(1), of s "[]" limit t0] seen_bounds [OF assms(2,3)] seen_bounds [OF assms(2,4)]
  by (auto simp: poll_result_def marked_def)

lemma marked_step:
  assumes "quiet_from A es f" "marked es f t0 s"
  shows "marked es f t0 (snd (sx126x_dcd A limit t s))"
proof -
  obtain es' where "bus s = es @ es'" "bit (remaining f es') 4 \<longrightarrow> header_detected_at s \<noteq> 0 \<and> header_detected_at s \<le> t0"
    "bit (remaining f es') 2 \<longrightarrow> preamble_detected_at s \<noteq> 0 \<and> preamble_detected_at s \<le> t0"
    using assms(2) by (auto simp: marked_def)
  then show ?thesis using poll_step(1) [OF assms(1), of s es' limit t] by (fastforce simp: poll_result_def marked_def seen_at_def)
qed

lemma marked_fold: "quiet_from A es f \<Longrightarrow> marked es f t0 s \<Longrightarrow> marked es f t0 (fold (\<lambda>t s. snd (sx126x_dcd A limit t s)) ts s)"
  using marked_step by (induction ts arbitrary: s) simp_all

lemma late:
  fixes h t0 u limit :: u32
  assumes "h \<noteq> 0" "h \<le> t0" "t0 \<le> u" "u - t0 > limit"
  shows "overdue limit h u"
proof -
  have "u - t0 \<le> u - h" using assms(2,3) by (simp add: word_le_nat_alt unat_sub)
  then show ?thesis using assms by (simp add: overdue_def seen_at_def)
qed

lemma marked_last:
  assumes "quiet_from A es f" "marked es f t0 s" "t0 \<le> u" "u - t0 > 20000" "u - t0 > limit"
  obtains es' where "bus (snd (sx126x_dcd A limit u s)) = es @ es'" "\<not> bit (remaining f es') 4" "\<not> bit (remaining f es') 2"
proof -
  obtain es' where e: "bus s = es @ es'" "bit (remaining f es') 4 \<longrightarrow> header_detected_at s \<noteq> 0 \<and> header_detected_at s \<le> t0"
    "bit (remaining f es') 2 \<longrightarrow> preamble_detected_at s \<noteq> 0 \<and> preamble_detected_at s \<le> t0"
    using assms(2) by (auto simp: marked_def)
  then have "bit (remaining f es') 4 \<longrightarrow> overdue 20000 (header_detected_at s) u" "bit (remaining f es') 2 \<longrightarrow> overdue limit (preamble_detected_at s) u"
    using late assms(3-5) by blast+
  then show thesis using poll_step(1) [OF assms(1) e(1), of limit u] that by (auto simp: poll_result_def)
qed

text \<open>
  C25: The carrier detector cannot wedge. Whatever flags the chip has latched, when nothing more is received, polls over more
  than 20 seconds and more than the time of a preamble and a header release the carrier. (The clock does not wrap around in
  between.)
\<close>

theorem sx126x_carrier_released:
  assumes "quiet_from A (bus s) f" "sorted (t0 # ts @ [u])" "t0 \<noteq> 0" "header_detected_at s \<le> t0" "preamble_detected_at s \<le> t0"
    "u - t0 > 20000" "u - t0 > limit"
  shows "\<not> fst (sx126x_dcd A limit now (fold (\<lambda>t s. snd (sx126x_dcd A limit t s)) (t0 # ts @ [u]) s))"
proof -
  let ?s = "fold (\<lambda>t s. snd (sx126x_dcd A limit t s)) (t0 # ts) s"
  have "marked (bus s) f t0 ?s"
    using marked_fold [OF assms(1) marked_first [OF assms(1,3,4,5)], of limit ts limit] by simp
  moreover have "t0 \<le> u" using assms(2) by simp
  ultimately obtain es' where e: "bus (snd (sx126x_dcd A limit u ?s)) = bus s @ es'" "\<not> bit (remaining f es') 4" "\<not> bit (remaining f es') 2"
    using marked_last [OF assms(1) _ _ assms(6,7)] by metis
  then show ?thesis using poll_step(2) [OF assms(1) e(1), of limit now] by simp
qed

text \<open>
  The time at which a preamble was seen is kept when the flag goes away by itself, which it does when a packet is complete
  before the time of a preamble and a header is over. The flags a poll reads, and what successive polls read:
\<close>

definition poll_flags :: "chip \<Rightarrow> sx126x \<Rightarrow> u8" where
  "poll_flags A s = A (bus s @ [Spi [OP_GET_IRQ_STATUS_6X, 0, 0, 0]]) 3"

fun polls_see :: "chip \<Rightarrow> u32 \<Rightarrow> (u8 \<Rightarrow> bool) \<Rightarrow> u32 list \<Rightarrow> sx126x \<Rightarrow> bool" where
  "polls_see A limit P [] s = True"
| "polls_see A limit P (t # ts) s = (P (poll_flags A s) \<and> polls_see A limit P ts (snd (sx126x_dcd A limit t s)))"

definition reception_restarted :: "sx126x \<Rightarrow> sx126x \<Rightarrow> bool" where
  "reception_restarted s t \<longleftrightarrow> Spi [OP_RX_6X, 0xFF, 0xFF, 0xFF] \<in> set (drop (length (bus s)) (bus t))"

definition no_restart :: "sx126x \<Rightarrow> sx126x \<Rightarrow> bool" where
  "no_restart s t \<longleftrightarrow> (\<exists>es. bus t = bus s @ es \<and> Spi [OP_RX_6X, 0xFF, 0xFF, 0xFF] \<notin> set es)"

lemma no_restartD: "no_restart s t \<Longrightarrow> \<not> reception_restarted s t"
  by (auto simp: no_restart_def reception_restarted_def)

lemma no_restart_trans: "no_restart s t \<Longrightarrow> no_restart t u \<Longrightarrow> no_restart s u"
  by (auto simp: no_restart_def)

lemma interrupt_keeps:
  assumes "\<And>n u y. preamble_detected_at (fst (callback n (u, y))) = preamble_detected_at u"
    "\<And>n u y. false_preamble_detected (fst (callback n (u, y))) = false_preamble_detected u"
  shows "preamble_detected_at (fst (sx126x_handleDio0Rise A callback (s, x))) = preamble_detected_at s"
    "false_preamble_detected (fst (sx126x_handleDio0Rise A callback (s, x))) = false_preamble_detected s"
  using assms by (simp_all add: sx126x_handleDio0Rise_def status_answer executeOpcode_def Let_def)

lemma header_watch_false [simp]: "false_preamble_detected (header_watch irq t s) = false_preamble_detected s"
  by (simp add: header_watch_def executeOpcode_def Let_def)

text \<open>A poll that finds no preamble, or one that is not overdue.\<close>

lemma poll_keeps_time:
  assumes "\<not> false_preamble_detected s" "bit (poll_flags A s) 2 \<longrightarrow> \<not> overdue limit (preamble_detected_at s) t"
  shows "preamble_detected_at (snd (sx126x_dcd A limit t s)) =
      (if bit (poll_flags A s) 2 then seen_at (preamble_detected_at s) t else preamble_detected_at s)"
    "\<not> false_preamble_detected (snd (sx126x_dcd A limit t s))" "no_restart s (snd (sx126x_dcd A limit t s))"
proof -
  let ?i = "poll_flags A s"
  define h where "h = header_watch ?i t (on_bus (Spi [OP_GET_IRQ_STATUS_6X, 0, 0, 0]) s)"
  have h: "preamble_detected_at h = preamble_detected_at s" "\<not> false_preamble_detected h"
    using assms(1) by (simp_all add: h_def header_watched(3))
  define w where "w = preamble_watch ?i limit t h"
  have w: "w = (if bit ?i 2 then h\<lparr>preamble_detected_at := seen_at (preamble_detected_at s) t\<rparr> else h)"
    using assms(2) h(1) by (auto simp: w_def preamble_watch_def flag_bits overdue_def seen_at_def Let_def)
  have d: "snd (sx126x_dcd A limit t s) = w"
    using w h(2) by (simp add: sx126x_dcd_def status_answer poll_flags_def [symmetric] Let_def h_def [symmetric] w_def [symmetric])
  have "bus w = bus s @ [Spi [OP_GET_IRQ_STATUS_6X, 0, 0, 0]] @
      (if bit ?i 4 \<and> overdue 20000 (header_detected_at s) t then [Spi [OP_CLEAR_IRQ_STATUS_6X, 0, IRQ_HEADER_DET_MASK_6X]] else [])"
    by (simp add: w h_def header_watched(1))
  then show "no_restart s (snd (sx126x_dcd A limit t s))" unfolding d no_restart_def by auto
  show "preamble_detected_at (snd (sx126x_dcd A limit t s)) = (if bit ?i 2 then seen_at (preamble_detected_at s) t else preamble_detected_at s)"
    "\<not> false_preamble_detected (snd (sx126x_dcd A limit t s))"
    using h by (simp_all add: d w)
qed

lemma polls_during_packet:
  "polls_see A limit (\<lambda>f. bit f 2) ts s \<Longrightarrow> list_all (\<lambda>t. t - t1 \<le> limit) ts \<Longrightarrow> preamble_detected_at s = t1 \<Longrightarrow> t1 \<noteq> 0 \<Longrightarrow>
    \<not> false_preamble_detected s \<Longrightarrow>
    (let u = fold (\<lambda>t s. snd (sx126x_dcd A limit t s)) ts s
     in preamble_detected_at u = t1 \<and> \<not> false_preamble_detected u \<and> no_restart s u)"
proof (induction ts arbitrary: s)
  case (Cons t ts)
  have "\<not> overdue limit (preamble_detected_at s) t" using Cons.prems by (simp add: overdue_def seen_at_def not_less)
  note p = poll_keeps_time [OF Cons.prems(5), of A limit t, simplified this, simplified]
  let ?s = "snd (sx126x_dcd A limit t s)"
  have "preamble_detected_at ?s = t1" using p(1) Cons.prems by (simp add: seen_at_def)
  then show ?case using Cons.IH [of ?s] Cons.prems p(2) no_restart_trans [OF p(3)] by (simp add: Let_def)
qed (simp add: no_restart_def)

lemma polls_after_packet:
  "polls_see A limit (\<lambda>f. \<not> bit f 2) ts s \<Longrightarrow> \<not> false_preamble_detected s \<Longrightarrow>
    (let u = fold (\<lambda>t s. snd (sx126x_dcd A limit t s)) ts s
     in preamble_detected_at u = preamble_detected_at s \<and> \<not> false_preamble_detected u \<and> no_restart s u)"
proof (induction ts arbitrary: s)
  case (Cons t ts)
  have b: "\<not> bit (poll_flags A s) 2" using Cons.prems(1) by simp
  note p = poll_keeps_time [OF Cons.prems(2), of A limit t]
  show ?case using Cons.IH [of "snd (sx126x_dcd A limit t s)"] Cons.prems p no_restart_trans [of s] b by (simp add: Let_def)
qed (simp add: no_restart_def)

text \<open>A poll during a preamble whose remembered time is too long ago.\<close>

lemma poll_restarts:
  assumes "bit (poll_flags A s) 2" "\<not> bit (poll_flags A s) 4" "preamble_detected_at s \<noteq> 0" "t - preamble_detected_at s > limit"
  shows "reception_restarted s (snd (sx126x_dcd A limit t s))"
proof -
  let ?i = "poll_flags A s"
  define u where "u = preamble_watch ?i limit t (header_watch ?i t (on_bus (Spi [OP_GET_IRQ_STATUS_6X, 0, 0, 0]) s))"
  have "?i AND IRQ_HEADER_DET_MASK_6X = 0" using assms(2) flag_bits by blast
  then have "false_preamble_detected u"
    using assms by (simp add: u_def preamble_watch_def flag_bits Let_def executeOpcode_def header_watched(3))
  then have e: "snd (sx126x_dcd A limit t s) = (sx126x_receive A 0 u)\<lparr>false_preamble_detected := False\<rparr>"
    by (simp add: sx126x_dcd_def status_answer Let_def poll_flags_def [symmetric] u_def [symmetric])
  obtain es where "bus (sx126x_receive A 0 u) = bus u @ es @ [Spi [OP_RX_6X, 0xFF, 0xFF, 0xFF]]" by (rule receive_extend)
  moreover have "\<exists>es'. bus u = bus s @ es'" by (simp add: u_def header_watched(1) preamble_watched(1))
  ultimately show ?thesis using e by (auto simp: reception_restarted_def)
qed

text \<open>
  C38: a short packet costs the next one. The polls \<open>t1 # ts\<close> see the preamble flag of a packet that is complete, and
  handled by the interrupt, before the time of a preamble and a header (\<open>limit\<close>) has passed since \<open>t1\<close>; then any number of polls
  see no preamble. None of them restarts the reception, but the time \<open>t1\<close> is not forgotten: the first poll
  during the preamble of a later packet, more than \<open>limit\<close> after \<open>t1\<close>, finds it overdue and restarts the
  reception, although that preamble has just begun. (The callback for a received packet changes neither variable of the
  detector.)
\<close>

theorem short_packet_costs_the_next:
  assumes "preamble_detected_at s = 0" "\<not> false_preamble_detected s" "t1 \<noteq> 0"
    and "polls_see A limit (\<lambda>f. bit f 2) (t1 # ts) s" "list_all (\<lambda>t. t - t1 \<le> limit) ts"
    and "\<And>n u y. preamble_detected_at (fst (callback n (u, y))) = preamble_detected_at u"
    and "\<And>n u y. false_preamble_detected (fst (callback n (u, y))) = false_preamble_detected u"
    and "p = fold (\<lambda>t s. snd (sx126x_dcd A limit t s)) (t1 # ts) s" "r = fst (sx126x_handleDio0Rise A callback (p, x))"
    and "polls_see A limit (\<lambda>f. \<not> bit f 2) qs r" "v = fold (\<lambda>t s. snd (sx126x_dcd A limit t s)) qs r"
    and "bit (poll_flags A v) 2" "\<not> bit (poll_flags A v) 4" "t2 - t1 > limit"
  shows "\<not> reception_restarted s p \<and> \<not> reception_restarted r v \<and> reception_restarted v (snd (sx126x_dcd A limit t2 v))"
proof -
  let ?s = "snd (sx126x_dcd A limit t1 s)"
  have "\<not> overdue limit (preamble_detected_at s) t1" using assms(1) by (simp add: overdue_def seen_at_def)
  then have 1: "preamble_detected_at ?s = t1" "\<not> false_preamble_detected ?s" "no_restart s ?s"
    using poll_keeps_time [OF assms(2), of A limit t1] assms(1,4) by (simp_all add: seen_at_def)
  have 2: "preamble_detected_at p = t1" "\<not> false_preamble_detected p" "no_restart ?s p"
    using polls_during_packet [of A limit ts ?s t1] assms(3-5,8) 1 by (simp_all add: Let_def)
  have r: "preamble_detected_at r = t1" "\<not> false_preamble_detected r"
    using interrupt_keeps [of callback A p x] 2 assms(6,7,9) by simp_all
  have v: "preamble_detected_at v = t1" "no_restart r v"
    using polls_after_packet [OF assms(10) r(2)] r(1) assms(11) by (simp_all add: Let_def)
  show ?thesis
    using no_restartD [OF no_restart_trans [OF 1(3) 2(3)]] no_restartD [OF v(2)] poll_restarts [OF assms(12,13)] v(1) assms(3,14) by simp
qed

section \<open>The wait for the end of a transmission\<close>

lemma poll_ends: "w \<le> t \<Longrightarrow> \<exists>us v. tx_poll A w (ts @ t # ts') irq s = Some (us @ ts', v)"
proof (induction ts arbitrary: irq s)
  case (Cons x ts)
  show ?case
  proof (cases "x < w \<and> irq AND IRQ_TX_DONE_MASK_6X = 0")
    case True
    then show ?thesis using Cons by (simp add: status_answer)
  next
    case False
    then show ?thesis by (intro exI [of _ "ts @ [t]"] exI [of _ s]) auto
  qed
qed auto

text \<open>The call always returns, once the clock has passed the limit.\<close>

lemma sx126x_endPacket_returns:
  assumes "unat t0 + 20000 < 2 ^ 32" "t0 + 20000 \<le> t"
  shows "\<exists>ok u. sx126x_endPacket A ovf t0 (ts @ t # t' # ts') s = Some (ok, u)"
proof -
  let ?s = "on_bus (Spi [OP_GET_IRQ_STATUS_6X, 0, 0, 0]) (start_tx A s)"
  obtain us v where "tx_poll A (t0 + 20000) (ts @ t # t' # ts') (A (bus (start_tx A s) @ [Spi [OP_GET_IRQ_STATUS_6X, 0, 0, 0]]) 3) ?s = Some (us @ t' # ts', v)"
    using poll_ends [OF assms(2)] by blast
  then show ?thesis using assms(1)
    by (cases us) (auto simp: sx126x_endPacket_def status_answer tx_deadline_def Let_def)
qed

section \<open>Chips\<close>

text \<open>A chip with a packet in its buffer, and one that has latched flags.\<close>

definition hearing :: "u8 list \<Rightarrow> u8 \<Rightarrow> chip" where
  "hearing p q es i =
     (case last es of
        Spi (x # xs) \<Rightarrow>
          if x = OP_RX_BUFFER_STATUS_6X then (if i = 2 then of_nat (length p) else q)
          else if x = OP_FIFO_READ_6X then p ! (i - 3) else 0
      | _ \<Rightarrow> 0)"

definition latched :: "u8 \<Rightarrow> chip" where
  "latched f es i = remaining f es"

definition plain_board :: sx126x_board where
  "plain_board = \<lparr>tcxo = None, dio2_as_rf_switch = True, OCP_TUNED = 0x38, lna_gain = None\<rparr>"

theorem sx126x_chip_follows_driver_witness:
  "\<exists>t. perform_all (latched 0) plain_board [SetSf 12, BeginPacket False, Write [1, 2], SetCr 8, Poll 100 7]
      (sx126x_new\<lparr>bus := [Spi [OP_MODULATION_PARAMS_6X, 7, 4, 1, 0, 0, 0, 0, 0], Spi [OP_WRITE_REGISTER_6X, 0x07, 0x36, 0x04]]\<rparr>) = Some t \<and>
    modulated (12, 4, 4) t"
proof -
  let ?s = "sx126x_new\<lparr>bus := [Spi [OP_MODULATION_PARAMS_6X, 7, 4, 1, 0, 0, 0, 0, 0], Spi [OP_WRITE_REGISTER_6X, 0x07, 0x36, 0x04]]\<rparr>"
    and ?xs = "[SetSf 12, BeginPacket False, Write [1, 2], SetCr 8, Poll 100 7]"
  have m: "modulated (7, 4, 1) ?s"
    by (simp add: modulated_def sx126x_new_def slow_switch_def sx126x_bandwidths_def low_rate_def told_def tell_def polarity_def polarity_step_def of_be16_def)
  obtain t where t: "perform_all (latched 0) plain_board ?xs ?s = Some t" by simp
  have "fold asked ?xs (7, 4, 1) = (12, 4, 4)" by (simp add: clamp_def)
  then show ?thesis using t sx126x_chip_follows_driver [OF m t] by (intro exI [of _ t] conjI) (assumption, simp only:)
qed

theorem sx126x_packet_arrives_witness:
  "snd (sx126x_handleDio0Rise (hearing [7, 8, 9] 0x10) (sx126x_take_frame (hearing [7, 8, 9] 0x10)) (sx126x_new, [], 0)) = ([7, 8, 9], - 1)"
proof -
  have "chip_holds (hearing [7, 8, 9] 0x10) (bus sx126x_new) [7, 8, 9] 0x10"
    by (simp add: chip_holds_def hearing_def answers_def upt_conv_Cons numeral_3_eq_3)
  moreover have "sent_bytes (bus (start_tx A (fold (\<lambda>b s. snd (sx126x_write b s)) [[7, 8], [9]] (sx126x_beginPacket A h s)))) = [7, 8, 9]" for A h s
    using sent_loaded [OF loaded_writes [OF loaded_begin, of "[[7, 8], [9]]" A h s], of A] by simp
  ultimately have "chip_holds (hearing [7, 8, 9] 0x10) (bus sx126x_new)
      (sent_bytes (bus (start_tx (latched 0) (fold (\<lambda>b s. snd (sx126x_write b s)) [[7, 8], [9]] (sx126x_beginPacket (latched 0) False sx126x_new))))) 0x10"
    by (simp only:)
  then show ?thesis using sx126x_packet_arrives by fastforce
qed

theorem sx126x_carrier_released_witness:
  "\<not> fst (sx126x_dcd (latched 0x14) 100 30001 (fold (\<lambda>t s. snd (sx126x_dcd (latched 0x14) 100 t s)) [1, 5, 30000] sx126x_new))"
proof -
  have "quiet_from (latched 0x14) (bus sx126x_new) 0x14"
    by (simp add: quiet_from_def latched_def sx126x_new_def) (simp add: remaining_def clear_other)
  then show ?thesis
    using sx126x_carrier_released [of "latched 0x14" sx126x_new "0x14" 1 "[5]" 30000 100 30001] by (simp add: sx126x_new_def)
qed

text \<open>A chip that reports a preamble whenever its status is read, except the fifth time.\<close>

definition chatting :: chip where
  "chatting es i = (if length (filter (\<lambda>e. e = Spi [OP_GET_IRQ_STATUS_6X, 0, 0, 0]) es) = 5 then 0 else 4)"

theorem short_packet_costs_the_next_witness:
  "\<exists>p r v. p = fold (\<lambda>t s. snd (sx126x_dcd chatting 100 t s)) [5, 8, 11] sx126x_new \<and>
     r = fst (sx126x_handleDio0Rise chatting (\<lambda>n u. u) (p, ())) \<and>
     v = fold (\<lambda>t s. snd (sx126x_dcd chatting 100 t s)) [14] r \<and>
     \<not> reception_restarted sx126x_new p \<and> reception_restarted v (snd (sx126x_dcd chatting 100 500 v))"
proof -
  define p where "p = fold (\<lambda>t s. snd (sx126x_dcd chatting 100 t s)) [5, 8, 11] sx126x_new"
  define r where "r = fst (sx126x_handleDio0Rise chatting (\<lambda>n u. u) (p, ()))"
  define v where "v = fold (\<lambda>t s. snd (sx126x_dcd chatting 100 t s)) [14] r"
  have f: "polls_see chatting 100 (\<lambda>f. bit f 2) [5, 8, 11] sx126x_new"
    by (simp add: poll_flags_def chatting_def sx126x_dcd_def status_answer header_watch_def preamble_watch_def on_bus_def sx126x_new_def Let_def)
  have n: "length (filter (\<lambda>e. e = Spi [OP_GET_IRQ_STATUS_6X, 0, 0, 0]) (bus r)) = 4"
    and fr: "\<not> false_preamble_detected r"
    by (simp_all add: r_def p_def sx126x_handleDio0Rise_def executeOpcode_def chatting_def sx126x_dcd_def status_answer header_watch_def
        preamble_watch_def on_bus_def sx126x_new_def Let_def)
  have q: "polls_see chatting 100 (\<lambda>f. \<not> bit f 2) [14] r" using n by (simp add: poll_flags_def chatting_def)
  have v: "length (filter (\<lambda>e. e = Spi [OP_GET_IRQ_STATUS_6X, 0, 0, 0]) (bus v)) = 5"
    using n fr by (simp add: v_def sx126x_dcd_def status_answer header_watch_def preamble_watch_def on_bus_def chatting_def Let_def)
  have b: "bit (poll_flags chatting v) 2" "\<not> bit (poll_flags chatting v) 4" using v by (simp_all add: poll_flags_def chatting_def)
  have "\<not> reception_restarted sx126x_new p \<and> \<not> reception_restarted r v \<and> reception_restarted v (snd (sx126x_dcd chatting 100 500 v))"
    by (rule short_packet_costs_the_next [OF _ _ _ f _ _ _ p_def r_def q v_def b]) (simp_all add: sx126x_new_def)
  then show ?thesis using p_def r_def v_def by blast
qed

end
