(* ===== verification/Modem_Link.thy ===== *)
theory Modem_Link
  imports Lora_Frames Sx126x
begin

text \<open>
  The core and the modem driver together: the frames of a packet (\<^verbatim>\<open>RNode_Firmware.ino\<close>, \<open>transmit\<close> and
  \<open>receive_callback\<close>) go byte by byte through the driver of one node and out of the driver of another.
\<close>

text \<open>
  One transmission: the sending driver \<open>d\<close> on the chip \<open>A\<close> takes the frame byte by byte, as \<open>transmit\<close> writes it, and the chip
  \<open>R\<close> of the receiving driver \<open>r\<close> then holds what was sent, from place \<open>q\<close> on.
\<close>

definition carried :: "chip \<Rightarrow> sx126x \<Rightarrow> chip \<Rightarrow> sx126x \<Rightarrow> u8 \<Rightarrow> u8 list \<Rightarrow> bool" where
  "carried A d R r q f \<longleftrightarrow>
     chip_holds R (bus r) (sent_bytes (bus (start_tx A (fold (\<lambda>b s. snd (sx126x_write b s)) (map (\<lambda>x. [x]) f) (sx126x_beginPacket A False d))))) q"

text \<open>The frame as the receiving core reads it out of its driver.\<close>

definition delivered_frame :: "chip \<Rightarrow> sx126x \<Rightarrow> u8 list" where
  "delivered_frame R r = map word_of_int (fst (snd (sx126x_handleDio0Rise R (sx126x_take_frame R) (r, [], 0))))"

lemma frames_fit: "length p \<le> 507 \<Longrightarrow> f \<in> set (tx_frames rnd p) \<Longrightarrow> length f \<le> 255"
  by (cases "length p \<le> 254") (auto simp: tx_frames_single tx_frames_two)

lemma carried_delivered:
  assumes "carried A d R r q f" "length f \<le> 255"
  shows "delivered_frame R r = f"
proof -
  have "sent_bytes (bus (start_tx A (fold (\<lambda>b s. snd (sx126x_write b s)) (map (\<lambda>x. [x]) f) (sx126x_beginPacket A False d)))) = f"
    using sent_loaded [OF loaded_writes [OF loaded_begin, of "map (\<lambda>x. [x]) f" A False d], of A] assms(2) by (simp add: concat_map_singleton)
  then have "chip_holds R (bus r) f q" using assms(1) by (simp add: carried_def)
  then show ?thesis using frame_received [OF _ assms(2)] by (simp add: delivered_frame_def comp_def)
qed

text \<open>
  C23: A packet crosses two modems intact. When every frame of a packet of at most 507 bytes is carried from the chip of the
  sender to the chip of the receiver, the receiving node, not in the middle of a packet with the same sequence number, queues
  exactly that packet: neither driver cuts off, repeats or reorders anything.
\<close>

theorem packet_crosses_modems:
  assumes "esp_or_nrf b" "alloc_ok env" "\<not> promisc s" "rx_inv s" "seq s \<noteq> packetSequence rnd" "length p \<le> 507"
    "list_all2 (\<lambda>f (A, d, R, r, q). carried A d R r q f) (tx_frames rnd p) ms"
  shows "modem_packet_queue (receive_frames b env (map (\<lambda>(A, d, R, r, q). delivered_frame R r) ms) s) = queue_packet env p (modem_packet_queue s)"
proof -
  have "map (\<lambda>(A, d, R, r, q). delivered_frame R r) ms = fs"
    if "list_all2 (\<lambda>f (A, d, R, r, q). carried A d R r q f) fs ms" "\<forall>f \<in> set fs. length f \<le> 255" for fs
    using that by (induction rule: list_all2_induct) (auto simp: carried_delivered)
  then have "map (\<lambda>(A, d, R, r, q). delivered_frame R r) ms = tx_frames rnd p" using assms(7) frames_fit [OF assms(6)] by blast
  then show ?thesis using receive_whole_packet [OF assms(1-6)] by simp
qed

theorem packet_crosses_modems_witness:
  "modem_packet_queue (receive_frames board_heltec32_v4 good_env [delivered_frame (hearing [0x30, 7, 8] 0x10) sx126x_new] (packets_blank (\<lambda>a. 0))) =
    [\<lparr>mp_rssi = - 80, mp_snr_raw = 40, mp_data = [7, 8]\<rparr>]"
proof -
  have "chip_holds (hearing [0x30, 7, 8] 0x10) (bus sx126x_new) [0x30, 7, 8] 0x10"
    by (simp add: chip_holds_def hearing_def answers_def upt_conv_Cons numeral_3_eq_3)
  moreover have "sent_bytes (bus (start_tx A (fold (\<lambda>b s. snd (sx126x_write b s)) (map (\<lambda>x. [x]) [0x30, 7, 8]) (sx126x_beginPacket A False s)))) = [0x30, 7, 8]" for A s
    using sent_loaded [OF loaded_writes [OF loaded_begin, of "map (\<lambda>x. [x]) [0x30, 7, 8]" A False s], of A] by simp
  ultimately have c: "carried (latched 0) sx126x_new (hearing [0x30, 7, 8] 0x10) sx126x_new 0x10 [0x30, 7, 8]"
    unfolding carried_def by (simp only:)
  have f: "tx_frames 0x30 [7, 8] = [[0x30, 7, 8]]" by (simp add: tx_frames_single tx_header_def Let_def)
  have "packetSequence 0x30 = 3" by (simp add: packetSequence_def)
  moreover have "esp_or_nrf board_heltec32_v4" by (simp add: esp_or_nrf_def board_values)
  ultimately show ?thesis
    using packet_crosses_modems [of board_heltec32_v4 good_env "packets_blank (\<lambda>a. 0)" "0x30" "[7, 8]"
        "[(latched 0, sx126x_new, hearing [0x30, 7, 8] 0x10, sx126x_new, 0x10)]"] c
    by (simp add: f good_env_def queue_packet_def)
qed

end
