(* ===== verification/Spec2Isabelle.thy ===== *)
theory Spec2Isabelle
  imports Host_Safety Identity_Transfer Modem_Link
begin

text \<open>
  \<^bold>\<open>RNode Firmware.\<close> A verification library for the firmware of the RNode radio node, in
  \<^verbatim>\<open>src/RNode_Firmware\<close>. A node sits between a host computer and two radios. The host sends KISS frames, byte by
  byte; \<open>serial_callback\<close> parses them, sets parameters, stores settings and queues data packets. The queue is
  sent over LoRa when the medium access rules allow it, or a packet is sent over ESP-NOW when the host has selected
  that interface. Received frames are put together again to packets, queued, and written to the host as KISS
  frames. Around this core the firmware keeps a non-volatile store, checks its own identity and integrity before it
  lets the radio run, and drives a clock chip and a satellite receiver. The key that is the node's identity in the
  network can be protected by a PIN, entered on the node itself, and moved to another node through the host.

  \<^bold>\<open>Method.\<close> Definitions translate the C++ functions of the same name; a group of preprocessor switches
  is the record \<open>board\<close>, an argument of what depends on it. Global variables are fields of records that
  extend each other along the calls: \<open>host\<close> (the link and its log of written bytes), \<open>rom\<close>,
  \<open>radio\<close>, \<open>channel\<close>, \<open>packets\<close>, \<open>pqueue\<close>, \<open>csma\<close>,
  \<open>espnow\<close>, \<open>device\<close>, \<open>vault\<close>; the controls and the PIN screen have a record of their own,
  \<open>pin_pad\<close>. Integers have the widths of the source (\<open>u8\<close>, \<open>u16\<close>,
  \<open>u32\<close>) where they can wrap. A \<open>float\<close> is the rational number it denotes and every operation is
  followed by the rounding of its format. Code that may restart the device or hang gives an \<open>outcome\<close>
  (\<open>Ret\<close>, \<open>Rebooted\<close>, \<open>Hung\<close>). What the hardware, the modem or a library answers
  is an argument: a random byte, a clock reading, a success flag, a record of inputs such as \<open>rx_env\<close>,
  \<open>csma_env\<close>, \<open>callback_env\<close>, \<open>vault_env\<close>, or a record of functions such as \<open>crypto\<close> and
  \<open>vault_crypto\<close>. Every change of a file is recorded, so that a property of all recorded states holds wherever power is lost.

  \<^bold>\<open>Theories.\<close>

  \<^item> \<open>Prelude\<close>: machine integers, big-endian composition, writes into buffers, outcomes, list lemmas. \<open>Packet_Link\<close>
    and \<open>Machines\<close>: the contracts (locales) of a link that carries packets as frames and of a machine that
    reacts to events one at a time, with what follows for streams of packets and for runs.

  \<^item> \<open>Boards\<close> (\<^verbatim>\<open>Boards.h\<close>): codes, sizes, build switches.

  \<^item> \<open>Fifo\<close> (\<^verbatim>\<open>Utilities.h\<close>, \<open>FIFOBuffer\<close>, \<open>FIFOBuffer16\<close>): the ring buffers, with
    the contract \<open>bounded_queue\<close> and the refinement of bounded lists.

  \<^item> \<open>Framing\<close> (\<^verbatim>\<open>Framing.h\<close>): opcodes, byte stuffing, a reference decoder \<open>kiss_decode\<close> of
    a host, and that it inverts the encoding. \<open>Host\<close> (\<^verbatim>\<open>Utilities.h\<close>, \<open>serial_write\<close>,
    \<open>kiss_serial_put\<close>): which transport a byte takes, and the bounded wait of the USB port.

  \<^item> \<open>Rom_Map\<close> (\<^verbatim>\<open>ROM.h\<close>, \<^verbatim>\<open>Device.h\<close>): the addresses of all stored fields and which of them
    overlap. \<open>Rom\<close> (\<^verbatim>\<open>Utilities.h\<close>, \<open>eeprom_*\<close>, \<open>unlock_rom\<close>): the store, its
    lock, dumps, erasing and the provisioning checks, with the contract \<open>byte_store\<close>. \<open>Settings\<close>
    (\<^verbatim>\<open>Utilities.h\<close>, \<^verbatim>\<open>Display.h\<close>, \<open>*_conf_save\<close>): one routine per setting and round trips.

  \<^item> \<open>Floats\<close>: binary32 and binary64 rounding. \<open>Radio_State\<close> (\<^verbatim>\<open>Config.h\<close>,
    \<open>kiss_indicate_*\<close>): radio parameters, what the modems make of a frequency or bandwidth
    (\<^verbatim>\<open>sx126x.cpp\<close>, \<^verbatim>\<open>sx127x.cpp\<close>, \<^verbatim>\<open>sx128x.cpp\<close>), replies. \<open>Radio\<close> (\<^verbatim>\<open>Utilities.h\<close>): bit rate,
    slot and preamble timing, transmit power, saving and loading the configuration. \<open>Sx127x\<close> (\<^verbatim>\<open>sx127x.cpp\<close>): the
    driver of one family of modems over an abstract chip, whose documented behaviour is the predicate \<open>chip_law\<close>.
    \<open>Sx126x\<close> (\<^verbatim>\<open>sx126x.cpp\<close>): the driver of the other, over the sequence of commands on the bus and a chip that answers
    them. \<open>Modem_Link\<close>: the frames of the core through this driver.

  \<^item> \<open>Channel\<close> (\<^verbatim>\<open>RNode_Firmware.ino\<close>): airtime bins, utilisation, noise floor, interference and the
    band of the contention window. \<open>Lora_Frames\<close> (\<open>transmit\<close>, \<open>receive_callback\<close>,
    \<open>kiss_write_packet\<close>): packets as one or two frames, reassembly, delivery. \<open>Packet_Queue\<close>
    (\<open>flush_queue\<close>, \<open>pop_queue\<close>, \<open>urns_enqueue_outgoing\<close>): the transmit queue over the ring
    buffers. \<open>Csma\<close> (\<open>tx_queue_handler\<close>): interframe space and contention window as a step
    function, with an inductive predicate of its reachable states.

  \<^item> \<open>Espnow\<close> (\<^verbatim>\<open>ESPNOW.h\<close>): the second interface, its two wire formats, pacing, reassembly, delivery.
    \<open>Radio_Control\<close> (\<open>startRadio\<close>, \<open>stopRadio\<close>, \<open>update_radio_lock\<close> and the
    automatic start). \<open>Device\<close> (\<^verbatim>\<open>Device.h\<close>, \<open>validate_status\<close>): firmware hash, device
    signature, hardware check.

  \<^item> \<open>Clock\<close> (\<^verbatim>\<open>RTC.h\<close>, \<^verbatim>\<open>GNSS.h\<close>): calendar arithmetic against counting days, the clock chip's
    registers. \<open>Gnss\<close> (\<^verbatim>\<open>GNSS.h\<close>): power, detection and duty cycle of the satellite receiver.

  \<^item> \<open>Kiss_Parser\<close> (\<^verbatim>\<open>RNode_Firmware.ino\<close>, \<open>serial_callback\<close>): all host commands, every branch.
    \<open>Host_Safety\<close>: what no host can change.

  \<^item> \<open>Vault\<close> (\<^verbatim>\<open>Vault.h\<close>, start-up in \<^verbatim>\<open>RNode_Firmware.ino\<close> and \<^verbatim>\<open>URNS.h\<close>): the encrypted container,
    PIN protection on and off, start-up with and without it, keys for messages. \<open>Pin_Entry\<close> (\<^verbatim>\<open>Input.h\<close>,
    \<^verbatim>\<open>Encoder.h\<close>, \<^verbatim>\<open>VaultUnlock.h\<close>): debouncing, the rotary encoder, the PIN screen and the question screen.
    \<open>Identity_Transfer\<close> (\<^verbatim>\<open>IdentityTransfer.h\<close>, \<^verbatim>\<open>Provisioning.h\<close>): the key as text, export, import and
    replacement of the identity, composed of the three before.

  \<^item> This theory: packets from one host to another through all parts.

  \<^bold>\<open>What is shown.\<close> The ring buffers, the queue and the two radio links refine lists of packets, and
  composed they carry packets from host to host. The parsers, the receivers and the PIN screen stay inside their
  buffers for every input, also when memory runs out: a write past the end of a buffer would make the list that stands
  for it longer (\<open>copy_at\<close>). Nothing is sent without the medium having been free for the interframe space, and on a
  free medium everything queued is sent as soon as the interframe space and the counted slots are over; the slots are
  counted from the last transmission, if there was one, so that they are often over already. A locked store keeps
  the identity of the node under every host input. The radio starts exactly on a configured, valid device. The hash
  covers the whole application, the calendar is the Gregorian one, what is saved is read back. The identity survives PIN
  protection being switched on and off, provided no rename of a file fails, and is replaced atomically. Over the host
  link it leaves the node only encrypted, with the PIN of a protected node and a second one typed for the export; it is
  replaced over that link only with the user's consent, and what one node exports another starts with. (This is about
  the host: a menu of a protected node shows the key in the clear, as text, on the node's own display, and another one restores an
  identity from such a text.) Every PIN can be
  entered, and the screen returns nothing but PINs. The settings of the SX127x modem do not disturb each other, although
  they share registers, and a packet written to one modem is read from another. The SX1262, whose settings cannot be
  read, always works with those the driver believes in, and its carrier detector cannot wedge. Several theorems
  state behaviour that the comments of the code exclude or that its authors cannot have meant: packets of 508 bytes, empty
  data frames, unfinished escape sequences, the skipped random wait, a packet corrupted by a failed allocation, a
  blink count of zero, power lost before the enable byte is written, renames whose failure is not noticed, a press that
  submits the PIN and answers the next question, slow symbols without the switch for them, a packet lost because the
  one before it was short.

  \<^bold>\<open>Bounds and termination.\<close> All loops of the model are structural recursions, folds or functions with
  a termination proof (hashing by chunks, splitting into ESP-NOW frames, the base-32 text), apart from the drain loop of \<open>flush_queue\<close>, which is a \<open>partial_function (option)\<close> and is proved to end unless an \<open>endPacket\<close> of the modem driver does not return, and the wait
  for the end of a transmission in the SX127x driver, which is shown to return exactly if the chip reports the end.
  The same wait in the SX126x driver runs over the readings of the clock and returns once they pass its limit.
  No fuel is used: the screens run over the list of passes of their loop and give \<open>None\<close> while they wait, and it is
  shown which passes end them. The sizes are those of the source (508 bytes per packet, the queue sizes of the board).

  \<^bold>\<open>Not modelled.\<close> Drawing (\<^verbatim>\<open>Display.h\<close>, \<^verbatim>\<open>Graphics.h\<close>, fonts): output only. The menus
  (\<^verbatim>\<open>Menu.h\<close>): navigation and drawing around calls of routines of which those for the settings, the vault and
  the replacement of the identity are modelled here, as are the text of the key that one of them shows on the display
  (\<open>identity_key_to_base32\<close>) and what another one does with such a text (\<open>restore_identity\<close>). The network and Bluetooth stacks (\<^verbatim>\<open>Bluetooth.h\<close>,
  \<^verbatim>\<open>BLESerial.cpp\<close>, \<^verbatim>\<open>Ethernet.h\<close>, \<^verbatim>\<open>Remote.h\<close>, \<^verbatim>\<open>WebSocketRemote.h\<close>, \<^verbatim>\<open>OTA.h\<close>, \<^verbatim>\<open>Console.h\<close>): they drive
  vendor libraries; the core sees them as connection flags and logged calls. The driver of the SX128x
  modem (\<^verbatim>\<open>sx128x.cpp\<close>) apart from what it makes of frequency and bandwidth: commands to a chip. Sensors, audio, LEDs, power
  supervision: peripherals. The messenger and the Reticulum node (\<^verbatim>\<open>Messenger.h\<close>, \<^verbatim>\<open>URNS.h\<close>; with them the
  flows of \<^verbatim>\<open>VaultUnlock.h\<close> that rewrite the stored messages when protection is switched on or off): applications above libraries that are not part of the firmware; only their use of the transmit queue
  and of received packets and the loading of the identity are modelled. Vendored code (\<^verbatim>\<open>components\<close>, \<^verbatim>\<open>lib\<close>, \<^verbatim>\<open>tools\<close>).
\<close>

section \<open>From one host to another\<close>

lemma frames_of_zip:
  "\<exists>rs. length rs = length ps \<and> frames_of rnd n ps = concat (map (\<lambda>(r, p). tx_frames r p) (zip rs ps))"
proof (induction ps arbitrary: n)
  case (Cons p ps)
  obtain rs where "length rs = length ps"
    "frames_of rnd (n + length (tx_frames (rnd n) p)) ps = concat (map (\<lambda>(r, p). tx_frames r p) (zip rs ps))"
    using Cons.IH by blast
  then show ?case by (intro exI [of _ "rnd n # rs"]) simp
qed simp

text \<open>Receiving packets writes nothing to the host.\<close>

lemma receive_stream_host:
  "lora_idle b env s \<Longrightarrow> list_all (\<lambda>(r, p). length p \<le> 507) ps \<Longrightarrow>
    host_log (fold (receive_callback b env) (concat (map (\<lambda>(r, p). tx_frames r p) ps)) s) = host_log s \<and>
    link_ok b' (fold (receive_callback b env) (concat (map (\<lambda>(r, p). tx_frames r p) ps)) s) = link_ok b' s"
proof (induction ps arbitrary: s)
  case (Cons rp ps)
  obtain r p where rp: "rp = (r, p)" by fastforce
  let ?t = "fold (receive_callback b env) (tx_frames r p) s"
  have l: "length p \<le> 507" using Cons.prems(2) by (simp add: rp)
  have "host_log ?t = host_log s" "link_ok b' ?t = link_ok b' s"
    unfolding receive_packet [OF Cons.prems(1) l] by (simp_all add: link_ok_def)
  moreover have "lora_idle b env ?t" by (rule lora.idle_after [OF Cons.prems(1) l])
  ultimately show ?case using Cons.IH [of ?t] Cons.prems(2) by (simp add: rp)
qed simp

lemma deliver_all:
  "link_ok b s \<Longrightarrow> modem_packet_queue s = ps \<Longrightarrow> list_all (\<lambda>p. length (mp_data p) \<le> MTU) ps \<Longrightarrow>
    host_bytes ((deliver_packet b env ^^ length ps) s) = host_bytes s @ frames_bytes (concat (map (delivery_frames b env) ps))"
proof (induction ps arbitrary: s)
  case (Cons p ps)
  have l: "length (mp_data p) \<le> MTU" using Cons.prems(3) by simp
  note d = delivered_bytes [OF Cons.prems(1,2) l, of env]
  have "host_bytes ((deliver_packet b env ^^ length ps) (deliver_packet b env s)) =
      host_bytes (deliver_packet b env s) @ frames_bytes (concat (map (delivery_frames b env) ps))"
    using Cons.IH [OF d(2,3)] Cons.prems(3) by simp
  then show ?case using d(1) by (simp add: funpow_swap1 frames_bytes_def)
qed (simp add: frames_bytes_def)

definition data_frames :: "(u8 \<times> u8 list) list \<Rightarrow> u8 list list" where
  "data_frames fs = map snd (filter (\<lambda>f. fst f = CMD_DATA) fs)"

lemma data_frames_delivery: "data_frames (concat (map (delivery_frames b env) ps)) = map mp_data ps"
  by (induction ps) (simp_all add: data_frames_def delivery_frames_def select_frames_def)

text \<open>What the host frames hold is put on the air.\<close>

lemma host_to_air:
  assumes "queue_rep b o' [] [] s" "queue_geometry b" "between_frames s" "\<not> ESCAPE p" "\<not> vport1 b s"
    and "ready_to_send s" "\<not> queue_flushing s" "\<And>n. sent_ok n = Some True" "ds \<noteq> []" "sendable ds"
    and "length ds \<le> queue_max_length b" "total_len ds < queue_size b" "map snd xs = concat (map data_frame ds)"
  shows "\<exists>p' t u. serial_poll b xs (p, s) = Ret (p', t) \<and> flush_queue b rnd sent_ok t = Some (Ret u) \<and>
    aired u = aired s @ frames_of rnd (length (aired s)) ds"
proof -
  let ?s = "s\<lparr>IN_FRAME := False, kiss_command := CMD_DATA\<rparr>"
  let ?t = "fold (queue_frame b) ds ?s"
  obtain p' where parsed: "serial_poll b xs (p, s) = Ret (p', ?t)"
    using data_frames_queued [OF assms(3-5,13,9)] by blast
  have "queue_rep b o' [] [] ?s" using assms(1) by (simp add: queue_rep_def ring_rep_def counters_def)
  then have rep: "queue_rep b o' ds [] ?t"
    using queue_frames_rep [of b o' "[]" ?s ds] sendable_not_Nil [OF assms(10)] assms(2,11,12) by simp
  have ready: "ready_to_send ?t" "\<not> queue_flushing ?t" "aired ?t = aired s"
    using assms(6,7) by (simp_all add: ready_to_send_def)
  obtain u where "flush_queue b rnd sent_ok ?t = Some (Ret u)" "aired u = aired ?t @ frames_of rnd (length (aired ?t)) ds"
    using flush_queue_rep [where end_ok = sent_ok and rnd = rnd, OF rep assms(2,10) ready(1) assms(8) ready(2)] by blast
  then show ?thesis using parsed ready(3) by simp
qed

text \<open>What was put on the air for some packets reaches the other host as these packets.\<close>

lemma air_to_host:
  assumes "lora_idle b env r" "modem_packet_queue r = []" "link_ok b r" "host_log r = []"
    and "list_all (\<lambda>d. length d \<le> 507) ds" "length ds \<le> MODEM_QUEUE_SIZE"
  shows "data_frames (kiss_decode (host_bytes ((deliver_packet b env ^^ length ds)
      (fold (receive_callback b env) (frames_of rnd n ds) r)))) = ds"
proof -
  obtain rs where rs: "length rs = length ds" "frames_of rnd n ds = concat (map (\<lambda>(r, p). tx_frames r p) (zip rs ds))"
    using frames_of_zip by blast
  have short: "list_all (\<lambda>(r, p). length p \<le> 507) (zip rs ds)"
    using assms(5) by (auto simp: list_all_iff dest: set_zip_rightD)
  let ?v = "fold (receive_callback b env) (concat (map (\<lambda>(r, p). tx_frames r p) (zip rs ds))) r"
  have v: "map mp_data (modem_packet_queue ?v) = ds"
    using lora.stream_received [OF assms(1) short] assms(2,6) rs(1) by simp
  have h: "host_bytes ?v = []" "link_ok b ?v"
    using receive_stream_host [OF assms(1) short, of b] assms(3,4) by (simp_all add: host_bytes_def)
  have "list_all (\<lambda>d. length d \<le> MTU) (map mp_data (modem_packet_queue ?v))"
    unfolding v using assms(5) by (auto simp: list_all_iff)
  then have "host_bytes ((deliver_packet b env ^^ length ds) ?v) =
      frames_bytes (concat (map (delivery_frames b env) (modem_packet_queue ?v)))" 
    using deliver_all [OF h(2) refl, of env] h(1) arg_cong [OF v, of length] by (simp add: list_all_length)
  moreover have "kiss_decode (frames_bytes fs) = fs" if "\<forall>f \<in> set fs. fst f \<noteq> FEND" for fs
    using kiss_decode_frames [OF that, of "[]"] by (simp add: frames_bytes_def)
  moreover have "\<forall>f \<in> set (concat (map (delivery_frames b env) ps)). fst f \<noteq> FEND" for ps
    using delivery_frames_ok [of b env] by auto
  ultimately show ?thesis unfolding rs(2) using data_frames_delivery [of b env "modem_packet_queue ?v"] v by metis
qed

text \<open>
  C1: Packets travel from host to host. A host sends any packets of 1 to 507 bytes as KISS data frames, as many
  as fit the transmit queue and the modem queue of the other node; the node parses and queues them, and its queue
  is flushed; another node that was between packets receives what was put on the air and hands its queue to its
  own host. That host decodes exactly these packets, in order, whatever bytes they hold and whatever the random
  sequence numbers are.
\<close>

theorem packets_travel_host_to_host:
  assumes "queue_rep b o' [] [] s" "queue_geometry b" "between_frames s" "\<not> ESCAPE p" "\<not> vport1 b s"
    and "ready_to_send s" "\<not> queue_flushing s" "\<And>n. sent_ok n = Some True"
    and "ds \<noteq> []" "list_all (\<lambda>d. 1 \<le> length d \<and> length d \<le> 507) ds" "length ds \<le> queue_max_length b"
    and "total_len ds < queue_size b" "map snd xs = concat (map data_frame ds)"
    and "lora_idle b' env r" "modem_packet_queue r = []" "link_ok b' r" "host_log r = []" "length ds \<le> MODEM_QUEUE_SIZE"
  shows "\<exists>p' t u. serial_poll b xs (p, s) = Ret (p', t) \<and> flush_queue b rnd sent_ok t = Some (Ret u) \<and>
    data_frames (kiss_decode (host_bytes ((deliver_packet b' env ^^ length ds)
      (fold (receive_callback b' env) (drop (length (aired s)) (aired u)) r)))) = ds"
proof -
  have "sendable ds" "list_all (\<lambda>d. length d \<le> 507) ds" using assms(10) by (auto simp: list_all_iff sendable_def)
  then show ?thesis
    using host_to_air [OF assms(1-9) _ assms(11-13)] air_to_host [OF assms(14-17) _ assms(18)] by fastforce
qed

theorem packets_travel_host_to_host_witness:
  "\<exists>p' t u. serial_poll board_rak4631 (map (Pair quiet_env) (data_frame [0xC0, 1] @ data_frame [0xDB]))
      (console_start, (device_start board_rak4631 (\<lambda>a. 0xFF))\<lparr>radio_online := True\<rparr>) = Ret (p', t) \<and>
    flush_queue board_rak4631 (\<lambda>n. 0x37) (\<lambda>n. Some True) t = Some (Ret u) \<and>
    data_frames (kiss_decode (host_bytes ((deliver_packet board_heltec32_v4 good_env ^^ 2)
      (fold (receive_callback board_heltec32_v4 good_env) (aired u) (packets_blank (\<lambda>a. 0)))))) = [[0xC0, 1], [0xDB]]"
proof -
  let ?s = "(device_start board_rak4631 (\<lambda>a. 0xFF))\<lparr>radio_online := True\<rparr>" and ?ds = "[[0xC0, 1], [0xDB]] :: u8 list list"
  have g: "queue_geometry board_rak4631" by (simp add: queue_geometry_def board_values)
  have "queue_rep board_rak4631 0 [] [] ?s"
    using g by (simp add: queue_rep_def ring_rep_def counters_def device_start_defs pqueue_blank_def packets.defs fifo16_init_empty queue_geometry_def unat_of_nat)
  moreover have "between_frames ?s" "\<not> ESCAPE console_start" "\<not> vport1 board_rak4631 ?s" "ready_to_send ?s" "\<not> queue_flushing ?s" "aired ?s = []"
    by (simp_all add: between_frames_def console_start_ok vport1_def ready_to_send_def device_start_defs)
  moreover have "map snd (map (Pair quiet_env) (data_frame [0xC0, 1] @ data_frame [0xDB])) = concat (map data_frame ?ds)"
    by (simp add: comp_def)
  moreover have "lora_idle board_heltec32_v4 good_env (packets_blank (\<lambda>a. 0))" "link_ok board_heltec32_v4 (packets_blank (\<lambda>a. 0))"
    "modem_packet_queue (packets_blank (\<lambda>a. 0)) = []" "host_log (packets_blank (\<lambda>a. 0)) = []"
    by (simp_all add: lora_idle_def good_env_def esp_or_nrf_def board_values link_ok_def)
  ultimately show ?thesis
    using packets_travel_host_to_host [where ds = ?ds and b = board_rak4631 and s = ?s and b' = board_heltec32_v4 and env = good_env
        and r = "packets_blank (\<lambda>a. 0)" and sent_ok = "\<lambda>n. Some True" and rnd = "\<lambda>n. 0x37", OF _ g]
    by (simp add: board_values numeral_2_eq_2)
qed

end
